(* ===== verification/Prelude.thy ===== *)
theory Prelude
  imports Main "HOL-Library.Word" "HOL-Library.Sublist"
begin

section \<open>Shared vocabulary of the kernel model\<close>

text \<open>
  What every component of the development uses: the result type of fallible Rust code,
  the string and slice functions of the Rust standard library that the sources call, the
  unsigned machine integers with their saturating arithmetic, and the map and list facts
  that the component proofs share.

  A Rust \<open>String\<close> is modelled by the list of its UTF-8 bytes (HOL's \<open>string\<close>, a list of
  8-bit \<open>char\<close>), so \<open>length\<close> is Rust's \<open>len()\<close>, and searching for or splitting at an
  ASCII character on the bytes agrees with doing so on the characters.
\<close>

named_theorems host_simps \<open>unfolding rules of the operations of the host model\<close>

subsection \<open>Results\<close>

text \<open>Rust's \<open>Result<T, E>\<close> is a sum: \<open>Inl\<close> is \<open>Err\<close>, \<open>Inr\<close> is \<open>Ok\<close>.\<close>

type_synonym ('e, 'a) result = "'e + 'a"

text \<open>A stateful fallible operation: it returns a result and the new state.\<close>

type_synonym ('s, 'e, 'a) operation = "'s \<Rightarrow> ('e, 'a) result \<times> 's"

definition is_err :: "('e, 'a) result \<Rightarrow> bool" where
  "is_err r = (case r of Inl _ \<Rightarrow> True | Inr _ \<Rightarrow> False)"

definition bind_result :: "('e, 'a) result \<Rightarrow> ('a \<Rightarrow> ('e, 'b) result) \<Rightarrow> ('e, 'b) result" where
  "bind_result r f = (case r of Inl e \<Rightarrow> Inl e | Inr x \<Rightarrow> f x)"

definition map_err :: "('e \<Rightarrow> 'f) \<Rightarrow> ('e, 'a) result \<Rightarrow> ('f, 'a) result" where
  "map_err f r = (case r of Inl e \<Rightarrow> Inl (f e) | Inr x \<Rightarrow> Inr x)"

lemma is_err_simps [simp]: "is_err (Inl e)" "\<not> is_err (Inr x)"
  by (simp_all add: is_err_def)

lemma is_err_iff: "is_err r \<longleftrightarrow> (\<exists>e. r = Inl e)"
  by (cases r) simp_all

lemma not_is_err_iff: "\<not> is_err r \<longleftrightarrow> (\<exists>x. r = Inr x)"
  by (cases r) simp_all

lemma bind_result_simps [simp]:
  "bind_result (Inl e) f = Inl e" "bind_result (Inr x) f = f x"
  by (simp_all add: bind_result_def)

lemma bind_result_Inr_iff:
  "bind_result r f = Inr y \<longleftrightarrow> (\<exists>x. r = Inr x \<and> f x = Inr y)"
  by (cases r) simp_all

lemma map_err_simps [simp]: "map_err f (Inl e) = Inl (f e)" "map_err f (Inr x) = Inr x"
  by (simp_all add: map_err_def)

lemma map_err_Inr_iff [simp]: "map_err f r = Inr x \<longleftrightarrow> r = Inr x"
  by (cases r) simp_all

text \<open>
  Sequencing of stateful operations: \<open>bind_op\<close> is the \<open>?\<close> operator and the early returns,
  \<open>ignoring\<close> runs an operation for its effect only.
\<close>

definition return_op :: "'a \<Rightarrow> ('s, 'e, 'a) operation" where
  "return_op x s = (Inr x, s)"

definition fail_op :: "'e \<Rightarrow> ('s, 'e, 'a) operation" where
  "fail_op e s = (Inl e, s)"

definition bind_op ::
    "('s, 'e, 'a) operation \<Rightarrow> ('a \<Rightarrow> ('s, 'e, 'b) operation) \<Rightarrow> ('s, 'e, 'b) operation" where
  "bind_op m f s = (case m s of (Inl e, s') \<Rightarrow> (Inl e, s') | (Inr x, s') \<Rightarrow> f x s')"

definition map_err_op :: "('e \<Rightarrow> 'f) \<Rightarrow> ('s, 'e, 'a) operation \<Rightarrow> ('s, 'f, 'a) operation" where
  "map_err_op f m s = apfst (map_err f) (m s)"

definition ignoring :: "('s \<Rightarrow> 'r \<times> 's) \<Rightarrow> ('s \<Rightarrow> 'b) \<Rightarrow> 's \<Rightarrow> 'b" where
  "ignoring m k s = k (snd (m s))"

lemmas op_defs = return_op_def fail_op_def bind_op_def map_err_op_def ignoring_def

lemma bind_op_assoc: "bind_op (bind_op m f) g = bind_op m (\<lambda>x. bind_op (f x) g)"
  by (auto simp: bind_op_def fun_eq_iff split: prod.splits sum.splits)

lemma bind_return_op [simp]: "bind_op (return_op x) f = f x" "bind_op (fail_op e) g = fail_op e"
  by (simp_all add: op_defs fun_eq_iff)

lemma bind_op_Inr_iff:
  "bind_op m f s = (Inr y, t) \<longleftrightarrow> (\<exists>x s'. m s = (Inr x, s') \<and> f x s' = (Inr y, t))"
  by (auto simp: bind_op_def split: prod.splits sum.splits)

subsection \<open>Unsigned integers\<close>

type_synonym u8 = "8 word"
type_synonym u32 = "32 word"
type_synonym u64 = "64 word"

definition saturating_add :: "'a::len word \<Rightarrow> 'a word \<Rightarrow> 'a word" where
  "saturating_add a b = (if unat a + unat b < 2 ^ LENGTH('a) then a + b else - 1)"

definition saturating_sub :: "'a::len word \<Rightarrow> 'a word \<Rightarrow> 'a word" where
  "saturating_sub a b = (if b \<le> a then a - b else 0)"

lemma unat_max_word: "unat (- 1 :: 'a::len word) = 2 ^ LENGTH('a) - 1"
  by (simp add: unsigned_minus_1_eq_mask mask_eq_exp_minus_1)

lemma unat_saturating_add:
  "unat (saturating_add a b) = min (unat a + unat b) (2 ^ LENGTH('a) - 1)"
  for a b :: "'a::len word"
proof (cases "unat a + unat b < 2 ^ LENGTH('a)")
  case True
  then show ?thesis
    by (simp add: saturating_add_def unat_word_ariths)
next
  case False
  then show ?thesis
    by (simp add: saturating_add_def unat_max_word)
qed

lemma unat_saturating_sub: "unat (saturating_sub a b) = unat a - unat b"
  for a b :: "'a::len word"
  by (auto simp: saturating_sub_def unat_sub word_le_nat_alt)

lemma unat_le_max: "unat (w :: 'a::len word) \<le> 2 ^ LENGTH('a) - 1"
  using unsigned_less [of w, where ?'a = nat] by linarith

subsection \<open>Characters and strings\<close>

definition byte_of :: "char \<Rightarrow> nat" where
  "byte_of c = of_char c"

definition is_ascii_lowercase :: "char \<Rightarrow> bool" where
  "is_ascii_lowercase c \<longleftrightarrow> 97 \<le> byte_of c \<and> byte_of c \<le> 122"

definition is_ascii_digit :: "char \<Rightarrow> bool" where
  "is_ascii_digit c \<longleftrightarrow> 48 \<le> byte_of c \<and> byte_of c \<le> 57"

text \<open>
  \<open>char::is_control\<close> is Unicode's category Cc: U+0000 to U+001F, and U+007F to U+009F. In
  UTF-8 the last block above ASCII is the byte C2 (always a leading byte) followed by one
  of 80 to 9F.
\<close>

fun contains_control :: "string \<Rightarrow> bool" where
  "contains_control [] = False"
| "contains_control (c # cs) =
     (byte_of c < 32 \<or> byte_of c = 127
      \<or> (byte_of c = 194 \<and> (case cs of [] \<Rightarrow> False | d # _ \<Rightarrow> 128 \<le> byte_of d \<and> byte_of d \<le> 159))
      \<or> contains_control cs)"

text \<open>\<open>str::split\<close> at a character: the segments between the separators, empty ones too.\<close>

fun split_on :: "char \<Rightarrow> string \<Rightarrow> string list" where
  "split_on c [] = [[]]"
| "split_on c (x # xs) =
     (if x = c then [] # split_on c xs
      else (case split_on c xs of [] \<Rightarrow> [[x]] | s # ss \<Rightarrow> (x # s) # ss))"

text \<open>\<open>[T]::join\<close> with a one-character separator.\<close>

fun join_with :: "char \<Rightarrow> string list \<Rightarrow> string" where
  "join_with c [] = []"
| "join_with c [s] = s"
| "join_with c (s # t # ss) = s @ c # join_with c (t # ss)"

definition trim_start_matches :: "char \<Rightarrow> string \<Rightarrow> string" where
  "trim_start_matches c s = dropWhile (\<lambda>x. x = c) s"

definition trim_end_matches :: "char \<Rightarrow> string \<Rightarrow> string" where
  "trim_end_matches c s = rev (dropWhile (\<lambda>x. x = c) (rev s))"

definition strip_prefix :: "string \<Rightarrow> string \<Rightarrow> string option" where
  "strip_prefix p s = (if prefix p s then Some (drop (length p) s) else None)"

lemma split_on_not_Nil [simp]: "split_on c s \<noteq> []"
  by (induction s) (auto split: list.splits)

lemma split_on_no_sep: "s \<in> set (split_on c xs) \<Longrightarrow> c \<notin> set s"
proof (induction xs arbitrary: s)
  case Nil
  then show ?case by simp
next
  case (Cons x xs)
  then show ?case
    by (cases "split_on c xs") (fastforce split: if_splits)+
qed

lemma split_on_mem: "s \<in> set (split_on c xs) \<Longrightarrow> x \<in> set s \<Longrightarrow> x \<in> set xs"
proof (induction xs arbitrary: s)
  case Nil
  then show ?case by simp
next
  case (Cons y xs)
  then show ?case
    by (cases "split_on c xs") (fastforce split: if_splits)+
qed

lemma join_with_split_on: "join_with c (split_on c xs) = xs"
proof (induction xs)
  case Nil
  then show ?case by simp
next
  case (Cons x xs)
  then show ?case
    by (cases "split_on c xs" rule: remdups_adj.cases) (auto split: list.splits)
qed

lemma split_on_id: "c \<notin> set s \<Longrightarrow> split_on c s = [s]"
  by (induction s) auto

lemma split_on_append_sep: "c \<notin> set s \<Longrightarrow> split_on c (s @ c # t) = s # split_on c t"
  by (induction s) auto

lemma split_on_join_with:
  "ss \<noteq> [] \<Longrightarrow> \<forall>s \<in> set ss. c \<notin> set s \<Longrightarrow> split_on c (join_with c ss) = ss"
  by (induction c ss rule: join_with.induct) (auto simp: split_on_id split_on_append_sep)

lemma split_on_eq_iff: "split_on c a = split_on c b \<longleftrightarrow> a = b"
  by (metis join_with_split_on)

lemma join_with_append:
  "ss \<noteq> [] \<Longrightarrow> ts \<noteq> [] \<Longrightarrow> join_with c (ss @ ts) = join_with c ss @ c # join_with c ts"
proof (induction c ss rule: join_with.induct)
  case (2 c s)
  then show ?case by (cases ts) simp_all
qed simp_all

lemma split_on_append: "split_on c (a @ c # b) = split_on c a @ split_on c b"
proof (induction a)
  case Nil
  then show ?case by simp
next
  case (Cons x a)
  then show ?case by (cases "split_on c a") auto
qed

lemma set_join_with: "set (join_with c ss) \<subseteq> insert c (\<Union> (set ` set ss))"
  by (induction c ss rule: join_with.induct) auto

lemma contains_control_append:
  assumes "byte_of c < 128"
  shows "contains_control (a @ c # b) \<longleftrightarrow>
    contains_control a \<or> byte_of c < 32 \<or> byte_of c = 127 \<or> contains_control b"
proof (induction a)
  case Nil
  then show ?case using assms by simp
next
  case (Cons x a)
  show ?case
  proof (cases a)
    case Nil
    then show ?thesis using assms by simp
  next
    case (Cons y a')
    then show ?thesis using Cons.IH by simp
  qed
qed

subsection \<open>Slices\<close>

text \<open>
  \<open>Iterator::max_by_key\<close>: the last element with the largest key.
\<close>

fun max_by_key_from :: "('a \<Rightarrow> nat) \<Rightarrow> 'a \<Rightarrow> 'a list \<Rightarrow> 'a" where
  "max_by_key_from f y [] = y"
| "max_by_key_from f y (x # xs) = max_by_key_from f (if f y \<le> f x then x else y) xs"

fun max_by_key :: "('a \<Rightarrow> nat) \<Rightarrow> 'a list \<Rightarrow> 'a option" where
  "max_by_key f [] = None"
| "max_by_key f (x # xs) = Some (max_by_key_from f x xs)"

lemma max_by_key_from_mem: "max_by_key_from f y xs \<in> insert y (set xs)"
proof (induction xs arbitrary: y)
  case Nil
  then show ?case by simp
next
  case (Cons x xs)
  show ?case using Cons.IH [of "if f y \<le> f x then x else y"] by (auto split: if_splits)
qed

lemma max_by_key_from_ge:
  "f y \<le> f (max_by_key_from f y xs) \<and> (\<forall>x \<in> set xs. f x \<le> f (max_by_key_from f y xs))"
proof (induction xs arbitrary: y)
  case Nil
  then show ?case by simp
next
  case (Cons x xs)
  show ?case
    using Cons.IH [of "if f y \<le> f x then x else y"] by (auto split: if_splits)
qed

lemma max_by_key_None [simp]: "max_by_key f xs = None \<longleftrightarrow> xs = []"
  by (cases xs) simp_all

lemma max_by_key_Some:
  "max_by_key f xs = Some m \<Longrightarrow> m \<in> set xs \<and> (\<forall>x \<in> set xs. f x \<le> f m)"
  using max_by_key_from_mem [of f] max_by_key_from_ge [of f] by (cases xs) fastforce+

lemma find_SomeD: "find P xs = Some x \<Longrightarrow> x \<in> set xs \<and> P x"
  by (induction xs) (auto split: if_splits)

text \<open>\<open>sort_by_key\<close> is stable, and so is HOL's \<open>sort_key\<close>.\<close>

subsection \<open>Folds over a list of map keys\<close>

lemma fold_upd_other:
  "k \<notin> set ks \<Longrightarrow> fold (\<lambda>k m. m(k \<mapsto> f k (m k))) ks m k = m k"
proof (induction ks arbitrary: m)
  case Nil
  then show ?case by simp
next
  case (Cons a ks)
  then show ?case by (simp del: fun_upd_apply) simp
qed

lemma fold_upd_mem:
  "distinct ks \<Longrightarrow> k \<in> set ks \<Longrightarrow>
     fold (\<lambda>k m. m(k \<mapsto> f k (m k))) ks m k = Some (f k (m k))"
proof (induction ks arbitrary: m)
  case Nil
  then show ?case by simp
next
  case (Cons a ks)
  show ?case
  proof (cases "k = a")
    case True
    with Cons.prems show ?thesis by (simp add: fold_upd_other del: fun_upd_apply) simp
  next
    case False
    with Cons show ?thesis by (simp del: fun_upd_apply) simp
  qed
qed

end
