(* ===== verification/Traces.thy ===== *)
theory Traces
  imports Prelude
begin

section \<open>Histories of operations\<close>

text \<open>
  The services of the kernel (stores, the governor) are shared by all callers and serialise
  their operations, so what they do over time is a sequence of operations from any callers in
  any order. \<open>run_ops\<close> runs such a sequence from a state and returns its history: each
  command with its reply. The locales state the contracts that the components' claims
  about histories rest on: \<open>once_only\<close>, an event that closes something for good happens at
  most once, and \<open>framed\<close>, commands addressed to other keys cannot be observed through a view.
\<close>

fun run_ops :: "('c \<Rightarrow> 's \<Rightarrow> 'r \<times> 's) \<Rightarrow> 'c list \<Rightarrow> 's \<Rightarrow> ('c \<times> 'r) list \<times> 's" where
  "run_ops step [] s = ([], s)"
| "run_ops step (c # cs) s =
     (case step c s of (r, s') \<Rightarrow>
      (case run_ops step cs s' of (h, s'') \<Rightarrow> ((c, r) # h, s'')))"

definition history :: "('c \<Rightarrow> 's \<Rightarrow> 'r \<times> 's) \<Rightarrow> 'c list \<Rightarrow> 's \<Rightarrow> ('c \<times> 'r) list" where
  "history step cs s = fst (run_ops step cs s)"

definition final_state :: "('c \<Rightarrow> 's \<Rightarrow> 'r \<times> 's) \<Rightarrow> 'c list \<Rightarrow> 's \<Rightarrow> 's" where
  "final_state step cs s = snd (run_ops step cs s)"

definition occurrences :: "('c \<Rightarrow> 'r \<Rightarrow> bool) \<Rightarrow> ('c \<times> 'r) list \<Rightarrow> nat" where
  "occurrences p h = length (filter (\<lambda>(c, r). p c r) h)"

lemma occurrences_simps [simp]:
  "occurrences p [] = 0"
  "occurrences p ((c, r) # h) = (if p c r then 1 else 0) + occurrences p h"
  by (simp_all add: occurrences_def)

lemma history_simps [simp]:
  "history step [] s = []"
  "history step (c # cs) s = (c, fst (step c s)) # history step cs (snd (step c s))"
  by (simp_all add: history_def split: prod.splits)

lemma final_state_simps [simp]:
  "final_state step [] s = s"
  "final_state step (c # cs) s = final_state step cs (snd (step c s))"
  by (simp_all add: final_state_def split: prod.splits)

lemma history_append [simp]:
  "history step (cs @ ds) s = history step cs s @ history step ds (final_state step cs s)"
  by (induction cs arbitrary: s) simp_all

lemma final_state_append [simp]:
  "final_state step (cs @ ds) s = final_state step ds (final_state step cs s)"
  by (induction cs arbitrary: s) simp_all

lemma final_state_invariant:
  assumes "\<And>c s. I s \<Longrightarrow> I (snd (step c s))" and "I s"
  shows "I (final_state step cs s)"
  using assms(2) by (induction cs arbitrary: s) (simp_all add: assms(1))

subsection \<open>Events that close\<close>

locale once_only =
  fixes step :: "'c \<Rightarrow> 's \<Rightarrow> 'r \<times> 's"
    and closed :: "'s \<Rightarrow> bool"
    and closes :: "'c \<Rightarrow> 'r \<Rightarrow> bool"
  assumes closing: "closes c (fst (step c s)) \<Longrightarrow> \<not> closed s \<and> closed (snd (step c s))"
    and stays_closed: "closed s \<Longrightarrow> closed (snd (step c s))"
begin

lemma none_when_closed: "closed s \<Longrightarrow> occurrences closes (history step cs s) = 0"
proof (induction cs arbitrary: s)
  case Nil
  then show ?case by simp
next
  case (Cons c cs)
  then show ?case using closing [of c s] stays_closed [of s c] by auto
qed

lemma at_most_once: "occurrences closes (history step cs s) \<le> 1"
proof (induction cs arbitrary: s)
  case Nil
  then show ?case by simp
next
  case (Cons c cs)
  show ?case
  proof (cases "closes c (fst (step c s))")
    case True
    then show ?thesis using closing [of c s] none_when_closed by simp
  next
    case False
    then show ?thesis using Cons.IH by simp
  qed
qed

lemma closed_final: "closed s \<Longrightarrow> closed (final_state step cs s)"
  by (rule final_state_invariant) (rule stays_closed)

end

subsection \<open>Isolation\<close>

locale framed =
  fixes step :: "'c \<Rightarrow> 's \<Rightarrow> 'r \<times> 's"
    and ok :: "'s \<Rightarrow> bool"
    and view :: "'s \<Rightarrow> 'v"
    and mine :: "'c \<Rightarrow> bool"
  assumes ok_step: "ok s \<Longrightarrow> ok (snd (step c s))"
    and frame: "ok s \<Longrightarrow> \<not> mine c \<Longrightarrow> view (snd (step c s)) = view s"
    and local_reply: "ok s \<Longrightarrow> ok t \<Longrightarrow> mine c \<Longrightarrow> view s = view t \<Longrightarrow>
      fst (step c s) = fst (step c t)"
    and local_state: "ok s \<Longrightarrow> ok t \<Longrightarrow> mine c \<Longrightarrow> view s = view t \<Longrightarrow>
      view (snd (step c s)) = view (snd (step c t))"
begin

text \<open>
  The replies to one owner's commands are those of a run in which the other commands never
  happened.
\<close>

lemma replies_isolated:
  "ok s \<Longrightarrow> ok t \<Longrightarrow> view s = view t \<Longrightarrow>
     filter (\<lambda>(c, r). mine c) (history step cs s) = history step (filter mine cs) t"
proof (induction cs arbitrary: s t)
  case Nil
  then show ?case by simp
next
  case (Cons c cs)
  show ?case
  proof (cases "mine c")
    case True
    have "filter (\<lambda>(c, r). mine c) (history step cs (snd (step c s))) =
        history step (filter mine cs) (snd (step c t))"
      by (rule Cons.IH)
        (use Cons.prems True local_state [of s t c] in \<open>auto intro: ok_step\<close>)
    then show ?thesis using True local_reply [of s t c] Cons.prems by simp
  next
    case False
    have "filter (\<lambda>(c, r). mine c) (history step cs (snd (step c s))) =
        history step (filter mine cs) t"
      by (rule Cons.IH) (use Cons.prems False frame [of s c] in \<open>auto intro: ok_step\<close>)
    then show ?thesis using False by simp
  qed
qed

end

subsection \<open>Refinement\<close>

text \<open>
  A step function refines another along a relation of the states if related states stay related
  under every fair command and give matching replies. Then whole histories match.
\<close>

locale simulation =
  fixes step :: "'c \<Rightarrow> 's \<Rightarrow> 'r \<times> 's"
    and spec :: "'c \<Rightarrow> 'a \<Rightarrow> 'q \<times> 'a"
    and fair :: "'c \<Rightarrow> bool"
    and related :: "'s \<Rightarrow> 'a \<Rightarrow> bool"
    and matches :: "'r \<Rightarrow> 'q \<Rightarrow> bool"
  assumes related_step: "related s a \<Longrightarrow> fair c \<Longrightarrow> related (snd (step c s)) (snd (spec c a))"
    and reply_step: "related s a \<Longrightarrow> fair c \<Longrightarrow> matches (fst (step c s)) (fst (spec c a))"
begin

lemma histories_match:
  "related s a \<Longrightarrow> \<forall>c \<in> set cs. fair c \<Longrightarrow>
     list_all2 (\<lambda>(c, r) (d, q). c = d \<and> matches r q) (history step cs s) (history spec cs a)"
  by (induction cs arbitrary: s a) (simp_all add: related_step reply_step)

lemma final_states_match:
  "related s a \<Longrightarrow> \<forall>c \<in> set cs. fair c \<Longrightarrow>
     related (final_state step cs s) (final_state spec cs a)"
  by (induction cs arbitrary: s a) (simp_all add: related_step)

end

subsection \<open>Budgets\<close>

text \<open>
  An event that uses up a potential, which only certain commands raise, happens no more often
  than the potential allows.
\<close>

locale budgeted =
  fixes step :: "'c \<Rightarrow> 's \<Rightarrow> 'r \<times> 's"
    and fair :: "'c \<Rightarrow> bool"
    and spends :: "'c \<Rightarrow> 'r \<Rightarrow> bool"
    and gain :: "'c \<Rightarrow> nat"
    and potential :: "'s \<Rightarrow> nat"
    and inv :: "'s \<Rightarrow> bool"
  assumes inv_step: "inv s \<Longrightarrow> fair c \<Longrightarrow> inv (snd (step c s))"
    and balance: "inv s \<Longrightarrow> fair c \<Longrightarrow>
    potential (snd (step c s)) + (if spends c (fst (step c s)) then 1 else 0)
      \<le> potential s + gain c"
begin

lemma spent_within_budget:
  "inv s \<Longrightarrow> \<forall>c \<in> set cs. fair c \<Longrightarrow>
     occurrences spends (history step cs s) \<le> potential s + sum_list (map gain cs)"
proof (induction cs arbitrary: s)
  case Nil
  then show ?case by simp
next
  case (Cons c cs)
  have "occurrences spends (history step cs (snd (step c s)))
      \<le> potential (snd (step c s)) + sum_list (map gain cs)"
    using Cons by (simp add: inv_step)
  moreover have "potential (snd (step c s)) + (if spends c (fst (step c s)) then 1 else 0)
      \<le> potential s + gain c"
    using Cons.prems by (intro balance) simp_all
  ultimately show ?case by simp
qed

end

end
