(* ===== verification/HashMaps.thy ===== *)
theory HashMaps
  imports Prelude "HOL-Library.AList"
begin

section \<open>Hash maps\<close>

text \<open>
  A \<open>std::collections::HashMap\<close> whose values are also iterated over is an association list
  with distinct keys; the order of the list stands for the map's iteration order, which the
  standard library leaves open, so a claim about an iteration is proved for every list.
\<close>

type_synonym ('k, 'v) hash_map = "('k \<times> 'v) list"

definition hm_get :: "'k \<Rightarrow> ('k, 'v) hash_map \<Rightarrow> 'v option" where
  "hm_get k m = map_of m k"

definition hm_insert :: "'k \<Rightarrow> 'v \<Rightarrow> ('k, 'v) hash_map \<Rightarrow> ('k, 'v) hash_map" where
  "hm_insert k v m = AList.update k v m"

definition hm_remove :: "'k \<Rightarrow> ('k, 'v) hash_map \<Rightarrow> ('k, 'v) hash_map" where
  "hm_remove k m = AList.delete k m"

definition hm_values :: "('k, 'v) hash_map \<Rightarrow> 'v list" where
  "hm_values m = map snd m"

definition hm_keys_distinct :: "('k, 'v) hash_map \<Rightarrow> bool" where
  "hm_keys_distinct m \<longleftrightarrow> distinct (map fst m)"

text \<open>The entries whose key belongs to one owner.\<close>

definition hm_restrict :: "('k \<Rightarrow> bool) \<Rightarrow> ('k, 'v) hash_map \<Rightarrow> ('k, 'v) hash_map" where
  "hm_restrict p m = filter (\<lambda>(k, v). p k) m"

lemma hm_get_empty [simp]: "hm_get k [] = None"
  by (simp add: hm_get_def)

lemma hm_get_insert [simp]: "hm_get k (hm_insert l v m) = (if k = l then Some v else hm_get k m)"
  by (simp add: hm_get_def hm_insert_def update_conv')

lemma hm_get_remove [simp]: "hm_get k (hm_remove l m) = (if k = l then None else hm_get k m)"
  by (simp add: hm_get_def hm_remove_def delete_conv' fun_upd_apply)

lemma hm_keys_distinct_simps [simp]:
  "hm_keys_distinct []"
  "hm_keys_distinct m \<Longrightarrow> hm_keys_distinct (hm_insert k v m)"
  "hm_keys_distinct m \<Longrightarrow> hm_keys_distinct (hm_remove k m)"
  by (simp_all add: hm_keys_distinct_def hm_insert_def hm_remove_def distinct_update distinct_delete)

lemma hm_values_iff:
  "hm_keys_distinct m \<Longrightarrow> v \<in> set (hm_values m) \<longleftrightarrow> (\<exists>k. hm_get k m = Some v)"
  by (force simp: hm_values_def hm_keys_distinct_def hm_get_def)

lemma hm_get_restrict [simp]: "hm_get k (hm_restrict p m) = (if p k then hm_get k m else None)"
  by (induction m) (auto simp: hm_get_def hm_restrict_def)

lemma hm_restrict_insert_same:
  "p k \<Longrightarrow> hm_restrict p (hm_insert k v m) = hm_insert k v (hm_restrict p m)"
  by (induction m) (auto simp: hm_restrict_def hm_insert_def)

lemma hm_restrict_insert_other [simp]:
  "\<not> p k \<Longrightarrow> hm_restrict p (hm_insert k v m) = hm_restrict p m"
  by (induction m) (auto simp: hm_restrict_def hm_insert_def)

lemma hm_restrict_remove_same:
  "p k \<Longrightarrow> hm_restrict p (hm_remove k m) = hm_remove k (hm_restrict p m)"
  by (induction m) (auto simp: hm_restrict_def hm_remove_def)

lemma hm_restrict_remove_other [simp]:
  "\<not> p k \<Longrightarrow> hm_restrict p (hm_remove k m) = hm_restrict p m"
  by (induction m) (auto simp: hm_restrict_def hm_remove_def)

lemma hm_values_filter:
  "filter q (hm_values m) = hm_values (filter (\<lambda>(k, v). q v) m)"
  by (induction m) (auto simp: hm_values_def)

lemma hm_insert_insert [simp]: "hm_insert k v (hm_insert k w m) = hm_insert k v m"
  by (induction m) (auto simp: hm_insert_def)

lemma hm_insert_same: "hm_get k m = Some v \<Longrightarrow> hm_insert k v m = m"
  by (induction m) (auto simp: hm_insert_def hm_get_def)

lemma hm_insert_mem: "(l, w) \<in> set (hm_insert k v m) \<Longrightarrow> (l, w) = (k, v) \<or> (l, w) \<in> set m"
  by (induction m) (auto simp: hm_insert_def split: if_splits)

lemma hm_remove_mem: "(l, w) \<in> set (hm_remove k m) \<Longrightarrow> (l, w) \<in> set m"
  by (induction m) (auto simp: hm_remove_def split: if_splits)

subsection \<open>Maps keyed by their values\<close>

text \<open>The stores file each record under a key computed from the record itself.\<close>

definition hm_keyed :: "('v \<Rightarrow> 'k) \<Rightarrow> ('k, 'v) hash_map \<Rightarrow> bool" where
  "hm_keyed kf m \<longleftrightarrow> hm_keys_distinct m \<and> (\<forall>(k, v) \<in> set m. k = kf v)"

lemma hm_keyed_empty [simp]: "hm_keyed kf []"
  by (simp add: hm_keyed_def)

lemma hm_keyed_insert: "hm_keyed kf m \<Longrightarrow> k = kf v \<Longrightarrow> hm_keyed kf (hm_insert k v m)"
  by (auto simp: hm_keyed_def dest!: hm_insert_mem)

lemma hm_keyed_remove: "hm_keyed kf m \<Longrightarrow> hm_keyed kf (hm_remove k m)"
  by (auto simp: hm_keyed_def dest!: hm_remove_mem)

lemma hm_keyed_get: "hm_keyed kf m \<Longrightarrow> hm_get k m = Some v \<Longrightarrow> k = kf v"
  by (force simp: hm_keyed_def hm_get_def dest: map_of_SomeD)

lemma hm_keyed_filter_set:
  assumes "hm_keyed kf m"
  shows "set (filter p (hm_values m)) = {v. hm_get (kf v) m = Some v \<and> p v}"
proof -
  have "v \<in> set (hm_values m) \<longleftrightarrow> hm_get (kf v) m = Some v" for v
    using assms hm_values_iff [of m v] hm_keyed_get [OF assms] by (auto simp: hm_keyed_def)
  then show ?thesis by auto
qed

lemma hm_keyed_filter_distinct:
  assumes "hm_keyed kf m"
    and inj: "\<And>u v. p u \<Longrightarrow> p v \<Longrightarrow> idf u = idf v \<Longrightarrow> kf u = kf v"
  shows "distinct (map idf (filter p (hm_values m)))"
  using assms(1)
proof (induction m)
  case Nil
  then show ?case by (simp add: hm_values_def)
next
  case (Cons e m)
  obtain k v where e: "e = (k, v)" by fastforce
  have d: "k \<notin> fst ` set m" and kv: "k = kf v" and m: "\<forall>(l, u) \<in> set m. l = kf u"
    and km: "hm_keyed kf m"
    using Cons.prems by (auto simp: hm_keyed_def hm_keys_distinct_def e)
  have "idf v \<notin> idf ` set (filter p (hm_values m))" if "p v"
  proof
    assume "idf v \<in> idf ` set (filter p (hm_values m))"
    then obtain l u where u: "(l, u) \<in> set m" "p u" "idf u = idf v"
      by (auto simp: hm_values_def)
    have "l = kf u" using m u(1) by auto
    then have "l = k" using inj [OF u(2) that u(3)] kv by simp
    then show False using u(1) d by force
  qed
  then show ?case using Cons.IH km by (simp add: e hm_values_def)
qed

end
