(* ===== verification/HostIds.thy ===== *)
theory HostIds
  imports Prelude
begin

section \<open>Host API errors and identifiers\<close>

text \<open>
  \<open>crates/ironclaw_host_api/src/error.rs\<close> and \<open>ids.rs\<close>. An identifier newtype over
  \<open>String\<close> is modelled by its string; the constructor is the validator, so "this value
  was built by \<open>TenantId::new\<close>" is the fact that the validator accepts it. A UUID-backed
  identifier is the 128-bit number that the \<open>Uuid\<close> holds (its order is the order of the
  bytes, most significant first, which is the order of the numbers).
\<close>

subsection \<open>Errors\<close>

datatype host_api_error =
    InvalidId string string string
  | InvalidPath string string
  | InvalidCapability string string
  | InvalidMount string string
  | InvalidNetworkTarget string string
  | InvariantViolation string

subsection \<open>UUID-backed identifiers\<close>

type_synonym uuid = "128 word"
type_synonym invocation_id = uuid
type_synonym process_id = uuid
type_synonym capability_grant_id = uuid
type_synonym resource_reservation_id = uuid
type_synonym approval_request_id = uuid
type_synonym correlation_id = uuid

subsection \<open>String-backed identifiers\<close>

type_synonym tenant_id = string
type_synonym user_id = string
type_synonym agent_id = string
type_synonym project_id = string
type_synonym mission_id = string
type_synonym thread_id = string
type_synonym extension_id = string
type_synonym package_id = string
type_synonym secret_handle = string
type_synonym system_service_id = string
type_synonym capability_id = string

definition has_forbidden_control :: "string \<Rightarrow> bool" where
  "has_forbidden_control v \<longleftrightarrow> contains_control v"

definition validate_scope_id :: "string \<Rightarrow> string \<Rightarrow> (host_api_error, unit) result" where
  "validate_scope_id kind v =
     (if v = [] then Inl (InvalidId kind v ''must not be empty'')
      else if length v > 256 then Inl (InvalidId kind v ''must be at most 256 bytes'')
      else if v = ''.'' \<or> v = ''..'' then
        Inl (InvalidId kind v ''dot segments are not allowed'')
      else if CHR ''/'' \<in> set v \<or> CHR 0x5C \<in> set v then
        Inl (InvalidId kind v ''path separators are not allowed'')
      else if has_forbidden_control v then
        Inl (InvalidId kind v ''NUL/control characters are not allowed'')
      else Inr ())"

definition is_name_char :: "char \<Rightarrow> bool" where
  "is_name_char b \<longleftrightarrow>
     is_ascii_lowercase b \<or> is_ascii_digit b \<or> b = CHR ''_'' \<or> b = CHR ''-''"

definition validate_name_segment :: "string \<Rightarrow> string \<Rightarrow> (host_api_error, unit) result" where
  "validate_name_segment kind v =
     (if v = [] then Inl (InvalidId kind v ''must not be empty'')
      else if length v > 128 then Inl (InvalidId kind v ''must be at most 128 bytes'')
      else if \<not> (is_ascii_lowercase (hd v) \<or> is_ascii_digit (hd v)) then
        Inl (InvalidId kind v ''must start with lowercase ASCII letter or digit'')
      else if v = ''.'' \<or> v = ''..'' \<or> sublist ''..'' v then
        Inl (InvalidId kind v ''dot-dot segments are not allowed'')
      else if list_ex (\<lambda>b. \<not> (is_name_char b \<or> b = CHR ''.'')) v then
        Inl (InvalidId kind v
          ''only lowercase ASCII letters, digits, '_', '-', and '.' are allowed'')
      else if list_ex (\<lambda>s. s = []) (split_on (CHR ''.'') v) then
        Inl (InvalidId kind v ''empty dot segments are not allowed'')
      else Inr ())"

text \<open>The loop over the segments stops at the first one the validator rejects.\<close>

fun validate_segments :: "string \<Rightarrow> string list \<Rightarrow> (host_api_error, unit) result" where
  "validate_segments kind [] = Inr ()"
| "validate_segments kind (s # ss) =
     (case validate_name_segment kind s of Inl e \<Rightarrow> Inl e | Inr _ \<Rightarrow> validate_segments kind ss)"

definition capability_id_new :: "string \<Rightarrow> (host_api_error, capability_id) result" where
  "capability_id_new v =
     (if v = [] \<or> CHR ''.'' \<notin> set v then
        Inl (InvalidId ''capability'' v
          (''must be '' @ [CHR 0x27] @ ''<extension>.<capability>[.<sub>...]'' @ [CHR 0x27]))
      else if length (split_on (CHR ''.'') v) < 2
          \<or> list_ex (\<lambda>s. s = []) (split_on (CHR ''.'') v) then
        Inl (InvalidId ''capability'' v ''empty dot segments are not allowed'')
      else (case validate_segments ''capability'' (split_on (CHR ''.'') v) of
              Inl e \<Rightarrow> Inl e
            | Inr _ \<Rightarrow> Inr v))"

text \<open>The two string identifier constructors the \<open>string_id!\<close> macro generates.\<close>

definition scope_id_new :: "string \<Rightarrow> string \<Rightarrow> (host_api_error, string) result" where
  "scope_id_new kind v = (case validate_scope_id kind v of Inl e \<Rightarrow> Inl e | Inr _ \<Rightarrow> Inr v)"

definition name_id_new :: "string \<Rightarrow> string \<Rightarrow> (host_api_error, string) result" where
  "name_id_new kind v = (case validate_name_segment kind v of Inl e \<Rightarrow> Inl e | Inr _ \<Rightarrow> Inr v)"

subsection \<open>What the validators accept\<close>

definition scope_id_ok :: "string \<Rightarrow> bool" where
  "scope_id_ok v \<longleftrightarrow> v \<noteq> [] \<and> length v \<le> 256 \<and> v \<noteq> ''.'' \<and> v \<noteq> ''..''
     \<and> CHR ''/'' \<notin> set v \<and> CHR 0x5C \<notin> set v \<and> \<not> contains_control v"

lemma validate_scope_id_iff: "validate_scope_id kind v = Inr () \<longleftrightarrow> scope_id_ok v"
  by (auto simp: validate_scope_id_def scope_id_ok_def has_forbidden_control_def)

text \<open>
  A reference grammar for name segments: dot-separated, non-empty words over lowercase
  letters, digits, \<open>_\<close> and \<open>-\<close>, the first starting with a letter or digit.
\<close>

definition name_word :: "string \<Rightarrow> bool" where
  "name_word w \<longleftrightarrow> w \<noteq> [] \<and> (\<forall>b \<in> set w. is_name_char b)"

definition name_grammar :: "string list \<Rightarrow> bool" where
  "name_grammar ws \<longleftrightarrow> ws \<noteq> [] \<and> (\<forall>w \<in> set ws. name_word w)
     \<and> (is_ascii_lowercase (hd (hd ws)) \<or> is_ascii_digit (hd (hd ws)))"

lemma not_name_char_dot [simp]: "\<not> is_name_char (CHR ''.'')"
  by (simp add: is_name_char_def is_ascii_lowercase_def is_ascii_digit_def byte_of_def)

lemma dot_not_start [simp]: "\<not> is_ascii_lowercase (CHR ''.'')" "\<not> is_ascii_digit (CHR ''.'')"
  by (simp_all add: is_ascii_lowercase_def is_ascii_digit_def byte_of_def)

lemma dot_dot_empty_segment:
  assumes "sublist ''..'' v"
  shows "[] \<in> set (split_on (CHR ''.'') v)"
proof -
  from assms obtain a b where v: "v = a @ ''..'' @ b" by (auto simp: sublist_def)
  have "split_on (CHR ''.'') v = split_on (CHR ''.'') a @ split_on (CHR ''.'') (CHR ''.'' # b)"
    using split_on_append [of "CHR ''.''" a "CHR ''.'' # b"] v by simp
  then show ?thesis by simp
qed

lemma hd_hd_split_on:
  "v \<noteq> [] \<Longrightarrow> hd v \<noteq> c \<Longrightarrow> hd (hd (split_on c v)) = hd v"
  by (cases v) (auto split: list.splits)

lemma split_on_all:
  "(\<forall>s \<in> set (split_on c v). \<forall>b \<in> set s. P b) \<longleftrightarrow> (\<forall>b \<in> set v. b = c \<or> P b)"
proof (induction v)
  case Nil
  then show ?case by simp
next
  case (Cons x v)
  obtain s ss where s: "split_on c v = s # ss" by (cases "split_on c v") auto
  then show ?case using Cons.IH by auto
qed

lemma split_on_hd_empty: "v \<noteq> [] \<Longrightarrow> [] \<notin> set (split_on c v) \<Longrightarrow> hd v \<noteq> c"
  by (cases v) auto

text \<open>
  A name identifier (extension, package, secret handle, system service) is accepted
  exactly when it is at most 128 bytes long and is a dot-separated list of non-empty words
  over lowercase ASCII letters, digits, underscore and hyphen whose first word starts with
  a letter or digit; the separate dot and dot-dot checks of the code exclude nothing more.
\<close>

theorem validate_name_segment_grammar:
  "validate_name_segment kind v = Inr () \<longleftrightarrow>
     length v \<le> 128 \<and> v \<noteq> [] \<and> name_grammar (split_on (CHR ''.'') v)"
proof -
  have dots: "v = ''.'' \<or> v = ''..'' \<or> sublist ''..'' v \<Longrightarrow> [] \<in> set (split_on (CHR ''.'') v)"
    using dot_dot_empty_segment by auto
  have chars: "(\<forall>b \<in> set v. is_name_char b \<or> b = CHR ''.'') \<longleftrightarrow>
      (\<forall>s \<in> set (split_on (CHR ''.'') v). \<forall>b \<in> set s. is_name_char b)"
    unfolding split_on_all by blast
  show ?thesis
  proof (cases "v = [] \<or> [] \<in> set (split_on (CHR ''.'') v)")
    case True
    then show ?thesis
      by (auto simp: validate_name_segment_def name_grammar_def name_word_def list_ex_iff)
  next
    case False
    then have "hd v \<noteq> CHR ''.''" using split_on_hd_empty by blast
    then have "hd (hd (split_on (CHR ''.'') v)) = hd v" using False hd_hd_split_on by blast
    moreover have "\<not> (v = ''.'' \<or> v = ''..'' \<or> sublist ''..'' v)" using False dots by blast
    ultimately show ?thesis
      using False chars
      by (auto simp: validate_name_segment_def name_grammar_def name_word_def list_ex_iff)
  qed
qed

lemma validate_segments_iff:
  "validate_segments kind ss = Inr () \<longleftrightarrow> (\<forall>s \<in> set ss. validate_name_segment kind s = Inr ())"
  by (induction ss) (auto split: sum.splits)

lemma capability_id_newD:
  assumes "capability_id_new v = Inr c"
  shows "c = v" and "2 \<le> length (split_on (CHR ''.'') c)"
    and "\<forall>s \<in> set (split_on (CHR ''.'') c). validate_name_segment ''capability'' s = Inr ()"
  using assms
  by (auto simp: capability_id_new_def validate_segments_iff [symmetric] not_less
      split: if_splits sum.splits)

lemma scope_id_new_iff: "scope_id_new kind v = Inr w \<longleftrightarrow> w = v \<and> scope_id_ok v"
  using validate_scope_id_iff [of kind v] by (auto simp: scope_id_new_def split: sum.splits)

end
