(* ===== verification/HostPaths.thy ===== *)
theory HostPaths
  imports HostIds
begin

section \<open>Virtual paths, scoped paths and mount views\<close>

text \<open>
  \<open>crates/ironclaw_host_api/src/path.rs\<close> and \<open>mount.rs\<close>: the lexical normalisation of
  absolute paths, the three path newtypes built on it, and the mount view that maps the
  scoped paths an extension sees to canonical virtual paths. A path newtype is modelled by
  its string; \<open>virtual_path_ok\<close>, \<open>scoped_path_ok\<close> and \<open>mount_alias_ok\<close> say that a string
  is a value of the type (a fixed point of its constructor).
\<close>

type_synonym virtual_path = string
type_synonym scoped_path = string
type_synonym mount_alias = string

subsection \<open>Normalisation\<close>

datatype path_kind = Virtual | Scoped | MountAliasKind

text \<open>The loop over the segments: \<open>None\<close> is the early return at a dot-dot segment.\<close>

fun collect_parts :: "string list \<Rightarrow> string list option" where
  "collect_parts [] = Some []"
| "collect_parts (p # ps) =
     (if p = [] \<or> p = ''.'' then collect_parts ps
      else if p = ''..'' then None
      else (case collect_parts ps of None \<Rightarrow> None | Some qs \<Rightarrow> Some (p # qs)))"

definition normalize_absolute_path ::
    "string \<Rightarrow> path_kind \<Rightarrow> (host_api_error, string) result" where
  "normalize_absolute_path raw kind =
     (if raw = [] then Inl (InvalidPath raw ''path must not be empty'')
      else if contains_control raw then
        Inl (InvalidPath raw ''NUL/control characters are not allowed'')
      else if CHR 0x5C \<in> set raw then Inl (InvalidPath raw ''backslashes are not allowed'')
      else if hd raw \<noteq> CHR ''/'' then Inl (InvalidPath raw ''path must be absolute'')
      else (case collect_parts (split_on (CHR ''/'') raw) of
              None \<Rightarrow> Inl (InvalidPath raw ''`..` segments are not allowed'')
            | Some parts \<Rightarrow>
                if parts = [] then Inl (InvalidPath raw ''root path is not valid here'')
                else (let normalized = CHR ''/'' # join_with (CHR ''/'') parts in
                  if kind = MountAliasKind \<and> last normalized = CHR ''/'' then
                    Inl (InvalidPath normalized ''mount alias must not end with slash'')
                  else Inr normalized)))"

subsection \<open>The path types\<close>

definition VIRTUAL_ROOTS :: "string list" where
  "VIRTUAL_ROOTS = [''/engine'', ''/system/extensions'', ''/users'', ''/projects'', ''/memory'']"

definition RAW_HOST_PREFIXES :: "string list" where
  "RAW_HOST_PREFIXES = [''/Users/'', ''/home/'', ''/root/'', ''/etc/'', ''/var/'', ''/private/'',
     ''/Volumes/'', ''/Library/'', ''/usr/'', ''/opt/'', ''/tmp/'', ''/proc/'', ''/sys/'']"

definition virtual_path_new :: "string \<Rightarrow> (host_api_error, virtual_path) result" where
  "virtual_path_new v =
     (case normalize_absolute_path v Virtual of
        Inl e \<Rightarrow> Inl e
      | Inr normalized \<Rightarrow>
          if \<not> list_ex (\<lambda>root. normalized = root \<or> prefix (root @ ''/'') normalized) VIRTUAL_ROOTS
          then Inl (InvalidPath normalized ''virtual path must begin with a known root'')
          else Inr normalized)"

definition join_tail :: "virtual_path \<Rightarrow> string \<Rightarrow> (host_api_error, virtual_path) result" where
  "join_tail v tail =
     (if tail = [] then Inr v
      else virtual_path_new (trim_end_matches (CHR ''/'') v @ ''/'' @ tail))"

definition looks_like_url :: "string \<Rightarrow> bool" where
  "looks_like_url v \<longleftrightarrow> sublist ''://'' v"

definition looks_like_windows_path :: "string \<Rightarrow> bool" where
  "looks_like_windows_path v \<longleftrightarrow>
     3 \<le> length v \<and> v ! 1 = CHR '':'' \<and> (v ! 2 = CHR 0x5C \<or> v ! 2 = CHR ''/'')"

definition scoped_path_new :: "string \<Rightarrow> (host_api_error, scoped_path) result" where
  "scoped_path_new raw =
     (if looks_like_url raw then Inl (InvalidPath raw ''URLs are not scoped paths'')
      else if looks_like_windows_path raw then
        Inl (InvalidPath raw ''Windows host paths are not scoped paths'')
      else if list_ex (\<lambda>p. prefix p raw) RAW_HOST_PREFIXES then
        Inl (InvalidPath raw ''raw host paths are not scoped paths'')
      else normalize_absolute_path raw Scoped)"

definition mount_alias_new :: "string \<Rightarrow> (host_api_error, mount_alias) result" where
  "mount_alias_new v = normalize_absolute_path v MountAliasKind"

subsection \<open>Mounts\<close>

record mount_permissions =
  mp_read :: bool
  mp_write :: bool
  mp_delete :: bool
  mp_list :: bool
  mp_execute :: bool

definition permissions_none :: mount_permissions where
  "permissions_none = \<lparr>mp_read = False, mp_write = False, mp_delete = False, mp_list = False,
     mp_execute = False\<rparr>"

definition permissions_read_only :: mount_permissions where
  "permissions_read_only = \<lparr>mp_read = True, mp_write = False, mp_delete = False, mp_list = True,
     mp_execute = False\<rparr>"

definition permissions_read_write :: mount_permissions where
  "permissions_read_write = \<lparr>mp_read = True, mp_write = True, mp_delete = False, mp_list = True,
     mp_execute = False\<rparr>"

definition permissions_subset :: "mount_permissions \<Rightarrow> mount_permissions \<Rightarrow> bool" where
  "permissions_subset child parent \<longleftrightarrow>
     (\<not> mp_read child \<or> mp_read parent) \<and> (\<not> mp_write child \<or> mp_write parent)
     \<and> (\<not> mp_delete child \<or> mp_delete parent) \<and> (\<not> mp_list child \<or> mp_list parent)
     \<and> (\<not> mp_execute child \<or> mp_execute parent)"

record mount_grant =
  mg_alias :: mount_alias
  mg_target :: virtual_path
  mg_permissions :: mount_permissions

record mount_view =
  mv_mounts :: "mount_grant list"

text \<open>The loop of \<open>MountView::validate\<close> with the set of aliases seen so far.\<close>

fun validate_mounts_from :: "string set \<Rightarrow> mount_grant list \<Rightarrow> (host_api_error, unit) result" where
  "validate_mounts_from seen [] = Inr ()"
| "validate_mounts_from seen (m # ms) =
     (if mg_alias m \<in> seen then Inl (InvalidMount (mg_alias m) ''duplicate mount alias'')
      else validate_mounts_from (insert (mg_alias m) seen) ms)"

definition validate_mounts :: "mount_view \<Rightarrow> (host_api_error, unit) result" where
  "validate_mounts view = validate_mounts_from {} (mv_mounts view)"

definition mount_view_new :: "mount_grant list \<Rightarrow> (host_api_error, mount_view) result" where
  "mount_view_new mounts =
     (case validate_mounts \<lparr>mv_mounts = mounts\<rparr> of
        Inl e \<Rightarrow> Inl e | Inr _ \<Rightarrow> Inr \<lparr>mv_mounts = mounts\<rparr>)"

definition alias_matches :: "string \<Rightarrow> string \<Rightarrow> bool" where
  "alias_matches a path \<longleftrightarrow> path = a \<or> prefix (a @ ''/'') path"

definition resolve_with_grant ::
    "mount_view \<Rightarrow> scoped_path \<Rightarrow> (host_api_error, virtual_path \<times> mount_grant) result" where
  "resolve_with_grant view raw =
     (case max_by_key (\<lambda>m. length (mg_alias m))
             (filter (\<lambda>m. alias_matches (mg_alias m) raw) (mv_mounts view)) of
        None \<Rightarrow> Inl (InvalidMount raw ''no mount alias matches scoped path'')
      | Some mount \<Rightarrow>
          (let tail = trim_start_matches (CHR ''/'')
                        (case strip_prefix (mg_alias mount) raw of None \<Rightarrow> [] | Some t \<Rightarrow> t)
           in case join_tail (mg_target mount) tail of
                Inl e \<Rightarrow> Inl e
              | Inr vp \<Rightarrow> Inr (vp, mount)))"

definition resolve :: "mount_view \<Rightarrow> scoped_path \<Rightarrow> (host_api_error, virtual_path) result" where
  "resolve view path = (case resolve_with_grant view path of Inl e \<Rightarrow> Inl e | Inr r \<Rightarrow> Inr (fst r))"

definition mount_view_subset :: "mount_view \<Rightarrow> mount_view \<Rightarrow> bool" where
  "mount_view_subset child parent \<longleftrightarrow>
     list_all (\<lambda>c. list_ex (\<lambda>p. mg_alias c = mg_alias p \<and> mg_target c = mg_target p
         \<and> permissions_subset (mg_permissions c) (mg_permissions p)) (mv_mounts parent))
       (mv_mounts child)"

subsection \<open>Normal forms\<close>

definition segment_ok :: "string \<Rightarrow> bool" where
  "segment_ok s \<longleftrightarrow> s \<noteq> [] \<and> s \<noteq> ''.'' \<and> s \<noteq> ''..'' \<and> CHR ''/'' \<notin> set s \<and> CHR 0x5C \<notin> set s
     \<and> \<not> contains_control s"

definition render :: "string list \<Rightarrow> string" where
  "render ps = CHR ''/'' # join_with (CHR ''/'') ps"

definition path_form :: "string list \<Rightarrow> string \<Rightarrow> bool" where
  "path_form ps v \<longleftrightarrow> ps \<noteq> [] \<and> (\<forall>s \<in> set ps. segment_ok s) \<and> v = render ps"

lemma byte_of_slash [simp]: "byte_of (CHR ''/'') = 47"
  by (simp add: byte_of_def)

lemma contains_control_join:
  "ss \<noteq> [] \<Longrightarrow> contains_control (join_with (CHR ''/'') ss) \<longleftrightarrow> (\<exists>s \<in> set ss. contains_control s)"
proof (induction ss rule: induct_list012)
  case (3 s t ss)
  then show ?case by (simp add: contains_control_append)
qed simp_all

lemma contains_control_split:
  "(\<exists>s \<in> set (split_on (CHR ''/'') v). contains_control s) \<longleftrightarrow> contains_control v"
  using contains_control_join [of "split_on (CHR ''/'') v"] by (simp add: join_with_split_on)

lemma contains_control_Cons_slash: "contains_control (CHR ''/'' # v) \<longleftrightarrow> contains_control v"
  using contains_control_append [of "CHR ''/''" "[]" v] by simp

lemma collect_parts_Some:
  "collect_parts ss = Some ps \<Longrightarrow>
     ps = filter (\<lambda>s. s \<noteq> [] \<and> s \<noteq> ''.'') ss \<and> ''..'' \<notin> set ss"
  by (induction ss arbitrary: ps) (auto split: if_splits option.splits)

lemma collect_parts_ok: "\<forall>s \<in> set ss. segment_ok s \<Longrightarrow> collect_parts ss = Some ss"
  by (induction ss) (auto simp: segment_ok_def)

lemma split_on_render:
  "ps \<noteq> [] \<Longrightarrow> \<forall>s \<in> set ps. segment_ok s \<Longrightarrow> split_on (CHR ''/'') (render ps) = [] # ps"
  by (simp add: render_def split_on_join_with segment_ok_def)

lemma last_join_with:
  "ps \<noteq> [] \<Longrightarrow> last ps \<noteq> [] \<Longrightarrow> join_with c ps \<noteq> [] \<and> last (join_with c ps) = last (last ps)"
  by (induction ps rule: induct_list012) auto

lemma normalize_path_form:
  assumes "normalize_absolute_path raw kind = Inr n"
  shows "\<exists>ps. path_form ps n"
proof -
  obtain parts where parts: "collect_parts (split_on (CHR ''/'') raw) = Some parts" "parts \<noteq> []"
      "n = render parts" and raw: "\<not> contains_control raw" "CHR 0x5C \<notin> set raw"
    using assms
    by (auto simp: normalize_absolute_path_def Let_def render_def split: if_splits option.splits)
  from collect_parts_Some [OF parts(1)]
  have f: "parts = filter (\<lambda>s. s \<noteq> [] \<and> s \<noteq> ''.'') (split_on (CHR ''/'') raw)"
    and dd: "''..'' \<notin> set (split_on (CHR ''/'') raw)" by auto
  have "segment_ok s" if "s \<in> set parts" for s
  proof -
    from that f have s: "s \<in> set (split_on (CHR ''/'') raw)" "s \<noteq> []" "s \<noteq> ''.''" by auto
    have "\<not> contains_control s" using s(1) raw(1) contains_control_split by blast
    moreover have "CHR 0x5C \<notin> set s" using s(1) raw(2) split_on_mem by metis
    moreover have "CHR ''/'' \<notin> set s" using s(1) split_on_no_sep by metis
    moreover have "s \<noteq> ''..''" using s(1) dd by metis
    ultimately show ?thesis using s by (simp add: segment_ok_def)
  qed
  then show ?thesis using parts by (auto simp: path_form_def)
qed

lemma path_form_clean:
  assumes "path_form ps v"
  shows "v \<noteq> []" "hd v = CHR ''/''" "\<not> contains_control v" "CHR 0x5C \<notin> set v"
    "last v \<noteq> CHR ''/''"
proof -
  from assms have ps: "ps \<noteq> []" "\<forall>s \<in> set ps. segment_ok s" and v: "v = render ps"
    by (auto simp: path_form_def)
  show "v \<noteq> []" "hd v = CHR ''/''" using v by (simp_all add: render_def)
  show "\<not> contains_control v"
    using ps v
    by (simp add: render_def contains_control_Cons_slash contains_control_join segment_ok_def
        del: contains_control.simps)
  show "CHR 0x5C \<notin> set v"
    using ps v set_join_with [of "CHR ''/''" ps] by (auto simp: render_def segment_ok_def)
  have l: "segment_ok (last ps)" using ps by simp
  then have "last (last ps) \<noteq> CHR ''/''" "last ps \<noteq> []"
    by (auto simp: segment_ok_def) (metis last_in_set)
  then show "last v \<noteq> CHR ''/''" using last_join_with [OF ps(1)] v by (simp add: render_def)
qed

lemma normalize_of_path_form:
  assumes "path_form ps v"
  shows "normalize_absolute_path v kind = Inr v"
proof -
  have "collect_parts (split_on (CHR ''/'') v) = Some ps" "ps \<noteq> []" "v = render ps"
    using assms by (auto simp: path_form_def split_on_render collect_parts_ok)
  then show ?thesis
    using path_form_clean [OF assms] by (auto simp: normalize_absolute_path_def render_def)
qed

lemma normalize_idem:
  "normalize_absolute_path raw kind = Inr n \<Longrightarrow> normalize_absolute_path n kind' = Inr n"
  using normalize_path_form normalize_of_path_form by blast

definition under_root :: "string \<Rightarrow> bool" where
  "under_root v \<longleftrightarrow> (\<exists>root \<in> set VIRTUAL_ROOTS. v = root \<or> prefix (root @ ''/'') v)"

lemma virtual_path_new_iff:
  "virtual_path_new v = Inr n \<longleftrightarrow> normalize_absolute_path v Virtual = Inr n \<and> under_root n"
  by (auto simp: virtual_path_new_def under_root_def list_ex_iff split: sum.splits if_splits)

definition virtual_path_ok :: "string \<Rightarrow> bool" where
  "virtual_path_ok v \<longleftrightarrow> virtual_path_new v = Inr v"

definition scoped_path_ok :: "string \<Rightarrow> bool" where
  "scoped_path_ok v \<longleftrightarrow> (\<exists>raw. scoped_path_new raw = Inr v)"

definition mount_alias_ok :: "string \<Rightarrow> bool" where
  "mount_alias_ok v \<longleftrightarrow> (\<exists>raw. mount_alias_new raw = Inr v)"

definition mount_view_ok :: "mount_view \<Rightarrow> bool" where
  "mount_view_ok view \<longleftrightarrow>
     (\<forall>m \<in> set (mv_mounts view). mount_alias_ok (mg_alias m) \<and> virtual_path_ok (mg_target m))"

lemma virtual_path_ok_iff: "virtual_path_ok v \<longleftrightarrow> (\<exists>ps. path_form ps v) \<and> under_root v"
  unfolding virtual_path_ok_def virtual_path_new_iff
  using normalize_path_form normalize_of_path_form by blast

lemma scoped_path_ok_form: "scoped_path_ok v \<Longrightarrow> \<exists>ps. path_form ps v"
  unfolding scoped_path_ok_def scoped_path_new_def
  using normalize_path_form by (auto split: if_splits)

lemma mount_alias_ok_form: "mount_alias_ok v \<Longrightarrow> \<exists>ps. path_form ps v"
  unfolding mount_alias_ok_def mount_alias_new_def using normalize_path_form by blast

subsection \<open>Canonical virtual paths\<close>

text \<open>
  C40: a path that \<open>VirtualPath::new\<close> returns is canonical: it lies at or below one of the
  known roots, none of its segments is empty, a dot or a dot-dot or holds a backslash or
  control character, and building a virtual path from it again returns it unchanged.
\<close>

theorem virtual_path_new_canonical:
  assumes "virtual_path_new raw = Inr v"
  shows "virtual_path_new v = Inr v \<and> under_root v \<and> hd v = CHR ''/''
    \<and> (\<forall>s \<in> set (split_on (CHR ''/'') (tl v)). segment_ok s)"
proof -
  from assms have n: "normalize_absolute_path raw Virtual = Inr v" and r: "under_root v"
    by (auto simp: virtual_path_new_iff)
  from normalize_path_form [OF n] obtain ps where ps: "path_form ps v" by blast
  then have "split_on (CHR ''/'') (tl v) = ps" "\<forall>s \<in> set ps. segment_ok s"
    by (auto simp: path_form_def render_def split_on_join_with segment_ok_def)
  then show ?thesis
    using r normalize_idem [OF n] path_form_clean(2) [OF ps] by (simp add: virtual_path_new_iff)
qed

lemma virtual_path_new_canonical_witness:
  "virtual_path_new ''/users//u1/./notes/'' = Inr ''/users/u1/notes''
   \<and> virtual_path_new ''/users/u1/notes'' = Inr ''/users/u1/notes''"
proof -
  have n: "virtual_path_new ''/users//u1/./notes/'' = Inr ''/users/u1/notes''" by code_simp
  show ?thesis using n virtual_path_new_canonical [OF n] by blast
qed

subsection \<open>Mount resolution\<close>

lemma alias_matches_split:
  assumes a: "path_form as a" and p: "path_form ps p" and m: "alias_matches a p"
  shows "\<exists>ts. ps = as @ ts \<and> drop (length a) p = (if ts = [] then [] else render ts)"
proof (cases "p = a")
  case True
  with a have "split_on (CHR ''/'') p = [] # as" by (simp add: path_form_def split_on_render)
  moreover from p have "split_on (CHR ''/'') p = [] # ps"
    by (simp add: path_form_def split_on_render)
  ultimately show ?thesis using True by (intro exI [of _ "[]"]) simp
next
  case False
  with m obtain t where t: "p = a @ CHR ''/'' # t" by (auto simp: alias_matches_def prefix_def)
  have "split_on (CHR ''/'') p = ([] # as) @ split_on (CHR ''/'') t"
    using a t by (simp add: split_on_append path_form_def split_on_render)
  moreover have "split_on (CHR ''/'') p = [] # ps"
    using p by (simp add: path_form_def split_on_render)
  ultimately have "ps = as @ split_on (CHR ''/'') t" by simp
  moreover have "drop (length a) p = render (split_on (CHR ''/'') t)"
    using t by (simp add: render_def join_with_split_on)
  ultimately show ?thesis by (intro exI [of _ "split_on (CHR ''/'') t"]) simp
qed

lemma render_append:
  "as \<noteq> [] \<Longrightarrow> ts \<noteq> [] \<Longrightarrow> render (as @ ts) = render as @ render ts"
  by (simp add: render_def join_with_append)

lemma under_root_append: "under_root v \<Longrightarrow> under_root (v @ CHR ''/'' # t)"
proof -
  assume "under_root v"
  then obtain root where r: "root \<in> set VIRTUAL_ROOTS" "v = root \<or> prefix (root @ ''/'') v"
    by (auto simp: under_root_def)
  from r(2) have "prefix (root @ ''/'') (v @ CHR ''/'' # t)"
  proof
    assume "v = root"
    then show ?thesis by (simp add: prefix_def)
  next
    assume "prefix (root @ ''/'') v"
    then show ?thesis by (rule prefix_prefix)
  qed
  with r(1) show ?thesis by (auto simp: under_root_def)
qed

lemma join_tail_render:
  assumes v: "virtual_path_ok v" and ts: "ts \<noteq> []" "\<forall>s \<in> set ts. segment_ok s"
  shows "join_tail v (join_with (CHR ''/'') ts) = Inr (v @ render ts) \<and> virtual_path_ok (v @ render ts)"
proof -
  from v obtain rs where rs: "path_form rs v" and root: "under_root v"
    by (auto simp: virtual_path_ok_iff)
  have f: "path_form (rs @ ts) (v @ render ts)"
    using rs ts by (auto simp: path_form_def render_append)
  have r: "under_root (v @ render ts)" using under_root_append [OF root] by (simp add: render_def)
  have ok: "virtual_path_new (v @ render ts) = Inr (v @ render ts)"
    using normalize_of_path_form [OF f] r by (simp add: virtual_path_new_iff)
  obtain w where w: "rev v = w" "w \<noteq> []" "hd w \<noteq> CHR ''/''"
    using path_form_clean [OF rs] by (simp add: hd_rev)
  then have "trim_end_matches (CHR ''/'') v = v"
    by (cases w) (auto simp: trim_end_matches_def rev_swap)
  moreover have "join_with (CHR ''/'') ts \<noteq> []"
    using ts last_join_with [of ts "CHR ''/''"] by (auto simp: segment_ok_def)
  ultimately show ?thesis
    using ok by (simp add: join_tail_def render_def virtual_path_ok_def)
qed

lemma trim_start_render:
  assumes "ts \<noteq> []" "\<forall>s \<in> set ts. segment_ok s"
  shows "trim_start_matches (CHR ''/'') (render ts) = join_with (CHR ''/'') ts"
proof -
  obtain t ts' where t: "ts = t # ts'" using assms(1) by (cases ts) auto
  obtain c cs where c: "t = c # cs" using assms(2) t by (cases t) (auto simp: segment_ok_def)
  have "c \<noteq> CHR ''/''" using assms(2) t c by (auto simp: segment_ok_def)
  then show ?thesis by (cases ts') (simp_all add: t c trim_start_matches_def render_def)
qed

lemma resolve_mount_exact:
  assumes "virtual_path_ok v" "mount_alias_ok a" "scoped_path_ok p" "alias_matches a p"
  shows "join_tail v (trim_start_matches (CHR ''/'')
      (case strip_prefix a p of None \<Rightarrow> [] | Some t \<Rightarrow> t)) = Inr (v @ drop (length a) p)
    \<and> virtual_path_ok (v @ drop (length a) p)"
proof -
  obtain as ps where as: "path_form as a" and ps: "path_form ps p"
    using assms mount_alias_ok_form scoped_path_ok_form by blast
  from alias_matches_split [OF as ps assms(4)] obtain ts where ts: "ps = as @ ts"
      "drop (length a) p = (if ts = [] then [] else render ts)" by blast
  have strip: "strip_prefix a p = Some (drop (length a) p)"
    using assms(4) by (auto simp: strip_prefix_def alias_matches_def intro: append_prefixD)
  show ?thesis
  proof (cases "ts = []")
    case True
    then show ?thesis
      using strip ts assms(1) by (simp add: trim_start_matches_def join_tail_def)
  next
    case False
    have ok: "\<forall>s \<in> set ts. segment_ok s" using ps ts by (auto simp: path_form_def)
    show ?thesis
      using strip ts False join_tail_render [OF assms(1) False ok]
      by (simp add: trim_start_render [OF False ok])
  qed
qed

text \<open>
  On a view of well-formed mounts, resolving a scoped path fails exactly when no alias
  covers it, and otherwise picks a longest covering alias and returns that mount's target
  extended by what follows the alias in the path: a canonical virtual path that never
  leaves the target.
\<close>

theorem resolve_with_grant_exact:
  assumes "mount_view_ok view" and "scoped_path_ok p"
  shows "case resolve_with_grant view p of
      Inl _ \<Rightarrow> (\<forall>m \<in> set (mv_mounts view). \<not> alias_matches (mg_alias m) p)
    | Inr (vp, m) \<Rightarrow> m \<in> set (mv_mounts view) \<and> alias_matches (mg_alias m) p
        \<and> (\<forall>m' \<in> set (mv_mounts view). alias_matches (mg_alias m') p \<longrightarrow>
              length (mg_alias m') \<le> length (mg_alias m))
        \<and> vp = mg_target m @ drop (length (mg_alias m)) p
        \<and> alias_matches (mg_target m) vp \<and> virtual_path_ok vp"
proof (cases "max_by_key (\<lambda>m. length (mg_alias m))
    (filter (\<lambda>m. alias_matches (mg_alias m) p) (mv_mounts view))")
  case None
  then show ?thesis by (auto simp: resolve_with_grant_def filter_empty_conv)
next
  case (Some m)
  from max_by_key_Some [OF Some] have m: "m \<in> set (mv_mounts view)" "alias_matches (mg_alias m) p"
    and longest: "\<forall>m' \<in> set (mv_mounts view). alias_matches (mg_alias m') p \<longrightarrow>
      length (mg_alias m') \<le> length (mg_alias m)" by auto
  have ok: "virtual_path_ok (mg_target m)" "mount_alias_ok (mg_alias m)"
    using assms(1) m(1) by (auto simp: mount_view_ok_def)
  have below: "alias_matches (mg_target m) (mg_target m @ drop (length (mg_alias m)) p)"
    using m(2) by (auto simp: alias_matches_def prefix_def)
  show ?thesis
    using Some m longest below resolve_mount_exact [OF ok assms(2) m(2)]
    by (simp add: resolve_with_grant_def Let_def)
qed

definition sample_mounts :: mount_view where
  "sample_mounts = \<lparr>mv_mounts =
     [\<lparr>mg_alias = ''/workspace'', mg_target = ''/projects/p1'',
        mg_permissions = permissions_read_only\<rparr>,
      \<lparr>mg_alias = ''/workspace/out'', mg_target = ''/projects/p1-out'',
        mg_permissions = permissions_read_write\<rparr>]\<rparr>"

lemma sample_mounts_ok: "mount_view_ok sample_mounts"
proof -
  have "mount_alias_new ''/workspace'' = Inr ''/workspace''"
    "mount_alias_new ''/workspace/out'' = Inr ''/workspace/out''"
    "virtual_path_new ''/projects/p1'' = Inr ''/projects/p1''"
    "virtual_path_new ''/projects/p1-out'' = Inr ''/projects/p1-out''"
    by code_simp+
  then show ?thesis
    by (auto simp: mount_view_ok_def sample_mounts_def virtual_path_ok_def mount_alias_ok_def)
qed

lemma resolve_with_grant_exact_witness:
  "\<exists>m. resolve_with_grant sample_mounts ''/workspace/out/a.txt'' = Inr (''/projects/p1-out/a.txt'', m)
     \<and> virtual_path_ok ''/projects/p1-out/a.txt''"
proof -
  have "scoped_path_new ''/workspace/out/a.txt'' = Inr ''/workspace/out/a.txt''" by code_simp
  then have p: "scoped_path_ok ''/workspace/out/a.txt''" by (auto simp: scoped_path_ok_def)
  have "resolve_with_grant sample_mounts ''/workspace/out/a.txt'' =
      Inr (''/projects/p1-out/a.txt'', mv_mounts sample_mounts ! 1)" by code_simp
  then show ?thesis using resolve_with_grant_exact [OF sample_mounts_ok p] by auto
qed

end
