(* ===== verification/HostTypes.thy ===== *)
theory HostTypes
  imports HostPaths "HOL-Library.List_Lexorder" "HOL-Library.Char_ord"
begin

section \<open>The host API value types\<close>

text \<open>
  \<open>crates/ironclaw_host_api/src\<close>: scopes, resources, capabilities, actions, approvals,
  decisions and dispatch requests. A struct is a record whose fields carry a two-letter
  prefix (\<open>rs_\<close> for \<open>ResourceScope\<close>, \<open>ec_\<close> for \<open>ExecutionContext\<close> and so on), an enum is
  a datatype.

  A \<open>rust_decimal::Decimal\<close> is an integer times a power of ten between \<open>10^-28\<close> and 1, so
  its value is a whole number of units of \<open>10^-28\<close>: the model stores that number (Decimal's
  equality and order are those of the value). A \<open>chrono::DateTime<Utc>\<close> is only compared;
  the model stores the instant as an integer. A \<open>serde_json::Value\<close> is the tree \<open>json\<close>; a
  number is its textual form, which the modelled code only copies and compares.
\<close>

type_synonym decimal = int
type_synonym timestamp = int

subsection \<open>Runtime and trust classes (\<open>runtime.rs\<close>)\<close>

datatype runtime_kind = Wasm | Mcp | Script | FirstPartyRuntime | SystemRuntime

datatype trust_class = Sandbox | UserTrusted | FirstParty | System

subsection \<open>Resource scopes, estimates and ceilings (\<open>resource.rs\<close>)\<close>

record resource_scope =
  rs_tenant_id :: tenant_id
  rs_user_id :: user_id
  rs_agent_id :: "agent_id option"
  rs_project_id :: "project_id option"
  rs_mission_id :: "mission_id option"
  rs_thread_id :: "thread_id option"
  rs_invocation_id :: invocation_id

definition LOCAL_DEFAULT_TENANT_ID :: string where
  "LOCAL_DEFAULT_TENANT_ID = ''default''"

definition LOCAL_DEFAULT_AGENT_ID :: string where
  "LOCAL_DEFAULT_AGENT_ID = ''default''"

definition LOCAL_DEFAULT_PROJECT_ID :: string where
  "LOCAL_DEFAULT_PROJECT_ID = ''bootstrap''"

definition scope_local_default ::
    "user_id \<Rightarrow> invocation_id \<Rightarrow> (host_api_error, resource_scope) result" where
  "scope_local_default user inv_id =
     bind_result (scope_id_new ''tenant'' LOCAL_DEFAULT_TENANT_ID) (\<lambda>tenant.
     bind_result (scope_id_new ''agent'' LOCAL_DEFAULT_AGENT_ID) (\<lambda>agent.
     bind_result (scope_id_new ''project'' LOCAL_DEFAULT_PROJECT_ID) (\<lambda>project.
       Inr \<lparr>rs_tenant_id = tenant, rs_user_id = user, rs_agent_id = Some agent,
            rs_project_id = Some project, rs_mission_id = None, rs_thread_id = None,
            rs_invocation_id = inv_id\<rparr>)))"

record resource_estimate =
  re_usd :: "decimal option"
  re_input_tokens :: "u64 option"
  re_output_tokens :: "u64 option"
  re_wall_clock_ms :: "u64 option"
  re_output_bytes :: "u64 option"
  re_network_egress_bytes :: "u64 option"
  re_process_count :: "u32 option"
  re_concurrency_slots :: "u32 option"

record resource_usage =
  ru_usd :: decimal
  ru_input_tokens :: u64
  ru_output_tokens :: u64
  ru_wall_clock_ms :: u64
  ru_output_bytes :: u64
  ru_network_egress_bytes :: u64
  ru_process_count :: u32

record sandbox_quota =
  sq_cpu_time_ms :: "u64 option"
  sq_memory_bytes :: "u64 option"
  sq_disk_bytes :: "u64 option"
  sq_network_egress_bytes :: "u64 option"
  sq_process_count :: "u32 option"

record resource_ceiling =
  rc_max_usd :: "decimal option"
  rc_max_input_tokens :: "u64 option"
  rc_max_output_tokens :: "u64 option"
  rc_max_wall_clock_ms :: "u64 option"
  rc_max_output_bytes :: "u64 option"
  rc_sandbox :: "sandbox_quota option"

record resource_profile =
  rp_default_estimate :: resource_estimate
  rp_hard_ceiling :: "resource_ceiling option"

record resource_reservation =
  rv_id :: resource_reservation_id
  rv_scope :: resource_scope
  rv_estimate :: resource_estimate

datatype reservation_status = ReservationActive | Reconciled | Released

record resource_receipt =
  rr_id :: resource_reservation_id
  rr_scope :: resource_scope
  rr_status :: reservation_status
  rr_estimate :: resource_estimate
  rr_actual :: "resource_usage option"

subsection \<open>Principals (\<open>scope.rs\<close>)\<close>

datatype principal =
    TenantPrincipal tenant_id
  | UserPrincipal user_id
  | AgentPrincipal agent_id
  | ProjectPrincipal project_id
  | MissionPrincipal mission_id
  | ThreadPrincipal thread_id
  | ExtensionPrincipal extension_id
  | HostRuntime
  | SystemPrincipal system_service_id

subsection \<open>Actions (\<open>action.rs\<close>)\<close>

datatype secret_use_mode = InjectIntoRequest | InjectIntoEnvironment | ReadRaw

datatype network_scheme = Http | Https

datatype network_method = Get | Post | Put | Patch | Delete | Head

record network_target =
  nt_scheme :: network_scheme
  nt_host :: string
  nt_port :: "16 word option"

record network_target_pattern =
  np_scheme :: "network_scheme option"
  np_host_pattern :: string
  np_port :: "16 word option"

record network_policy =
  pol_allowed_targets :: "network_target_pattern list"
  pol_deny_private_ip_ranges :: bool
  pol_max_egress_bytes :: "u64 option"

datatype extension_lifecycle_operation = Install | Update | Remove | Enable | Disable

subsection \<open>Capabilities (\<open>capability.rs\<close>)\<close>

datatype effect_kind =
    ReadFilesystem
  | WriteFilesystem
  | DeleteFilesystem
  | Network
  | UseSecret
  | ExecuteCode
  | SpawnProcess
  | DispatchCapability
  | ModifyExtension
  | ModifyApproval
  | ModifyBudget
  | ExternalWrite
  | Financial

datatype permission_mode = AllowMode | AskMode | DenyMode

record grant_constraints =
  gc_allowed_effects :: "effect_kind list"
  gc_mounts :: mount_view
  gc_network :: network_policy
  gc_secrets :: "secret_handle list"
  gc_resource_ceiling :: "resource_ceiling option"
  gc_expires_at :: "timestamp option"
  gc_max_invocations :: "u64 option"

record capability_grant =
  cg_id :: capability_grant_id
  cg_capability :: capability_id
  cg_grantee :: principal
  cg_issued_by :: principal
  cg_constraints :: grant_constraints

record capability_set =
  cs_grants :: "capability_grant list"

datatype json =
    JNull
  | JBool bool
  | JNumber string
  | JString string
  | JArray "json list"
  | JObject "(string \<times> json) list"

record capability_descriptor =
  cd_id :: capability_id
  cd_provider :: extension_id
  cd_runtime :: runtime_kind
  cd_trust_ceiling :: trust_class
  cd_description :: string
  cd_parameters_schema :: json
  cd_effects :: "effect_kind list"
  cd_default_permission :: permission_mode
  cd_resource_profile :: "resource_profile option"

subsection \<open>Actions and approvals (\<open>action.rs\<close>, \<open>approval.rs\<close>)\<close>

type_synonym invocation_fingerprint = string

datatype file_action_kind = ReadAction | ListAction | WriteAction | DeleteAction

text \<open>
  \<open>Action\<close> and \<open>ApprovalRequest\<close> refer to each other, so the request is a datatype with
  selectors instead of a record.
\<close>

datatype action =
    ReadFile scoped_path
  | ListDir scoped_path
  | WriteFile scoped_path "u64 option"
  | DeleteFile scoped_path
  | Dispatch capability_id resource_estimate
  | SpawnCapability capability_id resource_estimate
  | UseSecretAction secret_handle secret_use_mode
  | NetworkAction network_target network_method "u64 option"
  | ReserveResourcesAction resource_estimate
  | Approve approval_request
  | ExtensionLifecycle extension_id extension_lifecycle_operation
  | EmitExternalEffect effect_kind
and approval_request =
    ApprovalRequest (ar_id: approval_request_id) (ar_correlation_id: correlation_id)
      (ar_requested_by: principal) (ar_action: action)
      (ar_invocation_fingerprint: "invocation_fingerprint option") (ar_reason: string)
      (ar_reusable_scope: "approval_scope option")
and approval_scope = ApprovalScope principal action_pattern "timestamp option"
and action_pattern =
    ExactAction action
  | CapabilityPattern capability_id
  | PathPrefix file_action_kind scoped_path
  | NetworkTargetPattern network_target_pattern

text \<open>The assignment \<open>approval.invocation_fingerprint = Some(fp)\<close>.\<close>

fun set_fingerprint :: "approval_request \<Rightarrow> invocation_fingerprint \<Rightarrow> approval_request" where
  "set_fingerprint (ApprovalRequest i c p a _ r s) fp = ApprovalRequest i c p a (Some fp) r s"

lemma set_fingerprint_sel [simp]:
  "ar_id (set_fingerprint r fp) = ar_id r"
  "ar_correlation_id (set_fingerprint r fp) = ar_correlation_id r"
  "ar_requested_by (set_fingerprint r fp) = ar_requested_by r"
  "ar_action (set_fingerprint r fp) = ar_action r"
  "ar_invocation_fingerprint (set_fingerprint r fp) = Some fp"
  by (cases r; simp)+

subsection \<open>Execution contexts (\<open>scope.rs\<close>)\<close>

record execution_context =
  ec_invocation_id :: invocation_id
  ec_correlation_id :: correlation_id
  ec_process_id :: "process_id option"
  ec_parent_process_id :: "process_id option"
  ec_tenant_id :: tenant_id
  ec_user_id :: user_id
  ec_agent_id :: "agent_id option"
  ec_project_id :: "project_id option"
  ec_mission_id :: "mission_id option"
  ec_thread_id :: "thread_id option"
  ec_extension_id :: extension_id
  ec_runtime :: runtime_kind
  ec_trust :: trust_class
  ec_grants :: capability_set
  ec_mounts :: mount_view
  ec_resource_scope :: resource_scope

definition validate_context :: "execution_context \<Rightarrow> (host_api_error, unit) result" where
  "validate_context c = (let s = ec_resource_scope c in
     if rs_invocation_id s \<noteq> ec_invocation_id c then Inl (InvariantViolation
       ''resource_scope.invocation_id must match execution context invocation_id'')
     else if rs_tenant_id s \<noteq> ec_tenant_id c then Inl (InvariantViolation
       ''resource_scope.tenant_id must match execution context tenant_id'')
     else if rs_user_id s \<noteq> ec_user_id c then Inl (InvariantViolation
       ''resource_scope.user_id must match execution context user_id'')
     else if rs_agent_id s \<noteq> ec_agent_id c then Inl (InvariantViolation
       ''resource_scope.agent_id must match execution context agent_id'')
     else if rs_project_id s \<noteq> ec_project_id c then Inl (InvariantViolation
       ''resource_scope.project_id must match execution context project_id'')
     else if rs_mission_id s \<noteq> ec_mission_id c then Inl (InvariantViolation
       ''resource_scope.mission_id must match execution context mission_id'')
     else if rs_thread_id s \<noteq> ec_thread_id c then Inl (InvariantViolation
       ''resource_scope.thread_id must match execution context thread_id'')
     else validate_mounts (ec_mounts c))"

text \<open>The ids that \<open>InvocationId::new\<close> and \<open>CorrelationId::new\<close> draw are arguments.\<close>

definition context_local_default ::
    "invocation_id \<Rightarrow> correlation_id \<Rightarrow> user_id \<Rightarrow> extension_id \<Rightarrow> runtime_kind \<Rightarrow> trust_class
     \<Rightarrow> capability_set \<Rightarrow> mount_view \<Rightarrow> (host_api_error, execution_context) result" where
  "context_local_default inv_id corr user ext runtime trust grants mounts =
     bind_result (scope_local_default user inv_id) (\<lambda>scope.
       let c = \<lparr>ec_invocation_id = inv_id, ec_correlation_id = corr, ec_process_id = None,
          ec_parent_process_id = None, ec_tenant_id = rs_tenant_id scope, ec_user_id = user,
          ec_agent_id = rs_agent_id scope, ec_project_id = rs_project_id scope,
          ec_mission_id = None, ec_thread_id = None, ec_extension_id = ext,
          ec_runtime = runtime, ec_trust = trust, ec_grants = grants, ec_mounts = mounts,
          ec_resource_scope = scope\<rparr>
       in bind_result (validate_context c) (\<lambda>_. Inr c))"

text \<open>A valid context is one whose scope carries the same identity, field by field.\<close>

definition context_scope :: "execution_context \<Rightarrow> resource_scope" where
  "context_scope c = \<lparr>rs_tenant_id = ec_tenant_id c, rs_user_id = ec_user_id c,
     rs_agent_id = ec_agent_id c, rs_project_id = ec_project_id c,
     rs_mission_id = ec_mission_id c, rs_thread_id = ec_thread_id c,
     rs_invocation_id = ec_invocation_id c\<rparr>"

definition context_valid :: "execution_context \<Rightarrow> bool" where
  "context_valid c \<longleftrightarrow> \<not> is_err (validate_context c)"

lemma validate_mounts_from_iff:
  "validate_mounts_from seen ms = Inr () \<longleftrightarrow>
     distinct (map mg_alias ms) \<and> (\<forall>m \<in> set ms. mg_alias m \<notin> seen)"
proof (induction ms arbitrary: seen)
  case Nil
  then show ?case by simp
next
  case (Cons m ms)
  have "(\<forall>x \<in> set ms. mg_alias x \<noteq> mg_alias m) \<longleftrightarrow> mg_alias m \<notin> mg_alias ` set ms"
    by (metis image_iff)
  then show ?case by (auto simp: Cons.IH)
qed

lemma context_valid_iff:
  "context_valid c \<longleftrightarrow>
     ec_resource_scope c = context_scope c \<and> distinct (map mg_alias (mv_mounts (ec_mounts c)))"
proof -
  have "context_valid c \<longleftrightarrow> validate_context c = Inr ()"
    by (auto simp: context_valid_def not_is_err_iff)
  then show ?thesis
    by (cases "ec_resource_scope c")
      (auto simp: validate_context_def context_scope_def validate_mounts_def
        validate_mounts_from_iff Let_def)
qed

lemma is_err_validate_context [simp]: "is_err (validate_context c) \<longleftrightarrow> \<not> context_valid c"
  by (simp add: context_valid_def)

end
