(* ===== verification/HostDecisions.thy ===== *)
theory HostDecisions
  imports HostTypes "HOL-Library.Multiset"
begin

section \<open>Decisions and obligations\<close>

text \<open>
  \<open>crates/ironclaw_host_api/src/decision.rs\<close>: the decision of an authorizer and the
  obligations of an allow decision, kept in their canonical order.
\<close>

subsection \<open>Obligations (\<open>decision.rs\<close>)\<close>

datatype deny_reason =
    MissingGrant
  | InvalidPathReason
  | PathOutsideMount
  | UnknownCapabilityReason
  | UnknownSecret
  | NetworkDeniedReason
  | BudgetDenied
  | ApprovalDeniedReason
  | PolicyDenied
  | ResourceLimitExceeded
  | InternalInvariantViolation

datatype obligation =
    AuditBefore
  | AuditAfter
  | RedactOutput
  | ReserveResources resource_reservation_id
  | UseScopedMounts mount_view
  | InjectSecretOnce secret_handle
  | ApplyNetworkPolicy network_policy
  | EnforceResourceCeiling resource_ceiling
  | EnforceOutputLimit u64

datatype obligation_kind =
    KReserveResources
  | KUseScopedMounts
  | KApplyNetworkPolicy
  | KInjectSecretOnce
  | KAuditBefore
  | KRedactOutput
  | KEnforceResourceCeiling
  | KEnforceOutputLimit
  | KAuditAfter

fun kind_of :: "obligation \<Rightarrow> obligation_kind" where
  "kind_of AuditBefore = KAuditBefore"
| "kind_of AuditAfter = KAuditAfter"
| "kind_of RedactOutput = KRedactOutput"
| "kind_of (ReserveResources _) = KReserveResources"
| "kind_of (UseScopedMounts _) = KUseScopedMounts"
| "kind_of (InjectSecretOnce _) = KInjectSecretOnce"
| "kind_of (ApplyNetworkPolicy _) = KApplyNetworkPolicy"
| "kind_of (EnforceResourceCeiling _) = KEnforceResourceCeiling"
| "kind_of (EnforceOutputLimit _) = KEnforceOutputLimit"

definition OBLIGATION_EVALUATION_ORDER :: "obligation_kind list" where
  "OBLIGATION_EVALUATION_ORDER = [KReserveResources, KUseScopedMounts, KApplyNetworkPolicy,
     KInjectSecretOnce, KAuditBefore, KRedactOutput, KEnforceResourceCeiling,
     KEnforceOutputLimit, KAuditAfter]"

text \<open>The derived \<open>Debug\<close> output of the kind, which the error messages embed.\<close>

fun kind_debug :: "obligation_kind \<Rightarrow> string" where
  "kind_debug KReserveResources = ''ReserveResources''"
| "kind_debug KUseScopedMounts = ''UseScopedMounts''"
| "kind_debug KApplyNetworkPolicy = ''ApplyNetworkPolicy''"
| "kind_debug KInjectSecretOnce = ''InjectSecretOnce''"
| "kind_debug KAuditBefore = ''AuditBefore''"
| "kind_debug KRedactOutput = ''RedactOutput''"
| "kind_debug KEnforceResourceCeiling = ''EnforceResourceCeiling''"
| "kind_debug KEnforceOutputLimit = ''EnforceOutputLimit''"
| "kind_debug KAuditAfter = ''AuditAfter''"

text \<open>The constructor's loop over the evaluation order.\<close>

fun normalize_obligations ::
    "obligation_kind list \<Rightarrow> obligation list \<Rightarrow> (host_api_error, obligation list) result" where
  "normalize_obligations [] obs = Inr []"
| "normalize_obligations (k # ks) obs =
     (case filter (\<lambda>ob. kind_of ob = k) obs of
        [] \<Rightarrow> normalize_obligations ks obs
      | [ob] \<Rightarrow> bind_result (normalize_obligations ks obs) (\<lambda>rest. Inr (ob # rest))
      | _ \<Rightarrow> Inl (InvariantViolation (''duplicate or conflicting '' @ kind_debug k
               @ '' obligations are not allowed'')))"

definition obligations_new :: "obligation list \<Rightarrow> (host_api_error, obligation list) result" where
  "obligations_new obs =
     (case find (\<lambda>ob. kind_of ob \<notin> set OBLIGATION_EVALUATION_ORDER) obs of
        Some ob \<Rightarrow> Inl (InvariantViolation (kind_debug (kind_of ob)
                    @ '' is missing from OBLIGATION_EVALUATION_ORDER''))
      | None \<Rightarrow> normalize_obligations OBLIGATION_EVALUATION_ORDER obs)"

datatype decision =
    Allow "obligation list"
  | Deny deny_reason
  | RequireApproval approval_request

subsection \<open>Obligations are canonical\<close>

definition obligation_rank :: "obligation_kind \<Rightarrow> nat" where
  "obligation_rank k = length (takeWhile (\<lambda>j. j \<noteq> k) OBLIGATION_EVALUATION_ORDER)"

lemma kind_in_order [simp]: "k \<in> set OBLIGATION_EVALUATION_ORDER"
  by (cases k) (simp_all add: OBLIGATION_EVALUATION_ORDER_def)

lemma distinct_order: "distinct OBLIGATION_EVALUATION_ORDER"
  by (simp add: OBLIGATION_EVALUATION_ORDER_def)

lemma sorted_rank_order: "sorted (map obligation_rank OBLIGATION_EVALUATION_ORDER)"
  by (simp add: OBLIGATION_EVALUATION_ORDER_def obligation_rank_def)

lemma obligations_new_eq: "obligations_new obs = normalize_obligations OBLIGATION_EVALUATION_ORDER obs"
proof -
  have "find (\<lambda>ob. kind_of ob \<notin> set OBLIGATION_EVALUATION_ORDER) obs = None"
    by (simp add: find_None_iff)
  then show ?thesis by (simp add: obligations_new_def)
qed

lemma normalize_obligations_Inr:
  "normalize_obligations ks obs = Inr n \<Longrightarrow>
     map kind_of n = filter (\<lambda>k. k \<in> kind_of ` set obs) ks
     \<and> set n = {ob \<in> set obs. kind_of ob \<in> set ks}
     \<and> (\<forall>k \<in> set ks. length (filter (\<lambda>ob. kind_of ob = k) obs) \<le> 1)"
proof (induction ks arbitrary: n)
  case Nil
  then show ?case by simp
next
  case (Cons k ks)
  let ?f = "filter (\<lambda>ob. kind_of ob = k) obs"
  consider (none) "?f = []" | (one) ob where "?f = [ob]" | (more) a b c where "?f = a # b # c"
    by (metis neq_Nil_conv)
  then show ?case
  proof cases
    case none
    then have "k \<notin> kind_of ` set obs" by (auto simp: filter_empty_conv)
    then show ?thesis using Cons none by auto
  next
    case one
    then have ob: "{o' \<in> set obs. kind_of o' = k} = {ob}"
      by (metis list.set(1) list.simps(15) set_filter)
    then have k: "kind_of ob = k" "k \<in> kind_of ` set obs" by auto
    from Cons.prems one obtain rest where r: "normalize_obligations ks obs = Inr rest" "n = ob # rest"
      by (auto simp: bind_result_Inr_iff)
    show ?thesis using Cons.IH [OF r(1)] r(2) one ob k by auto
  next
    case more
    then show ?thesis using Cons.prems by simp
  qed
qed

lemma normalize_obligations_distinct:
  "distinct (map kind_of obs) \<Longrightarrow> \<not> is_err (normalize_obligations ks obs)"
proof (induction ks)
  case Nil
  then show ?case by simp
next
  case (Cons k ks)
  let ?f = "filter (\<lambda>ob. kind_of ob = k) obs"
  have "distinct (map kind_of ?f)" using Cons.prems by (rule distinct_map_filter)
  moreover have "\<forall>ob \<in> set ?f. kind_of ob = k" by simp
  ultimately have "?f = [] \<or> (\<exists>ob. ?f = [ob])"
    by (cases ?f rule: remdups_adj.cases) auto
  then show ?case using Cons by (cases "normalize_obligations ks obs") auto
qed

lemma distinct_map_iff_filters:
  "distinct (map f xs) \<longleftrightarrow> (\<forall>k. length (filter (\<lambda>x. f x = k) xs) \<le> 1)"
proof (induction xs)
  case Nil
  then show ?case by simp
next
  case (Cons x xs)
  show ?case
  proof (cases "f x \<in> f ` set xs")
    case True
    then have "filter (\<lambda>y. f y = f x) xs \<noteq> []" by (auto simp: filter_empty_conv)
    then have "\<not> length (filter (\<lambda>y. f y = f x) (x # xs)) \<le> 1" by simp
    then show ?thesis using True by (metis distinct.simps(2) list.set_map list.simps(9))
  next
    case False
    then have "filter (\<lambda>y. f y = f x) xs = []" by (simp add: filter_empty_conv) (metis imageI)
    then show ?thesis using False Cons.IH by (auto split: if_splits)
  qed
qed

text \<open>
  Building the obligation list of an allow decision succeeds exactly when no two
  obligations are of the same kind, and then the result is the same obligations, none
  dropped or added, sorted by the canonical evaluation order; building it again changes
  nothing.
\<close>

theorem obligations_new_canonical:
  "case obligations_new obs of
     Inl _ \<Rightarrow> \<not> distinct (map kind_of obs)
   | Inr n \<Rightarrow> distinct (map kind_of obs) \<and> mset n = mset obs
       \<and> sorted (map (\<lambda>ob. obligation_rank (kind_of ob)) n) \<and> obligations_new n = Inr n"
proof (cases "obligations_new obs")
  case (Inl e)
  then show ?thesis
    using normalize_obligations_distinct [of obs OBLIGATION_EVALUATION_ORDER]
    by (auto simp: obligations_new_eq)
next
  case (Inr n)
  then have eq: "normalize_obligations OBLIGATION_EVALUATION_ORDER obs = Inr n"
    by (simp add: obligations_new_eq)
  have canon: "distinct (map kind_of m) \<and> mset m = mset obs' \<and> distinct (map kind_of obs')
      \<and> sorted (map (\<lambda>ob. obligation_rank (kind_of ob)) m)
      \<and> map kind_of m =
          filter (\<lambda>k. k \<in> kind_of ` set obs') OBLIGATION_EVALUATION_ORDER"
    if m: "normalize_obligations OBLIGATION_EVALUATION_ORDER obs' = Inr m" for m obs'
  proof -
    note f = normalize_obligations_Inr [OF m]
    have dm: "distinct (map kind_of m)" using f distinct_order by simp
    have dob: "distinct (map kind_of obs')" using f by (simp add: distinct_map_iff_filters)
    have "set m = set obs'" using f by simp
    then have "mset m = mset obs'"
      using dm dob by (metis distinct_map set_eq_iff_mset_eq_distinct)
    moreover have "sorted (map obligation_rank (map kind_of m))"
      using f sorted_rank_order by (simp add: sorted_filter)
    moreover have "map obligation_rank (map kind_of m) = map (\<lambda>ob. obligation_rank (kind_of ob)) m"
      by simp
    ultimately show ?thesis using f dm dob by metis
  qed
  have c: "distinct (map kind_of n)" "mset n = mset obs" using canon [OF eq] by auto
  obtain m where m: "normalize_obligations OBLIGATION_EVALUATION_ORDER n = Inr m"
    using normalize_obligations_distinct [OF c(1)] by (auto simp: not_is_err_iff)
  have "map kind_of m = map kind_of n"
    using canon [OF m] canon [OF eq] c(2) by (metis set_mset_mset)
  moreover have "set m = set n" using canon [OF m] by (metis set_mset_mset)
  ultimately have "m = n" using c(1)
    by (metis (no_types, lifting) distinct_map map_inj_on sup.idem)
  then show ?thesis using Inr canon [OF eq] m by (simp add: obligations_new_eq)
qed

end
