(* ===== verification/Resources.thy ===== *)
theory Resources
  imports HostTypes Traces
begin

section \<open>The resource governor\<close>

text \<open>
  \<open>crates/ironclaw_resources/src/lib.rs\<close>: before costed work starts, estimated resources
  are reserved against every account of the scope's cascade; afterwards the reservation is
  reconciled with the actual usage or released, once. The mutex serialises the operations,
  so each is one atomic state transition. Decimal arithmetic (\<open>rust_decimal\<close>) is an
  argument of the operations, the record \<open>decimal_ops\<close>; \<open>u64\<close> and \<open>u32\<close> are words with
  Rust's saturating arithmetic.
\<close>

record decimal_ops =
  dec_checked_add :: "decimal \<Rightarrow> decimal \<Rightarrow> decimal option"
  dec_checked_sub :: "decimal \<Rightarrow> decimal \<Rightarrow> decimal option"
  dec_MAX :: decimal

subsection \<open>Accounts\<close>

datatype resource_account =
    TenantAccount tenant_id
  | UserAccount tenant_id user_id
  | ProjectAccount tenant_id user_id project_id
  | AgentAccount tenant_id user_id "project_id option" agent_id
  | MissionAccount tenant_id user_id "project_id option" mission_id
  | ThreadAccount tenant_id user_id "project_id option" "mission_id option" thread_id

definition cascade :: "resource_scope \<Rightarrow> resource_account list" where
  "cascade s =
     [TenantAccount (rs_tenant_id s), UserAccount (rs_tenant_id s) (rs_user_id s)]
     @ (case rs_project_id s of None \<Rightarrow> []
        | Some p \<Rightarrow> [ProjectAccount (rs_tenant_id s) (rs_user_id s) p])
     @ (case rs_agent_id s of None \<Rightarrow> []
        | Some a \<Rightarrow> [AgentAccount (rs_tenant_id s) (rs_user_id s) (rs_project_id s) a])
     @ (case rs_mission_id s of None \<Rightarrow> []
        | Some m \<Rightarrow> [MissionAccount (rs_tenant_id s) (rs_user_id s) (rs_project_id s) m])
     @ (case rs_thread_id s of None \<Rightarrow> []
        | Some t \<Rightarrow> [ThreadAccount (rs_tenant_id s) (rs_user_id s) (rs_project_id s)
                     (rs_mission_id s) t])"

subsection \<open>Limits, denials and errors\<close>

record resource_limits =
  lm_max_usd :: "decimal option"
  lm_max_input_tokens :: "u64 option"
  lm_max_output_tokens :: "u64 option"
  lm_max_wall_clock_ms :: "u64 option"
  lm_max_output_bytes :: "u64 option"
  lm_max_network_egress_bytes :: "u64 option"
  lm_max_process_count :: "u32 option"
  lm_max_concurrency_slots :: "u32 option"

datatype resource_dimension =
    Usd
  | InputTokens
  | OutputTokens
  | WallClockMs
  | OutputBytes
  | NetworkEgressBytes
  | ProcessCount
  | ConcurrencySlots

datatype resource_value = DecimalValue decimal | IntegerValue u64

record resource_denial =
  dn_account :: resource_account
  dn_dimension :: resource_dimension
  dn_limit :: resource_value
  dn_current_usage :: resource_value
  dn_active_reserved :: resource_value
  dn_requested :: resource_value

datatype resource_error =
    LimitExceeded resource_denial
  | ReservationAlreadyExists resource_reservation_id
  | InvalidEstimate resource_dimension string
  | ReservationMismatch resource_reservation_id
  | UnknownReservation resource_reservation_id
  | ReservationClosed resource_reservation_id reservation_status

subsection \<open>Tallies\<close>

record resource_tally =
  tl_usd :: decimal
  tl_input_tokens :: u64
  tl_output_tokens :: u64
  tl_wall_clock_ms :: u64
  tl_output_bytes :: u64
  tl_network_egress_bytes :: u64
  tl_process_count :: u32
  tl_concurrency_slots :: u32

definition default_tally :: resource_tally where
  "default_tally = \<lparr>tl_usd = 0, tl_input_tokens = 0, tl_output_tokens = 0,
     tl_wall_clock_ms = 0, tl_output_bytes = 0, tl_network_egress_bytes = 0,
     tl_process_count = 0, tl_concurrency_slots = 0\<rparr>"

definition unwrap_or_default :: "'a::zero option \<Rightarrow> 'a" where
  "unwrap_or_default v = (case v of None \<Rightarrow> 0 | Some x \<Rightarrow> x)"

definition from_estimate :: "resource_estimate \<Rightarrow> resource_tally" where
  "from_estimate e = \<lparr>
     tl_usd = unwrap_or_default (re_usd e),
     tl_input_tokens = unwrap_or_default (re_input_tokens e),
     tl_output_tokens = unwrap_or_default (re_output_tokens e),
     tl_wall_clock_ms = unwrap_or_default (re_wall_clock_ms e),
     tl_output_bytes = unwrap_or_default (re_output_bytes e),
     tl_network_egress_bytes = unwrap_or_default (re_network_egress_bytes e),
     tl_process_count = unwrap_or_default (re_process_count e),
     tl_concurrency_slots = unwrap_or_default (re_concurrency_slots e)\<rparr>"

definition from_usage :: "resource_usage \<Rightarrow> resource_tally" where
  "from_usage u = \<lparr>
     tl_usd = ru_usd u,
     tl_input_tokens = ru_input_tokens u,
     tl_output_tokens = ru_output_tokens u,
     tl_wall_clock_ms = ru_wall_clock_ms u,
     tl_output_bytes = ru_output_bytes u,
     tl_network_egress_bytes = ru_network_egress_bytes u,
     tl_process_count = ru_process_count u,
     tl_concurrency_slots = 0\<rparr>"

definition add_assign :: "decimal_ops \<Rightarrow> resource_tally \<Rightarrow> resource_tally \<Rightarrow> resource_tally" where
  "add_assign ops a b = \<lparr>
     tl_usd = (case dec_checked_add ops (tl_usd a) (tl_usd b) of
                 Some v \<Rightarrow> v | None \<Rightarrow> dec_MAX ops),
     tl_input_tokens = saturating_add (tl_input_tokens a) (tl_input_tokens b),
     tl_output_tokens = saturating_add (tl_output_tokens a) (tl_output_tokens b),
     tl_wall_clock_ms = saturating_add (tl_wall_clock_ms a) (tl_wall_clock_ms b),
     tl_output_bytes = saturating_add (tl_output_bytes a) (tl_output_bytes b),
     tl_network_egress_bytes =
       saturating_add (tl_network_egress_bytes a) (tl_network_egress_bytes b),
     tl_process_count = saturating_add (tl_process_count a) (tl_process_count b),
     tl_concurrency_slots = saturating_add (tl_concurrency_slots a) (tl_concurrency_slots b)\<rparr>"

definition sub_assign :: "decimal_ops \<Rightarrow> resource_tally \<Rightarrow> resource_tally \<Rightarrow> resource_tally" where
  "sub_assign ops a b = \<lparr>
     tl_usd = (case dec_checked_sub ops (tl_usd a) (tl_usd b) of
                 Some v \<Rightarrow> max v 0 | None \<Rightarrow> 0),
     tl_input_tokens = saturating_sub (tl_input_tokens a) (tl_input_tokens b),
     tl_output_tokens = saturating_sub (tl_output_tokens a) (tl_output_tokens b),
     tl_wall_clock_ms = saturating_sub (tl_wall_clock_ms a) (tl_wall_clock_ms b),
     tl_output_bytes = saturating_sub (tl_output_bytes a) (tl_output_bytes b),
     tl_network_egress_bytes =
       saturating_sub (tl_network_egress_bytes a) (tl_network_egress_bytes b),
     tl_process_count = saturating_sub (tl_process_count a) (tl_process_count b),
     tl_concurrency_slots = saturating_sub (tl_concurrency_slots a) (tl_concurrency_slots b)\<rparr>"

subsection \<open>State\<close>

record reservation_record =
  rec_reservation :: resource_reservation
  rec_accounts :: "resource_account list"
  rec_tally :: resource_tally
  rec_status :: reservation_status
  rec_actual :: "resource_usage option"

record resource_state =
  st_limits :: "resource_account \<rightharpoonup> resource_limits"
  st_reserved_by_account :: "resource_account \<rightharpoonup> resource_tally"
  st_usage_by_account :: "resource_account \<rightharpoonup> resource_tally"
  st_reservations :: "resource_reservation_id \<rightharpoonup> reservation_record"

definition governor_new :: resource_state where
  "governor_new = \<lparr>st_limits = Map.empty, st_reserved_by_account = Map.empty,
     st_usage_by_account = Map.empty, st_reservations = Map.empty\<rparr>"

definition or_default :: "resource_tally option \<Rightarrow> resource_tally" where
  "or_default t = (case t of None \<Rightarrow> default_tally | Some x \<Rightarrow> x)"

definition reserved_for :: "resource_state \<Rightarrow> resource_account \<Rightarrow> resource_tally" where
  "reserved_for s a = or_default (st_reserved_by_account s a)"

definition usage_for :: "resource_state \<Rightarrow> resource_account \<Rightarrow> resource_tally" where
  "usage_for s a = or_default (st_usage_by_account s a)"

subsection \<open>Checks\<close>

definition validate_estimate :: "resource_estimate \<Rightarrow> (resource_error, unit) result" where
  "validate_estimate e =
     (case re_usd e of
        Some usd \<Rightarrow> if usd < 0 then Inl (InvalidEstimate Usd ''must be non-negative'') else Inr ()
      | None \<Rightarrow> Inr ())"

definition validate_usage :: "resource_usage \<Rightarrow> (resource_error, unit) result" where
  "validate_usage u =
     (if ru_usd u < 0 then Inl (InvalidEstimate Usd ''must be non-negative'') else Inr ())"

definition check_decimal ::
    "decimal_ops \<Rightarrow> resource_account \<Rightarrow> resource_dimension \<Rightarrow> decimal option \<Rightarrow> decimal \<Rightarrow> decimal
     \<Rightarrow> decimal \<Rightarrow> resource_denial option" where
  "check_decimal ops account dimension limit usage reserved requested =
     (case limit of None \<Rightarrow> None
      | Some l \<Rightarrow>
        (let exceeds =
           (case Option.bind (dec_checked_add ops usage reserved)
                   (\<lambda>subtotal. dec_checked_add ops subtotal requested) of
              Some sum_total \<Rightarrow> l < sum_total
            | None \<Rightarrow> True)
         in if exceeds then
              Some \<lparr>dn_account = account, dn_dimension = dimension, dn_limit = DecimalValue l,
                dn_current_usage = DecimalValue usage, dn_active_reserved = DecimalValue reserved,
                dn_requested = DecimalValue requested\<rparr>
            else None))"

definition check_integer ::
    "resource_account \<Rightarrow> resource_dimension \<Rightarrow> u64 option \<Rightarrow> u64 \<Rightarrow> u64 \<Rightarrow> u64
     \<Rightarrow> resource_denial option" where
  "check_integer account dimension limit usage reserved requested =
     (case limit of None \<Rightarrow> None
      | Some l \<Rightarrow>
          if l < saturating_add (saturating_add usage reserved) requested then
            Some \<lparr>dn_account = account, dn_dimension = dimension, dn_limit = IntegerValue l,
              dn_current_usage = IntegerValue usage, dn_active_reserved = IntegerValue reserved,
              dn_requested = IntegerValue requested\<rparr>
          else None)"

definition or_else :: "'a option \<Rightarrow> 'a option \<Rightarrow> 'a option" where
  "or_else x y = (case x of Some v \<Rightarrow> Some v | None \<Rightarrow> y)"

text \<open>\<open>u64::from\<close> on a \<open>u32\<close>.\<close>

definition u64_from :: "u32 \<Rightarrow> u64" where
  "u64_from w = ucast w"

definition check_limits ::
    "decimal_ops \<Rightarrow> resource_account \<Rightarrow> resource_limits \<Rightarrow> resource_tally \<Rightarrow> resource_tally
     \<Rightarrow> resource_tally \<Rightarrow> resource_denial option" where
  "check_limits ops account limits usage reserved requested =
     or_else (check_decimal ops account Usd (lm_max_usd limits)
                (tl_usd usage) (tl_usd reserved) (tl_usd requested))
    (or_else (check_integer account InputTokens (lm_max_input_tokens limits)
                (tl_input_tokens usage) (tl_input_tokens reserved) (tl_input_tokens requested))
    (or_else (check_integer account OutputTokens (lm_max_output_tokens limits)
                (tl_output_tokens usage) (tl_output_tokens reserved) (tl_output_tokens requested))
    (or_else (check_integer account WallClockMs (lm_max_wall_clock_ms limits)
                (tl_wall_clock_ms usage) (tl_wall_clock_ms reserved) (tl_wall_clock_ms requested))
    (or_else (check_integer account OutputBytes (lm_max_output_bytes limits)
                (tl_output_bytes usage) (tl_output_bytes reserved) (tl_output_bytes requested))
    (or_else (check_integer account NetworkEgressBytes (lm_max_network_egress_bytes limits)
                (tl_network_egress_bytes usage) (tl_network_egress_bytes reserved)
                (tl_network_egress_bytes requested))
    (or_else (check_integer account ProcessCount
                (map_option u64_from (lm_max_process_count limits))
                (u64_from (tl_process_count usage)) (u64_from (tl_process_count reserved))
                (u64_from (tl_process_count requested)))
             (check_integer account ConcurrencySlots
                (map_option u64_from (lm_max_concurrency_slots limits))
                (u64_from (tl_concurrency_slots usage)) (u64_from (tl_concurrency_slots reserved))
                (u64_from (tl_concurrency_slots requested)))))))))"

subsection \<open>Operations\<close>

definition set_limit ::
    "resource_account \<Rightarrow> resource_limits \<Rightarrow> resource_state \<Rightarrow> resource_state" where
  "set_limit account limits s = s\<lparr>st_limits := (st_limits s)(account \<mapsto> limits)\<rparr>"

text \<open>The loop over the cascade: the first denial is the early return.\<close>

fun first_denial ::
    "decimal_ops \<Rightarrow> resource_state \<Rightarrow> resource_tally \<Rightarrow> resource_account list
     \<Rightarrow> resource_denial option" where
  "first_denial ops s requested [] = None"
| "first_denial ops s requested (a # as) =
     (case st_limits s a of
        None \<Rightarrow> first_denial ops s requested as
      | Some limits \<Rightarrow>
          (case check_limits ops a limits (usage_for s a) (reserved_for s a) requested of
             Some denial \<Rightarrow> Some denial
           | None \<Rightarrow> first_denial ops s requested as))"

text \<open>\<open>map.entry(account).or_default()\<close> updated for each account of the list.\<close>

definition update_all ::
    "(resource_tally \<Rightarrow> resource_tally) \<Rightarrow> resource_account list
     \<Rightarrow> (resource_account \<rightharpoonup> resource_tally) \<Rightarrow> (resource_account \<rightharpoonup> resource_tally)" where
  "update_all f accounts m = fold (\<lambda>a m. m(a \<mapsto> f (or_default (m a)))) accounts m"

definition reserve_with_id ::
    "decimal_ops \<Rightarrow> resource_scope \<Rightarrow> resource_estimate \<Rightarrow> resource_reservation_id
     \<Rightarrow> (resource_state, resource_error, resource_reservation) operation" where
  "reserve_with_id ops scope estimate reservation_id s =
     (case validate_estimate estimate of
        Inl e \<Rightarrow> (Inl e, s)
      | Inr _ \<Rightarrow>
        (if reservation_id \<in> dom (st_reservations s) then
           (Inl (ReservationAlreadyExists reservation_id), s)
         else
           (let accounts = cascade scope; requested = from_estimate estimate in
            case first_denial ops s requested accounts of
              Some denial \<Rightarrow> (Inl (LimitExceeded denial), s)
            | None \<Rightarrow>
              (let reservation = \<lparr>rv_id = reservation_id, rv_scope = scope, rv_estimate = estimate\<rparr>
               in (Inr reservation,
                   s\<lparr>st_reserved_by_account :=
                       update_all (\<lambda>t. add_assign ops t requested) accounts
                         (st_reserved_by_account s),
                     st_reservations := (st_reservations s)(reservation_id \<mapsto>
                       \<lparr>rec_reservation = reservation, rec_accounts = accounts,
                        rec_tally = requested, rec_status = ReservationActive,
                        rec_actual = None\<rparr>)\<rparr>)))))"

text \<open>\<open>reserve\<close> draws the id with \<open>ResourceReservationId::new\<close>: an argument here.\<close>

definition reserve ::
    "decimal_ops \<Rightarrow> resource_scope \<Rightarrow> resource_estimate \<Rightarrow> resource_reservation_id
     \<Rightarrow> (resource_state, resource_error, resource_reservation) operation" where
  "reserve ops scope estimate new_id s = reserve_with_id ops scope estimate new_id s"

text \<open>
  \<open>reconcile\<close> and \<open>release\<close> take the record out of the map and put it back on every path.
\<close>

definition reconcile ::
    "decimal_ops \<Rightarrow> resource_reservation_id \<Rightarrow> resource_usage
     \<Rightarrow> (resource_state, resource_error, resource_receipt) operation" where
  "reconcile ops reservation_id actual s =
     (case st_reservations s reservation_id of
        None \<Rightarrow> (Inl (UnknownReservation reservation_id), s)
      | Some record \<Rightarrow>
        (let removed = (st_reservations s)(reservation_id := None) in
         if rec_status record \<noteq> ReservationActive then
           (Inl (ReservationClosed reservation_id (rec_status record)),
            s\<lparr>st_reservations := removed(reservation_id \<mapsto> record)\<rparr>)
         else (case validate_usage actual of
             Inl e \<Rightarrow> (Inl e, s\<lparr>st_reservations := removed(reservation_id \<mapsto> record)\<rparr>)
           | Inr _ \<Rightarrow>
             (Inr \<lparr>rr_id = reservation_id, rr_scope = rv_scope (rec_reservation record),
                rr_status = Reconciled, rr_estimate = rv_estimate (rec_reservation record),
                rr_actual = Some actual\<rparr>,
              s\<lparr>st_reserved_by_account :=
                  update_all (\<lambda>t. sub_assign ops t (rec_tally record)) (rec_accounts record)
                    (st_reserved_by_account s),
                st_usage_by_account :=
                  update_all (\<lambda>t. add_assign ops t (from_usage actual)) (rec_accounts record)
                    (st_usage_by_account s),
                st_reservations := removed(reservation_id \<mapsto>
                  record\<lparr>rec_status := Reconciled, rec_actual := Some actual\<rparr>)\<rparr>))))"

definition release ::
    "decimal_ops \<Rightarrow> resource_reservation_id
     \<Rightarrow> (resource_state, resource_error, resource_receipt) operation" where
  "release ops reservation_id s =
     (case st_reservations s reservation_id of
        None \<Rightarrow> (Inl (UnknownReservation reservation_id), s)
      | Some record \<Rightarrow>
        (let removed = (st_reservations s)(reservation_id := None) in
         if rec_status record \<noteq> ReservationActive then
           (Inl (ReservationClosed reservation_id (rec_status record)),
            s\<lparr>st_reservations := removed(reservation_id \<mapsto> record)\<rparr>)
         else
           (Inr \<lparr>rr_id = reservation_id, rr_scope = rv_scope (rec_reservation record),
              rr_status = Released, rr_estimate = rv_estimate (rec_reservation record),
              rr_actual = None\<rparr>,
            s\<lparr>st_reserved_by_account :=
                update_all (\<lambda>t. sub_assign ops t (rec_tally record)) (rec_accounts record)
                  (st_reserved_by_account s),
              st_reservations := removed(reservation_id \<mapsto> record\<lparr>rec_status := Released\<rparr>)\<rparr>)))"

subsection \<open>The governor as a service\<close>

text \<open>The operations of the trait \<open>ResourceGovernor\<close> as commands, with their replies.\<close>

datatype governor_command =
    SetLimit resource_account resource_limits
  | Reserve resource_scope resource_estimate resource_reservation_id
  | Reconcile resource_reservation_id resource_usage
  | Release resource_reservation_id

datatype governor_reply =
    LimitSet
  | ReservedReply "(resource_error, resource_reservation) result"
  | ClosedReply "(resource_error, resource_receipt) result"

fun governor_step ::
    "decimal_ops \<Rightarrow> governor_command \<Rightarrow> resource_state \<Rightarrow> governor_reply \<times> resource_state" where
  "governor_step ops (SetLimit a l) s = (LimitSet, set_limit a l s)"
| "governor_step ops (Reserve scope e i) s =
     (case reserve_with_id ops scope e i s of (r, s') \<Rightarrow> (ReservedReply r, s'))"
| "governor_step ops (Reconcile i u) s =
     (case reconcile ops i u s of (r, s') \<Rightarrow> (ClosedReply r, s'))"
| "governor_step ops (Release i) s =
     (case release ops i s of (r, s') \<Rightarrow> (ClosedReply r, s'))"

text \<open>What callers may see of a reservation: whether it exists, and its status.\<close>

definition status_of :: "resource_state \<Rightarrow> resource_reservation_id \<Rightarrow> reservation_status option" where
  "status_of s i = map_option rec_status (st_reservations s i)"

fun opens :: "resource_reservation_id \<Rightarrow> governor_command \<Rightarrow> governor_reply \<Rightarrow> bool" where
  "opens i (Reserve _ _ j) (ReservedReply (Inr _)) = (i = j)"
| "opens i _ _ = False"

fun settles :: "resource_reservation_id \<Rightarrow> governor_command \<Rightarrow> governor_reply \<Rightarrow> bool" where
  "settles i (Reconcile j _) (ClosedReply (Inr _)) = (i = j)"
| "settles i (Release j) (ClosedReply (Inr _)) = (i = j)"
| "settles i _ _ = False"

text \<open>
  The contract of the trait: a reservation id is opened when it is fresh, closed only while
  active, and never opened again; an operation that fails changes nothing.
\<close>

locale resource_governor =
  fixes step :: "governor_command \<Rightarrow> 's \<Rightarrow> governor_reply \<times> 's"
    and status :: "'s \<Rightarrow> resource_reservation_id \<Rightarrow> reservation_status option"
  assumes opened: "opens i c (fst (step c s)) \<Longrightarrow>
      status s i = None \<and> status (snd (step c s)) i = Some ReservationActive"
    and settled: "settles i c (fst (step c s)) \<Longrightarrow>
      status s i = Some ReservationActive
      \<and> (\<exists>st. status (snd (step c s)) i = Some st \<and> st \<noteq> ReservationActive)"
    and untouched: "\<not> opens i c (fst (step c s)) \<Longrightarrow> \<not> settles i c (fst (step c s)) \<Longrightarrow>
      status (snd (step c s)) i = status s i"
begin

definition is_closed :: "resource_reservation_id \<Rightarrow> 's \<Rightarrow> bool" where
  "is_closed i s \<longleftrightarrow> (\<exists>st. status s i = Some st \<and> st \<noteq> ReservationActive)"

definition is_known :: "resource_reservation_id \<Rightarrow> 's \<Rightarrow> bool" where
  "is_known i s \<longleftrightarrow> status s i \<noteq> None"

lemma settles_once: "once_only step (is_closed i) (settles i)"
proof
  fix c s
  assume "settles i c (fst (step c s))"
  from settled [OF this] show "\<not> is_closed i s \<and> is_closed i (snd (step c s))"
    by (auto simp: is_closed_def)
next
  fix s c
  assume "is_closed i s"
  then show "is_closed i (snd (step c s))"
    by (cases "opens i c (fst (step c s))"; cases "settles i c (fst (step c s))")
      (auto simp: is_closed_def untouched dest: opened settled)
qed

lemma opens_once: "once_only step (is_known i) (opens i)"
proof
  fix c s
  assume "opens i c (fst (step c s))"
  from opened [OF this] show "\<not> is_known i s \<and> is_known i (snd (step c s))"
    by (simp add: is_known_def)
next
  fix s c
  assume "is_known i s"
  then show "is_known i (snd (step c s))"
    by (cases "opens i c (fst (step c s))"; cases "settles i c (fst (step c s))")
      (auto simp: is_known_def untouched dest: opened settled)
qed

text \<open>A reservation is closed at most as often as it was opened, and both at most once.\<close>

lemma settled_after_opened:
  "occurrences (settles i) (history step cs s)
     \<le> occurrences (opens i) (history step cs s) + (if status s i = Some ReservationActive then 1 else 0)"
proof (induction cs arbitrary: s)
  case Nil
  then show ?case by simp
next
  case (Cons c cs)
  let ?s' = "snd (step c s)"
  note ih = Cons.IH [of ?s']
  consider (o) "opens i c (fst (step c s))" | (c) "settles i c (fst (step c s))"
    | (n) "\<not> opens i c (fst (step c s))" "\<not> settles i c (fst (step c s))" by blast
  then show ?case
  proof cases
    case o
    then have "\<not> settles i c (fst (step c s))" using opened settled by fastforce
    then show ?thesis using ih o opened [OF o] by simp
  next
    case c
    then have "\<not> opens i c (fst (step c s))" using opened settled by fastforce
    then show ?thesis using ih c settled [OF c] by (auto split: if_splits)
  next
    case n
    then show ?thesis using ih untouched [OF n] by simp
  qed
qed

lemma exactly_once:
  "occurrences (opens i) (history step cs s) \<le> 1
   \<and> occurrences (settles i) (history step cs s) \<le> 1
   \<and> (status s i = None \<longrightarrow>
        occurrences (settles i) (history step cs s) \<le> occurrences (opens i) (history step cs s))"
  using once_only.at_most_once [OF opens_once] once_only.at_most_once [OF settles_once]
    settled_after_opened [of i cs s] by auto

end

subsection \<open>The in-memory governor fulfils the contract\<close>

lemma reserve_with_id_cases:
  obtains (rejected) e where "reserve_with_id ops scope est i s = (Inl e, s)"
  | (accepted) "validate_estimate est = Inr ()" "i \<notin> dom (st_reservations s)"
      "first_denial ops s (from_estimate est) (cascade scope) = None"
      "reserve_with_id ops scope est i s =
         (Inr \<lparr>rv_id = i, rv_scope = scope, rv_estimate = est\<rparr>,
          s\<lparr>st_reserved_by_account :=
              update_all (\<lambda>t. add_assign ops t (from_estimate est)) (cascade scope)
                (st_reserved_by_account s),
            st_reservations := (st_reservations s)(i \<mapsto>
              \<lparr>rec_reservation = \<lparr>rv_id = i, rv_scope = scope, rv_estimate = est\<rparr>,
               rec_accounts = cascade scope, rec_tally = from_estimate est,
               rec_status = ReservationActive, rec_actual = None\<rparr>)\<rparr>)"
proof -
  consider (e) e where "validate_estimate est = Inl e"
    | (d) "validate_estimate est = Inr ()" "i \<in> dom (st_reservations s)"
    | (l) d where "validate_estimate est = Inr ()" "i \<notin> dom (st_reservations s)"
        "first_denial ops s (from_estimate est) (cascade scope) = Some d"
    | (k) "validate_estimate est = Inr ()" "i \<notin> dom (st_reservations s)"
        "first_denial ops s (from_estimate est) (cascade scope) = None"
    by (metis (full_types) not_None_eq old.unit.exhaust sum.exhaust)
  then show thesis
    by cases (rule rejected accepted; (simp add: reserve_with_id_def Let_def)?; fail)+
qed

lemma reconcile_cases:
  obtains (rejected) e where "reconcile ops i u s = (Inl e, s)"
  | (accepted) r receipt where "st_reservations s i = Some r" "rec_status r = ReservationActive"
      "reconcile ops i u s =
         (Inr receipt,
          s\<lparr>st_reserved_by_account :=
              update_all (\<lambda>t. sub_assign ops t (rec_tally r)) (rec_accounts r)
                (st_reserved_by_account s),
            st_usage_by_account :=
              update_all (\<lambda>t. add_assign ops t (from_usage u)) (rec_accounts r)
                (st_usage_by_account s),
            st_reservations := (st_reservations s)(i \<mapsto>
              r\<lparr>rec_status := Reconciled, rec_actual := Some u\<rparr>)\<rparr>)"
proof (cases "st_reservations s i")
  case None
  show thesis by (rule rejected) (simp add: reconcile_def None)
next
  case (Some r)
  have put_back: "(st_reservations s)(i \<mapsto> r) = st_reservations s"
    using Some by auto
  consider (c) "rec_status r \<noteq> ReservationActive" | (v) e where "validate_usage u = Inl e"
    | (k) "rec_status r = ReservationActive" "validate_usage u = Inr ()"
    by (metis (full_types) old.unit.exhaust sum.exhaust)
  then show thesis
  proof cases
    case c
    then have "reconcile ops i u s = (Inl (ReservationClosed i (rec_status r)), s)"
      by (simp add: reconcile_def Some put_back Let_def)
    then show thesis by (rule rejected)
  next
    case v
    show thesis
    proof (cases "rec_status r = ReservationActive")
      case True
      then have "reconcile ops i u s = (Inl e, s)"
        by (simp add: reconcile_def Some v put_back Let_def)
      then show thesis by (rule rejected)
    next
      case False
      then have "reconcile ops i u s = (Inl (ReservationClosed i (rec_status r)), s)"
        by (simp add: reconcile_def Some put_back Let_def)
      then show thesis by (rule rejected)
    qed
  next
    case k
    show thesis by (rule accepted [OF Some k(1)]) (simp add: reconcile_def Some k Let_def)
  qed
qed

lemma release_cases:
  obtains (rejected) e where "release ops i s = (Inl e, s)"
  | (accepted) r receipt where "st_reservations s i = Some r" "rec_status r = ReservationActive"
      "release ops i s =
         (Inr receipt,
          s\<lparr>st_reserved_by_account :=
              update_all (\<lambda>t. sub_assign ops t (rec_tally r)) (rec_accounts r)
                (st_reserved_by_account s),
            st_reservations := (st_reservations s)(i \<mapsto> r\<lparr>rec_status := Released\<rparr>)\<rparr>)"
proof (cases "st_reservations s i")
  case None
  show thesis by (rule rejected) (simp add: release_def None)
next
  case (Some r)
  show thesis
  proof (cases "rec_status r = ReservationActive")
    case True
    show thesis by (rule accepted [OF Some True]) (simp add: release_def Some True Let_def)
  next
    case False
    have "(st_reservations s)(i \<mapsto> r) = st_reservations s"
      using Some by auto
    then have "release ops i s = (Inl (ReservationClosed i (rec_status r)), s)"
      using False by (simp add: release_def Some Let_def)
    then show thesis by (rule rejected)
  qed
qed

interpretation governor: resource_governor "governor_step ops" status_of for ops
proof
  fix i c s
  assume o: "opens i c (fst (governor_step ops c s))"
  then obtain scope est where c: "c = Reserve scope est i"
    by (cases "(i, c, fst (governor_step ops c s))" rule: opens.cases) auto
  show "status_of s i = None \<and>
      status_of (snd (governor_step ops c s)) i = Some ReservationActive"
    by (rule reserve_with_id_cases [of ops scope est i s]) (use o in \<open>auto simp: c status_of_def\<close>)
next
  fix i c s
  assume o: "settles i c (fst (governor_step ops c s))"
  then consider (r) u where "c = Reconcile i u" | (l) "c = Release i"
    by (cases "(i, c, fst (governor_step ops c s))" rule: settles.cases) auto
  then show "status_of s i = Some ReservationActive \<and> (\<exists>st.
      status_of (snd (governor_step ops c s)) i = Some st \<and> st \<noteq> ReservationActive)"
  proof cases
    case r
    show ?thesis
      by (rule reconcile_cases [of ops i u s]) (use o in \<open>auto simp: r status_of_def\<close>)
  next
    case l
    show ?thesis
      by (rule release_cases [of ops i s]) (use o in \<open>auto simp: l status_of_def\<close>)
  qed
next
  fix i c s
  assume n: "\<not> opens i c (fst (governor_step ops c s))"
    "\<not> settles i c (fst (governor_step ops c s))"
  show "status_of (snd (governor_step ops c s)) i = status_of s i"
  proof (cases c)
    case (SetLimit a l)
    then show ?thesis by (simp add: set_limit_def status_of_def)
  next
    case (Reserve scope est j)
    show ?thesis
      by (rule reserve_with_id_cases [of ops scope est j s])
        (use n in \<open>auto simp: Reserve status_of_def\<close>)
  next
    case (Reconcile j u)
    show ?thesis
      by (rule reconcile_cases [of ops j u s]) (use n in \<open>auto simp: Reconcile status_of_def\<close>)
  next
    case (Release j)
    show ?thesis
      by (rule release_cases [of ops j s]) (use n in \<open>auto simp: Release status_of_def\<close>)
  qed
qed

text \<open>
  C9: whatever operations callers issue on the governor, in whatever order, every
  reservation id is granted at most once, and it is settled (reconciled or released) at most
  as often as it was granted: capacity is given back exactly once.
\<close>

theorem reservation_settled_exactly_once:
  "occurrences (opens i) (history (governor_step ops) cs governor_new) \<le> 1
   \<and> occurrences (settles i) (history (governor_step ops) cs governor_new)
       \<le> occurrences (opens i) (history (governor_step ops) cs governor_new)"
  using governor.exactly_once [of i ops cs governor_new]
  by (simp add: status_of_def governor_new_def)

subsection \<open>Integer dimensions\<close>

text \<open>The amount of a tally in an integer dimension, as a number, and the largest one.\<close>

fun amount :: "resource_dimension \<Rightarrow> resource_tally \<Rightarrow> nat" where
  "amount Usd t = 0"
| "amount InputTokens t = unat (tl_input_tokens t)"
| "amount OutputTokens t = unat (tl_output_tokens t)"
| "amount WallClockMs t = unat (tl_wall_clock_ms t)"
| "amount OutputBytes t = unat (tl_output_bytes t)"
| "amount NetworkEgressBytes t = unat (tl_network_egress_bytes t)"
| "amount ProcessCount t = unat (tl_process_count t)"
| "amount ConcurrencySlots t = unat (tl_concurrency_slots t)"

fun amount_max :: "resource_dimension \<Rightarrow> nat" where
  "amount_max ProcessCount = 2 ^ 32 - 1"
| "amount_max ConcurrencySlots = 2 ^ 32 - 1"
| "amount_max _ = 2 ^ 64 - 1"

fun limit_of :: "resource_dimension \<Rightarrow> resource_limits \<Rightarrow> nat option" where
  "limit_of Usd l = None"
| "limit_of InputTokens l = map_option unat (lm_max_input_tokens l)"
| "limit_of OutputTokens l = map_option unat (lm_max_output_tokens l)"
| "limit_of WallClockMs l = map_option unat (lm_max_wall_clock_ms l)"
| "limit_of OutputBytes l = map_option unat (lm_max_output_bytes l)"
| "limit_of NetworkEgressBytes l = map_option unat (lm_max_network_egress_bytes l)"
| "limit_of ProcessCount l = map_option unat (lm_max_process_count l)"
| "limit_of ConcurrencySlots l = map_option unat (lm_max_concurrency_slots l)"

lemma amount_default [simp]: "amount d default_tally = 0"
  by (cases d) (simp_all add: default_tally_def)

lemma amount_add_assign [simp]:
  "amount d (add_assign ops a b) = min (amount d a + amount d b) (amount_max d)"
  by (cases d) (simp_all add: add_assign_def unat_saturating_add)

lemma amount_sub_assign [simp]: "amount d (sub_assign ops a b) = amount d a - amount d b"
  by (cases d) (simp_all add: sub_assign_def unat_saturating_sub)

lemma amount_le_max: "amount d t \<le> amount_max d"
  by (cases d)
    (use unat_le_max [where ?'a = 64] unat_le_max [where ?'a = 32] in \<open>simp_all\<close>)

lemma or_default_simps [simp]: "or_default None = default_tally" "or_default (Some t) = t"
  by (simp_all add: or_default_def)

lemma distinct_cascade: "distinct (cascade scope)"
  by (auto simp: cascade_def split: option.splits)

lemma update_all_apply:
  "distinct accounts \<Longrightarrow>
     or_default (update_all f accounts m a) =
       (if a \<in> set accounts then f (or_default (m a)) else or_default (m a))"
  using fold_upd_mem [of accounts a "\<lambda>_ t. f (or_default t)" m]
    fold_upd_other [of a accounts "\<lambda>_ t. f (or_default t)" m]
  by (simp add: update_all_def)

subsection \<open>The ledger\<close>

definition held :: "resource_dimension \<Rightarrow> resource_account \<Rightarrow> reservation_record \<Rightarrow> nat" where
  "held d a r = (if a \<in> set (rec_accounts r) then amount d (rec_tally r) else 0)"

text \<open>What the active reservations, and all that were ever granted, hold of an account.\<close>

definition active_total :: "resource_dimension \<Rightarrow> resource_account \<Rightarrow> resource_state \<Rightarrow> nat" where
  "active_total d a s = (\<Sum>i\<in>{i \<in> dom (st_reservations s). status_of s i = Some ReservationActive}.
     held d a (the (st_reservations s i)))"

definition granted_total :: "resource_dimension \<Rightarrow> resource_account \<Rightarrow> resource_state \<Rightarrow> nat" where
  "granted_total d a s = (\<Sum>i\<in>dom (st_reservations s). held d a (the (st_reservations s i)))"

definition ledger_ok :: "resource_state \<Rightarrow> bool" where
  "ledger_ok s \<longleftrightarrow> finite (dom (st_reservations s))
     \<and> (\<forall>r \<in> ran (st_reservations s). distinct (rec_accounts r))
     \<and> (\<forall>d a. amount d (reserved_for s a) \<le> active_total d a s)
     \<and> (\<forall>d a. granted_total d a s \<le> amount_max d
          \<longrightarrow> amount d (reserved_for s a) = active_total d a s)"

lemma active_eq: "{i \<in> dom (st_reservations s). status_of s i = Some ReservationActive} =
    {i. status_of s i = Some ReservationActive}"
  by (auto simp: status_of_def)

lemma active_le_granted:
  "finite (dom (st_reservations s)) \<Longrightarrow> active_total d a s \<le> granted_total d a s"
  unfolding active_total_def granted_total_def by (rule sum_mono2) auto

lemma active_total_open:
  assumes "finite (dom (st_reservations s))" "st_reservations s i = None"
    "st_reservations s' = (st_reservations s)(i \<mapsto> r)" "rec_status r = ReservationActive"
  shows "active_total d a s' = active_total d a s + held d a r"
    and "granted_total d a s' = granted_total d a s + held d a r"
proof -
  have set: "{j. status_of s' j = Some ReservationActive}
      = insert i {j. status_of s j = Some ReservationActive}"
    using assms by (auto simp: status_of_def split: if_splits)
  have i: "i \<notin> {j. status_of s j = Some ReservationActive}"
    using assms(2) by (simp add: status_of_def)
  have fin: "finite {j. status_of s j = Some ReservationActive}"
    using assms(1) active_eq [of s] by (metis (no_types, lifting) finite_subset mem_Collect_eq subsetI)
  show "active_total d a s' = active_total d a s + held d a r"
    unfolding active_total_def active_eq set using i fin assms(3)
    by (simp add: add.commute) (rule sum.cong; auto)
  have "dom (st_reservations s') = insert i (dom (st_reservations s))" using assms(3) by simp
  moreover have "i \<notin> dom (st_reservations s)" using assms(2) by auto
  ultimately show "granted_total d a s' = granted_total d a s + held d a r"
    unfolding granted_total_def using assms(1,3)
    by (simp add: add.commute) (rule sum.cong; auto)
qed

lemma active_total_close:
  assumes "finite (dom (st_reservations s))" "st_reservations s i = Some r"
    "st_reservations s' = (st_reservations s)(i \<mapsto> r')" "rec_status r = ReservationActive"
    "rec_status r' \<noteq> ReservationActive" "\<And>d a. held d a r' = held d a r"
  shows "active_total d a s = active_total d a s' + held d a r"
    and "granted_total d a s' = granted_total d a s"
proof -
  have set: "{j. status_of s j = Some ReservationActive}
      = insert i {j. status_of s' j = Some ReservationActive}"
    using assms by (auto simp: status_of_def split: if_splits)
  have i: "i \<notin> {j. status_of s' j = Some ReservationActive}"
    using assms(3,5) by (simp add: status_of_def)
  have "{j. status_of s' j = Some ReservationActive} \<subseteq> dom (st_reservations s)"
    using assms(2,3) by (auto simp: status_of_def split: if_splits)
  then have fin: "finite {j. status_of s' j = Some ReservationActive}"
    using assms(1) by (rule finite_subset)
  have same: "(\<Sum>j\<in>{j. status_of s' j = Some ReservationActive}. held d a (the (st_reservations s j)))
     = (\<Sum>j\<in>{j. status_of s' j = Some ReservationActive}. held d a (the (st_reservations s' j)))"
    using i assms(3) by (intro sum.cong) auto
  show "active_total d a s = active_total d a s' + held d a r"
    unfolding active_total_def active_eq set using i fin assms(2) same
    by (simp add: add.commute)
  have "dom (st_reservations s') = dom (st_reservations s)" using assms(2,3) by auto
  then show "granted_total d a s' = granted_total d a s"
    unfolding granted_total_def using assms(2,3,6) by (intro sum.cong) auto
qed

lemma ledger_okI:
  assumes "finite (dom (st_reservations s))"
    and "\<And>r. r \<in> ran (st_reservations s) \<Longrightarrow> distinct (rec_accounts r)"
    and "\<And>d a. amount d (reserved_for s a) \<le> active_total d a s"
    and "\<And>d a. granted_total d a s \<le> amount_max d \<Longrightarrow>
      amount d (reserved_for s a) = active_total d a s"
  shows "ledger_ok s"
  using assms by (simp add: ledger_ok_def)

lemma ledger_ok_new: "ledger_ok governor_new"
  by (rule ledger_okI)
    (simp_all add: governor_new_def reserved_for_def active_total_def granted_total_def)

lemma ledger_ok_open:
  assumes ok: "ledger_ok s" and new: "st_reservations s i = None"
    and s': "st_reservations s' = (st_reservations s)(i \<mapsto> r)"
    "st_reserved_by_account s' =
       update_all (\<lambda>t. add_assign ops t (rec_tally r)) (rec_accounts r) (st_reserved_by_account s)"
    and r: "rec_status r = ReservationActive" "distinct (rec_accounts r)"
  shows "ledger_ok s'"
proof -
  have fin: "finite (dom (st_reservations s))" using ok by (simp add: ledger_ok_def)
  note t = active_total_open [OF fin new s'(1) r(1)]
  have res: "amount d (reserved_for s' a) =
      (if a \<in> set (rec_accounts r) then min (amount d (reserved_for s a) + amount d (rec_tally r)) (amount_max d)
       else amount d (reserved_for s a))" for d a
    using r(2) by (simp add: reserved_for_def s'(2) update_all_apply)
  show ?thesis
  proof (rule ledger_okI)
    show "finite (dom (st_reservations s'))" using fin s'(1) by simp
    show "distinct (rec_accounts q)" if "q \<in> ran (st_reservations s')" for q
      using that ok r(2) new by (auto simp: s'(1) ledger_ok_def)
    fix d a
    have le: "amount d (reserved_for s a) \<le> active_total d a s"
      using ok by (simp add: ledger_ok_def)
    show "amount d (reserved_for s' a) \<le> active_total d a s'"
      using le by (auto simp: t res held_def)
    assume g: "granted_total d a s' \<le> amount_max d"
    then have "amount d (reserved_for s a) = active_total d a s"
      using ok by (simp add: ledger_ok_def t)
    moreover have "active_total d a s' \<le> amount_max d"
      using g active_le_granted [OF \<open>finite (dom (st_reservations s'))\<close>, of d a] by simp
    ultimately show "amount d (reserved_for s' a) = active_total d a s'"
      by (auto simp: t res held_def)
  qed
qed

lemma ledger_ok_close:
  assumes ok: "ledger_ok s" and old: "st_reservations s i = Some r"
    and s': "st_reservations s' = (st_reservations s)(i \<mapsto> r')"
    "st_reserved_by_account s' =
       update_all (\<lambda>t. sub_assign ops t (rec_tally r)) (rec_accounts r) (st_reserved_by_account s)"
    and r: "rec_status r = ReservationActive" "rec_status r' \<noteq> ReservationActive"
    "rec_accounts r' = rec_accounts r" "rec_tally r' = rec_tally r"
  shows "ledger_ok s'"
proof -
  have fin: "finite (dom (st_reservations s))" and dist: "distinct (rec_accounts r)"
    using ok old by (auto simp: ledger_ok_def ran_def)
  have held: "held d a r' = held d a r" for d a by (simp add: held_def r)
  note t = active_total_close [OF fin old s'(1) r(1,2) held]
  have res: "amount d (reserved_for s' a) = amount d (reserved_for s a) - held d a r" for d a
    using dist by (simp add: reserved_for_def s'(2) update_all_apply held_def)
  show ?thesis
  proof (rule ledger_okI)
    show "finite (dom (st_reservations s'))" using fin s'(1) by simp
    show "distinct (rec_accounts q)" if "q \<in> ran (st_reservations s')" for q
      using that ok dist r(3) by (auto simp: s'(1) ledger_ok_def ran_def split: if_splits)
    fix d a
    have "amount d (reserved_for s a) \<le> active_total d a s"
      using ok by (simp add: ledger_ok_def)
    then show "amount d (reserved_for s' a) \<le> active_total d a s'"
      by (simp add: res t(1))
    assume "granted_total d a s' \<le> amount_max d"
    then have "amount d (reserved_for s a) = active_total d a s"
      using ok by (simp add: ledger_ok_def t)
    then show "amount d (reserved_for s' a) = active_total d a s'"
      by (simp add: res t(1))
  qed
qed

lemma ledger_ok_step: "ledger_ok s \<Longrightarrow> ledger_ok (snd (governor_step ops c s))"
proof (cases c)
  case (SetLimit a l)
  assume "ledger_ok s"
  then show ?thesis
    by (simp add: SetLimit set_limit_def ledger_ok_def reserved_for_def active_total_def
        granted_total_def status_of_def)
next
  case (Reserve scope est i)
  assume ok: "ledger_ok s"
  show ?thesis
  proof (cases rule: reserve_with_id_cases [of ops scope est i s])
    case (rejected e)
    then show ?thesis using ok by (simp add: Reserve)
  next
    case accepted
    show ?thesis
      by (rule ledger_ok_open [OF ok])
        (use accepted in \<open>auto simp: Reserve distinct_cascade\<close>)
  qed
next
  case (Reconcile i u)
  assume ok: "ledger_ok s"
  show ?thesis
  proof (cases rule: reconcile_cases [of ops i u s])
    case (rejected e)
    then show ?thesis using ok by (simp add: Reconcile)
  next
    case (accepted r receipt)
    show ?thesis
      by (rule ledger_ok_close [OF ok accepted(1),
            where r' = "r\<lparr>rec_status := Reconciled, rec_actual := Some u\<rparr>"])
        (use accepted in \<open>simp_all add: Reconcile\<close>)
  qed
next
  case (Release i)
  assume ok: "ledger_ok s"
  show ?thesis
  proof (cases rule: release_cases [of ops i s])
    case (rejected e)
    then show ?thesis using ok by (simp add: Release)
  next
    case (accepted r receipt)
    show ?thesis
      by (rule ledger_ok_close [OF ok accepted(1), where r' = "r\<lparr>rec_status := Released\<rparr>"])
        (use accepted in \<open>simp_all add: Release\<close>)
  qed
qed


definition sample_decimal_ops :: decimal_ops where
  "sample_decimal_ops = \<lparr>dec_checked_add = (\<lambda>a b. Some (a + b)),
     dec_checked_sub = (\<lambda>a b. Some (a - b)), dec_MAX = 2 ^ 96\<rparr>"

definition sample_scope :: resource_scope where
  "sample_scope = \<lparr>rs_tenant_id = ''t'', rs_user_id = ''u'', rs_agent_id = None,
     rs_project_id = Some ''p'', rs_mission_id = None, rs_thread_id = None,
     rs_invocation_id = 9\<rparr>"

definition sample_estimate :: resource_estimate where
  "sample_estimate = \<lparr>re_usd = None, re_input_tokens = Some 5, re_output_tokens = None,
     re_wall_clock_ms = None, re_output_bytes = None, re_network_egress_bytes = None,
     re_process_count = Some 1, re_concurrency_slots = None\<rparr>"

lemmas resource_eval = governor_new_def reserve_with_id_def validate_estimate_def cascade_def
  from_estimate_def unwrap_or_default_def sample_scope_def sample_estimate_def Let_def

lemma sample_reserve:
  "final_state (governor_step sample_decimal_ops) [Reserve sample_scope sample_estimate 7] governor_new
     = snd (reserve_with_id sample_decimal_ops sample_scope sample_estimate 7 governor_new)"
  by (simp split: prod.splits)


subsection \<open>Admission\<close>

text \<open>What it means that a request fits an account's limits, over the numbers.\<close>

definition within :: "nat option \<Rightarrow> nat \<Rightarrow> bool" where
  "within limit n = (case limit of None \<Rightarrow> True | Some m \<Rightarrow> n \<le> m \<or> m = 2 ^ 64 - 1)"

definition fits ::
    "decimal_ops \<Rightarrow> resource_limits \<Rightarrow> resource_tally \<Rightarrow> resource_tally \<Rightarrow> resource_tally \<Rightarrow> bool" where
  "fits ops l usage reserved requested \<longleftrightarrow>
     (case lm_max_usd l of None \<Rightarrow> True
      | Some lim \<Rightarrow>
         (case Option.bind (dec_checked_add ops (tl_usd usage) (tl_usd reserved))
                 (\<lambda>t. dec_checked_add ops t (tl_usd requested)) of
            None \<Rightarrow> False | Some t \<Rightarrow> t \<le> lim))
     \<and> (\<forall>d \<in> {InputTokens, OutputTokens, WallClockMs, OutputBytes, NetworkEgressBytes,
             ProcessCount, ConcurrencySlots}.
          within (limit_of d l) (amount d usage + amount d reserved + amount d requested))"

lemma or_else_None_iff [simp]: "or_else x y = None \<longleftrightarrow> x = None \<and> y = None"
  by (cases x) (simp_all add: or_else_def)

lemma check_decimal_None_iff:
  "check_decimal ops a d limit u r q = None \<longleftrightarrow>
     (case limit of None \<Rightarrow> True
      | Some l \<Rightarrow> (case Option.bind (dec_checked_add ops u r) (\<lambda>t. dec_checked_add ops t q) of
                    None \<Rightarrow> False | Some t \<Rightarrow> t \<le> l))"
  by (auto simp: check_decimal_def Let_def split: option.splits)

lemma check_integer_None_iff:
  "check_integer a d limit u r q = None \<longleftrightarrow>
     within (map_option unat limit) (unat u + unat r + unat q)"
proof (cases limit)
  case None
  then show ?thesis by (simp add: check_integer_def within_def)
next
  case (Some l)
  let ?t = "saturating_add (saturating_add u r) q"
  have "unat l \<le> 2 ^ 64 - 1" using unat_le_max [of l] by simp
  moreover have "unat ?t = min (min (unat u + unat r) (2 ^ 64 - 1) + unat q) (2 ^ 64 - 1)"
    by (simp add: unat_saturating_add)
  moreover have "check_integer a d limit u r q = None \<longleftrightarrow> unat ?t \<le> unat l"
    by (auto simp: Some check_integer_def word_less_nat_alt)
  ultimately show ?thesis using Some by (simp add: within_def) linarith
qed

lemma unat_u64_from [simp]: "unat (u64_from w) = unat w"
  by (simp add: u64_from_def unsigned_ucast_eq take_bit_nat_eq_self_iff
      less_le_trans [OF unsigned_less])

lemma unat_comp_u64_from [simp]: "unat \<circ> u64_from = (unat :: u32 \<Rightarrow> nat)"
  by (simp add: fun_eq_iff)

lemma check_limits_None_iff:
  "check_limits ops a l u r q = None \<longleftrightarrow> fits ops l u r q"
  by (simp add: check_limits_def fits_def check_decimal_None_iff check_integer_None_iff
      option.map_comp)

lemma first_denial_None_iff:
  "first_denial ops s q as = None \<longleftrightarrow>
     (\<forall>a \<in> set as. \<forall>l. st_limits s a = Some l \<longrightarrow> fits ops l (usage_for s a) (reserved_for s a) q)"
proof (induction as)
  case Nil
  then show ?case by simp
next
  case (Cons a as)
  show ?case
  proof (cases "st_limits s a")
    case None
    then show ?thesis using Cons.IH by simp
  next
    case (Some l)
    have "fits ops l (usage_for s a) (reserved_for s a) q \<longleftrightarrow>
        check_limits ops a l (usage_for s a) (reserved_for s a) q = None"
      by (rule check_limits_None_iff [symmetric])
    then show ?thesis using Cons.IH
      by (cases "check_limits ops a l (usage_for s a) (reserved_for s a) q") (simp_all add: Some)
  qed
qed

text \<open>
  C7: \<open>reserve_with_id\<close> admits a request exactly when its cost is not negative, its id is
  fresh, and on every account of the scope's cascade that has limits the usage so far, the
  active holds and the request together stay within each limit (a limit of \<open>u64::MAX\<close> never
  denies). An admitted request adds its amounts to the holds of exactly these accounts and
  leaves all usage as it was; a rejected one leaves the whole state unchanged.
\<close>

theorem reserve_admits_iff_fits:
  "case reserve_with_id ops scope est i s of
     (Inl e, s') \<Rightarrow> s' = s \<and>
       ((\<exists>c. re_usd est = Some c \<and> c < 0) \<or> i \<in> dom (st_reservations s)
        \<or> (\<exists>a \<in> set (cascade scope). \<exists>l. st_limits s a = Some l \<and>
             \<not> fits ops l (usage_for s a) (reserved_for s a) (from_estimate est)))
   | (Inr r, s') \<Rightarrow>
       \<not> (\<exists>c. re_usd est = Some c \<and> c < 0) \<and> i \<notin> dom (st_reservations s)
       \<and> (\<forall>a \<in> set (cascade scope). case st_limits s a of None \<Rightarrow> True
            | Some l \<Rightarrow> fits ops l (usage_for s a) (reserved_for s a) (from_estimate est))
       \<and> (\<forall>a. usage_for s' a = usage_for s a
              \<and> reserved_for s' a = (if a \<in> set (cascade scope)
                  then add_assign ops (reserved_for s a) (from_estimate est)
                  else reserved_for s a))
       \<and> status_of s' = (status_of s)(i \<mapsto> ReservationActive)"
proof (cases rule: reserve_with_id_cases [of ops scope est i s])
  case (rejected e)
  have "(\<exists>c. re_usd est = Some c \<and> c < 0) \<or> i \<in> dom (st_reservations s)
        \<or> first_denial ops s (from_estimate est) (cascade scope) \<noteq> None"
    using rejected
    by (auto simp: reserve_with_id_def validate_estimate_def Let_def split: option.splits if_splits)
  then show ?thesis using rejected by (auto simp: first_denial_None_iff)
next
  case accepted
  have cost: "\<not> (\<exists>c. re_usd est = Some c \<and> c < 0)"
    using accepted(1) by (auto simp: validate_estimate_def split: if_splits)
  have fit: "\<forall>a \<in> set (cascade scope). case st_limits s a of None \<Rightarrow> True
      | Some l \<Rightarrow> fits ops l (usage_for s a) (reserved_for s a) (from_estimate est)"
    using accepted(3) by (auto simp: first_denial_None_iff split: option.splits)
  show ?thesis
    using accepted(2) cost fit
    by (auto simp: accepted(4) reserved_for_def usage_for_def update_all_apply distinct_cascade
        status_of_def fun_eq_iff)
qed

definition sample_limits :: resource_limits where
  "sample_limits = \<lparr>lm_max_usd = None, lm_max_input_tokens = Some 5,
     lm_max_output_tokens = None, lm_max_wall_clock_ms = None, lm_max_output_bytes = None,
     lm_max_network_egress_bytes = None, lm_max_process_count = Some 1,
     lm_max_concurrency_slots = None\<rparr>"

definition sample_governor :: resource_state where
  "sample_governor = set_limit (TenantAccount ''t'') sample_limits governor_new"

theorem reserve_admits_iff_fits_witness:
  "\<exists>r s'. reserve_with_id sample_decimal_ops sample_scope sample_estimate 7 sample_governor = (Inr r, s')
     \<and> reserved_for s' (TenantAccount ''t'') =
         add_assign sample_decimal_ops (reserved_for sample_governor (TenantAccount ''t''))
           (from_estimate sample_estimate)
     \<and> (\<exists>e. reserve_with_id sample_decimal_ops sample_scope sample_estimate 8 s' = (Inl e, s'))"
proof -
  note eval = sample_governor_def set_limit_def sample_limits_def resource_eval status_of_def
    fits_def within_def usage_for_def reserved_for_def sample_decimal_ops_def default_tally_def
  let ?R = "reserve_with_id sample_decimal_ops sample_scope sample_estimate"
  obtain x s' where R: "?R 7 sample_governor = (x, s')" by fastforce
  note first = reserve_admits_iff_fits [where ops = sample_decimal_ops and scope = sample_scope
      and est = sample_estimate and i = 7 and s = sample_governor, unfolded R]
  obtain r where r: "x = Inr r"
  proof (cases x)
    case (Inl e)
    then show thesis using first by (simp add: eval)
  qed
  have tenant: "TenantAccount ''t'' \<in> set (cascade sample_scope)" by (simp add: eval)
  have upd: "reserved_for s' (TenantAccount ''t'') =
       add_assign sample_decimal_ops (reserved_for sample_governor (TenantAccount ''t''))
         (from_estimate sample_estimate)"
    using first tenant by (simp add: r)
  have lim: "st_limits s' (TenantAccount ''t'') = Some sample_limits"
    using R by (simp add: r reserve_with_id_def Let_def sample_governor_def set_limit_def
        split: sum.splits if_splits option.splits) auto
  have "amount InputTokens (reserved_for s' (TenantAccount ''t'')) = 5"
    by (simp add: upd) (simp add: eval)
  then have no: "\<not> fits sample_decimal_ops sample_limits (usage_for s' (TenantAccount ''t''))
      (reserved_for s' (TenantAccount ''t'')) (from_estimate sample_estimate)"
    by (simp add: fits_def within_def sample_limits_def resource_eval)
  obtain y t where S: "?R 8 s' = (y, t)" by fastforce
  have "\<exists>e. y = Inl e \<and> t = s'"
    using reserve_admits_iff_fits [where ops = sample_decimal_ops and scope = sample_scope
      and est = sample_estimate and i = 8 and s = s'] tenant no lim
    by (cases y) (auto simp: S split: option.splits dest!: bspec [of _ _ "TenantAccount ''t''"])
  then show ?thesis using R S upd by (auto simp: r)
qed

end
