(* ===== verification/RunState.thy ===== *)
theory RunState
  imports HostDecisions HashMaps Traces
begin

section \<open>Run state and approval requests\<close>

text \<open>
  \<open>crates/ironclaw_run_state/src/lib.rs\<close>: the current state of each invocation and the
  approval requests that block invocations. A trait is a record of its methods over a state
  type \<open>'w\<close>; the in-memory stores are hash maps keyed by the owner scope and the id, their
  methods atomic because the mutex is held for each whole method.
\<close>

subsection \<open>Records, keys and errors\<close>

datatype run_status = Running | BlockedApproval | BlockedAuth | Completed | Failed

record run_record =
  rn_invocation_id :: invocation_id
  rn_capability_id :: capability_id
  rn_scope :: resource_scope
  rn_status :: run_status
  rn_approval_request_id :: "approval_request_id option"
  rn_error_kind :: "string option"

record run_start =
  rt_invocation_id :: invocation_id
  rt_capability_id :: capability_id
  rt_scope :: resource_scope

datatype approval_status = Pending | Approved | Denied | Expired

record approval_record =
  ap_scope :: resource_scope
  ap_request :: approval_request
  ap_status :: approval_status

text \<open>\<open>RunStateKey\<close> and \<open>ApprovalKey\<close> have the same owner fields, then the id.\<close>

record owner_key =
  ok_tenant_id :: tenant_id
  ok_user_id :: user_id
  ok_agent_id :: "agent_id option"
  ok_project_id :: "project_id option"
  ok_mission_id :: "mission_id option"
  ok_thread_id :: "thread_id option"

record run_state_key = owner_key + rk_invocation_id :: invocation_id

record approval_key = owner_key + ak_request_id :: approval_request_id

definition run_state_key_new :: "resource_scope \<Rightarrow> invocation_id \<Rightarrow> run_state_key" where
  "run_state_key_new s i = \<lparr>ok_tenant_id = rs_tenant_id s, ok_user_id = rs_user_id s,
     ok_agent_id = rs_agent_id s, ok_project_id = rs_project_id s,
     ok_mission_id = rs_mission_id s, ok_thread_id = rs_thread_id s, rk_invocation_id = i\<rparr>"

definition approval_key_new :: "resource_scope \<Rightarrow> approval_request_id \<Rightarrow> approval_key" where
  "approval_key_new s i = \<lparr>ok_tenant_id = rs_tenant_id s, ok_user_id = rs_user_id s,
     ok_agent_id = rs_agent_id s, ok_project_id = rs_project_id s,
     ok_mission_id = rs_mission_id s, ok_thread_id = rs_thread_id s, ak_request_id = i\<rparr>"

definition same_scope_owner :: "resource_scope \<Rightarrow> resource_scope \<Rightarrow> bool" where
  "same_scope_owner a b \<longleftrightarrow> rs_tenant_id a = rs_tenant_id b \<and> rs_user_id a = rs_user_id b
     \<and> rs_agent_id a = rs_agent_id b \<and> rs_project_id a = rs_project_id b
     \<and> rs_mission_id a = rs_mission_id b \<and> rs_thread_id a = rs_thread_id b"

datatype run_state_error =
    UnknownInvocation invocation_id
  | InvocationAlreadyExists invocation_id
  | UnknownApprovalRequest approval_request_id
  | ApprovalRequestAlreadyExists approval_request_id
  | ApprovalNotPending approval_request_id approval_status
  | InvalidStoragePath string
  | FilesystemFailure string
  | SerializationFailure string
  | DeserializationFailure string

subsection \<open>The traits\<close>

record 'w run_state_store =
  rss_start :: "run_start \<Rightarrow> ('w, run_state_error, run_record) operation"
  rss_block_approval :: "resource_scope \<Rightarrow> invocation_id \<Rightarrow> approval_request
    \<Rightarrow> ('w, run_state_error, run_record) operation"
  rss_block_auth :: "resource_scope \<Rightarrow> invocation_id \<Rightarrow> string
    \<Rightarrow> ('w, run_state_error, run_record) operation"
  rss_complete :: "resource_scope \<Rightarrow> invocation_id
    \<Rightarrow> ('w, run_state_error, run_record) operation"
  rss_fail :: "resource_scope \<Rightarrow> invocation_id \<Rightarrow> string
    \<Rightarrow> ('w, run_state_error, run_record) operation"
  rss_get :: "resource_scope \<Rightarrow> invocation_id
    \<Rightarrow> ('w, run_state_error, run_record option) operation"
  rss_records_for_scope :: "resource_scope
    \<Rightarrow> ('w, run_state_error, run_record list) operation"

record 'w approval_request_store =
  ars_save_pending :: "resource_scope \<Rightarrow> approval_request
    \<Rightarrow> ('w, run_state_error, approval_record) operation"
  ars_get :: "resource_scope \<Rightarrow> approval_request_id
    \<Rightarrow> ('w, run_state_error, approval_record option) operation"
  ars_approve :: "resource_scope \<Rightarrow> approval_request_id
    \<Rightarrow> ('w, run_state_error, approval_record) operation"
  ars_deny :: "resource_scope \<Rightarrow> approval_request_id
    \<Rightarrow> ('w, run_state_error, approval_record) operation"
  ars_discard_pending :: "resource_scope \<Rightarrow> approval_request_id
    \<Rightarrow> ('w, run_state_error, approval_record) operation"
  ars_records_for_scope :: "resource_scope
    \<Rightarrow> ('w, run_state_error, approval_record list) operation"

text \<open>The trait's default method, for stores that do not override it.\<close>

definition default_discard_pending ::
    "'w approval_request_store \<Rightarrow> resource_scope \<Rightarrow> approval_request_id
     \<Rightarrow> ('w, run_state_error, approval_record) operation" where
  "default_discard_pending store scope request_id w = ars_deny store scope request_id w"

subsection \<open>The in-memory run-state store\<close>

type_synonym run_states = "(run_state_key, run_record) hash_map"

definition run_update ::
    "resource_scope \<Rightarrow> invocation_id \<Rightarrow> (run_record \<Rightarrow> run_record)
     \<Rightarrow> (run_states, run_state_error, run_record) operation" where
  "run_update scope inv_id update records =
     (let key = run_state_key_new scope inv_id in
      case hm_get key records of
        None \<Rightarrow> (Inl (UnknownInvocation inv_id), records)
      | Some record \<Rightarrow>
          (let record' = update record in (Inr record', hm_insert key record' records)))"

definition run_start_record ::
    "run_start \<Rightarrow> (run_states, run_state_error, run_record) operation" where
  "run_start_record start records =
     (let record = \<lparr>rn_invocation_id = rt_invocation_id start,
        rn_capability_id = rt_capability_id start, rn_scope = rt_scope start,
        rn_status = Running, rn_approval_request_id = None, rn_error_kind = None\<rparr>;
        key = run_state_key_new (rn_scope record) (rn_invocation_id record)
      in if hm_get key records \<noteq> None then
           (Inl (InvocationAlreadyExists (rn_invocation_id record)), records)
         else (Inr record, hm_insert key record records))"

definition run_block_approval ::
    "resource_scope \<Rightarrow> invocation_id \<Rightarrow> approval_request
     \<Rightarrow> (run_states, run_state_error, run_record) operation" where
  "run_block_approval scope inv_id approval =
     run_update scope inv_id (\<lambda>r. r\<lparr>rn_status := BlockedApproval,
       rn_approval_request_id := Some (ar_id approval), rn_error_kind := None\<rparr>)"

definition run_block_auth ::
    "resource_scope \<Rightarrow> invocation_id \<Rightarrow> string
     \<Rightarrow> (run_states, run_state_error, run_record) operation" where
  "run_block_auth scope inv_id error_kind =
     run_update scope inv_id (\<lambda>r. r\<lparr>rn_status := BlockedAuth,
       rn_approval_request_id := None, rn_error_kind := Some error_kind\<rparr>)"

definition run_complete ::
    "resource_scope \<Rightarrow> invocation_id \<Rightarrow> (run_states, run_state_error, run_record) operation" where
  "run_complete scope inv_id =
     run_update scope inv_id (\<lambda>r. r\<lparr>rn_status := Completed,
       rn_approval_request_id := None, rn_error_kind := None\<rparr>)"

definition run_fail ::
    "resource_scope \<Rightarrow> invocation_id \<Rightarrow> string
     \<Rightarrow> (run_states, run_state_error, run_record) operation" where
  "run_fail scope inv_id error_kind =
     run_update scope inv_id (\<lambda>r. r\<lparr>rn_status := Failed,
       rn_approval_request_id := None, rn_error_kind := Some error_kind\<rparr>)"

definition run_get ::
    "resource_scope \<Rightarrow> invocation_id
     \<Rightarrow> (run_states, run_state_error, run_record option) operation" where
  "run_get scope inv_id records =
     (Inr (hm_get (run_state_key_new scope inv_id) records), records)"

definition run_records_for_scope ::
    "resource_scope \<Rightarrow> (run_states, run_state_error, run_record list) operation" where
  "run_records_for_scope scope records =
     (Inr (sort_key rn_invocation_id
            (filter (\<lambda>r. same_scope_owner (rn_scope r) scope) (hm_values records))), records)"

definition in_memory_run_states :: "run_states run_state_store" where
  "in_memory_run_states = \<lparr>rss_start = run_start_record, rss_block_approval = run_block_approval,
     rss_block_auth = run_block_auth, rss_complete = run_complete, rss_fail = run_fail,
     rss_get = run_get, rss_records_for_scope = run_records_for_scope\<rparr>"

subsection \<open>The in-memory approval request store\<close>

type_synonym approvals = "(approval_key, approval_record) hash_map"

definition approval_update_status ::
    "resource_scope \<Rightarrow> approval_request_id \<Rightarrow> approval_status
     \<Rightarrow> (approvals, run_state_error, approval_record) operation" where
  "approval_update_status scope request_id status records =
     (let key = approval_key_new scope request_id in
      case hm_get key records of
        None \<Rightarrow> (Inl (UnknownApprovalRequest request_id), records)
      | Some record \<Rightarrow>
          if ap_status record \<noteq> Pending then
            (Inl (ApprovalNotPending request_id (ap_status record)), records)
          else (let record' = record\<lparr>ap_status := status\<rparr>
                in (Inr record', hm_insert key record' records)))"

definition approval_save_pending ::
    "resource_scope \<Rightarrow> approval_request \<Rightarrow> (approvals, run_state_error, approval_record) operation" where
  "approval_save_pending scope request records =
     (let record = \<lparr>ap_scope = scope, ap_request = request, ap_status = Pending\<rparr>;
          key = approval_key_new (ap_scope record) (ar_id (ap_request record))
      in if hm_get key records \<noteq> None then
           (Inl (ApprovalRequestAlreadyExists (ar_id (ap_request record))), records)
         else (Inr record, hm_insert key record records))"

definition approval_get ::
    "resource_scope \<Rightarrow> approval_request_id
     \<Rightarrow> (approvals, run_state_error, approval_record option) operation" where
  "approval_get scope request_id records =
     (Inr (hm_get (approval_key_new scope request_id) records), records)"

definition approval_approve ::
    "resource_scope \<Rightarrow> approval_request_id
     \<Rightarrow> (approvals, run_state_error, approval_record) operation" where
  "approval_approve scope request_id = approval_update_status scope request_id Approved"

definition approval_deny ::
    "resource_scope \<Rightarrow> approval_request_id
     \<Rightarrow> (approvals, run_state_error, approval_record) operation" where
  "approval_deny scope request_id = approval_update_status scope request_id Denied"

definition approval_discard_pending ::
    "resource_scope \<Rightarrow> approval_request_id
     \<Rightarrow> (approvals, run_state_error, approval_record) operation" where
  "approval_discard_pending scope request_id records =
     (let key = approval_key_new scope request_id in
      case hm_get key records of
        None \<Rightarrow> (Inl (UnknownApprovalRequest request_id), records)
      | Some record \<Rightarrow>
          if ap_status record \<noteq> Pending then
            (Inl (ApprovalNotPending request_id (ap_status record)), records)
          else (case hm_get key records of
                  None \<Rightarrow> (Inl (UnknownApprovalRequest request_id), hm_remove key records)
                | Some removed \<Rightarrow> (Inr removed, hm_remove key records)))"

definition approval_records_for_scope ::
    "resource_scope \<Rightarrow> (approvals, run_state_error, approval_record list) operation" where
  "approval_records_for_scope scope records =
     (Inr (sort_key (\<lambda>r. ar_id (ap_request r))
            (filter (\<lambda>r. same_scope_owner (ap_scope r) scope) (hm_values records))), records)"

definition in_memory_approvals :: "approvals approval_request_store" where
  "in_memory_approvals = \<lparr>ars_save_pending = approval_save_pending, ars_get = approval_get,
     ars_approve = approval_approve, ars_deny = approval_deny,
     ars_discard_pending = approval_discard_pending,
     ars_records_for_scope = approval_records_for_scope\<rparr>"

subsection \<open>Commands\<close>

datatype run_command =
    StartRun run_start
  | BlockRunApproval resource_scope invocation_id approval_request
  | BlockRunAuth resource_scope invocation_id string
  | CompleteRun resource_scope invocation_id
  | FailRun resource_scope invocation_id string
  | GetRun resource_scope invocation_id
  | ListRuns resource_scope

datatype run_reply =
    RunReply "(run_state_error, run_record) result"
  | RunLookup "(run_state_error, run_record option) result"
  | RunListing "(run_state_error, run_record list) result"

fun run_step :: "'w run_state_store \<Rightarrow> run_command \<Rightarrow> 'w \<Rightarrow> run_reply \<times> 'w" where
  "run_step st (StartRun t) w = apfst RunReply (rss_start st t w)"
| "run_step st (BlockRunApproval s i a) w = apfst RunReply (rss_block_approval st s i a w)"
| "run_step st (BlockRunAuth s i e) w = apfst RunReply (rss_block_auth st s i e w)"
| "run_step st (CompleteRun s i) w = apfst RunReply (rss_complete st s i w)"
| "run_step st (FailRun s i e) w = apfst RunReply (rss_fail st s i e w)"
| "run_step st (GetRun s i) w = apfst RunLookup (rss_get st s i w)"
| "run_step st (ListRuns s) w = apfst RunListing (rss_records_for_scope st s w)"

fun run_command_scope :: "run_command \<Rightarrow> resource_scope" where
  "run_command_scope (StartRun t) = rt_scope t"
| "run_command_scope (BlockRunApproval s i a) = s"
| "run_command_scope (BlockRunAuth s i e) = s"
| "run_command_scope (CompleteRun s i) = s"
| "run_command_scope (FailRun s i e) = s"
| "run_command_scope (GetRun s i) = s"
| "run_command_scope (ListRuns s) = s"

lemma run_state_key_new_eq_iff [simp]:
  "run_state_key_new s i = run_state_key_new t j \<longleftrightarrow> same_scope_owner s t \<and> i = j"
  by (auto simp: run_state_key_new_def same_scope_owner_def)

lemma approval_key_new_eq_iff [simp]:
  "approval_key_new s i = approval_key_new t j \<longleftrightarrow> same_scope_owner s t \<and> i = j"
  by (auto simp: approval_key_new_def same_scope_owner_def)

lemma same_scope_owner_refl [simp]: "same_scope_owner s s"
  by (simp add: same_scope_owner_def)

lemma same_scope_owner_sym: "same_scope_owner s t \<longleftrightarrow> same_scope_owner t s"
  by (auto simp: same_scope_owner_def)

lemma same_scope_owner_trans:
  "same_scope_owner r s \<Longrightarrow> same_scope_owner s t \<Longrightarrow> same_scope_owner r t"
  by (simp add: same_scope_owner_def)

subsection \<open>The contract of a run-state store\<close>

text \<open>
  What a client of the trait relies on: a partial map from (owner, invocation id) to records
  behind it (\<open>runs\<close>), changed by each method at its own key only.
\<close>

definition started :: "run_start \<Rightarrow> run_record" where
  "started t = \<lparr>rn_invocation_id = rt_invocation_id t, rn_capability_id = rt_capability_id t,
     rn_scope = rt_scope t, rn_status = Running, rn_approval_request_id = None,
     rn_error_kind = None\<rparr>"

definition set_status ::
    "run_status \<Rightarrow> approval_request_id option \<Rightarrow> string option \<Rightarrow> run_record \<Rightarrow> run_record" where
  "set_status st a e r = r\<lparr>rn_status := st, rn_approval_request_id := a, rn_error_kind := e\<rparr>"

definition updates ::
    "('w \<Rightarrow> run_state_key \<rightharpoonup> run_record) \<Rightarrow> resource_scope \<Rightarrow> invocation_id
     \<Rightarrow> (run_record \<Rightarrow> run_record) \<Rightarrow> 'w \<Rightarrow> (run_state_error, run_record) result \<times> 'w \<Rightarrow> bool" where
  "updates runs s i f w rw \<longleftrightarrow>
     (case runs w (run_state_key_new s i) of
        None \<Rightarrow> fst rw = Inl (UnknownInvocation i) \<and> runs (snd rw) = runs w
      | Some r \<Rightarrow> fst rw = Inr (f r)
          \<and> runs (snd rw) = (runs w)(run_state_key_new s i \<mapsto> f r))"

locale run_state_contract =
  fixes store :: "'w run_state_store"
    and ok :: "'w \<Rightarrow> bool"
    and runs :: "'w \<Rightarrow> run_state_key \<rightharpoonup> run_record"
  assumes ok_run_step: "ok w \<Longrightarrow> ok (snd (run_step store c w))"
    and key_sound: "ok w \<Longrightarrow> runs w k = Some r \<Longrightarrow>
      k = run_state_key_new (rn_scope r) (rn_invocation_id r)"
    and start_law: "ok w \<Longrightarrow>
      (case runs w (run_state_key_new (rt_scope t) (rt_invocation_id t)) of
         None \<Rightarrow> fst (rss_start store t w) = Inr (started t)
           \<and> runs (snd (rss_start store t w)) =
               (runs w)(run_state_key_new (rt_scope t) (rt_invocation_id t) \<mapsto> started t)
       | Some _ \<Rightarrow> fst (rss_start store t w) = Inl (InvocationAlreadyExists (rt_invocation_id t))
           \<and> runs (snd (rss_start store t w)) = runs w)"
    and block_approval_law: "ok w \<Longrightarrow>
      updates runs s i (set_status BlockedApproval (Some (ar_id a)) None) w
        (rss_block_approval store s i a w)"
    and block_auth_law: "ok w \<Longrightarrow>
      updates runs s i (set_status BlockedAuth None (Some e)) w (rss_block_auth store s i e w)"
    and complete_law: "ok w \<Longrightarrow>
      updates runs s i (set_status Completed None None) w (rss_complete store s i w)"
    and fail_law: "ok w \<Longrightarrow>
      updates runs s i (set_status Failed None (Some e)) w (rss_fail store s i e w)"
    and get_law: "ok w \<Longrightarrow> fst (rss_get store s i w) = Inr (runs w (run_state_key_new s i))
        \<and> runs (snd (rss_get store s i w)) = runs w"
    and list_law: "ok w \<Longrightarrow> \<exists>rs. fst (rss_records_for_scope store s w) = Inr rs
        \<and> sorted (map rn_invocation_id rs) \<and> distinct (map rn_invocation_id rs)
        \<and> set rs = {r. \<exists>i. runs w (run_state_key_new s i) = Some r}
        \<and> runs (snd (rss_records_for_scope store s w)) = runs w"
begin

definition owned :: "resource_scope \<Rightarrow> 'w \<Rightarrow> invocation_id \<rightharpoonup> run_record" where
  "owned s w = (\<lambda>i. runs w (run_state_key_new s i))"

lemma list_unique:
  assumes "ok w" "ok v" "owned s w = owned s v" "same_scope_owner t s"
  shows "fst (rss_records_for_scope store t w) = fst (rss_records_for_scope store t v)"
proof -
  have key: "run_state_key_new t i = run_state_key_new s i" for i
    using assms(4) by (simp add: same_scope_owner_sym)
  obtain rs where rs: "fst (rss_records_for_scope store t w) = Inr rs"
    "sorted (map rn_invocation_id rs)" "distinct (map rn_invocation_id rs)"
    "set rs = {r. \<exists>i. runs w (run_state_key_new t i) = Some r}"
    using list_law [OF assms(1)] by blast
  obtain qs where qs: "fst (rss_records_for_scope store t v) = Inr qs"
    "sorted (map rn_invocation_id qs)" "distinct (map rn_invocation_id qs)"
    "set qs = {r. \<exists>i. runs v (run_state_key_new t i) = Some r}"
    using list_law [OF assms(2)] by blast
  have set: "set rs = set qs"
    using assms(3) unfolding rs(4) qs(4) by (simp add: key owned_def fun_eq_iff)
  have "rs = qs"
    by (rule map_sorted_distinct_set_unique [OF _ rs(2,3) qs(2,3) set])
      (use rs(3) qs(3) set in \<open>simp add: distinct_map\<close>)
  then show ?thesis by (simp add: rs(1) qs(1))
qed

lemma updates_frame:
  "updates runs t i f w rw \<Longrightarrow> \<not> same_scope_owner t s \<Longrightarrow> owned s (snd rw) = owned s w"
  by (auto simp: updates_def owned_def fun_eq_iff same_scope_owner_sym split: option.splits)

lemma updates_local:
  assumes "updates runs t i f w rw" "updates runs t i f v rv" "same_scope_owner t s"
    "owned s w = owned s v"
  shows "fst rw = fst rv" and "owned s (snd rw) = owned s (snd rv)"
proof -
  have "runs w (run_state_key_new t i) = runs v (run_state_key_new t i)"
  proof -
    have "run_state_key_new t i = run_state_key_new s i" using assms(3) by simp
    then show ?thesis using assms(4) by (metis owned_def)
  qed
  then show "fst rw = fst rv" and "owned s (snd rw) = owned s (snd rv)"
    using assms(1,2,4) by (auto simp: updates_def owned_def fun_eq_iff split: option.splits)
qed

lemma start_frame:
  assumes "ok w" "\<not> same_scope_owner (rt_scope t) s"
  shows "owned s (snd (rss_start store t w)) = owned s w"
  using start_law [OF assms(1), of t] assms(2)
  by (auto simp: owned_def fun_eq_iff same_scope_owner_sym split: option.splits)

lemma start_local:
  assumes "ok w" "ok v" "same_scope_owner (rt_scope t) s" "owned s w = owned s v"
  shows "fst (rss_start store t w) = fst (rss_start store t v)"
    and "owned s (snd (rss_start store t w)) = owned s (snd (rss_start store t v))"
proof -
  let ?k = "run_state_key_new (rt_scope t) (rt_invocation_id t)"
  have "?k = run_state_key_new s (rt_invocation_id t)" using assms(3) by simp
  then have "runs w ?k = runs v ?k" using assms(4) by (metis owned_def)
  then show "fst (rss_start store t w) = fst (rss_start store t v)"
    and "owned s (snd (rss_start store t w)) = owned s (snd (rss_start store t v))"
    using start_law [OF assms(1), of t] start_law [OF assms(2), of t] assms(4)
    by (auto simp: owned_def fun_eq_iff split: option.splits)
qed

lemma list_runs: "ok w \<Longrightarrow> runs (snd (rss_records_for_scope store t w)) = runs w"
  using list_law by blast

lemma get_owned: "ok w \<Longrightarrow> owned s (snd (rss_get store t i w)) = owned s w"
  by (simp add: owned_def get_law)

lemma list_owned: "ok w \<Longrightarrow> owned s (snd (rss_records_for_scope store t w)) = owned s w"
  by (simp add: owned_def list_runs)

lemma get_local:
  assumes "ok w" "ok v" "same_scope_owner t s" "owned s w = owned s v"
  shows "fst (rss_get store t i w) = fst (rss_get store t i v)"
proof -
  have "run_state_key_new t i = run_state_key_new s i" using assms(3) by simp
  then have "runs w (run_state_key_new t i) = runs v (run_state_key_new t i)"
    using assms(4) by (metis owned_def)
  then show ?thesis using get_law assms(1,2) by simp
qed

lemma isolated:
  "framed (run_step store) ok (owned s) (\<lambda>c. same_scope_owner (run_command_scope c) s)"
proof
  show "ok (snd (run_step store c w))" if "ok w" for w c
    using that by (rule ok_run_step)
next
  fix w c
  assume "ok w" "\<not> same_scope_owner (run_command_scope c) s"
  then show "owned s (snd (run_step store c w)) = owned s w"
    by (cases c)
      (auto simp: start_frame updates_frame [OF block_approval_law]
        updates_frame [OF block_auth_law] updates_frame [OF complete_law]
        updates_frame [OF fail_law] get_owned list_owned)
next
  fix w v c
  assume ok: "ok w" "ok v" and c: "same_scope_owner (run_command_scope c) s"
    and eq: "owned s w = owned s v"
  show "fst (run_step store c w) = fst (run_step store c v)"
    using c
    by (cases c)
      (simp_all add: start_local(1) [OF ok _ eq] get_local [OF ok _ eq]
        list_unique [OF ok eq]
        updates_local(1) [OF block_approval_law [OF ok(1)] block_approval_law [OF ok(2)] _ eq]
        updates_local(1) [OF block_auth_law [OF ok(1)] block_auth_law [OF ok(2)] _ eq]
        updates_local(1) [OF complete_law [OF ok(1)] complete_law [OF ok(2)] _ eq]
        updates_local(1) [OF fail_law [OF ok(1)] fail_law [OF ok(2)] _ eq])
  show "owned s (snd (run_step store c w)) = owned s (snd (run_step store c v))"
    using c
    by (cases c)
      (simp_all add: start_local(2) [OF ok _ eq] get_owned list_owned ok eq
        updates_local(2) [OF block_approval_law [OF ok(1)] block_approval_law [OF ok(2)] _ eq]
        updates_local(2) [OF block_auth_law [OF ok(1)] block_auth_law [OF ok(2)] _ eq]
        updates_local(2) [OF complete_law [OF ok(1)] complete_law [OF ok(2)] _ eq]
        updates_local(2) [OF fail_law [OF ok(1)] fail_law [OF ok(2)] _ eq])
qed

end

subsection \<open>The in-memory store fulfils the contract\<close>

definition runs_ok :: "run_states \<Rightarrow> bool" where
  "runs_ok m \<longleftrightarrow> hm_keyed (\<lambda>r. run_state_key_new (rn_scope r) (rn_invocation_id r)) m"

definition runs_view :: "run_states \<Rightarrow> run_state_key \<rightharpoonup> run_record" where
  "runs_view m = (\<lambda>k. hm_get k m)"

lemmas run_store_defs = in_memory_run_states_def run_start_record_def run_block_approval_def
  run_block_auth_def run_complete_def run_fail_def run_get_def run_records_for_scope_def
  run_update_def set_status_def started_def Let_def

lemma runs_ok_update:
  assumes "runs_ok m"
    and "\<And>r. rn_scope (f r) = rn_scope r \<and> rn_invocation_id (f r) = rn_invocation_id r"
  shows "runs_ok (snd (run_update s i f m))"
  using assms(1) assms(2)
  by (auto simp: run_update_def Let_def runs_ok_def split: option.splits
      intro!: hm_keyed_insert dest: hm_keyed_get)

lemma runs_ok_start: "runs_ok m \<Longrightarrow> runs_ok (snd (run_start_record t m))"
  by (auto simp: run_start_record_def Let_def runs_ok_def intro!: hm_keyed_insert)

lemma runs_view_update:
  "updates runs_view s i f m (run_update s i f m)"
  by (auto simp: updates_def run_update_def runs_view_def Let_def fun_eq_iff split: option.splits)

lemma runs_view_start:
  "case runs_view m (run_state_key_new (rt_scope t) (rt_invocation_id t)) of
     None \<Rightarrow> fst (run_start_record t m) = Inr (started t)
       \<and> runs_view (snd (run_start_record t m)) =
           (runs_view m)(run_state_key_new (rt_scope t) (rt_invocation_id t) \<mapsto> started t)
   | Some _ \<Rightarrow> fst (run_start_record t m) = Inl (InvocationAlreadyExists (rt_invocation_id t))
       \<and> runs_view (snd (run_start_record t m)) = runs_view m"
  by (auto simp: run_start_record_def runs_view_def started_def Let_def fun_eq_iff
      split: option.splits)

lemma run_listing:
  assumes "runs_ok m"
  obtains rs where "run_records_for_scope s m = (Inr rs, m)"
    and "sorted (map rn_invocation_id rs)" and "distinct (map rn_invocation_id rs)"
    and "set rs = {r. \<exists>i. hm_get (run_state_key_new s i) m = Some r}"
proof -
  let ?kf = "\<lambda>r. run_state_key_new (rn_scope r) (rn_invocation_id r)"
  let ?rs = "filter (\<lambda>r. same_scope_owner (rn_scope r) s) (hm_values m)"
  have k: "hm_keyed ?kf m" using assms by (simp add: runs_ok_def)
  show thesis
  proof
    show "run_records_for_scope s m = (Inr (sort_key rn_invocation_id ?rs), m)"
      by (simp add: run_records_for_scope_def)
    show "sorted (map rn_invocation_id (sort_key rn_invocation_id ?rs))" by simp
    have "distinct (map rn_invocation_id ?rs)"
      by (rule hm_keyed_filter_distinct [OF k])
        (simp add: same_scope_owner_def)
    then show "distinct (map rn_invocation_id (sort_key rn_invocation_id ?rs))"
      by (simp add: distinct_map)
    have "hm_get (?kf r) m = Some r \<and> same_scope_owner (rn_scope r) s \<longleftrightarrow>
        (\<exists>i. hm_get (run_state_key_new s i) m = Some r)" for r
    proof
      assume r: "hm_get (?kf r) m = Some r \<and> same_scope_owner (rn_scope r) s"
      then have "?kf r = run_state_key_new s (rn_invocation_id r)" by simp
      then show "\<exists>i. hm_get (run_state_key_new s i) m = Some r" using r by metis
    next
      assume "\<exists>i. hm_get (run_state_key_new s i) m = Some r"
      then obtain i where i: "hm_get (run_state_key_new s i) m = Some r" by blast
      then show "hm_get (?kf r) m = Some r \<and> same_scope_owner (rn_scope r) s"
        using hm_keyed_get [OF k i] by (simp add: same_scope_owner_sym)
    qed
    then show "set (sort_key rn_invocation_id ?rs) =
        {r. \<exists>i. hm_get (run_state_key_new s i) m = Some r}"
      by (simp only: set_sort hm_keyed_filter_set [OF k])
  qed
qed

lemma set_status_fun:
  "set_status st a e = (\<lambda>r. r\<lparr>rn_status := st, rn_approval_request_id := a, rn_error_kind := e\<rparr>)"
  by (simp add: set_status_def fun_eq_iff)

lemma in_memory_start: "rss_start in_memory_run_states = run_start_record"
  by (simp add: in_memory_run_states_def)

interpretation runs: run_state_contract in_memory_run_states runs_ok runs_view
proof
  fix m c
  assume "runs_ok m"
  then show "runs_ok (snd (run_step in_memory_run_states c m))"
    by (cases c)
      (simp_all add: runs_ok_start runs_ok_update in_memory_run_states_def run_block_approval_def
        run_block_auth_def run_complete_def run_fail_def run_get_def run_records_for_scope_def)
next
  fix m k r
  assume "runs_ok m" "runs_view m k = Some r"
  then show "k = run_state_key_new (rn_scope r) (rn_invocation_id r)"
    by (auto simp: runs_ok_def runs_view_def dest: hm_keyed_get)
next
  fix m t
  show "case runs_view m (run_state_key_new (rt_scope t) (rt_invocation_id t)) of
      None \<Rightarrow> fst (rss_start in_memory_run_states t m) = Inr (started t)
        \<and> runs_view (snd (rss_start in_memory_run_states t m)) =
            (runs_view m)(run_state_key_new (rt_scope t) (rt_invocation_id t) \<mapsto> started t)
    | Some _ \<Rightarrow> fst (rss_start in_memory_run_states t m) =
          Inl (InvocationAlreadyExists (rt_invocation_id t))
        \<and> runs_view (snd (rss_start in_memory_run_states t m)) = runs_view m"
    unfolding in_memory_start by (rule runs_view_start)
next
  fix m s i and a :: approval_request and e :: string
  show "updates runs_view s i (set_status BlockedApproval (Some (ar_id a)) None) m
      (rss_block_approval in_memory_run_states s i a m)"
    and "updates runs_view s i (set_status BlockedAuth None (Some e)) m
      (rss_block_auth in_memory_run_states s i e m)"
    and "updates runs_view s i (set_status Completed None None) m
      (rss_complete in_memory_run_states s i m)"
    and "updates runs_view s i (set_status Failed None (Some e)) m
      (rss_fail in_memory_run_states s i e m)"
    by (simp_all add: in_memory_run_states_def run_block_approval_def run_block_auth_def
        run_complete_def run_fail_def set_status_fun runs_view_update)
next
  fix m s i
  show "fst (rss_get in_memory_run_states s i m) = Inr (runs_view m (run_state_key_new s i))
      \<and> runs_view (snd (rss_get in_memory_run_states s i m)) = runs_view m"
    by (simp add: in_memory_run_states_def run_get_def runs_view_def)
next
  fix m s
  assume "runs_ok m"
  then obtain rs where "run_records_for_scope s m = (Inr rs, m)"
    "sorted (map rn_invocation_id rs)" "distinct (map rn_invocation_id rs)"
    "set rs = {r. \<exists>i. hm_get (run_state_key_new s i) m = Some r}"
    by (rule run_listing)
  then show "\<exists>rs. fst (rss_records_for_scope in_memory_run_states s m) = Inr rs
      \<and> sorted (map rn_invocation_id rs) \<and> distinct (map rn_invocation_id rs)
      \<and> set rs = {r. \<exists>i. runs_view m (run_state_key_new s i) = Some r}
      \<and> runs_view (snd (rss_records_for_scope in_memory_run_states s m)) = runs_view m"
    by (simp add: in_memory_run_states_def runs_view_def)
qed

text \<open>
  Run state is isolated by owner: over any sequence of operations from any callers on
  an empty store, the replies to the operations made under one owner scope (tenant, user,
  agent, project, mission and thread) are exactly those of the run in which nobody else's
  operations ever happened, listings included. No one can observe or change another owner's
  invocations, not even when the invocation ids are equal.
\<close>

theorem run_state_isolated:
  "filter (\<lambda>(c, r). same_scope_owner (run_command_scope c) s)
      (history (run_step in_memory_run_states) cs [])
     = history (run_step in_memory_run_states)
         (filter (\<lambda>c. same_scope_owner (run_command_scope c) s) cs) []"
  by (rule framed.replies_isolated [OF runs.isolated]) (simp_all add: runs_ok_def)

subsection \<open>The contract of an approval request store\<close>

datatype approval_command =
    SavePending resource_scope approval_request
  | GetApproval resource_scope approval_request_id
  | ApproveRequest resource_scope approval_request_id
  | DenyRequest resource_scope approval_request_id
  | DiscardPending resource_scope approval_request_id
  | ListApprovals resource_scope

datatype approval_reply =
    ApprovalReply "(run_state_error, approval_record) result"
  | ApprovalLookup "(run_state_error, approval_record option) result"
  | ApprovalListing "(run_state_error, approval_record list) result"

fun approval_step ::
    "'w approval_request_store \<Rightarrow> approval_command \<Rightarrow> 'w \<Rightarrow> approval_reply \<times> 'w" where
  "approval_step st (SavePending s r) w = apfst ApprovalReply (ars_save_pending st s r w)"
| "approval_step st (GetApproval s i) w = apfst ApprovalLookup (ars_get st s i w)"
| "approval_step st (ApproveRequest s i) w = apfst ApprovalReply (ars_approve st s i w)"
| "approval_step st (DenyRequest s i) w = apfst ApprovalReply (ars_deny st s i w)"
| "approval_step st (DiscardPending s i) w = apfst ApprovalReply (ars_discard_pending st s i w)"
| "approval_step st (ListApprovals s) w = apfst ApprovalListing (ars_records_for_scope st s w)"

text \<open>The event that a request is decided, for or against.\<close>

fun decides :: "approval_key \<Rightarrow> approval_command \<Rightarrow> approval_reply \<Rightarrow> bool" where
  "decides k (ApproveRequest s i) (ApprovalReply (Inr _)) = (k = approval_key_new s i)"
| "decides k (DenyRequest s i) (ApprovalReply (Inr _)) = (k = approval_key_new s i)"
| "decides k _ _ = False"

definition resolves ::
    "('w \<Rightarrow> approval_key \<rightharpoonup> approval_record) \<Rightarrow> approval_status \<Rightarrow> resource_scope
     \<Rightarrow> approval_request_id \<Rightarrow> 'w \<Rightarrow> (run_state_error, approval_record) result \<times> 'w \<Rightarrow> bool" where
  "resolves view st s i w rw \<longleftrightarrow>
     (case view w (approval_key_new s i) of
        None \<Rightarrow> fst rw = Inl (UnknownApprovalRequest i) \<and> view (snd rw) = view w
      | Some r \<Rightarrow>
          if ap_status r = Pending then
            fst rw = Inr (r\<lparr>ap_status := st\<rparr>)
            \<and> view (snd rw) = (view w)(approval_key_new s i \<mapsto> r\<lparr>ap_status := st\<rparr>)
          else fst rw = Inl (ApprovalNotPending i (ap_status r)) \<and> view (snd rw) = view w)"

locale approval_contract =
  fixes store :: "'w approval_request_store"
    and requests :: "'w \<Rightarrow> approval_key \<rightharpoonup> approval_record"
  assumes save_law: "
      case requests w (approval_key_new s (ar_id r)) of
        None \<Rightarrow> requests (snd (ars_save_pending store s r w)) = (requests w)
          (approval_key_new s (ar_id r) \<mapsto> \<lparr>ap_scope = s, ap_request = r, ap_status = Pending\<rparr>)
      | Some _ \<Rightarrow> requests (snd (ars_save_pending store s r w)) = requests w"
    and approve_law: "resolves requests Approved s i w (ars_approve store s i w)"
    and deny_law: "resolves requests Denied s i w (ars_deny store s i w)"
    and discard_law: "requests (snd (ars_discard_pending store s i w)) = requests w
      \<or> (\<exists>r. requests w (approval_key_new s i) = Some r \<and> ap_status r = Pending
           \<and> (requests (snd (ars_discard_pending store s i w)) =
                (requests w)(approval_key_new s i := None)
              \<or> requests (snd (ars_discard_pending store s i w)) =
                (requests w)(approval_key_new s i \<mapsto> r\<lparr>ap_status := Denied\<rparr>)))"
    and get_law: "fst (ars_get store s i w) = Inr (requests w (approval_key_new s i))
      \<and> requests (snd (ars_get store s i w)) = requests w"
    and list_law: "requests (snd (ars_records_for_scope store s w)) = requests w"
begin

definition decided :: "approval_key \<Rightarrow> 'w \<Rightarrow> bool" where
  "decided k w \<longleftrightarrow> (\<exists>r. requests w k = Some r \<and> ap_status r \<noteq> Pending)"

lemma resolves_kept:
  "resolves requests st s i w rw \<Longrightarrow> requests w k = Some r \<Longrightarrow> ap_status r \<noteq> Pending \<Longrightarrow>
     requests (snd rw) k = Some r"
  by (auto simp: resolves_def split: option.splits if_splits)

lemma resolved_kept:
  assumes "requests w k = Some r" "ap_status r \<noteq> Pending"
  shows "requests (snd (approval_step store c w)) k = Some r"
proof (cases c)
  case (SavePending s q)
  then show ?thesis using save_law [where w = w and s = s and r = q] assms by (auto split: option.splits)
next
  case (DiscardPending s i)
  then show ?thesis using discard_law [of s i w] assms by auto
qed (use assms resolves_kept [OF approve_law] resolves_kept [OF deny_law] get_law list_law
  in \<open>simp_all\<close>)

lemma decides_once: "once_only (approval_step store) (decided k) (decides k)"
proof
  fix c w
  assume d: "decides k c (fst (approval_step store c w))"
  then consider (a) s i where "c = ApproveRequest s i" | (d) s i where "c = DenyRequest s i"
    by (cases "(k, c, fst (approval_step store c w))" rule: decides.cases) auto
  then show "\<not> decided k w \<and> decided k (snd (approval_step store c w))"
  proof cases
    case a
    then show ?thesis using d approve_law [of s i w]
      by (cases "fst (ars_approve store s i w)")
        (auto simp: resolves_def decided_def split: option.splits if_splits)
  next
    case d: d
    then show ?thesis using \<open>decides k c _\<close> deny_law [of s i w]
      by (cases "fst (ars_deny store s i w)")
        (auto simp: resolves_def decided_def split: option.splits if_splits)
  qed
next
  fix w c
  assume "decided k w"
  then show "decided k (snd (approval_step store c w))"
    by (auto simp: decided_def dest: resolved_kept)
qed

text \<open>Once decided, a request's record is what every later lookup returns.\<close>

lemma decision_final:
  assumes "requests w (approval_key_new s i) = Some r" "ap_status r \<noteq> Pending"
  shows "fst (ars_get store s i (final_state (approval_step store) cs w)) = Inr (Some r)"
proof -
  have "requests (final_state (approval_step store) cs w) (approval_key_new s i) = Some r"
    using assms
    by (intro final_state_invariant [of "\<lambda>w. requests w (approval_key_new s i) = Some r"])
      (auto dest: resolved_kept)
  then show ?thesis by (simp add: get_law)
qed

end

definition approvals_view :: "approvals \<Rightarrow> approval_key \<rightharpoonup> approval_record" where
  "approvals_view m = (\<lambda>k. hm_get k m)"

lemmas approval_store_defs = in_memory_approvals_def approval_save_pending_def approval_get_def
  approval_approve_def approval_deny_def approval_discard_pending_def
  approval_records_for_scope_def approval_update_status_def Let_def

interpretation approvals: approval_contract in_memory_approvals approvals_view
  by unfold_locales
    (auto simp: approval_store_defs approvals_view_def resolves_def fun_eq_iff split: option.splits)

text \<open>
  An approval request is decided at most once: over any sequence of store operations
  from an empty store, at most one approve or deny of a given request (same owner, same
  request id) succeeds, even when the pending request was withdrawn and saved again in
  between.
\<close>

theorem approval_decided_at_most_once:
  "occurrences (decides (approval_key_new s i))
     (history (approval_step in_memory_approvals) cs []) \<le> 1"
  by (rule once_only.at_most_once [OF approvals.decides_once])

text \<open>
  A decision on an approval request is final: after an approve or deny has succeeded,
  every later lookup returns the decided record, whatever operations come in between.
\<close>

theorem approval_decision_final:
  assumes "ap_status d \<in> {Approved, Denied}"
    and "approval_update_status s i (ap_status d) m = (Inr d, m')"
  shows "fst (approval_get s i (final_state (approval_step in_memory_approvals) cs m')) = Inr (Some d)"
proof -
  have "hm_get (approval_key_new s i) m' = Some d"
    using assms(2) by (auto simp: approval_update_status_def Let_def split: option.splits if_splits)
  then show ?thesis
    using approvals.decision_final [of m' s i d cs] assms(1)
    by (auto simp: approvals_view_def in_memory_approvals_def)
qed

definition sample_owner :: resource_scope where
  "sample_owner = \<lparr>rs_tenant_id = ''t'', rs_user_id = ''u'', rs_agent_id = None,
     rs_project_id = None, rs_mission_id = None, rs_thread_id = None, rs_invocation_id = 1\<rparr>"

definition sample_request :: approval_request where
  "sample_request = ApprovalRequest 7 2 HostRuntime (ReserveResourcesAction
     \<lparr>re_usd = None, re_input_tokens = None, re_output_tokens = None, re_wall_clock_ms = None,
      re_output_bytes = None, re_network_egress_bytes = None, re_process_count = None,
      re_concurrency_slots = None\<rparr>) None ''why'' None"

definition sample_record :: "approval_status \<Rightarrow> approval_record" where
  "sample_record st = \<lparr>ap_scope = sample_owner, ap_request = sample_request, ap_status = st\<rparr>"

theorem approval_decision_final_witness:
  "fst (approval_get sample_owner 7
     (snd (approval_deny sample_owner 7
        [(approval_key_new sample_owner 7, sample_record Approved)])))
     = Inr (Some (sample_record Approved))"
  using approval_decision_final [of "sample_record Approved" sample_owner 7
      "[(approval_key_new sample_owner 7, sample_record Pending)]"
      "[(approval_key_new sample_owner 7, sample_record Approved)]"
      "[DenyRequest sample_owner 7]"]
  by (simp add: sample_record_def approval_update_status_def hm_get_def hm_insert_def
      in_memory_approvals_def Let_def)

end
