(* ===== verification/Leases.thy ===== *)
theory Leases
  imports RunState
begin

section \<open>Capability leases\<close>

text \<open>
  \<open>crates/ironclaw_authorization/src/lib.rs\<close>, the lease store: leases are issued when an
  approval is granted, claimed by the replayed invocation, consumed after dispatch and
  revoked on failure. The trait is a record of methods, the in-memory store a hash map
  keyed by the full scope and the lease id. \<open>Utc::now()\<close> is the argument \<open>now\<close> of the
  methods that read the clock.
\<close>

datatype lease_status = LeaseActive | Claimed | Consumed | Revoked

record capability_lease =
  ls_scope :: resource_scope
  ls_grant :: capability_grant
  ls_invocation_fingerprint :: "invocation_fingerprint option"
  ls_status :: lease_status

definition lease_new :: "resource_scope \<Rightarrow> capability_grant \<Rightarrow> capability_lease" where
  "lease_new scope grant = \<lparr>ls_scope = scope, ls_grant = grant,
     ls_invocation_fingerprint = None, ls_status = LeaseActive\<rparr>"

datatype lease_error =
    UnknownLease capability_grant_id
  | ExpiredLease capability_grant_id
  | ExhaustedLease capability_grant_id
  | UnclaimedFingerprintLease capability_grant_id
  | FingerprintMismatch capability_grant_id
  | InactiveLease capability_grant_id lease_status
  | LeasePersistence string

record lease_key = owner_key +
  lk_invocation_id :: invocation_id
  lk_lease_id :: capability_grant_id

definition lease_key_new :: "resource_scope \<Rightarrow> capability_grant_id \<Rightarrow> lease_key" where
  "lease_key_new s i = \<lparr>ok_tenant_id = rs_tenant_id s, ok_user_id = rs_user_id s,
     ok_agent_id = rs_agent_id s, ok_project_id = rs_project_id s,
     ok_mission_id = rs_mission_id s, ok_thread_id = rs_thread_id s,
     lk_invocation_id = rs_invocation_id s, lk_lease_id = i\<rparr>"

subsection \<open>Lease checks\<close>

abbreviation lease_id :: "capability_lease \<Rightarrow> capability_grant_id" where
  "lease_id l \<equiv> cg_id (ls_grant l)"

abbreviation lease_constraints :: "capability_lease \<Rightarrow> grant_constraints" where
  "lease_constraints l \<equiv> cg_constraints (ls_grant l)"

definition lease_is_expired :: "timestamp \<Rightarrow> capability_lease \<Rightarrow> bool" where
  "lease_is_expired now l =
     (case gc_expires_at (lease_constraints l) of None \<Rightarrow> False | Some t \<Rightarrow> t \<le> now)"

definition lease_is_authorizing ::
    "timestamp \<Rightarrow> capability_lease \<Rightarrow> execution_context \<Rightarrow> bool" where
  "lease_is_authorizing now l c \<longleftrightarrow>
     ls_status l = LeaseActive
     \<and> rs_invocation_id (ls_scope l) = ec_invocation_id c
     \<and> \<not> lease_is_expired now l
     \<and> gc_max_invocations (lease_constraints l) \<noteq> Some 0"

definition ensure_not_expired_or_exhausted ::
    "timestamp \<Rightarrow> capability_lease \<Rightarrow> (lease_error, unit) result" where
  "ensure_not_expired_or_exhausted now l =
     (if lease_is_expired now l then Inl (ExpiredLease (lease_id l))
      else if gc_max_invocations (lease_constraints l) = Some 0 then Inl (ExhaustedLease (lease_id l))
      else Inr ())"

definition ensure_claimable ::
    "timestamp \<Rightarrow> capability_lease \<Rightarrow> invocation_fingerprint \<Rightarrow> (lease_error, unit) result" where
  "ensure_claimable now l fp =
     (if ls_status l \<noteq> LeaseActive then Inl (InactiveLease (lease_id l) (ls_status l))
      else if ls_invocation_fingerprint l \<noteq> Some fp then Inl (FingerprintMismatch (lease_id l))
      else ensure_not_expired_or_exhausted now l)"

definition ensure_consumable ::
    "timestamp \<Rightarrow> capability_lease \<Rightarrow> (lease_error, unit) result" where
  "ensure_consumable now l =
     (case (case ls_status l of
              LeaseActive \<Rightarrow> Inr ()
            | Claimed \<Rightarrow> Inr ()
            | Consumed \<Rightarrow> Inl (ExhaustedLease (lease_id l))
            | Revoked \<Rightarrow> Inl (InactiveLease (lease_id l) (ls_status l))) of
        Inl e \<Rightarrow> Inl e
      | Inr _ \<Rightarrow>
          if ls_invocation_fingerprint l \<noteq> None \<and> ls_status l \<noteq> Claimed then
            Inl (UnclaimedFingerprintLease (lease_id l))
          else ensure_not_expired_or_exhausted now l)"

subsection \<open>The in-memory store\<close>

type_synonym lease_map = "(lease_key, capability_lease) hash_map"

definition lease_issue ::
    "capability_lease \<Rightarrow> (lease_map, lease_error, capability_lease) operation" where
  "lease_issue l m = (Inr l, hm_insert (lease_key_new (ls_scope l) (lease_id l)) l m)"

definition lease_revoke ::
    "resource_scope \<Rightarrow> capability_grant_id \<Rightarrow> (lease_map, lease_error, capability_lease) operation" where
  "lease_revoke scope i m =
     (case hm_get (lease_key_new scope i) m of
        None \<Rightarrow> (Inl (UnknownLease i), m)
      | Some l \<Rightarrow> (let l' = l\<lparr>ls_status := Revoked\<rparr>
                  in (Inr l', hm_insert (lease_key_new scope i) l' m)))"

definition lease_get ::
    "resource_scope \<Rightarrow> capability_grant_id \<Rightarrow> lease_map \<Rightarrow> capability_lease option \<times> lease_map" where
  "lease_get scope i m = (hm_get (lease_key_new scope i) m, m)"

definition lease_claim ::
    "timestamp \<Rightarrow> resource_scope \<Rightarrow> capability_grant_id \<Rightarrow> invocation_fingerprint
     \<Rightarrow> (lease_map, lease_error, capability_lease) operation" where
  "lease_claim now scope i fp m =
     (case hm_get (lease_key_new scope i) m of
        None \<Rightarrow> (Inl (UnknownLease i), m)
      | Some l \<Rightarrow>
          (case ensure_claimable now l fp of
             Inl e \<Rightarrow> (Inl e, m)
           | Inr _ \<Rightarrow> (let l' = l\<lparr>ls_status := Claimed\<rparr>
                      in (Inr l', hm_insert (lease_key_new scope i) l' m))))"

text \<open>The body of \<open>consume\<close> after its checks.\<close>

definition set_max_invocations :: "u64 option \<Rightarrow> capability_lease \<Rightarrow> capability_lease" where
  "set_max_invocations n l = l\<lparr>ls_grant := (ls_grant l)\<lparr>cg_constraints :=
     (lease_constraints l)\<lparr>gc_max_invocations := n\<rparr>\<rparr>\<rparr>"

definition consumed_lease :: "capability_lease \<Rightarrow> capability_lease" where
  "consumed_lease l =
     (let was_claimed = (ls_status l = Claimed) in
      if ls_invocation_fingerprint l \<noteq> None then
        (case gc_max_invocations (lease_constraints l) of
           Some remaining \<Rightarrow> set_max_invocations (Some 0) l
         | None \<Rightarrow> l)\<lparr>ls_status := Consumed\<rparr>
      else (case gc_max_invocations (lease_constraints l) of
          Some remaining \<Rightarrow>
            (let l' = set_max_invocations (Some (remaining - 1)) l in
             if remaining - 1 = 0 then l'\<lparr>ls_status := Consumed\<rparr>
             else if was_claimed then l'\<lparr>ls_status := LeaseActive\<rparr>
             else l')
        | None \<Rightarrow> if was_claimed then l\<lparr>ls_status := LeaseActive\<rparr> else l))"

definition lease_consume ::
    "timestamp \<Rightarrow> resource_scope \<Rightarrow> capability_grant_id
     \<Rightarrow> (lease_map, lease_error, capability_lease) operation" where
  "lease_consume now scope i m =
     (case hm_get (lease_key_new scope i) m of
        None \<Rightarrow> (Inl (UnknownLease i), m)
      | Some l \<Rightarrow>
          (case ensure_consumable now l of
             Inl e \<Rightarrow> (Inl e, m)
           | Inr _ \<Rightarrow> (let l' = consumed_lease l
                      in (Inr l', hm_insert (lease_key_new scope i) l' m))))"

definition leases_for_scope ::
    "resource_scope \<Rightarrow> lease_map \<Rightarrow> capability_lease list \<times> lease_map" where
  "leases_for_scope scope m =
     (sort_key lease_id (filter (\<lambda>l. same_scope_owner (ls_scope l) scope) (hm_values m)), m)"

definition active_leases_for_context ::
    "timestamp \<Rightarrow> execution_context \<Rightarrow> lease_map \<Rightarrow> capability_lease list \<times> lease_map" where
  "active_leases_for_context now c m =
     (case leases_for_scope (ec_resource_scope c) m of
        (ls, m') \<Rightarrow> (filter (\<lambda>l. lease_is_authorizing now l c) ls, m'))"

subsection \<open>The trait\<close>

record 'w lease_store =
  cls_issue :: "capability_lease \<Rightarrow> ('w, lease_error, capability_lease) operation"
  cls_revoke :: "resource_scope \<Rightarrow> capability_grant_id
    \<Rightarrow> ('w, lease_error, capability_lease) operation"
  cls_get :: "resource_scope \<Rightarrow> capability_grant_id \<Rightarrow> 'w \<Rightarrow> capability_lease option \<times> 'w"
  cls_claim :: "timestamp \<Rightarrow> resource_scope \<Rightarrow> capability_grant_id \<Rightarrow> invocation_fingerprint
    \<Rightarrow> ('w, lease_error, capability_lease) operation"
  cls_consume :: "timestamp \<Rightarrow> resource_scope \<Rightarrow> capability_grant_id
    \<Rightarrow> ('w, lease_error, capability_lease) operation"
  cls_leases_for_scope :: "resource_scope \<Rightarrow> 'w \<Rightarrow> capability_lease list \<times> 'w"
  cls_active_leases_for_context :: "timestamp \<Rightarrow> execution_context \<Rightarrow> 'w \<Rightarrow> capability_lease list \<times> 'w"

text \<open>The trait's default method.\<close>

definition active_grants_for_context ::
    "'w lease_store \<Rightarrow> timestamp \<Rightarrow> execution_context \<Rightarrow> 'w \<Rightarrow> capability_grant list \<times> 'w" where
  "active_grants_for_context store now c w =
     (case cls_active_leases_for_context store now c w of
        (ls, w') \<Rightarrow> (map ls_grant (filter (\<lambda>l. ls_invocation_fingerprint l = None) ls), w'))"

definition in_memory_leases :: "lease_map lease_store" where
  "in_memory_leases = \<lparr>cls_issue = lease_issue, cls_revoke = lease_revoke, cls_get = lease_get,
     cls_claim = lease_claim, cls_consume = lease_consume,
     cls_leases_for_scope = leases_for_scope,
     cls_active_leases_for_context = active_leases_for_context\<rparr>"

subsection \<open>Commands\<close>

datatype lease_command =
    IssueLease capability_lease
  | RevokeLease resource_scope capability_grant_id
  | GetLease resource_scope capability_grant_id
  | ClaimLease timestamp resource_scope capability_grant_id invocation_fingerprint
  | ConsumeLease timestamp resource_scope capability_grant_id
  | ListLeases resource_scope
  | ActiveLeases timestamp execution_context

datatype lease_reply =
    LeaseReply "(lease_error, capability_lease) result"
  | LeaseLookup "capability_lease option"
  | LeaseListing "capability_lease list"

fun lease_step :: "'w lease_store \<Rightarrow> lease_command \<Rightarrow> 'w \<Rightarrow> lease_reply \<times> 'w" where
  "lease_step st (IssueLease l) w = apfst LeaseReply (cls_issue st l w)"
| "lease_step st (RevokeLease s i) w = apfst LeaseReply (cls_revoke st s i w)"
| "lease_step st (GetLease s i) w = apfst LeaseLookup (cls_get st s i w)"
| "lease_step st (ClaimLease now s i fp) w = apfst LeaseReply (cls_claim st now s i fp w)"
| "lease_step st (ConsumeLease now s i) w = apfst LeaseReply (cls_consume st now s i w)"
| "lease_step st (ListLeases s) w = apfst LeaseListing (cls_leases_for_scope st s w)"
| "lease_step st (ActiveLeases now c) w = apfst LeaseListing (cls_active_leases_for_context st now c w)"

fun claims :: "lease_key \<Rightarrow> lease_command \<Rightarrow> lease_reply \<Rightarrow> bool" where
  "claims k (ClaimLease _ s i _) (LeaseReply (Inr _)) = (k = lease_key_new s i)"
| "claims k _ _ = False"

fun consumes :: "lease_key \<Rightarrow> lease_command \<Rightarrow> lease_reply \<Rightarrow> bool" where
  "consumes k (ConsumeLease _ s i) (LeaseReply (Inr _)) = (k = lease_key_new s i)"
| "consumes k _ _ = False"

abbreviation key_of :: "capability_lease \<Rightarrow> lease_key" where
  "key_of l \<equiv> lease_key_new (ls_scope l) (lease_id l)"

fun issued_count :: "lease_key \<Rightarrow> lease_command \<Rightarrow> nat" where
  "issued_count k (IssueLease l) = (if key_of l = k then 1 else 0)"
| "issued_count k _ = 0"

text \<open>How often a lease may be consumed, \<open>None\<close> when nothing bounds it.\<close>

definition lease_uses :: "capability_lease \<Rightarrow> nat option" where
  "lease_uses l = (if ls_invocation_fingerprint l \<noteq> None then Some 1
     else map_option unat (gc_max_invocations (lease_constraints l)))"

fun issued_uses :: "lease_key \<Rightarrow> lease_command \<Rightarrow> nat" where
  "issued_uses k (IssueLease l) =
     (if key_of l = k then (case lease_uses l of None \<Rightarrow> 0 | Some n \<Rightarrow> n) else 0)"
| "issued_uses k _ = 0"

text \<open>Commands that issue under the key only leases whose use is bounded.\<close>

fun bounded_issue :: "lease_key \<Rightarrow> lease_command \<Rightarrow> bool" where
  "bounded_issue k (IssueLease l) = (key_of l = k \<longrightarrow> lease_uses l \<noteq> None)"
| "bounded_issue k _ = True"

subsection \<open>The contract of a lease store\<close>

locale lease_contract =
  fixes store :: "'w lease_store"
    and leases :: "'w \<Rightarrow> lease_key \<rightharpoonup> capability_lease"
  assumes issue_law: "leases (snd (cls_issue store l w)) = (leases w)(key_of l \<mapsto> l)"
    and revoke_law: "case leases w (lease_key_new s i) of
        None \<Rightarrow> fst (cls_revoke store s i w) = Inl (UnknownLease i)
          \<and> leases (snd (cls_revoke store s i w)) = leases w
      | Some l \<Rightarrow> fst (cls_revoke store s i w) = Inr (l\<lparr>ls_status := Revoked\<rparr>)
          \<and> leases (snd (cls_revoke store s i w)) =
              (leases w)(lease_key_new s i \<mapsto> l\<lparr>ls_status := Revoked\<rparr>)"
    and claim_law: "case leases w (lease_key_new s i) of
        None \<Rightarrow> fst (cls_claim store now s i fp w) = Inl (UnknownLease i)
          \<and> leases (snd (cls_claim store now s i fp w)) = leases w
      | Some l \<Rightarrow> (case ensure_claimable now l fp of
          Inl e \<Rightarrow> fst (cls_claim store now s i fp w) = Inl e
            \<and> leases (snd (cls_claim store now s i fp w)) = leases w
        | Inr _ \<Rightarrow> fst (cls_claim store now s i fp w) = Inr (l\<lparr>ls_status := Claimed\<rparr>)
            \<and> leases (snd (cls_claim store now s i fp w)) =
                (leases w)(lease_key_new s i \<mapsto> l\<lparr>ls_status := Claimed\<rparr>))"
    and consume_law: "case leases w (lease_key_new s i) of
        None \<Rightarrow> fst (cls_consume store now s i w) = Inl (UnknownLease i)
          \<and> leases (snd (cls_consume store now s i w)) = leases w
      | Some l \<Rightarrow> (case ensure_consumable now l of
          Inl e \<Rightarrow> fst (cls_consume store now s i w) = Inl e
            \<and> leases (snd (cls_consume store now s i w)) = leases w
        | Inr _ \<Rightarrow> fst (cls_consume store now s i w) = Inr (consumed_lease l)
            \<and> leases (snd (cls_consume store now s i w)) =
                (leases w)(lease_key_new s i \<mapsto> consumed_lease l))"
    and get_law: "fst (cls_get store s i w) = leases w (lease_key_new s i)
      \<and> leases (snd (cls_get store s i w)) = leases w"
    and list_law: "leases (snd (cls_leases_for_scope store s w)) = leases w"
    and active_law: "leases (snd (cls_active_leases_for_context store now c w)) = leases w"
begin

text \<open>What a key can still be claimed, and consumed, by the lease stored there.\<close>

definition claimable :: "lease_key \<Rightarrow> 'w \<Rightarrow> nat" where
  "claimable k w = (case leases w k of
     Some l \<Rightarrow> if ls_status l = LeaseActive \<and> ls_invocation_fingerprint l \<noteq> None then 1 else 0
   | None \<Rightarrow> 0)"

definition consumable :: "lease_key \<Rightarrow> 'w \<Rightarrow> nat" where
  "consumable k w = (case leases w k of
     Some l \<Rightarrow> if ls_status l \<in> {Consumed, Revoked} then 0
       else (case lease_uses l of None \<Rightarrow> 0 | Some n \<Rightarrow> n)
   | None \<Rightarrow> 0)"

definition bounded :: "lease_key \<Rightarrow> 'w \<Rightarrow> bool" where
  "bounded k w \<longleftrightarrow> (case leases w k of Some l \<Rightarrow> lease_uses l \<noteq> None | None \<Rightarrow> True)"

lemma claim_cases:
  obtains (no) e where "fst (cls_claim store now s i fp w) = Inl e"
      "leases (snd (cls_claim store now s i fp w)) = leases w"
  | (yes) l where "leases w (lease_key_new s i) = Some l" "ensure_claimable now l fp = Inr ()"
      "fst (cls_claim store now s i fp w) = Inr (l\<lparr>ls_status := Claimed\<rparr>)"
      "leases (snd (cls_claim store now s i fp w)) =
         (leases w)(lease_key_new s i \<mapsto> l\<lparr>ls_status := Claimed\<rparr>)"
  using claim_law [where w = w and s = s and i = i and now = now and fp = fp]
  by (auto split: option.splits sum.splits)

lemma consume_cases:
  obtains (no) e where "fst (cls_consume store now s i w) = Inl e"
      "leases (snd (cls_consume store now s i w)) = leases w"
  | (yes) l where "leases w (lease_key_new s i) = Some l" "ensure_consumable now l = Inr ()"
      "fst (cls_consume store now s i w) = Inr (consumed_lease l)"
      "leases (snd (cls_consume store now s i w)) =
         (leases w)(lease_key_new s i \<mapsto> consumed_lease l)"
  using consume_law [where w = w and s = s and i = i and now = now]
  by (auto split: option.splits sum.splits)

lemma revoke_cases:
  obtains (no) e where "fst (cls_revoke store s i w) = Inl e"
      "leases (snd (cls_revoke store s i w)) = leases w"
  | (yes) l where "leases w (lease_key_new s i) = Some l"
      "fst (cls_revoke store s i w) = Inr (l\<lparr>ls_status := Revoked\<rparr>)"
      "leases (snd (cls_revoke store s i w)) =
         (leases w)(lease_key_new s i \<mapsto> l\<lparr>ls_status := Revoked\<rparr>)"
  using revoke_law [where w = w and s = s and i = i] by (auto split: option.splits)

lemma claims_budget:
  "budgeted (lease_step store) (\<lambda>_. True) (claims k) (issued_count k) (claimable k) (\<lambda>_. True)"
proof
  fix w c
  show "claimable k (snd (lease_step store c w))
      + (if claims k c (fst (lease_step store c w)) then 1 else 0)
      \<le> claimable k w + issued_count k c"
  proof (cases c)
    case (IssueLease l)
    then show ?thesis by (auto simp: claimable_def issue_law)
  next
    case (RevokeLease s i)
    then show ?thesis
      by (cases rule: revoke_cases [of s i w]) (auto simp: claimable_def)
  next
    case (ClaimLease now s i fp)
    then show ?thesis
      by (cases rule: claim_cases [of now s i fp w])
        (auto simp: claimable_def ensure_claimable_def split: if_splits)
  next
    case (ConsumeLease now s i)
    then show ?thesis
      by (cases rule: consume_cases [of now s i w])
        (auto simp: claimable_def consumed_lease_def set_max_invocations_def Let_def
          split: option.splits if_splits)
  qed (simp_all add: claimable_def get_law list_law active_law)
qed simp

lemma unat_pred: "n \<noteq> 0 \<Longrightarrow> Suc (unat (n - 1)) = unat (n :: u64)"
  by (metis Suc_pred' diff_add_cancel unat_minus_one word_neq_0_conv word_gt_0_no zero_less_iff_neq_zero unat_gt_0)

lemma consumes_budget:
  "budgeted (lease_step store) (bounded_issue k) (consumes k) (issued_uses k) (consumable k)
     (bounded k)"
proof
  fix w c
  assume "bounded k w" "bounded_issue k c"
  then show "bounded k (snd (lease_step store c w))"
  proof (cases c)
    case (RevokeLease s i)
    then show ?thesis using \<open>bounded k w\<close>
      by (cases rule: revoke_cases [of s i w]) (auto simp: bounded_def lease_uses_def)
  next
    case (ClaimLease now s i fp)
    then show ?thesis using \<open>bounded k w\<close>
      by (cases rule: claim_cases [of now s i fp w]) (auto simp: bounded_def lease_uses_def)
  next
    case (ConsumeLease now s i)
    then show ?thesis using \<open>bounded k w\<close>
      by (cases rule: consume_cases [of now s i w])
        (auto simp: bounded_def lease_uses_def consumed_lease_def set_max_invocations_def Let_def
          split: option.splits if_splits)
  qed (auto simp: bounded_def issue_law get_law list_law active_law)
next
  fix w c
  assume b: "bounded k w" "bounded_issue k c"
  show "consumable k (snd (lease_step store c w))
      + (if consumes k c (fst (lease_step store c w)) then 1 else 0)
      \<le> consumable k w + issued_uses k c"
  proof (cases c)
    case (IssueLease l)
    then show ?thesis by (auto simp: consumable_def issue_law)
  next
    case (RevokeLease s i)
    then show ?thesis
      by (cases rule: revoke_cases [of s i w]) (auto simp: consumable_def)
  next
    case (ClaimLease now s i fp)
    then show ?thesis
      by (cases rule: claim_cases [of now s i fp w])
        (auto simp: consumable_def lease_uses_def ensure_claimable_def split: if_splits)
  next
    case (ConsumeLease now s i)
    then show ?thesis using b(1)
      by (cases rule: consume_cases [of now s i w])
        (auto simp: consumable_def lease_uses_def bounded_def consumed_lease_def unat_pred
          set_max_invocations_def ensure_consumable_def ensure_not_expired_or_exhausted_def Let_def
          split: option.splits if_splits lease_status.splits)
  qed (simp_all add: consumable_def get_law list_law active_law)
qed

lemma claims_within_issues:
  "leases w k = None \<Longrightarrow>
     occurrences (claims k) (history (lease_step store) cs w) \<le> sum_list (map (issued_count k) cs)"
  using budgeted.spent_within_budget [OF claims_budget [of k], where s = w and cs = cs] by (simp add: claimable_def)

lemma consumes_within_issues:
  "leases w k = None \<Longrightarrow> \<forall>c \<in> set cs. bounded_issue k c \<Longrightarrow>
     occurrences (consumes k) (history (lease_step store) cs w) \<le> sum_list (map (issued_uses k) cs)"
  using budgeted.spent_within_budget [OF consumes_budget [of k], where s = w and cs = cs]
  by (simp add: consumable_def bounded_def)

text \<open>Once revoked, and as long as it is not issued anew, a lease is of no use.\<close>

lemma revoked_useless:
  assumes "leases w k = Some l" "ls_status l = Revoked"
    and "\<forall>c \<in> set cs. issued_count k c = 0"
  shows "occurrences (claims k) (history (lease_step store) cs w) = 0
    \<and> occurrences (consumes k) (history (lease_step store) cs w) = 0
    \<and> (\<exists>m. leases (final_state (lease_step store) cs w) k = Some m \<and> ls_status m = Revoked)"
  using assms
proof (induction cs arbitrary: w l)
  case Nil
  then show ?case by simp
next
  case (Cons d cs)
  have "(\<exists>m. leases (snd (lease_step store d w)) k = Some m \<and> ls_status m = Revoked)
      \<and> \<not> claims k d (fst (lease_step store d w)) \<and> \<not> consumes k d (fst (lease_step store d w))"
  proof (cases d)
    case (IssueLease m)
    then show ?thesis using Cons.prems by (auto simp: issue_law split: if_splits)
  next
    case (RevokeLease s i)
    then show ?thesis using Cons.prems by (cases rule: revoke_cases [of s i w]) auto
  next
    case (ClaimLease now s i fp)
    then show ?thesis using Cons.prems
      by (cases rule: claim_cases [of now s i fp w])
        (auto simp: ensure_claimable_def split: if_splits)
  next
    case (ConsumeLease now s i)
    then show ?thesis using Cons.prems
      by (cases rule: consume_cases [of now s i w]) (auto simp: ensure_consumable_def)
  qed (use Cons.prems in \<open>simp_all add: get_law list_law active_law\<close>)
  then show ?case using Cons.IH Cons.prems(3) by auto
qed

end

subsection \<open>The in-memory store fulfils the contract\<close>

definition leases_view :: "lease_map \<Rightarrow> lease_key \<rightharpoonup> capability_lease" where
  "leases_view m = (\<lambda>k. hm_get k m)"

lemmas lease_store_defs = in_memory_leases_def lease_issue_def lease_revoke_def lease_get_def
  lease_claim_def lease_consume_def leases_for_scope_def active_leases_for_context_def Let_def

interpretation leases: lease_contract in_memory_leases leases_view
  by unfold_locales
    (auto simp: lease_store_defs leases_view_def fun_eq_iff split: option.splits sum.splits)

text \<open>
  An approval is spent once: over any sequence of lease-store operations from an empty
  store, a lease key is claimed at most as often as a lease was issued under it. Concurrent
  or repeated resumptions of an invocation cannot claim one approval twice.
\<close>

theorem lease_claimed_at_most_once_per_issue:
  "occurrences (claims k) (history (lease_step in_memory_leases) cs [])
     \<le> sum_list (map (issued_count k) cs)"
  by (rule leases.claims_within_issues) (simp add: leases_view_def)

text \<open>
  A lease is used within its budget: if every lease issued under a key has a bounded use
  (one for a fingerprinted lease, \<open>max_invocations\<close> otherwise), then over any sequence of
  operations from an empty store the key is consumed at most as often as all these budgets
  together allow.
\<close>

theorem lease_consumed_within_budget:
  "\<forall>c \<in> set cs. bounded_issue k c \<Longrightarrow>
     occurrences (consumes k) (history (lease_step in_memory_leases) cs [])
       \<le> sum_list (map (issued_uses k) cs)"
  by (rule leases.consumes_within_issues) (simp_all add: leases_view_def)

subsection \<open>Listings\<close>

definition leases_ok :: "lease_map \<Rightarrow> bool" where
  "leases_ok m \<longleftrightarrow> hm_keyed key_of m"

lemma lease_key_new_eq_iff [simp]:
  "lease_key_new s i = lease_key_new t j \<longleftrightarrow>
     same_scope_owner s t \<and> rs_invocation_id s = rs_invocation_id t \<and> i = j"
  by (auto simp: lease_key_new_def same_scope_owner_def)

lemma consumed_lease_key [simp]:
  "ls_scope (consumed_lease l) = ls_scope l" "lease_id (consumed_lease l) = lease_id l"
  by (simp_all add: consumed_lease_def set_max_invocations_def Let_def split: option.splits)

lemma leases_ok_step:
  "leases_ok m \<Longrightarrow> leases_ok (snd (lease_step in_memory_leases c m))"
  by (cases c)
    (auto simp: leases_ok_def lease_store_defs split: option.splits sum.splits
      intro!: hm_keyed_insert dest: hm_keyed_get)

lemma leases_ok_reachable: "leases_ok (final_state (lease_step in_memory_leases) cs [])"
  by (rule final_state_invariant [of leases_ok]) (erule leases_ok_step, simp add: leases_ok_def)

lemma active_leases_set:
  assumes "leases_ok m"
  shows "set (fst (active_leases_for_context now c m)) =
    {l. hm_get (key_of l) m = Some l \<and> same_scope_owner (ls_scope l) (ec_resource_scope c)
        \<and> lease_is_authorizing now l c}"
  using hm_keyed_filter_set [of key_of m "\<lambda>l. same_scope_owner (ls_scope l) (ec_resource_scope c)"]
    assms by (auto simp: leases_ok_def active_leases_for_context_def leases_for_scope_def)

text \<open>
  After a lease has been revoked, and until a lease is issued under its key again,
  no claim and no consumption of it succeeds and it never authorises any context, whatever
  happens to the store.
\<close>

theorem revoked_lease_is_useless:
  assumes "leases_ok m" and "lease_revoke s i m = (Inr l, m')"
    and "\<forall>c \<in> set cs. issued_count (lease_key_new s i) c = 0"
  shows "occurrences (claims (lease_key_new s i)) (history (lease_step in_memory_leases) cs m') = 0
    \<and> occurrences (consumes (lease_key_new s i)) (history (lease_step in_memory_leases) cs m') = 0
    \<and> (\<forall>now ctx. \<forall>a \<in> set (fst (active_leases_for_context now ctx
          (final_state (lease_step in_memory_leases) cs m'))). key_of a \<noteq> lease_key_new s i)"
proof -
  let ?m = "final_state (lease_step in_memory_leases) cs m'"
  have step: "m' = snd (lease_step in_memory_leases (RevokeLease s i) m)"
    using assms(2) by (simp add: in_memory_leases_def)
  have ok: "leases_ok ?m"
    unfolding step
    by (rule final_state_invariant [of leases_ok]) (erule leases_ok_step, rule leases_ok_step [OF assms(1)])
  have "leases_view m' (lease_key_new s i) = Some l \<and> ls_status l = Revoked"
    using assms(2) by (auto simp: lease_revoke_def leases_view_def Let_def split: option.splits)
  then have u: "occurrences (claims (lease_key_new s i)) (history (lease_step in_memory_leases) cs m') = 0"
    "occurrences (consumes (lease_key_new s i)) (history (lease_step in_memory_leases) cs m') = 0"
    "\<exists>r. hm_get (lease_key_new s i) ?m = Some r \<and> ls_status r = Revoked"
    using leases.revoked_useless [of m' "lease_key_new s i" l cs] assms(3)
    by (auto simp: leases_view_def)
  have "key_of a \<noteq> lease_key_new s i"
    if "a \<in> set (fst (active_leases_for_context now ctx ?m))" for now ctx a
  proof
    assume key: "key_of a = lease_key_new s i"
    have "hm_get (key_of a) ?m = Some a" and "ls_status a = LeaseActive"
      using that by (simp_all add: active_leases_set [OF ok] lease_is_authorizing_def)
    then show False using u(3) unfolding key by simp
  qed
  then show ?thesis using u(1,2) by blast
qed

definition sample_grant :: capability_grant where
  "sample_grant = \<lparr>cg_id = 3, cg_capability = ''ext.run'', cg_grantee = ExtensionPrincipal ''ext'',
     cg_issued_by = HostRuntime,
     cg_constraints = \<lparr>gc_allowed_effects = [DispatchCapability], gc_mounts = \<lparr>mv_mounts = []\<rparr>,
       gc_network = \<lparr>pol_allowed_targets = [], pol_deny_private_ip_ranges = False,
         pol_max_egress_bytes = None\<rparr>, gc_secrets = [], gc_resource_ceiling = None,
       gc_expires_at = None, gc_max_invocations = Some 1\<rparr>\<rparr>"

definition sample_lease :: capability_lease where
  "sample_lease = \<lparr>ls_scope = sample_owner, ls_grant = sample_grant,
     ls_invocation_fingerprint = Some ''sha256:0'', ls_status = LeaseActive\<rparr>"

lemmas lease_eval = sample_lease_def sample_grant_def lease_store_defs ensure_claimable_def
  ensure_consumable_def ensure_not_expired_or_exhausted_def lease_is_expired_def
  consumed_lease_def set_max_invocations_def hm_get_def hm_insert_def

theorem lease_consumed_within_budget_witness:
  "occurrences (consumes (key_of sample_lease))
     (history (lease_step in_memory_leases)
       [IssueLease sample_lease, ClaimLease 0 sample_owner 3 ''sha256:0'',
        ConsumeLease 0 sample_owner 3, ConsumeLease 0 sample_owner 3] []) \<le> 1"
  using lease_consumed_within_budget [of "[IssueLease sample_lease,
      ClaimLease 0 sample_owner 3 ''sha256:0'', ConsumeLease 0 sample_owner 3,
      ConsumeLease 0 sample_owner 3]" "key_of sample_lease"]
  by (simp add: lease_uses_def sample_lease_def del: history_simps)

theorem revoked_lease_is_useless_witness:
  "occurrences (claims (lease_key_new sample_owner 3))
     (history (lease_step in_memory_leases) [ClaimLease 0 sample_owner 3 ''sha256:0'']
       (snd (lease_revoke sample_owner 3 [(lease_key_new sample_owner 3, sample_lease)]))) = 0"
proof -
  let ?m = "[(lease_key_new sample_owner 3, sample_lease)]"
  let ?m' = "[(lease_key_new sample_owner 3, sample_lease\<lparr>ls_status := Revoked\<rparr>)]"
  have ok: "leases_ok ?m"
    by (simp add: leases_ok_def hm_keyed_def hm_keys_distinct_def sample_lease_def sample_grant_def)
  have revoke: "lease_revoke sample_owner 3 ?m = (Inr (sample_lease\<lparr>ls_status := Revoked\<rparr>), ?m')"
    by (simp add: lease_revoke_def hm_get_def hm_insert_def Let_def)
  show ?thesis
    using revoked_lease_is_useless [OF ok revoke, of "[ClaimLease 0 sample_owner 3 ''sha256:0'']"]
    by (simp add: revoke del: history_simps)
qed

end
