(* ===== verification/Trust.thy ===== *)
theory Trust
  imports HostDecisions
begin

section \<open>The host trust policy\<close>

text \<open>
  \<open>crates/ironclaw_trust/src\<close> and \<open>crates/ironclaw_host_api/src/trust.rs\<close>: a package's
  requested trust is turned into a host-controlled decision by the first policy source that
  recognises the package; policy changes are staged, committed and published to the
  invalidation bus under one gate. The sources are the four of the crate. A closure given to
  \<open>mutate_with\<close> can only call the handles of \<open>SourceMutators\<close>: it is a \<open>mutation_program\<close>,
  a tree of handle calls that branches on their results. The clock readings are arguments;
  the write gate makes the whole of \<open>mutate_with\<close> one atomic step, and what the bus delivers
  to its listeners is returned as a list of events.
\<close>

subsection \<open>Requested trust and package identity (\<open>trust.rs\<close>)\<close>

datatype requested_trust_class = Untrusted | ThirdParty | FirstPartyRequested | SystemRequested

datatype package_source =
    BundledSource
  | LocalManifestSource string
  | RegistrySource string
  | AdminSource

record package_identity =
  pi_package_id :: package_id
  pi_source :: package_source
  pi_digest :: "string option"
  pi_signer :: "string option"

subsection \<open>Decisions (\<open>decision.rs\<close>)\<close>

text \<open>\<open>EffectiveTrustClass\<close> and \<open>HostTrustAssignment\<close> wrap a \<open>TrustClass\<close>.\<close>

type_synonym effective_trust_class = trust_class
type_synonym host_trust_assignment = trust_class

fun is_privileged :: "effective_trust_class \<Rightarrow> bool" where
  "is_privileged FirstParty = True"
| "is_privileged System = True"
| "is_privileged _ = False"

fun authority_level :: "effective_trust_class \<Rightarrow> nat" where
  "authority_level Sandbox = 0"
| "authority_level UserTrusted = 1"
| "authority_level FirstParty = 2"
| "authority_level System = 2"

datatype trust_provenance =
    DefaultProvenance
  | BundledProvenance
  | AdminConfigProvenance
  | SignedRegistryProvenance string
  | LocalManifestProvenance

record authority_ceiling =
  ac_allowed_effects :: "effect_kind list"
  ac_max_resource_ceiling :: "resource_ceiling option"

definition ceiling_empty :: authority_ceiling where
  "ceiling_empty = \<lparr>ac_allowed_effects = [], ac_max_resource_ceiling = None\<rparr>"

definition allows_effect :: "authority_ceiling \<Rightarrow> effect_kind \<Rightarrow> bool" where
  "allows_effect c e \<longleftrightarrow> e \<in> set (ac_allowed_effects c)"

fun limit_reduced :: "'a::linorder option \<Rightarrow> 'a option \<Rightarrow> bool" where
  "limit_reduced None (Some c) = True"
| "limit_reduced (Some p) (Some c) = (c < p)"
| "limit_reduced _ None = False"

fun sandbox_quota_reduced :: "sandbox_quota option \<Rightarrow> sandbox_quota option \<Rightarrow> bool" where
  "sandbox_quota_reduced None (Some c) = True"
| "sandbox_quota_reduced (Some p) (Some c) =
     (limit_reduced (sq_cpu_time_ms p) (sq_cpu_time_ms c)
      \<or> limit_reduced (sq_memory_bytes p) (sq_memory_bytes c)
      \<or> limit_reduced (sq_disk_bytes p) (sq_disk_bytes c)
      \<or> limit_reduced (sq_network_egress_bytes p) (sq_network_egress_bytes c)
      \<or> limit_reduced (sq_process_count p) (sq_process_count c))"
| "sandbox_quota_reduced _ None = False"

fun resource_ceiling_reduced :: "resource_ceiling option \<Rightarrow> resource_ceiling option \<Rightarrow> bool" where
  "resource_ceiling_reduced None (Some c) = True"
| "resource_ceiling_reduced (Some p) (Some c) =
     (limit_reduced (rc_max_usd p) (rc_max_usd c)
      \<or> limit_reduced (rc_max_input_tokens p) (rc_max_input_tokens c)
      \<or> limit_reduced (rc_max_output_tokens p) (rc_max_output_tokens c)
      \<or> limit_reduced (rc_max_wall_clock_ms p) (rc_max_wall_clock_ms c)
      \<or> limit_reduced (rc_max_output_bytes p) (rc_max_output_bytes c)
      \<or> sandbox_quota_reduced (rc_sandbox p) (rc_sandbox c))"
| "resource_ceiling_reduced _ None = False"

definition is_reduction_from :: "authority_ceiling \<Rightarrow> authority_ceiling \<Rightarrow> bool" where
  "is_reduction_from self previous \<longleftrightarrow>
     list_ex (\<lambda>e. e \<notin> set (ac_allowed_effects self)) (ac_allowed_effects previous)
     \<or> resource_ceiling_reduced (ac_max_resource_ceiling previous) (ac_max_resource_ceiling self)"

record trust_decision =
  td_effective_trust :: effective_trust_class
  td_authority_ceiling :: authority_ceiling
  td_provenance :: trust_provenance
  td_evaluated_at :: timestamp

datatype trust_error = TrustInvariantViolation string

subsection \<open>Policy sources (\<open>sources.rs\<close>)\<close>

text \<open>\<open>requested_authority\<close> is a \<open>BTreeSet\<close>, so a set.\<close>

record trust_policy_input =
  tpi_identity :: package_identity
  tpi_requested_trust :: requested_trust_class
  tpi_requested_authority :: "capability_id set"

record source_match =
  sm_effective_trust :: effective_trust_class
  sm_provenance :: trust_provenance
  sm_allowed_effects :: "effect_kind list"
  sm_max_resource_ceiling :: "resource_ceiling option"

record bundled_entry =
  be_package_id :: package_id
  be_digest :: "string option"
  be_effective_trust :: effective_trust_class
  be_allowed_effects :: "effect_kind list"
  be_max_resource_ceiling :: "resource_ceiling option"

record admin_entry =
  ae_package_id :: package_id
  ae_source :: package_source
  ae_digest :: "string option"
  ae_effective_trust :: effective_trust_class
  ae_allowed_effects :: "effect_kind list"
  ae_max_resource_ceiling :: "resource_ceiling option"

record signer_entry =
  se_signer :: string
  se_label :: "string option"
  se_effective_trust :: effective_trust_class
  se_allowed_effects :: "effect_kind list"
  se_max_resource_ceiling :: "resource_ceiling option"

definition bundled_entry_new ::
    "package_id \<Rightarrow> string option \<Rightarrow> host_trust_assignment \<Rightarrow> effect_kind list
     \<Rightarrow> resource_ceiling option \<Rightarrow> bundled_entry" where
  "bundled_entry_new package digest trust effects ceiling =
     \<lparr>be_package_id = package, be_digest = digest, be_effective_trust = trust,
      be_allowed_effects = effects, be_max_resource_ceiling = ceiling\<rparr>"

definition admin_for_bundled ::
    "package_id \<Rightarrow> string option \<Rightarrow> host_trust_assignment \<Rightarrow> effect_kind list
     \<Rightarrow> resource_ceiling option \<Rightarrow> admin_entry" where
  "admin_for_bundled package digest trust effects ceiling =
     \<lparr>ae_package_id = package, ae_source = BundledSource, ae_digest = digest,
      ae_effective_trust = trust, ae_allowed_effects = effects,
      ae_max_resource_ceiling = ceiling\<rparr>"

definition admin_for_registry ::
    "package_id \<Rightarrow> string \<Rightarrow> string option \<Rightarrow> host_trust_assignment \<Rightarrow> effect_kind list
     \<Rightarrow> resource_ceiling option \<Rightarrow> admin_entry" where
  "admin_for_registry package url digest trust effects ceiling =
     \<lparr>ae_package_id = package, ae_source = RegistrySource url, ae_digest = digest,
      ae_effective_trust = trust, ae_allowed_effects = effects,
      ae_max_resource_ceiling = ceiling\<rparr>"

definition admin_for_admin ::
    "package_id \<Rightarrow> host_trust_assignment \<Rightarrow> effect_kind list
     \<Rightarrow> resource_ceiling option \<Rightarrow> admin_entry" where
  "admin_for_admin package trust effects ceiling =
     \<lparr>ae_package_id = package, ae_source = AdminSource, ae_digest = None,
      ae_effective_trust = trust, ae_allowed_effects = effects,
      ae_max_resource_ceiling = ceiling\<rparr>"

definition admin_for_local_manifest ::
    "package_id \<Rightarrow> string \<Rightarrow> string option \<Rightarrow> host_trust_assignment \<Rightarrow> effect_kind list
     \<Rightarrow> resource_ceiling option \<Rightarrow> admin_entry" where
  "admin_for_local_manifest package path digest trust effects ceiling =
     \<lparr>ae_package_id = package, ae_source = LocalManifestSource path, ae_digest = digest,
      ae_effective_trust = trust, ae_allowed_effects = effects,
      ae_max_resource_ceiling = ceiling\<rparr>"

type_synonym admin_subject = "package_id \<times> package_source"

datatype policy_source =
    BundledRegistry "package_id \<rightharpoonup> bundled_entry"
  | AdminConfig "admin_subject \<rightharpoonup> admin_entry"
  | SignedRegistry "string \<rightharpoonup> signer_entry"
  | LocalDevOverride "package_id \<rightharpoonup> admin_entry" bool

datatype source_type = BundledType | AdminType | SignedType | LocalDevType

fun source_type_id :: "policy_source \<Rightarrow> source_type" where
  "source_type_id (BundledRegistry _) = BundledType"
| "source_type_id (AdminConfig _) = AdminType"
| "source_type_id (SignedRegistry _) = SignedType"
| "source_type_id (LocalDevOverride _ _) = LocalDevType"

fun source_name :: "policy_source \<Rightarrow> string" where
  "source_name (BundledRegistry _) = ''bundled''"
| "source_name (AdminConfig _) = ''admin_config''"
| "source_name (SignedRegistry _) = ''signed_registry''"
| "source_name (LocalDevOverride _ _) = ''local_dev_override''"

text \<open>The digest pin: an unpinned entry matches any digest, a pinned one only its own.\<close>

definition digest_matches :: "string option \<Rightarrow> string option \<Rightarrow> bool" where
  "digest_matches pin actual =
     (case pin of None \<Rightarrow> True
      | Some p \<Rightarrow> (case actual of Some a \<Rightarrow> a = p | None \<Rightarrow> False))"

definition bundled_evaluate ::
    "(package_id \<rightharpoonup> bundled_entry) \<Rightarrow> trust_policy_input
     \<Rightarrow> (trust_error, source_match option) result" where
  "bundled_evaluate entries input =
     (if pi_source (tpi_identity input) \<noteq> BundledSource then Inr None
      else (case entries (pi_package_id (tpi_identity input)) of
              None \<Rightarrow> Inr None
            | Some entry \<Rightarrow>
                if \<not> digest_matches (be_digest entry) (pi_digest (tpi_identity input)) then Inr None
                else Inr (Some \<lparr>sm_effective_trust = be_effective_trust entry,
                  sm_provenance = BundledProvenance,
                  sm_allowed_effects = be_allowed_effects entry,
                  sm_max_resource_ceiling = be_max_resource_ceiling entry\<rparr>)))"

definition admin_evaluate ::
    "(admin_subject \<rightharpoonup> admin_entry) \<Rightarrow> trust_policy_input
     \<Rightarrow> (trust_error, source_match option) result" where
  "admin_evaluate entries input =
     (case entries (pi_package_id (tpi_identity input), pi_source (tpi_identity input)) of
        None \<Rightarrow> Inr None
      | Some entry \<Rightarrow>
          if \<not> digest_matches (ae_digest entry) (pi_digest (tpi_identity input)) then Inr None
          else Inr (Some \<lparr>sm_effective_trust = ae_effective_trust entry,
            sm_provenance = AdminConfigProvenance,
            sm_allowed_effects = ae_allowed_effects entry,
            sm_max_resource_ceiling = ae_max_resource_ceiling entry\<rparr>))"

definition signed_evaluate ::
    "(string \<rightharpoonup> signer_entry) \<Rightarrow> trust_policy_input
     \<Rightarrow> (trust_error, source_match option) result" where
  "signed_evaluate entries input = Inr None"

definition local_dev_evaluate ::
    "(package_id \<rightharpoonup> admin_entry) \<Rightarrow> bool \<Rightarrow> trust_policy_input
     \<Rightarrow> (trust_error, source_match option) result" where
  "local_dev_evaluate overrides enabled input = (if \<not> enabled then Inr None else Inr None)"

fun source_evaluate ::
    "policy_source \<Rightarrow> trust_policy_input \<Rightarrow> (trust_error, source_match option) result" where
  "source_evaluate (BundledRegistry m) input = bundled_evaluate m input"
| "source_evaluate (AdminConfig m) input = admin_evaluate m input"
| "source_evaluate (SignedRegistry m) input = signed_evaluate m input"
| "source_evaluate (LocalDevOverride m e) input = local_dev_evaluate m e input"

definition bundled_with_entries :: "bundled_entry list \<Rightarrow> policy_source" where
  "bundled_with_entries entries =
     BundledRegistry (fold (\<lambda>e m. m(be_package_id e \<mapsto> e)) entries Map.empty)"

definition admin_subject_from_entry :: "admin_entry \<Rightarrow> admin_subject" where
  "admin_subject_from_entry e = (ae_package_id e, ae_source e)"

definition admin_with_entries :: "admin_entry list \<Rightarrow> policy_source" where
  "admin_with_entries entries =
     AdminConfig (fold (\<lambda>e m. m(admin_subject_from_entry e \<mapsto> e)) entries Map.empty)"

definition signed_with_signers :: "signer_entry list \<Rightarrow> policy_source" where
  "signed_with_signers entries =
     SignedRegistry (fold (\<lambda>e m. m(se_signer e \<mapsto> e)) entries Map.empty)"

definition local_dev_inert :: policy_source where
  "local_dev_inert = LocalDevOverride Map.empty False"

subsection \<open>The policy chain (\<open>policy.rs\<close>)\<close>

text \<open>A \<open>HostTrustPolicy\<close> is its list of sources; the clock is read where \<open>now\<close> is used.\<close>

fun ensure_unique_from :: "source_type set \<Rightarrow> policy_source list \<Rightarrow> (trust_error, unit) result" where
  "ensure_unique_from seen [] = Inr ()"
| "ensure_unique_from seen (s # ss) =
     (if source_type_id s \<in> seen then Inl (TrustInvariantViolation
        (''policy chain contains duplicate source type `'' @ source_name s @ ''`''))
      else ensure_unique_from (insert (source_type_id s) seen) ss)"

definition ensure_unique_source_types :: "policy_source list \<Rightarrow> (trust_error, unit) result" where
  "ensure_unique_source_types sources = ensure_unique_from {} sources"

definition ensure_source_type_absent ::
    "policy_source list \<Rightarrow> policy_source \<Rightarrow> (trust_error, unit) result" where
  "ensure_source_type_absent sources candidate =
     (if list_ex (\<lambda>s. source_type_id s = source_type_id candidate) sources then
        Inl (TrustInvariantViolation
          (''policy chain already contains source type `'' @ source_name candidate @ ''`''))
      else Inr ())"

definition policy_with_clock :: "policy_source list \<Rightarrow> (trust_error, policy_source list) result" where
  "policy_with_clock sources = bind_result (ensure_unique_source_types sources) (\<lambda>_. Inr sources)"

definition policy_new :: "policy_source list \<Rightarrow> (trust_error, policy_source list) result" where
  "policy_new sources = policy_with_clock sources"

definition policy_add_source ::
    "policy_source \<Rightarrow> (policy_source list, trust_error, unit) operation" where
  "policy_add_source source sources =
     (case ensure_source_type_absent sources source of
        Inl e \<Rightarrow> (Inl e, sources)
      | Inr _ \<Rightarrow> (Inr (), sources @ [source]))"

definition default_decision :: "trust_policy_input \<Rightarrow> timestamp \<Rightarrow> trust_decision" where
  "default_decision input now = \<lparr>td_effective_trust = Sandbox,
     td_authority_ceiling = ceiling_empty, td_provenance = DefaultProvenance,
     td_evaluated_at = now\<rparr>"

fun evaluate_unlocked ::
    "timestamp \<Rightarrow> policy_source list \<Rightarrow> trust_policy_input \<Rightarrow> (trust_error, trust_decision) result" where
  "evaluate_unlocked now [] input = Inr (default_decision input now)"
| "evaluate_unlocked now (source # sources) input =
     (case source_evaluate source input of
        Inl e \<Rightarrow> Inl e
      | Inr (Some matched) \<Rightarrow> Inr \<lparr>td_effective_trust = sm_effective_trust matched,
          td_authority_ceiling = \<lparr>ac_allowed_effects = sm_allowed_effects matched,
            ac_max_resource_ceiling = sm_max_resource_ceiling matched\<rparr>,
          td_provenance = sm_provenance matched, td_evaluated_at = now\<rparr>
      | Inr None \<Rightarrow> evaluate_unlocked now sources input)"

subsection \<open>Staged mutations (\<open>policy.rs\<close>)\<close>

datatype source_mutation =
    BundledUpsert bundled_entry
  | BundledRemove package_id
  | AdminUpsert admin_entry
  | AdminRemove package_id package_source
  | SignedUpsert signer_entry
  | SignedRemove string

fun type_name :: "source_type \<Rightarrow> string" where
  "type_name BundledType = ''ironclaw_trust::sources::BundledRegistry''"
| "type_name AdminType = ''ironclaw_trust::sources::AdminConfig''"
| "type_name SignedType = ''ironclaw_trust::sources::SignedRegistry''"
| "type_name LocalDevType = ''ironclaw_trust::sources::LocalDevOverride''"

definition find_source ::
    "source_type \<Rightarrow> policy_source list \<Rightarrow> (trust_error, policy_source) result" where
  "find_source t sources =
     (case filter (\<lambda>s. source_type_id s = t) sources of
        [] \<Rightarrow> Inl (TrustInvariantViolation
          (''policy chain does not contain a source of type `'' @ type_name t @ ''`''))
      | [first] \<Rightarrow> Inr first
      | _ \<Rightarrow> Inl (TrustInvariantViolation
          (''policy chain contains duplicate source type `'' @ type_name t @ ''`'')))"

fun get_bundled :: "policy_source \<Rightarrow> package_id \<Rightarrow> bundled_entry option" where
  "get_bundled (BundledRegistry m) i = m i"
| "get_bundled _ i = None"

fun get_admin :: "policy_source \<Rightarrow> package_id \<Rightarrow> package_source \<Rightarrow> admin_entry option" where
  "get_admin (AdminConfig m) i s = m (i, s)"
| "get_admin _ i s = None"

fun get_signed :: "policy_source \<Rightarrow> string \<Rightarrow> signer_entry option" where
  "get_signed (SignedRegistry m) i = m i"
| "get_signed _ i = None"

text \<open>The \<open>upsert\<close> and \<open>remove\<close> methods of the sources, through the handle.\<close>

fun apply_to_source :: "source_mutation \<Rightarrow> policy_source \<Rightarrow> policy_source" where
  "apply_to_source (BundledUpsert e) (BundledRegistry m) = BundledRegistry (m(be_package_id e \<mapsto> e))"
| "apply_to_source (BundledRemove i) (BundledRegistry m) = BundledRegistry (m(i := None))"
| "apply_to_source (AdminUpsert e) (AdminConfig m) =
     AdminConfig (m(admin_subject_from_entry e \<mapsto> e))"
| "apply_to_source (AdminRemove i s) (AdminConfig m) = AdminConfig (m((i, s) := None))"
| "apply_to_source (SignedUpsert e) (SignedRegistry m) = SignedRegistry (m(se_signer e \<mapsto> e))"
| "apply_to_source (SignedRemove i) (SignedRegistry m) = SignedRegistry (m(i := None))"
| "apply_to_source _ s = s"

fun mutation_target :: "source_mutation \<Rightarrow> source_type" where
  "mutation_target (BundledUpsert _) = BundledType"
| "mutation_target (BundledRemove _) = BundledType"
| "mutation_target (AdminUpsert _) = AdminType"
| "mutation_target (AdminRemove _ _) = AdminType"
| "mutation_target (SignedUpsert _) = SignedType"
| "mutation_target (SignedRemove _) = SignedType"

fun commit :: "source_mutation list \<Rightarrow> (policy_source list, trust_error, unit) operation" where
  "commit [] sources = (Inr (), sources)"
| "commit (m # ms) sources =
     (case find_source (mutation_target m) sources of
        Inl e \<Rightarrow> (Inl e, sources)
      | Inr _ \<Rightarrow> commit ms
          (map (\<lambda>s. if source_type_id s = mutation_target m then apply_to_source m s else s)
             sources))"

text \<open>What a closure can do with the handles, and running it against the live sources.\<close>

datatype 'r mutation_program =
    Finish "(trust_error, 'r) result"
  | CallBundledUpsert bundled_entry "(trust_error, unit) result \<Rightarrow> 'r mutation_program"
  | CallBundledRemove package_id "(trust_error, bundled_entry option) result \<Rightarrow> 'r mutation_program"
  | CallAdminUpsert admin_entry "(trust_error, unit) result \<Rightarrow> 'r mutation_program"
  | CallAdminRemove package_id package_source
      "(trust_error, admin_entry option) result \<Rightarrow> 'r mutation_program"
  | CallSignedUpsert signer_entry "(trust_error, unit) result \<Rightarrow> 'r mutation_program"
  | CallSignedRemove string "(trust_error, signer_entry option) result \<Rightarrow> 'r mutation_program"

definition stage ::
    "policy_source list \<Rightarrow> source_mutation \<Rightarrow> (policy_source \<Rightarrow> 'a)
     \<Rightarrow> (source_mutation list, trust_error, 'a) operation" where
  "stage sources m previous staged =
     (case find_source (mutation_target m) sources of
        Inl e \<Rightarrow> (Inl e, staged)
      | Inr source \<Rightarrow> (Inr (previous source), staged @ [m]))"

primrec run_program ::
    "policy_source list \<Rightarrow> 'r mutation_program \<Rightarrow> (source_mutation list, trust_error, 'r) operation" where
  "run_program sources (Finish r) staged = (r, staged)"
| "run_program sources (CallBundledUpsert e k) staged =
     (case stage sources (BundledUpsert e) (\<lambda>_. ()) staged of
        (r, staged') \<Rightarrow> run_program sources (k r) staged')"
| "run_program sources (CallBundledRemove i k) staged =
     (case stage sources (BundledRemove i) (\<lambda>s. get_bundled s i) staged of
        (r, staged') \<Rightarrow> run_program sources (k r) staged')"
| "run_program sources (CallAdminUpsert e k) staged =
     (case stage sources (AdminUpsert e) (\<lambda>_. ()) staged of
        (r, staged') \<Rightarrow> run_program sources (k r) staged')"
| "run_program sources (CallAdminRemove i p k) staged =
     (case stage sources (AdminRemove i p) (\<lambda>s. get_admin s i p) staged of
        (r, staged') \<Rightarrow> run_program sources (k r) staged')"
| "run_program sources (CallSignedUpsert e k) staged =
     (case stage sources (SignedUpsert e) (\<lambda>_. ()) staged of
        (r, staged') \<Rightarrow> run_program sources (k r) staged')"
| "run_program sources (CallSignedRemove i k) staged =
     (case stage sources (SignedRemove i) (\<lambda>s. get_signed s i) staged of
        (r, staged') \<Rightarrow> run_program sources (k r) staged')"

subsection \<open>Invalidation (\<open>invalidation.rs\<close>)\<close>

record trust_change =
  tc_identity :: package_identity
  tc_previous :: effective_trust_class
  tc_current :: effective_trust_class
  tc_previous_authority_ceiling :: authority_ceiling
  tc_current_authority_ceiling :: authority_ceiling
  tc_effective_at :: timestamp

definition trust_change_new ::
    "package_identity \<Rightarrow> trust_decision \<Rightarrow> trust_decision \<Rightarrow> trust_change option" where
  "trust_change_new identity previous current =
     (if td_effective_trust previous = td_effective_trust current
         \<and> \<not> is_reduction_from (td_authority_ceiling current) (td_authority_ceiling previous)
      then None
      else Some \<lparr>tc_identity = identity, tc_previous = td_effective_trust previous,
        tc_current = td_effective_trust current,
        tc_previous_authority_ceiling = td_authority_ceiling previous,
        tc_current_authority_ceiling = td_authority_ceiling current,
        tc_effective_at = td_evaluated_at current\<rparr>)"

definition is_downgrade :: "trust_change \<Rightarrow> bool" where
  "is_downgrade c \<longleftrightarrow> authority_level (tc_current c) < authority_level (tc_previous c)"

definition is_upgrade :: "trust_change \<Rightarrow> bool" where
  "is_upgrade c \<longleftrightarrow> authority_level (tc_previous c) < authority_level (tc_current c)"

definition is_kind_change :: "trust_change \<Rightarrow> bool" where
  "is_kind_change c \<longleftrightarrow> tc_previous c \<noteq> tc_current c
     \<and> authority_level (tc_current c) = authority_level (tc_previous c)"

definition authority_ceiling_reduced :: "trust_change \<Rightarrow> bool" where
  "authority_ceiling_reduced c \<longleftrightarrow>
     is_reduction_from (tc_current_authority_ceiling c) (tc_previous_authority_ceiling c)"

text \<open>The events that reach every listener (the release-build filter).\<close>

definition publish :: "trust_change \<Rightarrow> trust_change list" where
  "publish c = (if tc_previous c = tc_current c \<and> \<not> authority_ceiling_reduced c then [] else [c])"

definition identity_changed :: "package_identity \<Rightarrow> package_identity \<Rightarrow> bool" where
  "identity_changed a b \<longleftrightarrow> pi_package_id a \<noteq> pi_package_id b \<or> pi_source a \<noteq> pi_source b
     \<or> pi_digest a \<noteq> pi_digest b \<or> pi_signer a \<noteq> pi_signer b"

definition authority_changed :: "capability_id set \<Rightarrow> capability_id set \<Rightarrow> bool" where
  "authority_changed a b \<longleftrightarrow> a \<noteq> b"

definition grant_retention_eligible ::
    "package_identity \<Rightarrow> package_identity \<Rightarrow> effective_trust_class \<Rightarrow> effective_trust_class
     \<Rightarrow> capability_id set \<Rightarrow> capability_id set \<Rightarrow> bool" where
  "grant_retention_eligible i i' t t' a a' \<longleftrightarrow>
     \<not> identity_changed i i' \<and> t = t' \<and> \<not> authority_changed a a'"

text \<open>
  \<open>mutate_with\<close>: the result of the closure, the new sources and the events delivered. The
  clock is read once per evaluation.
\<close>

definition mutate_with ::
    "timestamp \<Rightarrow> timestamp \<Rightarrow> package_identity \<Rightarrow> capability_id set \<Rightarrow> requested_trust_class
     \<Rightarrow> 'r mutation_program \<Rightarrow> policy_source list
     \<Rightarrow> (trust_error, 'r) result \<times> policy_source list \<times> trust_change list" where
  "mutate_with now_before now_after identity authority requested program sources =
     (let probe = \<lparr>tpi_identity = identity, tpi_requested_trust = requested,
        tpi_requested_authority = authority\<rparr> in
      case evaluate_unlocked now_before sources probe of
        Inl e \<Rightarrow> (Inl e, sources, [])
      | Inr prev \<Rightarrow>
        (case run_program sources program [] of
           (Inl e, staged) \<Rightarrow> (Inl e, sources, [])
         | (Inr result, staged) \<Rightarrow>
           (case commit staged sources of
              (Inl e, sources') \<Rightarrow> (Inl e, sources', [])
            | (Inr _, sources') \<Rightarrow>
              (case evaluate_unlocked now_after sources' probe of
                 Inl e \<Rightarrow> (Inl e, sources', [])
               | Inr next_decision \<Rightarrow>
                 (case trust_change_new identity prev next_decision of
                    None \<Rightarrow> (Inr result, sources', [])
                  | Some change \<Rightarrow> (Inr result, sources', publish change))))))"

subsection \<open>Who may be privileged\<close>

text \<open>An entry of the host's own configuration that vouches for exactly this package.\<close>

definition bundled_vouches ::
    "policy_source list \<Rightarrow> package_identity \<Rightarrow> trust_decision \<Rightarrow> bool" where
  "bundled_vouches sources i d \<longleftrightarrow> pi_source i = BundledSource
     \<and> (\<exists>m e. BundledRegistry m \<in> set sources \<and> m (pi_package_id i) = Some e
          \<and> (be_digest e = None \<or> pi_digest i = be_digest e)
          \<and> td_effective_trust d = be_effective_trust e
          \<and> td_authority_ceiling d = \<lparr>ac_allowed_effects = be_allowed_effects e,
               ac_max_resource_ceiling = be_max_resource_ceiling e\<rparr>
          \<and> td_provenance d = BundledProvenance)"

definition admin_vouches ::
    "policy_source list \<Rightarrow> package_identity \<Rightarrow> trust_decision \<Rightarrow> bool" where
  "admin_vouches sources i d \<longleftrightarrow>
     (\<exists>m e. AdminConfig m \<in> set sources \<and> m (pi_package_id i, pi_source i) = Some e
        \<and> (ae_digest e = None \<or> pi_digest i = ae_digest e)
        \<and> td_effective_trust d = ae_effective_trust e
        \<and> td_authority_ceiling d = \<lparr>ac_allowed_effects = ae_allowed_effects e,
             ac_max_resource_ceiling = ae_max_resource_ceiling e\<rparr>
        \<and> td_provenance d = AdminConfigProvenance)"

lemma vouches_mono:
  "bundled_vouches ss i d \<Longrightarrow> bundled_vouches (s # ss) i d"
  "admin_vouches ss i d \<Longrightarrow> admin_vouches (s # ss) i d"
  unfolding bundled_vouches_def admin_vouches_def by (meson list.set_intros(2))+

lemma digest_matches_iff: "digest_matches pin actual \<longleftrightarrow> pin = None \<or> actual = pin"
  by (auto simp: digest_matches_def split: option.splits)

lemma source_evaluate_no_error: "\<exists>m. source_evaluate s i = Inr m"
  by (cases s)
    (auto simp: bundled_evaluate_def admin_evaluate_def signed_evaluate_def local_dev_evaluate_def
      split: option.splits)

lemma evaluate_unlocked_total: "\<exists>d. evaluate_unlocked now sources i = Inr d"
proof (induction sources)
  case Nil
  then show ?case by simp
next
  case (Cons s ss)
  then show ?case using source_evaluate_no_error [of s i] by (auto split: option.splits)
qed


subsection \<open>Mutations are published\<close>

lemma stage_finds:
  "stage sources m f staged = (r, staged') \<Longrightarrow>
     staged' = staged \<or> (staged' = staged @ [m] \<and> \<not> is_err (find_source (mutation_target m) sources))"
  by (auto simp: stage_def split: sum.splits)

definition targets_present :: "policy_source list \<Rightarrow> source_mutation list \<Rightarrow> bool" where
  "targets_present sources ms \<longleftrightarrow> (\<forall>m \<in> set ms. \<not> is_err (find_source (mutation_target m) sources))"

lemma stage_targets:
  "targets_present sources staged \<Longrightarrow> targets_present sources (snd (stage sources m f staged))"
  by (auto simp: stage_def targets_present_def split: sum.splits)

lemma run_program_targets:
  "targets_present sources staged \<Longrightarrow>
     targets_present sources (snd (run_program sources program staged))"
proof (induction program arbitrary: staged)
  case (Finish r)
  then show ?case by simp
qed (simp add: split_def stage_targets)+

lemma source_type_apply [simp]: "source_type_id (apply_to_source m s) = source_type_id s"
  by (cases "(m, s)" rule: apply_to_source.cases) simp_all

lemma find_source_map:
  assumes "\<And>s. source_type_id (f s) = source_type_id s"
  shows "is_err (find_source t (map f sources)) \<longleftrightarrow> is_err (find_source t sources)"
proof -
  have "filter (\<lambda>s. source_type_id s = t) (map f sources) =
      map f (filter (\<lambda>s. source_type_id s = t) sources)"
    using assms by (simp add: filter_map o_def)
  then show ?thesis by (auto simp: find_source_def split: list.splits)
qed

lemma commit_succeeds:
  "targets_present sources ms \<Longrightarrow> fst (commit ms sources) = Inr ()"
proof (induction ms arbitrary: sources)
  case Nil
  then show ?case by simp
next
  case (Cons m ms)
  let ?f = "\<lambda>s. if source_type_id s = mutation_target m then apply_to_source m s else s"
  have "targets_present (map ?f sources) ms"
    using Cons.prems by (simp add: targets_present_def find_source_map)
  then have "fst (commit ms (map ?f sources)) = Inr ()" by (rule Cons.IH)
  moreover obtain s where "find_source (mutation_target m) sources = Inr s"
    using Cons.prems by (auto simp: targets_present_def not_is_err_iff)
  ultimately show ?case by simp
qed

text \<open>The decision in force for the identity a mutation is about.\<close>

definition decision_of ::
    "timestamp \<Rightarrow> policy_source list \<Rightarrow> package_identity \<Rightarrow> capability_id set
     \<Rightarrow> requested_trust_class \<Rightarrow> trust_decision" where
  "decision_of now sources i a q =
     (case evaluate_unlocked now sources \<lparr>tpi_identity = i, tpi_requested_trust = q,
        tpi_requested_authority = a\<rparr> of Inr d \<Rightarrow> d
      | Inl _ \<Rightarrow> default_decision \<lparr>tpi_identity = i, tpi_requested_trust = q,
        tpi_requested_authority = a\<rparr> now)"

text \<open>
  A policy mutation is all or nothing, and its consequences are announced: if the
  closure fails, the sources are untouched and nothing is published; if it succeeds, its
  result is returned, every staged mutation is committed, and the one event delivered to the
  listeners is exactly the change between the decision before and the decision after, which
  is silent only when the trust class is the same and the authority ceiling has not shrunk.
\<close>

theorem mutate_with_publishes:
  "mutate_with t t' i a q program sources =
     (case run_program sources program [] of
        (Inl e, staged) \<Rightarrow> (Inl e, sources, [])
      | (Inr r, staged) \<Rightarrow>
          (let sources' = snd (commit staged sources);
               before = decision_of t sources i a q; now = decision_of t' sources' i a q
           in (Inr r, sources',
               if td_effective_trust before = td_effective_trust now
                  \<and> \<not> is_reduction_from (td_authority_ceiling now) (td_authority_ceiling before)
               then []
               else [\<lparr>tc_identity = i, tc_previous = td_effective_trust before,
                 tc_current = td_effective_trust now,
                 tc_previous_authority_ceiling = td_authority_ceiling before,
                 tc_current_authority_ceiling = td_authority_ceiling now,
                 tc_effective_at = t'\<rparr>])))"
proof -
  let ?probe = "\<lparr>tpi_identity = i, tpi_requested_trust = q, tpi_requested_authority = a\<rparr>"
  have at: "td_evaluated_at d = now" if "evaluate_unlocked now ss ?probe = Inr d" for now ss d
    using that by (induction ss) (auto simp: default_decision_def split: sum.splits option.splits)
  obtain prev where prev: "evaluate_unlocked t sources ?probe = Inr prev"
    using evaluate_unlocked_total by blast
  obtain r staged where run: "run_program sources program [] = (r, staged)" by fastforce
  show ?thesis
  proof (cases r)
    case (Inl e)
    then show ?thesis by (simp add: mutate_with_def prev run)
  next
    case (Inr x)
    have "targets_present sources staged"
      using run_program_targets [of sources "[]" program] by (simp add: run targets_present_def)
    then obtain sources' where c: "commit staged sources = (Inr (), sources')"
      using commit_succeeds by (metis prod.collapse)
    obtain d where d: "evaluate_unlocked t' sources' ?probe = Inr d"
      using evaluate_unlocked_total by blast
    have "td_evaluated_at d = t'" by (rule at [OF d])
    then show ?thesis
      by (auto simp: Inr mutate_with_def prev run c d decision_of_def trust_change_new_def
          publish_def authority_ceiling_reduced_def Let_def)
  qed
qed

text \<open>
  The event covers the identity the caller names, and only that one: a closure that edits
  another package's entry changes that package's decision without any event.
\<close>

definition sample_identity :: "package_id \<Rightarrow> package_identity" where
  "sample_identity p = \<lparr>pi_package_id = p, pi_source = BundledSource, pi_digest = None,
     pi_signer = None\<rparr>"

lemma mutation_of_other_package_unpublished:
  "let sources = [bundled_with_entries [bundled_entry_new ''b'' None FirstParty [Network] None]];
       outcome = mutate_with 0 0 (sample_identity ''a'') {} ThirdParty
         (CallBundledRemove ''b'' (\<lambda>_. Finish (Inr ()))) sources
   in fst outcome = Inr () \<and> snd (snd outcome) = []
      \<and> td_effective_trust (decision_of 0 sources (sample_identity ''b'') {} ThirdParty) = FirstParty
      \<and> td_effective_trust (decision_of 0 (fst (snd outcome)) (sample_identity ''b'') {} ThirdParty)
          = Sandbox"
  by (simp add: mutate_with_def trust_change_new_def decision_of_def bundled_with_entries_def bundled_entry_new_def
      sample_identity_def bundled_evaluate_def digest_matches_def stage_def find_source_def
      default_decision_def ceiling_empty_def is_reduction_from_def Let_def)

end
