(* ===== verification/Authorization.thy ===== *)
theory Authorization
  imports Leases Trust
begin

section \<open>Capability authorization\<close>

text \<open>
  \<open>crates/ironclaw_authorization/src/lib.rs\<close>: the grant- and lease-backed authorizers. A
  decision allows a dispatch only under an active grant (from the request or from an active
  lease) whose effects and resource ceiling, intersected with the trust policy's authority
  ceiling, cover the capability and the estimate. The clock is the argument \<open>now\<close>, one
  reading per decision.
\<close>

subsection \<open>Grants\<close>

fun principal_matches_context :: "principal \<Rightarrow> execution_context \<Rightarrow> bool" where
  "principal_matches_context (TenantPrincipal i) c = (i = ec_tenant_id c)"
| "principal_matches_context (UserPrincipal i) c = (i = ec_user_id c)"
| "principal_matches_context (AgentPrincipal i) c = (ec_agent_id c = Some i)"
| "principal_matches_context (ProjectPrincipal i) c = (ec_project_id c = Some i)"
| "principal_matches_context (MissionPrincipal i) c = (ec_mission_id c = Some i)"
| "principal_matches_context (ThreadPrincipal i) c = (ec_thread_id c = Some i)"
| "principal_matches_context (ExtensionPrincipal i) c = (i = ec_extension_id c)"
| "principal_matches_context HostRuntime c = False"
| "principal_matches_context (SystemPrincipal _) c = False"

definition effects_are_covered :: "effect_kind list \<Rightarrow> effect_kind list \<Rightarrow> bool" where
  "effects_are_covered required allowed \<longleftrightarrow> list_all (\<lambda>e. e \<in> set allowed) required"

definition grant_is_active :: "timestamp \<Rightarrow> capability_grant \<Rightarrow> bool" where
  "grant_is_active now g \<longleftrightarrow>
     (case gc_expires_at (cg_constraints g) of Some t \<Rightarrow> now < t | None \<Rightarrow> True)
     \<and> gc_max_invocations (cg_constraints g) \<noteq> Some 0"

subsection \<open>Ceilings\<close>

fun limit_exceeds :: "'a::linorder option \<Rightarrow> 'a option \<Rightarrow> bool" where
  "limit_exceeds (Some g) (Some a) = (a < g)"
| "limit_exceeds None (Some a) = True"
| "limit_exceeds _ None = False"

fun sandbox_quota_exceeds_authority :: "sandbox_quota option \<Rightarrow> sandbox_quota option \<Rightarrow> bool" where
  "sandbox_quota_exceeds_authority None (Some a) = True"
| "sandbox_quota_exceeds_authority (Some g) (Some a) =
     (limit_exceeds (sq_cpu_time_ms g) (sq_cpu_time_ms a)
      \<or> limit_exceeds (sq_memory_bytes g) (sq_memory_bytes a)
      \<or> limit_exceeds (sq_disk_bytes g) (sq_disk_bytes a)
      \<or> limit_exceeds (sq_network_egress_bytes g) (sq_network_egress_bytes a)
      \<or> limit_exceeds (sq_process_count g) (sq_process_count a))"
| "sandbox_quota_exceeds_authority _ None = False"

fun resource_ceiling_exceeds_authority ::
    "resource_ceiling option \<Rightarrow> resource_ceiling option \<Rightarrow> bool" where
  "resource_ceiling_exceeds_authority None (Some a) = True"
| "resource_ceiling_exceeds_authority (Some g) (Some a) =
     (limit_exceeds (rc_max_usd g) (rc_max_usd a)
      \<or> limit_exceeds (rc_max_input_tokens g) (rc_max_input_tokens a)
      \<or> limit_exceeds (rc_max_output_tokens g) (rc_max_output_tokens a)
      \<or> limit_exceeds (rc_max_wall_clock_ms g) (rc_max_wall_clock_ms a)
      \<or> limit_exceeds (rc_max_output_bytes g) (rc_max_output_bytes a)
      \<or> sandbox_quota_exceeds_authority (rc_sandbox g) (rc_sandbox a))"
| "resource_ceiling_exceeds_authority _ None = False"

definition grant_exceeds_authority_ceiling :: "capability_grant \<Rightarrow> authority_ceiling \<Rightarrow> bool" where
  "grant_exceeds_authority_ceiling g ceiling \<longleftrightarrow>
     \<not> effects_are_covered (gc_allowed_effects (cg_constraints g)) (ac_allowed_effects ceiling)
     \<or> resource_ceiling_exceeds_authority (gc_resource_ceiling (cg_constraints g))
         (ac_max_resource_ceiling ceiling)"

fun stricter_limit :: "'a::linorder option \<Rightarrow> 'a option \<Rightarrow> 'a option" where
  "stricter_limit (Some l) (Some r) = (if r < l then Some r else Some l)"
| "stricter_limit (Some l) None = Some l"
| "stricter_limit None (Some r) = Some r"
| "stricter_limit None None = None"

fun intersect_sandbox_quotas ::
    "sandbox_quota option \<Rightarrow> sandbox_quota option \<Rightarrow> sandbox_quota option" where
  "intersect_sandbox_quotas None None = None"
| "intersect_sandbox_quotas (Some q) None = Some q"
| "intersect_sandbox_quotas None (Some q) = Some q"
| "intersect_sandbox_quotas (Some g) (Some a) = Some \<lparr>
     sq_cpu_time_ms = stricter_limit (sq_cpu_time_ms g) (sq_cpu_time_ms a),
     sq_memory_bytes = stricter_limit (sq_memory_bytes g) (sq_memory_bytes a),
     sq_disk_bytes = stricter_limit (sq_disk_bytes g) (sq_disk_bytes a),
     sq_network_egress_bytes =
       stricter_limit (sq_network_egress_bytes g) (sq_network_egress_bytes a),
     sq_process_count = stricter_limit (sq_process_count g) (sq_process_count a)\<rparr>"

fun intersect_resource_ceilings ::
    "resource_ceiling option \<Rightarrow> resource_ceiling option \<Rightarrow> resource_ceiling option" where
  "intersect_resource_ceilings None None = None"
| "intersect_resource_ceilings (Some c) None = Some c"
| "intersect_resource_ceilings None (Some c) = Some c"
| "intersect_resource_ceilings (Some g) (Some a) = Some \<lparr>
     rc_max_usd = stricter_limit (rc_max_usd g) (rc_max_usd a),
     rc_max_input_tokens = stricter_limit (rc_max_input_tokens g) (rc_max_input_tokens a),
     rc_max_output_tokens = stricter_limit (rc_max_output_tokens g) (rc_max_output_tokens a),
     rc_max_wall_clock_ms = stricter_limit (rc_max_wall_clock_ms g) (rc_max_wall_clock_ms a),
     rc_max_output_bytes = stricter_limit (rc_max_output_bytes g) (rc_max_output_bytes a),
     rc_sandbox = intersect_sandbox_quotas (rc_sandbox g) (rc_sandbox a)\<rparr>"

fun options_within_ceiling :: "'a::linorder option \<Rightarrow> 'a option \<Rightarrow> bool" where
  "options_within_ceiling (Some e) (Some m) = (e \<le> m)"
| "options_within_ceiling None (Some m) = False"
| "options_within_ceiling _ None = True"

fun resource_estimate_is_covered :: "resource_estimate \<Rightarrow> resource_ceiling option \<Rightarrow> bool" where
  "resource_estimate_is_covered e None = True"
| "resource_estimate_is_covered e (Some c) =
     (options_within_ceiling (re_usd e) (rc_max_usd c)
      \<and> options_within_ceiling (re_input_tokens e) (rc_max_input_tokens c)
      \<and> options_within_ceiling (re_output_tokens e) (rc_max_output_tokens c)
      \<and> options_within_ceiling (re_wall_clock_ms e) (rc_max_wall_clock_ms c)
      \<and> options_within_ceiling (re_output_bytes e) (rc_max_output_bytes c)
      \<and> (case rc_sandbox c of
           Some s \<Rightarrow> options_within_ceiling (re_network_egress_bytes e) (sq_network_egress_bytes s)
             \<and> options_within_ceiling (re_process_count e) (sq_process_count s)
         | None \<Rightarrow> True))"

subsection \<open>Obligations of a grant\<close>

definition descriptor_requires_mount_policy :: "capability_descriptor \<Rightarrow> bool" where
  "descriptor_requires_mount_policy d \<longleftrightarrow>
     list_ex (\<lambda>e. case e of ReadFilesystem \<Rightarrow> True | WriteFilesystem \<Rightarrow> True
       | DeleteFilesystem \<Rightarrow> True | ExecuteCode \<Rightarrow> True | _ \<Rightarrow> False) (cd_effects d)"

definition network_policy_is_constrained :: "network_policy \<Rightarrow> bool" where
  "network_policy_is_constrained p \<longleftrightarrow>
     pol_allowed_targets p \<noteq> [] \<or> pol_deny_private_ip_ranges p \<or> pol_max_egress_bytes p \<noteq> None"

definition obligations_for_grant ::
    "capability_descriptor \<Rightarrow> capability_grant \<Rightarrow> resource_ceiling option \<Rightarrow> obligation list option" where
  "obligations_for_grant d g effective_ceiling =
     (let k = cg_constraints g;
          mounts = (if descriptor_requires_mount_policy d then [UseScopedMounts (gc_mounts k)] else []);
          network = (if Network \<in> set (cd_effects d) \<or> network_policy_is_constrained (gc_network k)
             then [ApplyNetworkPolicy (gc_network k)] else [])
      in case (if UseSecret \<in> set (cd_effects d) then
                 (case gc_secrets k of [handle] \<Rightarrow> Some [InjectSecretOnce handle] | _ \<Rightarrow> None)
               else Some []) of
           None \<Rightarrow> None
         | Some secrets \<Rightarrow>
           (let ceilings = (case effective_ceiling of
                  None \<Rightarrow> []
                | Some ceiling \<Rightarrow> EnforceResourceCeiling ceiling #
                    (case rc_max_output_bytes ceiling of
                       Some bytes \<Rightarrow> [EnforceOutputLimit bytes] | None \<Rightarrow> []))
            in case obligations_new (mounts @ network @ secrets @ ceilings) of
                 Inr obs \<Rightarrow> Some obs
               | Inl _ \<Rightarrow> None))"

subsection \<open>Decisions\<close>

text \<open>The loop over the grants that match: the first one that covers the request wins.\<close>

fun authorize_loop ::
    "capability_descriptor \<Rightarrow> resource_estimate \<Rightarrow> authority_ceiling option
     \<Rightarrow> bool \<Rightarrow> capability_grant list \<Rightarrow> decision" where
  "authorize_loop d e ceiling saw [] = (if saw then Deny PolicyDenied else Deny MissingGrant)"
| "authorize_loop d e ceiling saw (g # gs) =
     (let effective = intersect_resource_ceilings (gc_resource_ceiling (cg_constraints g))
            (case ceiling of Some c \<Rightarrow> ac_max_resource_ceiling c | None \<Rightarrow> None);
          authority_allows = (case ceiling of
              Some c \<Rightarrow> effects_are_covered (cd_effects d) (ac_allowed_effects c) | None \<Rightarrow> True)
      in if effects_are_covered (cd_effects d) (gc_allowed_effects (cg_constraints g))
            \<and> authority_allows \<and> resource_estimate_is_covered e effective
         then (case obligations_for_grant d g effective of
                 Some obs \<Rightarrow> Allow obs
               | None \<Rightarrow> authorize_loop d e ceiling True gs)
         else authorize_loop d e ceiling True gs)"

definition authorize_with_ceiling ::
    "timestamp \<Rightarrow> execution_context \<Rightarrow> capability_descriptor \<Rightarrow> resource_estimate
     \<Rightarrow> capability_grant list \<Rightarrow> authority_ceiling option \<Rightarrow> decision" where
  "authorize_with_ceiling now c d e grants ceiling =
     (if is_err (validate_context c) then Deny InternalInvariantViolation
      else authorize_loop d e ceiling False
        (filter (\<lambda>g. cg_capability g = cd_id d \<and> principal_matches_context (cg_grantee g) c
           \<and> grant_is_active now g) grants))"

definition authorize_from_grants ::
    "timestamp \<Rightarrow> execution_context \<Rightarrow> capability_descriptor \<Rightarrow> resource_estimate
     \<Rightarrow> capability_grant list \<Rightarrow> decision" where
  "authorize_from_grants now c d e grants = authorize_with_ceiling now c d e grants None"

definition authorize_from_grants_with_trust ::
    "timestamp \<Rightarrow> execution_context \<Rightarrow> capability_descriptor \<Rightarrow> resource_estimate
     \<Rightarrow> capability_grant list \<Rightarrow> trust_decision \<Rightarrow> decision" where
  "authorize_from_grants_with_trust now c d e grants t =
     (if is_err (validate_context c) then Deny InternalInvariantViolation
      else if ec_trust c \<noteq> td_effective_trust t then Deny PolicyDenied
      else authorize_with_ceiling now c d e grants (Some (td_authority_ceiling t)))"

definition spawn_descriptor :: "capability_descriptor \<Rightarrow> capability_descriptor" where
  "spawn_descriptor d =
     (if SpawnProcess \<notin> set (cd_effects d) then d\<lparr>cd_effects := cd_effects d @ [SpawnProcess]\<rparr> else d)"

subsection \<open>The authorizers\<close>

text \<open>The two traits, as records of their methods.\<close>

record 'w dispatch_authorizer =
  da_dispatch :: "timestamp \<Rightarrow> execution_context \<Rightarrow> capability_descriptor \<Rightarrow> resource_estimate
    \<Rightarrow> 'w \<Rightarrow> decision \<times> 'w"
  da_spawn :: "timestamp \<Rightarrow> execution_context \<Rightarrow> capability_descriptor \<Rightarrow> resource_estimate
    \<Rightarrow> 'w \<Rightarrow> decision \<times> 'w"

record 'w trust_authorizer =
  ta_dispatch :: "timestamp \<Rightarrow> execution_context \<Rightarrow> capability_descriptor \<Rightarrow> resource_estimate
    \<Rightarrow> trust_decision \<Rightarrow> 'w \<Rightarrow> decision \<times> 'w"
  ta_spawn :: "timestamp \<Rightarrow> execution_context \<Rightarrow> capability_descriptor \<Rightarrow> resource_estimate
    \<Rightarrow> trust_decision \<Rightarrow> 'w \<Rightarrow> decision \<times> 'w"

definition grant_dispatch_authorizer :: "'w dispatch_authorizer" where
  "grant_dispatch_authorizer = \<lparr>
     da_dispatch = (\<lambda>now c d e w. (authorize_from_grants now c d e (cs_grants (ec_grants c)), w)),
     da_spawn = (\<lambda>now c d e w.
       (authorize_from_grants now c (spawn_descriptor d) e (cs_grants (ec_grants c)), w))\<rparr>"

definition grant_trust_authorizer :: "'w trust_authorizer" where
  "grant_trust_authorizer = \<lparr>
     ta_dispatch = (\<lambda>now c d e t w.
       (authorize_from_grants_with_trust now c d e (cs_grants (ec_grants c)) t, w)),
     ta_spawn = (\<lambda>now c d e t w.
       (authorize_from_grants_with_trust now c (spawn_descriptor d) e (cs_grants (ec_grants c)) t, w))\<rparr>"

text \<open>The body shared by the methods of \<open>LeaseBackedAuthorizer\<close>.\<close>

definition with_lease_grants ::
    "'w lease_store \<Rightarrow> timestamp \<Rightarrow> execution_context \<Rightarrow> (capability_grant list \<Rightarrow> decision)
     \<Rightarrow> 'w \<Rightarrow> decision \<times> 'w" where
  "with_lease_grants leases now c decide w =
     (if is_err (validate_context c) then (Deny InternalInvariantViolation, w)
      else (case active_grants_for_context leases now c w of
              (lease_grants, w') \<Rightarrow> (decide (cs_grants (ec_grants c) @ lease_grants), w')))"

definition lease_dispatch_authorizer :: "'w lease_store \<Rightarrow> 'w dispatch_authorizer" where
  "lease_dispatch_authorizer leases = \<lparr>
     da_dispatch = (\<lambda>now c d e. with_lease_grants leases now c (authorize_from_grants now c d e)),
     da_spawn = (\<lambda>now c d e.
       with_lease_grants leases now c (authorize_from_grants now c (spawn_descriptor d) e))\<rparr>"

definition lease_trust_authorizer :: "'w lease_store \<Rightarrow> 'w trust_authorizer" where
  "lease_trust_authorizer leases = \<lparr>
     ta_dispatch = (\<lambda>now c d e t. with_lease_grants leases now c
       (\<lambda>gs. authorize_from_grants_with_trust now c d e gs t)),
     ta_spawn = (\<lambda>now c d e t. with_lease_grants leases now c
       (\<lambda>gs. authorize_from_grants_with_trust now c (spawn_descriptor d) e gs t))\<rparr>"

text \<open>The traits' default spawn method.\<close>

definition default_authorize_spawn :: decision where
  "default_authorize_spawn = Deny MissingGrant"

subsection \<open>Ceilings compose\<close>

lemma stricter_within [simp]:
  "options_within_ceiling e (stricter_limit l r) \<longleftrightarrow>
     options_within_ceiling e l \<and> options_within_ceiling e r"
  by (cases e; cases l; cases r) auto

lemma stricter_not_exceeds [simp]:
  "\<not> limit_exceeds (stricter_limit l r) l" "\<not> limit_exceeds (stricter_limit l r) r"
  by (cases l; cases r; auto)+

lemma limit_exceeds_refl [simp]: "\<not> limit_exceeds l l"
  by (cases l) simp_all

lemma quota_not_exceeds:
  "\<not> sandbox_quota_exceeds_authority (intersect_sandbox_quotas l r) l"
  "\<not> sandbox_quota_exceeds_authority (intersect_sandbox_quotas l r) r"
  by (cases l; cases r; simp)+

text \<open>
  Intersecting a grant's resource ceiling with the policy's is exact: an estimate is
  covered by the intersection exactly when both ceilings cover it, and the intersection
  exceeds neither of them.
\<close>

theorem intersect_resource_ceilings_exact:
  "(resource_estimate_is_covered e (intersect_resource_ceilings g a) \<longleftrightarrow>
      resource_estimate_is_covered e g \<and> resource_estimate_is_covered e a)
   \<and> \<not> resource_ceiling_exceeds_authority (intersect_resource_ceilings g a) a
   \<and> \<not> resource_ceiling_exceeds_authority (intersect_resource_ceilings g a) g"
proof -
  have qrefl: "\<not> sandbox_quota_exceeds_authority q q" for q by (cases q) simp_all
  show ?thesis
  proof (cases g; cases a)
    fix x y
    assume "g = Some x" "a = Some y"
    then show ?thesis
      by (cases "rc_sandbox x"; cases "rc_sandbox y") (auto simp: quota_not_exceeds qrefl)
  qed (simp_all add: qrefl)
qed

lemma limit_reduced_exceeds:
  "\<not> limit_reduced p c \<Longrightarrow> \<not> limit_exceeds g p \<Longrightarrow> \<not> limit_exceeds g c"
  by (cases p; cases c; cases g) auto

lemma quota_reduced_exceeds:
  "\<not> sandbox_quota_reduced p c \<Longrightarrow> \<not> sandbox_quota_exceeds_authority g p \<Longrightarrow>
     \<not> sandbox_quota_exceeds_authority g c"
  by (cases p; cases c; cases g) (auto dest: limit_reduced_exceeds)

lemma ceiling_reduced_exceeds:
  "\<not> resource_ceiling_reduced p c \<Longrightarrow> \<not> resource_ceiling_exceeds_authority g p \<Longrightarrow>
     \<not> resource_ceiling_exceeds_authority g c"
  by (cases p; cases c; cases g) (auto dest: limit_reduced_exceeds quota_reduced_exceeds)

text \<open>
  The invalidation filter is sound: when a policy change is not a reduction of the
  authority ceiling, every grant that respected the old ceiling respects the new one, so no
  grant needs revoking when no event is published.
\<close>

theorem silent_change_keeps_grants_valid:
  assumes "\<not> is_reduction_from current previous"
    and "\<not> grant_exceeds_authority_ceiling g previous"
  shows "\<not> grant_exceeds_authority_ceiling g current"
proof -
  have "set (ac_allowed_effects previous) \<subseteq> set (ac_allowed_effects current)"
    using assms(1) by (auto simp: is_reduction_from_def list_ex_iff)
  then show ?thesis
    using assms ceiling_reduced_exceeds
    by (auto simp: is_reduction_from_def grant_exceeds_authority_ceiling_def
        effects_are_covered_def list_all_iff)
qed

subsection \<open>What an allow decision rests on\<close>

text \<open>A grant is in force for a request: right capability, right principal, still active.\<close>

definition in_force ::
    "timestamp \<Rightarrow> execution_context \<Rightarrow> capability_descriptor \<Rightarrow> capability_grant \<Rightarrow> bool" where
  "in_force now c d g \<longleftrightarrow> cg_capability g = cd_id d \<and> principal_matches_context (cg_grantee g) c
     \<and> grant_is_active now g"

text \<open>It covers the request: effects and estimate within the grant and the host's ceiling.\<close>

definition covers ::
    "capability_descriptor \<Rightarrow> resource_estimate \<Rightarrow> authority_ceiling option \<Rightarrow> capability_grant \<Rightarrow> bool" where
  "covers d e ceiling g \<longleftrightarrow>
     set (cd_effects d) \<subseteq> set (gc_allowed_effects (cg_constraints g))
     \<and> resource_estimate_is_covered e (gc_resource_ceiling (cg_constraints g))
     \<and> (case ceiling of None \<Rightarrow> True | Some a \<Rightarrow>
          set (cd_effects d) \<subseteq> set (ac_allowed_effects a)
          \<and> resource_estimate_is_covered e (ac_max_resource_ceiling a))
     \<and> (UseSecret \<in> set (cd_effects d) \<longrightarrow> length (gc_secrets (cg_constraints g)) = 1)"

definition effective_ceiling :: "authority_ceiling option \<Rightarrow> capability_grant \<Rightarrow> resource_ceiling option" where
  "effective_ceiling ceiling g = intersect_resource_ceilings
     (gc_resource_ceiling (cg_constraints g))
     (case ceiling of Some a \<Rightarrow> ac_max_resource_ceiling a | None \<Rightarrow> None)"

lemma estimate_covered_iff:
  "resource_estimate_is_covered e (intersect_resource_ceilings g a) \<longleftrightarrow>
      resource_estimate_is_covered e g \<and> resource_estimate_is_covered e a"
proof (cases g; cases a)
  fix x y
  assume "g = Some x" "a = Some y"
  then show ?thesis by (cases "rc_sandbox x"; cases "rc_sandbox y") auto
qed simp_all

lemma obligations_new_distinct:
  "distinct (map kind_of obs) \<Longrightarrow> \<exists>n. obligations_new obs = Inr n \<and> mset n = mset obs"
proof -
  assume d: "distinct (map kind_of obs)"
  then obtain n where n: "normalize_obligations OBLIGATION_EVALUATION_ORDER obs = Inr n"
    using normalize_obligations_distinct [OF d] by (auto simp: not_is_err_iff)
  note f = normalize_obligations_Inr [OF n]
  have "distinct (map kind_of n)" using f distinct_order by simp
  then have "distinct n" "distinct obs" using d by (simp_all add: distinct_map)
  moreover have "set n = set obs" using f by simp
  ultimately have "mset n = mset obs" by (simp only: set_eq_iff_mset_eq_distinct)
  then show ?thesis using n by (auto simp: obligations_new_eq)
qed

text \<open>The obligations, before they are put in canonical order.\<close>

definition raw_obligations ::
    "capability_descriptor \<Rightarrow> capability_grant \<Rightarrow> resource_ceiling option \<Rightarrow> obligation list" where
  "raw_obligations d g eff =
     (if descriptor_requires_mount_policy d then [UseScopedMounts (gc_mounts (cg_constraints g))] else [])
     @ (if Network \<in> set (cd_effects d) \<or> network_policy_is_constrained (gc_network (cg_constraints g))
        then [ApplyNetworkPolicy (gc_network (cg_constraints g))] else [])
     @ (if UseSecret \<in> set (cd_effects d) then map InjectSecretOnce (gc_secrets (cg_constraints g)) else [])
     @ (case eff of None \<Rightarrow> [] | Some r \<Rightarrow> EnforceResourceCeiling r #
          (case rc_max_output_bytes r of Some b \<Rightarrow> [EnforceOutputLimit b] | None \<Rightarrow> []))"

lemma obligations_for_grant_eq:
  "case obligations_for_grant d g eff of
     None \<Rightarrow> UseSecret \<in> set (cd_effects d) \<and> length (gc_secrets (cg_constraints g)) \<noteq> 1
   | Some obs \<Rightarrow> (UseSecret \<in> set (cd_effects d) \<longrightarrow> length (gc_secrets (cg_constraints g)) = 1)
       \<and> mset obs = mset (raw_obligations d g eff)"
proof (cases "UseSecret \<in> set (cd_effects d) \<and> length (gc_secrets (cg_constraints g)) \<noteq> 1")
  case True
  then show ?thesis
    by (cases "gc_secrets (cg_constraints g)" rule: remdups_adj.cases)
      (simp_all add: obligations_for_grant_def Let_def)
next
  case False
  let ?raw = "raw_obligations d g eff"
  have "distinct (map kind_of ?raw)"
    using False by (cases "gc_secrets (cg_constraints g)" rule: remdups_adj.cases)
      (auto simp: raw_obligations_def split: option.splits)
  then obtain n where n: "obligations_new ?raw = Inr n" "mset n = mset ?raw"
    using obligations_new_distinct by blast
  have "obligations_for_grant d g eff = Some n"
    using False n(1) by (cases "gc_secrets (cg_constraints g)" rule: remdups_adj.cases)
      (auto simp: obligations_for_grant_def raw_obligations_def Let_def split: option.splits)
  then show ?thesis using False n(2) by auto
qed

lemma authorize_loop_eq:
  "authorize_loop d e ceiling saw gs =
     (case find (covers d e ceiling) gs of
        Some g \<Rightarrow> Allow (the (obligations_for_grant d g (effective_ceiling ceiling g)))
      | None \<Rightarrow> if saw \<or> gs \<noteq> [] then Deny PolicyDenied else Deny MissingGrant)"
proof (induction gs arbitrary: saw)
  case Nil
  then show ?case by simp
next
  case (Cons g gs)
  let ?eff = "effective_ceiling ceiling g"
  have "covers d e ceiling g \<longleftrightarrow>
      effects_are_covered (cd_effects d) (gc_allowed_effects (cg_constraints g))
      \<and> (case ceiling of Some c \<Rightarrow> effects_are_covered (cd_effects d) (ac_allowed_effects c)
          | None \<Rightarrow> True)
      \<and> resource_estimate_is_covered e ?eff \<and> obligations_for_grant d g ?eff \<noteq> None"
    using obligations_for_grant_eq [of d g ?eff]
    by (cases ceiling; cases "obligations_for_grant d g ?eff")
      (auto simp: covers_def effects_are_covered_def list_all_iff effective_ceiling_def
        estimate_covered_iff)
  then show ?case
    using Cons.IH by (auto simp: effective_ceiling_def Let_def split: option.splits)
qed

text \<open>
  The trust-aware decision on a list of grants is exactly this: an inconsistent context
  is denied as an internal violation; a context whose trust is not the one the policy decided
  is denied; otherwise the first grant in force that covers the request (its effects and its
  estimate within both the grant's and the policy's ceiling, one secret handle if a secret is
  used) allows it under that grant's obligations, and without such a grant the request is
  denied, by policy if some grant was in force and for a missing grant if none was.
\<close>

theorem authorize_with_trust_exact:
  "authorize_from_grants_with_trust now c d e grants t =
     (if \<not> context_valid c then Deny InternalInvariantViolation
      else if ec_trust c \<noteq> td_effective_trust t then Deny PolicyDenied
      else case find (covers d e (Some (td_authority_ceiling t))) (filter (in_force now c d) grants) of
          Some g \<Rightarrow> Allow (the (obligations_for_grant d g
            (effective_ceiling (Some (td_authority_ceiling t)) g)))
        | None \<Rightarrow> if list_ex (in_force now c d) grants then Deny PolicyDenied else Deny MissingGrant)"
proof -
  have "filter (in_force now c d) grants \<noteq> [] \<longleftrightarrow> list_ex (in_force now c d) grants"
    by (induction grants) auto
  moreover have "in_force now c d = (\<lambda>g. cg_capability g = cd_id d
      \<and> principal_matches_context (cg_grantee g) c \<and> grant_is_active now g)"
    by (simp add: fun_eq_iff in_force_def)
  ultimately show ?thesis
    by (simp add: authorize_from_grants_with_trust_def authorize_with_ceiling_def authorize_loop_eq)
qed

text \<open>The same as an introduction to the component proofs: what an allow means.\<close>

lemma authorize_allowD:
  assumes "authorize_from_grants_with_trust now c d e grants t = Allow obs"
  obtains g where "context_valid c" "ec_trust c = td_effective_trust t"
    "g \<in> set grants" "in_force now c d g" "covers d e (Some (td_authority_ceiling t)) g"
    "obligations_for_grant d g (effective_ceiling (Some (td_authority_ceiling t)) g) = Some obs"
proof -
  let ?a = "Some (td_authority_ceiling t)"
  have v: "context_valid c" "ec_trust c = td_effective_trust t"
    using assms by (auto simp: authorize_from_grants_with_trust_def split: if_splits)
  have loop: "authorize_loop d e ?a False (filter (in_force now c d) grants) = Allow obs"
    using assms v by (simp add: authorize_from_grants_with_trust_def authorize_with_ceiling_def
        in_force_def [abs_def])
  then obtain g where g: "find (covers d e ?a) (filter (in_force now c d) grants) = Some g"
    "obs = the (obligations_for_grant d g (effective_ceiling ?a g))"
    by (auto simp: authorize_loop_eq split: option.splits if_splits)
  have mem: "g \<in> set grants" "in_force now c d g" "covers d e ?a g"
    using find_SomeD [OF g(1)] by simp_all
  have "obligations_for_grant d g (effective_ceiling ?a g) = Some obs"
    using mem(3) g(2) obligations_for_grant_eq [of d g "effective_ceiling ?a g"]
    by (auto simp: covers_def split: option.splits)
  with v mem show thesis by (rule that)
qed

lemma lease_grants_backed:
  assumes "leases_ok m" "g \<in> set (fst (active_grants_for_context in_memory_leases now c m))"
  obtains l where "hm_get (key_of l) m = Some l" "ls_grant l = g"
    "ls_invocation_fingerprint l = None" "ls_status l = LeaseActive"
    "same_scope_owner (ls_scope l) (ec_resource_scope c)"
    "rs_invocation_id (ls_scope l) = ec_invocation_id c"
  using assms(2) active_leases_set [OF assms(1), of now c]
  by (auto simp: active_grants_for_context_def in_memory_leases_def lease_is_authorizing_def
      split: prod.splits)

text \<open>
  C10: the lease-backed authorizer never allows without authority: an allow decision means
  that the context is consistent and carries exactly the trust class the policy decided, and
  that there is a grant for this capability and this principal, active now, whose effects and
  resource ceiling, as well as the policy's, cover the capability's declared effects and the
  estimate. The grant is one the request itself carries, or that of a lease in the store
  which is active, belongs to the same owner and the same invocation, and is not
  fingerprinted: a lease issued for one approved invocation is never ambient authority. The
  obligations are those of this grant, none missing.
\<close>

theorem allow_rests_on_authority:
  assumes "leases_ok m"
    and "fst (ta_dispatch (lease_trust_authorizer in_memory_leases) now c d e t m) = Allow obs"
  shows "context_valid c \<and> ec_trust c = td_effective_trust t \<and>
    (\<exists>g. in_force now c d g \<and> covers d e (Some (td_authority_ceiling t)) g
       \<and> mset obs = mset (raw_obligations d g (effective_ceiling (Some (td_authority_ceiling t)) g))
       \<and> (g \<in> set (cs_grants (ec_grants c))
          \<or> (\<exists>l. hm_get (key_of l) m = Some l \<and> ls_grant l = g
               \<and> ls_invocation_fingerprint l = None \<and> ls_status l = LeaseActive
               \<and> same_scope_owner (ls_scope l) (ec_resource_scope c)
               \<and> rs_invocation_id (ls_scope l) = ec_invocation_id c)))"
proof -
  let ?lg = "fst (active_grants_for_context in_memory_leases now c m)"
  have "authorize_from_grants_with_trust now c d e (cs_grants (ec_grants c) @ ?lg) t = Allow obs"
    using assms(2) by (auto simp: lease_trust_authorizer_def with_lease_grants_def
        split: if_splits prod.splits)
  then obtain g where v: "context_valid c" "ec_trust c = td_effective_trust t"
    and g: "g \<in> set (cs_grants (ec_grants c) @ ?lg)" "in_force now c d g"
      "covers d e (Some (td_authority_ceiling t)) g"
      "obligations_for_grant d g (effective_ceiling (Some (td_authority_ceiling t)) g) = Some obs"
    by (rule authorize_allowD)
  have obs: "mset obs = mset (raw_obligations d g (effective_ceiling (Some (td_authority_ceiling t)) g))"
    using obligations_for_grant_eq [of d g "effective_ceiling (Some (td_authority_ceiling t)) g"] g(4)
    by simp
  have "g \<in> set (cs_grants (ec_grants c))
      \<or> (\<exists>l. hm_get (key_of l) m = Some l \<and> ls_grant l = g
           \<and> ls_invocation_fingerprint l = None \<and> ls_status l = LeaseActive
           \<and> same_scope_owner (ls_scope l) (ec_resource_scope c)
           \<and> rs_invocation_id (ls_scope l) = ec_invocation_id c)"
    using g(1) lease_grants_backed [OF assms(1)] by (metis Un_iff set_append)
  then show ?thesis using v g(2,3) obs by blast
qed

lemma spawn_descriptor_simps [simp]:
  "cd_id (spawn_descriptor d) = cd_id d"
  "set (cd_effects (spawn_descriptor d)) = insert SpawnProcess (set (cd_effects d))"
  by (auto simp: spawn_descriptor_def)

text \<open>
  Spawning is at least as restricted as dispatching: whenever a background spawn of a
  capability is allowed, so is its dispatch by the same context and grants, and some grant in
  force allows the effect \<open>SpawnProcess\<close> on top, under a policy ceiling that allows it too.
\<close>

theorem spawn_needs_dispatch_and_spawn_authority:
  assumes "authorize_from_grants_with_trust now c (spawn_descriptor d) e grants t = Allow obs"
  shows "(\<exists>obs'. authorize_from_grants_with_trust now c d e grants t = Allow obs')
    \<and> (\<exists>g \<in> set grants. in_force now c d g
         \<and> SpawnProcess \<in> set (gc_allowed_effects (cg_constraints g)))
    \<and> SpawnProcess \<in> set (ac_allowed_effects (td_authority_ceiling t))"
proof -
  let ?a = "Some (td_authority_ceiling t)"
  obtain g where v: "context_valid c" "ec_trust c = td_effective_trust t"
    and g: "g \<in> set grants" "in_force now c (spawn_descriptor d) g" "covers (spawn_descriptor d) e ?a g"
    using assms by (rule authorize_allowD)
  have force: "in_force now c d g" and cov: "covers d e ?a g"
    using g by (auto simp: in_force_def covers_def)
  have "find (covers d e ?a) (filter (in_force now c d) grants) \<noteq> None"
    using g(1) force cov by (auto simp: find_None_iff)
  then obtain h where "find (covers d e ?a) (filter (in_force now c d) grants) = Some h" by blast
  then have "\<exists>obs'. authorize_from_grants_with_trust now c d e grants t = Allow obs'"
    using v by (simp add: authorize_from_grants_with_trust_def authorize_with_ceiling_def
        in_force_def [abs_def] authorize_loop_eq)
  moreover have "SpawnProcess \<in> set (gc_allowed_effects (cg_constraints g))"
    and "SpawnProcess \<in> set (ac_allowed_effects (td_authority_ceiling t))"
    using g(3) by (auto simp: covers_def)
  ultimately show ?thesis using g(1) force by blast
qed

subsection \<open>Concrete instances\<close>

definition sample_spawn_grant :: capability_grant where
  "sample_spawn_grant = sample_grant\<lparr>cg_constraints := (cg_constraints sample_grant)
     \<lparr>gc_allowed_effects := [DispatchCapability, SpawnProcess]\<rparr>\<rparr>"

definition sample_context :: "capability_grant list \<Rightarrow> execution_context" where
  "sample_context grants = \<lparr>ec_invocation_id = 1, ec_correlation_id = 2, ec_process_id = None,
     ec_parent_process_id = None, ec_tenant_id = ''t'', ec_user_id = ''u'', ec_agent_id = None,
     ec_project_id = None, ec_mission_id = None, ec_thread_id = None, ec_extension_id = ''ext'',
     ec_runtime = Wasm, ec_trust = UserTrusted, ec_grants = \<lparr>cs_grants = grants\<rparr>,
     ec_mounts = \<lparr>mv_mounts = []\<rparr>, ec_resource_scope = sample_owner\<rparr>"

definition sample_descriptor :: capability_descriptor where
  "sample_descriptor = \<lparr>cd_id = ''ext.run'', cd_provider = ''ext'', cd_runtime = Wasm,
     cd_trust_ceiling = UserTrusted, cd_description = [], cd_parameters_schema = JNull,
     cd_effects = [DispatchCapability], cd_default_permission = AllowMode,
     cd_resource_profile = None\<rparr>"

definition no_estimate :: resource_estimate where
  "no_estimate = \<lparr>re_usd = None, re_input_tokens = None, re_output_tokens = None,
     re_wall_clock_ms = None, re_output_bytes = None, re_network_egress_bytes = None,
     re_process_count = None, re_concurrency_slots = None\<rparr>"

definition sample_trust :: trust_decision where
  "sample_trust = \<lparr>td_effective_trust = UserTrusted,
     td_authority_ceiling = \<lparr>ac_allowed_effects = [DispatchCapability, SpawnProcess],
       ac_max_resource_ceiling = None\<rparr>,
     td_provenance = AdminConfigProvenance, td_evaluated_at = 0\<rparr>"

definition sample_leases :: lease_map where
  "sample_leases = [(lease_key_new sample_owner 3, lease_new sample_owner sample_spawn_grant)]"

lemma sample_context_valid: "context_valid (sample_context gs)"
  by (simp add: context_valid_iff context_scope_def sample_context_def sample_owner_def)

lemma sample_leases_ok: "leases_ok sample_leases"
  by (simp add: leases_ok_def hm_keyed_def hm_keys_distinct_def sample_leases_def lease_new_def
      sample_spawn_grant_def sample_grant_def)

lemmas authorization_eval = sample_spawn_grant_def sample_grant_def sample_descriptor_def
  sample_trust_def no_estimate_def in_force_def covers_def grant_is_active_def
  effective_ceiling_def obligations_for_grant_def descriptor_requires_mount_policy_def
  network_policy_is_constrained_def obligations_new_def OBLIGATION_EVALUATION_ORDER_def Let_def

lemma sample_spawn_allowed:
  "authorize_from_grants_with_trust 0 (sample_context []) (spawn_descriptor sample_descriptor)
     no_estimate [sample_spawn_grant] sample_trust = Allow []"
  by (simp add: authorize_from_grants_with_trust_def authorize_with_ceiling_def effects_are_covered_def
      sample_context_valid authorization_eval spawn_descriptor_def)
    (simp add: sample_context_def authorization_eval effects_are_covered_def)

lemma sample_leased_allowed:
  "fst (ta_dispatch (lease_trust_authorizer in_memory_leases) 0 (sample_context [])
     sample_descriptor no_estimate sample_trust sample_leases) = Allow []"
  by (simp add: lease_trust_authorizer_def with_lease_grants_def sample_context_valid
      active_grants_for_context_def in_memory_leases_def active_leases_for_context_def
      leases_for_scope_def hm_values_def sample_leases_def lease_new_def lease_is_authorizing_def
      lease_is_expired_def authorize_from_grants_with_trust_def authorize_with_ceiling_def
      effects_are_covered_def authorization_eval)
    (simp add: sample_context_def sample_owner_def same_scope_owner_def authorization_eval
      effects_are_covered_def)

theorem allow_rests_on_authority_witness:
  "in_force 0 (sample_context []) sample_descriptor sample_spawn_grant
   \<and> (\<exists>g. in_force 0 (sample_context []) sample_descriptor g
        \<and> (\<exists>l. hm_get (key_of l) sample_leases = Some l \<and> ls_grant l = g))"
  using allow_rests_on_authority [OF sample_leases_ok sample_leased_allowed]
  by (simp add: sample_context_def authorization_eval)
    (blast | auto)+

theorem spawn_needs_dispatch_and_spawn_authority_witness:
  "\<exists>obs. authorize_from_grants_with_trust 0 (sample_context []) sample_descriptor no_estimate
     [sample_spawn_grant] sample_trust = Allow obs"
  using spawn_needs_dispatch_and_spawn_authority [OF sample_spawn_allowed] by blast

theorem silent_change_keeps_grants_valid_witness:
  "\<not> grant_exceeds_authority_ceiling sample_grant
     \<lparr>ac_allowed_effects = [Network, DispatchCapability], ac_max_resource_ceiling = None\<rparr>"
  by (rule silent_change_keeps_grants_valid [where previous =
        "\<lparr>ac_allowed_effects = [DispatchCapability], ac_max_resource_ceiling = None\<rparr>"])
    (simp_all add: is_reduction_from_def grant_exceeds_authority_ceiling_def sample_grant_def
      effects_are_covered_def)

end
