(* ===== verification/HostAudit.thy ===== *)
theory HostAudit
  imports HostDecisions
begin

section \<open>Audit envelopes\<close>

text \<open>
  \<open>crates/ironclaw_host_api/src/audit.rs\<close> and the \<open>Display\<close> implementations of \<open>action.rs\<close>
  and \<open>ids.rs\<close> it formats with: the redacted records of authorization decisions and approval
  resolutions. The event id and the time stamp that the constructors draw are arguments. The
  \<open>AuditSink\<close> trait of \<open>crates/ironclaw_events\<close> is a method over the state.
\<close>

subsection \<open>Formatting\<close>

definition hex_digit :: "nat \<Rightarrow> char" where
  "hex_digit n = (if n < 10 then char_of (48 + n) else char_of (87 + n))"

text \<open>\<open>Uuid\<close>'s \<open>Display\<close>: 32 lowercase hex digits in groups of 8, 4, 4, 4 and 12.\<close>

definition uuid_digits :: "uuid \<Rightarrow> string" where
  "uuid_digits w = map (\<lambda>i. hex_digit (unat (take_bit 4 (drop_bit (4 * (31 - i)) w)))) [0..<32]"

definition uuid_display :: "uuid \<Rightarrow> string" where
  "uuid_display w = (let d = uuid_digits w in
     take 8 d @ ''-'' @ take 4 (drop 8 d) @ ''-'' @ take 4 (drop 12 d) @ ''-''
     @ take 4 (drop 16 d) @ ''-'' @ drop 20 d)"

fun nat_display :: "nat \<Rightarrow> string" where
  "nat_display n = (if n < 10 then [char_of (48 + n)]
     else nat_display (n div 10) @ [char_of (48 + n mod 10)])"

declare nat_display.simps [simp del]

fun secret_use_mode_display :: "secret_use_mode \<Rightarrow> string" where
  "secret_use_mode_display InjectIntoRequest = ''inject_into_request''"
| "secret_use_mode_display InjectIntoEnvironment = ''inject_into_environment''"
| "secret_use_mode_display ReadRaw = ''read_raw''"

fun network_method_display :: "network_method \<Rightarrow> string" where
  "network_method_display Get = ''get''"
| "network_method_display Post = ''post''"
| "network_method_display Put = ''put''"
| "network_method_display Patch = ''patch''"
| "network_method_display Delete = ''delete''"
| "network_method_display Head = ''head''"

fun lifecycle_display :: "extension_lifecycle_operation \<Rightarrow> string" where
  "lifecycle_display Install = ''install''"
| "lifecycle_display Update = ''update''"
| "lifecycle_display Remove = ''remove''"
| "lifecycle_display Enable = ''enable''"
| "lifecycle_display Disable = ''disable''"

subsection \<open>Summaries\<close>

datatype audit_stage =
    AuditStageBefore
  | AuditStageAfter
  | AuditStageDenied
  | ApprovalRequested
  | ApprovalResolved
  | ResourceReserved
  | ResourceReconciled
  | ResourceReleased

record action_summary =
  as_kind :: string
  as_target :: "string option"
  as_effects :: "effect_kind list"

record decision_summary =
  ds_kind :: string
  ds_reason :: "deny_reason option"
  ds_actor :: "principal option"

record action_result_summary =
  sr_success :: bool
  sr_status :: "string option"
  sr_output_bytes :: "u64 option"

definition action_summary_new ::
    "string \<Rightarrow> string option \<Rightarrow> effect_kind list \<Rightarrow> action_summary" where
  "action_summary_new kind target effects =
     \<lparr>as_kind = kind, as_target = target, as_effects = effects\<rparr>"

definition capability_summary ::
    "string \<Rightarrow> capability_id \<Rightarrow> effect_kind list \<Rightarrow> action_summary" where
  "capability_summary kind capability effects = action_summary_new kind (Some capability) effects"

definition audit_network_target :: "network_method \<Rightarrow> string \<Rightarrow> 16 word option \<Rightarrow> string" where
  "audit_network_target m host port =
     (case port of
        Some p \<Rightarrow> network_method_display m @ '':'' @ host @ '':'' @ nat_display (unat p)
      | None \<Rightarrow> network_method_display m @ '':'' @ host)"

definition secret_target :: "string \<Rightarrow> secret_use_mode \<Rightarrow> string" where
  "secret_target handle mode = handle @ '':'' @ secret_use_mode_display mode"

fun from_action :: "action \<Rightarrow> action_summary" where
  "from_action (ReadFile p) = action_summary_new ''read_file'' (Some p) [ReadFilesystem]"
| "from_action (ListDir p) = action_summary_new ''list_dir'' (Some p) [ReadFilesystem]"
| "from_action (WriteFile p _) = action_summary_new ''write_file'' (Some p) [WriteFilesystem]"
| "from_action (DeleteFile p) = action_summary_new ''delete_file'' (Some p) [DeleteFilesystem]"
| "from_action (Dispatch c _) = capability_summary ''dispatch'' c [DispatchCapability]"
| "from_action (SpawnCapability c _) =
     capability_summary ''spawn_capability'' c [DispatchCapability, SpawnProcess]"
| "from_action (UseSecretAction h m) =
     action_summary_new ''use_secret'' (Some (secret_target h m)) [UseSecret]"
| "from_action (NetworkAction t m _) = action_summary_new ''network''
     (Some (audit_network_target m (nt_host t) (nt_port t))) [Network]"
| "from_action (ReserveResourcesAction _) =
     action_summary_new ''reserve_resources'' None [ModifyBudget]"
| "from_action (Approve r) =
     action_summary_new ''approve'' (Some (uuid_display (ar_id r))) [ModifyApproval]"
| "from_action (ExtensionLifecycle x op) = action_summary_new ''extension_lifecycle''
     (Some (x @ '':'' @ lifecycle_display op)) [ModifyExtension]"
| "from_action (EmitExternalEffect e) = action_summary_new ''emit_external_effect'' None [e]"

fun extension_from_principal :: "principal \<Rightarrow> extension_id option" where
  "extension_from_principal (ExtensionPrincipal x) = Some x"
| "extension_from_principal _ = None"

subsection \<open>Envelopes\<close>

record audit_envelope =
  au_event_id :: uuid
  au_correlation_id :: correlation_id
  au_stage :: audit_stage
  au_timestamp :: timestamp
  au_tenant_id :: tenant_id
  au_user_id :: user_id
  au_agent_id :: "agent_id option"
  au_project_id :: "project_id option"
  au_mission_id :: "mission_id option"
  au_thread_id :: "thread_id option"
  au_invocation_id :: invocation_id
  au_process_id :: "process_id option"
  au_approval_request_id :: "approval_request_id option"
  au_extension_id :: "extension_id option"
  au_action :: action_summary
  au_decision :: decision_summary
  au_result :: "action_result_summary option"

definition audit_denied ::
    "uuid \<Rightarrow> timestamp \<Rightarrow> execution_context \<Rightarrow> audit_stage \<Rightarrow> action_summary \<Rightarrow> deny_reason
     \<Rightarrow> audit_envelope" where
  "audit_denied event_id now c stage act reason = \<lparr>
     au_event_id = event_id, au_correlation_id = ec_correlation_id c, au_stage = stage,
     au_timestamp = now, au_tenant_id = ec_tenant_id c, au_user_id = ec_user_id c,
     au_agent_id = ec_agent_id c, au_project_id = ec_project_id c,
     au_mission_id = ec_mission_id c, au_thread_id = ec_thread_id c,
     au_invocation_id = ec_invocation_id c, au_process_id = ec_process_id c,
     au_approval_request_id = None, au_extension_id = Some (ec_extension_id c),
     au_action = act,
     au_decision = \<lparr>ds_kind = ''deny'', ds_reason = Some reason, ds_actor = None\<rparr>,
     au_result = None\<rparr>"

definition approval_resolved ::
    "uuid \<Rightarrow> timestamp \<Rightarrow> resource_scope \<Rightarrow> approval_request \<Rightarrow> principal \<Rightarrow> string
     \<Rightarrow> audit_envelope" where
  "approval_resolved event_id now scope request resolved_by verdict = \<lparr>
     au_event_id = event_id, au_correlation_id = ar_correlation_id request,
     au_stage = ApprovalResolved, au_timestamp = now, au_tenant_id = rs_tenant_id scope,
     au_user_id = rs_user_id scope, au_agent_id = rs_agent_id scope,
     au_project_id = rs_project_id scope, au_mission_id = rs_mission_id scope,
     au_thread_id = rs_thread_id scope, au_invocation_id = rs_invocation_id scope,
     au_process_id = None, au_approval_request_id = Some (ar_id request),
     au_extension_id = extension_from_principal (ar_requested_by request),
     au_action = from_action (ar_action request),
     au_decision = \<lparr>ds_kind = verdict, ds_reason = None, ds_actor = Some resolved_by\<rparr>,
     au_result = None\<rparr>"

text \<open>\<open>EventError\<close> of \<open>crates/ironclaw_events\<close>; the cursors of a replay gap are \<open>u64\<close>.\<close>

datatype event_error =
    EventSerialize string
  | EventSink string
  | EventDurableLog string
  | ReplayGap u64 u64
  | InvalidReplayRequest string

type_synonym 'w audit_sink = "audit_envelope \<Rightarrow> ('w, event_error, unit) operation"

end
