(* ===== verification/Kernel.thy ===== *)
theory Kernel
  imports Leases HostAudit
begin

section \<open>The kernel's stores in one state\<close>

text \<open>
  The services share the stores: the state of a host wired with the in-memory stores is the
  record of their states and of the audit log, extended by whatever the remaining services
  keep (the type parameter). Each store acts on its own field.
\<close>

record kernel_state =
  kn_runs :: run_states
  kn_approvals :: approvals
  kn_leases :: lease_map
  kn_audit :: "audit_envelope list"

definition on_runs ::
    "(run_states \<Rightarrow> 'r \<times> run_states) \<Rightarrow> 'e kernel_state_scheme \<Rightarrow> 'r \<times> 'e kernel_state_scheme" where
  "on_runs f w = (case f (kn_runs w) of (r, s) \<Rightarrow> (r, w\<lparr>kn_runs := s\<rparr>))"

definition on_approvals ::
    "(approvals \<Rightarrow> 'r \<times> approvals) \<Rightarrow> 'e kernel_state_scheme \<Rightarrow> 'r \<times> 'e kernel_state_scheme" where
  "on_approvals f w = (case f (kn_approvals w) of (r, s) \<Rightarrow> (r, w\<lparr>kn_approvals := s\<rparr>))"

definition on_leases ::
    "(lease_map \<Rightarrow> 'r \<times> lease_map) \<Rightarrow> 'e kernel_state_scheme \<Rightarrow> 'r \<times> 'e kernel_state_scheme" where
  "on_leases f w = (case f (kn_leases w) of (r, s) \<Rightarrow> (r, w\<lparr>kn_leases := s\<rparr>))"

definition kernel_runs :: "'e kernel_state_scheme run_state_store" where
  "kernel_runs = \<lparr>rss_start = (\<lambda>t. on_runs (run_start_record t)),
     rss_block_approval = (\<lambda>s i a. on_runs (run_block_approval s i a)),
     rss_block_auth = (\<lambda>s i e. on_runs (run_block_auth s i e)),
     rss_complete = (\<lambda>s i. on_runs (run_complete s i)),
     rss_fail = (\<lambda>s i e. on_runs (run_fail s i e)),
     rss_get = (\<lambda>s i. on_runs (run_get s i)),
     rss_records_for_scope = (\<lambda>s. on_runs (run_records_for_scope s))\<rparr>"

definition kernel_approvals :: "'e kernel_state_scheme approval_request_store" where
  "kernel_approvals = \<lparr>ars_save_pending = (\<lambda>s r. on_approvals (approval_save_pending s r)),
     ars_get = (\<lambda>s i. on_approvals (approval_get s i)),
     ars_approve = (\<lambda>s i. on_approvals (approval_approve s i)),
     ars_deny = (\<lambda>s i. on_approvals (approval_deny s i)),
     ars_discard_pending = (\<lambda>s i. on_approvals (approval_discard_pending s i)),
     ars_records_for_scope = (\<lambda>s. on_approvals (approval_records_for_scope s))\<rparr>"

definition kernel_leases :: "'e kernel_state_scheme lease_store" where
  "kernel_leases = \<lparr>cls_issue = (\<lambda>l. on_leases (lease_issue l)),
     cls_revoke = (\<lambda>s i. on_leases (lease_revoke s i)),
     cls_get = (\<lambda>s i. on_leases (lease_get s i)),
     cls_claim = (\<lambda>now s i fp. on_leases (lease_claim now s i fp)),
     cls_consume = (\<lambda>now s i. on_leases (lease_consume now s i)),
     cls_leases_for_scope = (\<lambda>s. on_leases (leases_for_scope s)),
     cls_active_leases_for_context = (\<lambda>now c. on_leases (active_leases_for_context now c))\<rparr>"

definition kernel_audit :: "'e kernel_state_scheme audit_sink" where
  "kernel_audit envelope w = (Inr (), w\<lparr>kn_audit := kn_audit w @ [envelope]\<rparr>)"

lemmas kernel_defs = kernel_runs_def kernel_approvals_def kernel_leases_def kernel_audit_def
  on_runs_def on_approvals_def on_leases_def

text \<open>The contracts hold of the stores in the kernel as they do of the stores alone.\<close>

definition kernel_leases_view :: "'e kernel_state_scheme \<Rightarrow> lease_key \<rightharpoonup> capability_lease" where
  "kernel_leases_view w = (\<lambda>k. hm_get k (kn_leases w))"

definition kernel_approvals_view :: "'e kernel_state_scheme \<Rightarrow> approval_key \<rightharpoonup> approval_record" where
  "kernel_approvals_view w = (\<lambda>k. hm_get k (kn_approvals w))"

interpretation kernel_leases: lease_contract kernel_leases kernel_leases_view
  by unfold_locales
    (auto simp: kernel_leases_def on_leases_def kernel_leases_view_def lease_store_defs fun_eq_iff
      split: option.splits sum.splits)

interpretation kernel_approvals: approval_contract kernel_approvals kernel_approvals_view
  by unfold_locales
    (auto simp: kernel_approvals_def on_approvals_def kernel_approvals_view_def approval_store_defs
      resolves_def fun_eq_iff split: option.splits)

end
