(* ===== verification/Approvals.thy ===== *)
theory Approvals
  imports Kernel
begin

section \<open>The approval resolver\<close>

text \<open>
  \<open>crates/ironclaw_approvals/src/lib.rs\<close>: resolving a pending approval request. Approving
  issues the lease first and marks the request approved second; if the second step fails the
  lease is revoked again. The new grant id, the audit event id and the time stamp are
  arguments.
\<close>

record lease_approval =
  la_issued_by :: principal
  la_allowed_effects :: "effect_kind list"
  la_mounts :: mount_view
  la_network :: network_policy
  la_secrets :: "secret_handle list"
  la_resource_ceiling :: "resource_ceiling option"
  la_expires_at :: "timestamp option"
  la_max_invocations :: "u64 option"

record deny_approval =
  dy_denied_by :: principal

datatype approval_resolution_error =
    ResolutionRunState run_state_error
  | ResolutionNotPending approval_status
  | MissingInvocationFingerprint
  | UnsupportedAction
  | ResolutionLease lease_error

datatype approved_capability_action = ApprovedDispatch | ApprovedSpawn

fun capability_for_action :: "action \<Rightarrow> approved_capability_action \<Rightarrow> capability_id option" where
  "capability_for_action (Dispatch c _) ApprovedDispatch = Some c"
| "capability_for_action (SpawnCapability c _) ApprovedSpawn = Some c"
| "capability_for_action _ _ = None"

record 'w approval_resolver =
  rsv_approvals :: "'w approval_request_store"
  rsv_leases :: "'w lease_store"
  rsv_audit_sink :: "'w audit_sink option"

definition resolver_new :: "'w approval_request_store \<Rightarrow> 'w lease_store \<Rightarrow> 'w approval_resolver" where
  "resolver_new approvals leases =
     \<lparr>rsv_approvals = approvals, rsv_leases = leases, rsv_audit_sink = None\<rparr>"

definition with_audit_sink :: "'w audit_sink \<Rightarrow> 'w approval_resolver \<Rightarrow> 'w approval_resolver" where
  "with_audit_sink sink r = r\<lparr>rsv_audit_sink := Some sink\<rparr>"

definition emit_audit_best_effort :: "'w approval_resolver \<Rightarrow> audit_envelope \<Rightarrow> 'w \<Rightarrow> 'w" where
  "emit_audit_best_effort r envelope w =
     (case rsv_audit_sink r of None \<Rightarrow> w | Some sink \<Rightarrow> snd (sink envelope w))"

definition approval_lease ::
    "capability_grant_id \<Rightarrow> approval_record \<Rightarrow> lease_approval \<Rightarrow> capability_id
     \<Rightarrow> invocation_fingerprint \<Rightarrow> capability_lease" where
  "approval_lease grant_id rec approval capability fingerprint =
     (lease_new (ap_scope rec)
       \<lparr>cg_id = grant_id, cg_capability = capability,
        cg_grantee = ar_requested_by (ap_request rec), cg_issued_by = la_issued_by approval,
        cg_constraints = \<lparr>gc_allowed_effects = la_allowed_effects approval,
          gc_mounts = la_mounts approval, gc_network = la_network approval,
          gc_secrets = la_secrets approval, gc_resource_ceiling = la_resource_ceiling approval,
          gc_expires_at = la_expires_at approval,
          gc_max_invocations = la_max_invocations approval\<rparr>\<rparr>)
     \<lparr>ls_invocation_fingerprint := Some fingerprint\<rparr>"

definition approve_capability_action ::
    "capability_grant_id \<Rightarrow> uuid \<Rightarrow> timestamp \<Rightarrow> 'w approval_resolver \<Rightarrow> resource_scope
     \<Rightarrow> approval_request_id \<Rightarrow> lease_approval \<Rightarrow> approved_capability_action
     \<Rightarrow> ('w, approval_resolution_error, capability_lease) operation" where
  "approve_capability_action grant_id event_id now r scope request_id approval expected w =
     (case ars_get (rsv_approvals r) scope request_id w of
        (Inl e, w) \<Rightarrow> (Inl (ResolutionRunState e), w)
      | (Inr None, w) \<Rightarrow> (Inl (ResolutionRunState (UnknownApprovalRequest request_id)), w)
      | (Inr (Some rec), w) \<Rightarrow>
        if ap_status rec \<noteq> Pending then (Inl (ResolutionNotPending (ap_status rec)), w)
        else (case capability_for_action (ar_action (ap_request rec)) expected of
          None \<Rightarrow> (Inl UnsupportedAction, w)
        | Some capability \<Rightarrow>
          (case ar_invocation_fingerprint (ap_request rec) of
            None \<Rightarrow> (Inl MissingInvocationFingerprint, w)
          | Some fingerprint \<Rightarrow>
            (case cls_issue (rsv_leases r)
                    (approval_lease grant_id rec approval capability fingerprint) w of
               (Inl e, w) \<Rightarrow> (Inl (ResolutionLease e), w)
             | (Inr lease, w) \<Rightarrow>
               (case ars_approve (rsv_approvals r) scope request_id w of
                  (Inl e, w) \<Rightarrow>
                    (case cls_revoke (rsv_leases r) (ls_scope lease) (lease_id lease) w of
                       (_, w) \<Rightarrow>
                         (case e of
                            ApprovalNotPending _ status \<Rightarrow> (Inl (ResolutionNotPending status), w)
                          | _ \<Rightarrow> (Inl (ResolutionRunState e), w)))
                | (Inr _, w) \<Rightarrow>
                    (Inr lease, emit_audit_best_effort r
                       (approval_resolved event_id now (ap_scope rec) (ap_request rec)
                          (la_issued_by approval) ''approved'') w))))))"

definition approve_dispatch ::
    "capability_grant_id \<Rightarrow> uuid \<Rightarrow> timestamp \<Rightarrow> 'w approval_resolver \<Rightarrow> resource_scope
     \<Rightarrow> approval_request_id \<Rightarrow> lease_approval
     \<Rightarrow> ('w, approval_resolution_error, capability_lease) operation" where
  "approve_dispatch grant_id event_id now r scope request_id approval =
     approve_capability_action grant_id event_id now r scope request_id approval ApprovedDispatch"

definition approve_spawn ::
    "capability_grant_id \<Rightarrow> uuid \<Rightarrow> timestamp \<Rightarrow> 'w approval_resolver \<Rightarrow> resource_scope
     \<Rightarrow> approval_request_id \<Rightarrow> lease_approval
     \<Rightarrow> ('w, approval_resolution_error, capability_lease) operation" where
  "approve_spawn grant_id event_id now r scope request_id approval =
     approve_capability_action grant_id event_id now r scope request_id approval ApprovedSpawn"

definition deny_request ::
    "uuid \<Rightarrow> timestamp \<Rightarrow> 'w approval_resolver \<Rightarrow> resource_scope \<Rightarrow> approval_request_id
     \<Rightarrow> deny_approval \<Rightarrow> ('w, approval_resolution_error, approval_record) operation" where
  "deny_request event_id now r scope request_id denial w =
     (case ars_get (rsv_approvals r) scope request_id w of
        (Inl e, w) \<Rightarrow> (Inl (ResolutionRunState e), w)
      | (Inr None, w) \<Rightarrow> (Inl (ResolutionRunState (UnknownApprovalRequest request_id)), w)
      | (Inr (Some rec), w) \<Rightarrow>
        if ap_status rec \<noteq> Pending then (Inl (ResolutionNotPending (ap_status rec)), w)
        else (case ars_deny (rsv_approvals r) scope request_id w of
            (Inl (ApprovalNotPending _ status), w) \<Rightarrow> (Inl (ResolutionNotPending status), w)
          | (Inl e, w) \<Rightarrow> (Inl (ResolutionRunState e), w)
          | (Inr denied, w) \<Rightarrow>
              (Inr denied, emit_audit_best_effort r
                 (approval_resolved event_id now (ap_scope denied) (ap_request denied)
                    (dy_denied_by denial) ''denied'') w)))"

subsection \<open>Resolution\<close>

text \<open>
  Approving a request, on every branch: with the in-memory stores the resolver answers
  an unknown request, one that is not pending, one whose action is not of the approved kind
  and one without a fingerprint with the corresponding error and changes nothing; otherwise
  it issues exactly one lease, active, for the requesting principal, the requested capability
  and the recorded owner scope, bound to the recorded fingerprint and with exactly the
  constraints the approver gave, marks the request approved and logs the resolution.
\<close>

theorem approve_capability_action_exact:
  "approve_capability_action grant_id event_id now
       (with_audit_sink kernel_audit (resolver_new kernel_approvals kernel_leases))
       scope request_id approval expected w =
     (case hm_get (approval_key_new scope request_id) (kn_approvals w) of
        None \<Rightarrow> (Inl (ResolutionRunState (UnknownApprovalRequest request_id)), w)
      | Some r \<Rightarrow>
          if ap_status r \<noteq> Pending then (Inl (ResolutionNotPending (ap_status r)), w)
          else (case (capability_for_action (ar_action (ap_request r)) expected,
                      ar_invocation_fingerprint (ap_request r)) of
              (None, _) \<Rightarrow> (Inl UnsupportedAction, w)
            | (Some c, None) \<Rightarrow> (Inl MissingInvocationFingerprint, w)
            | (Some c, Some fp) \<Rightarrow>
                (let lease = \<lparr>ls_scope = ap_scope r,
                       ls_grant = \<lparr>cg_id = grant_id, cg_capability = c,
                         cg_grantee = ar_requested_by (ap_request r),
                         cg_issued_by = la_issued_by approval,
                         cg_constraints = \<lparr>gc_allowed_effects = la_allowed_effects approval,
                           gc_mounts = la_mounts approval, gc_network = la_network approval,
                           gc_secrets = la_secrets approval,
                           gc_resource_ceiling = la_resource_ceiling approval,
                           gc_expires_at = la_expires_at approval,
                           gc_max_invocations = la_max_invocations approval\<rparr>\<rparr>,
                       ls_invocation_fingerprint = Some fp, ls_status = LeaseActive\<rparr>
                 in (Inr lease, w\<lparr>
                      kn_approvals := hm_insert (approval_key_new scope request_id)
                        (r\<lparr>ap_status := Approved\<rparr>) (kn_approvals w),
                      kn_leases := hm_insert (lease_key_new (ap_scope r) grant_id) lease (kn_leases w),
                      kn_audit := kn_audit w @ [approval_resolved event_id now (ap_scope r)
                        (ap_request r) (la_issued_by approval) ''approved'']\<rparr>))))"
  by (auto simp: approve_capability_action_def with_audit_sink_def resolver_new_def
      emit_audit_best_effort_def kernel_defs approval_get_def approval_approve_def
      approval_update_status_def lease_issue_def approval_lease_def lease_new_def Let_def
      split: option.splits)

text \<open>A failed approval leaves no usable lease behind, whatever the approval store does.\<close>

lemma issue_then_revoke:
  assumes "cls_issue kernel_leases l w = (r, w')" "kn_leases w'' = kn_leases w'"
  shows "\<forall>k. hm_get k (kn_leases (snd (cls_revoke kernel_leases (ls_scope l) (lease_id l) w'')))
      = hm_get k (kn_leases w)
    \<or> (\<exists>m. hm_get k (kn_leases (snd (cls_revoke kernel_leases (ls_scope l) (lease_id l) w''))) = Some m
          \<and> ls_status m = Revoked)"
  using assms
  by (auto simp: kernel_leases_def on_leases_def lease_issue_def lease_revoke_def Let_def)


text \<open>A store in which somebody else denies the request between the check and the update.\<close>

definition racing_approvals :: "kernel_state approval_request_store" where
  "racing_approvals = kernel_approvals
     \<lparr>ars_approve := (\<lambda>s i w. (Inl (ApprovalNotPending i Denied), w))\<rparr>"

definition sample_pending :: kernel_state where
  "sample_pending = \<lparr>kn_runs = [],
     kn_approvals = [(approval_key_new sample_owner 7, \<lparr>ap_scope = sample_owner,
       ap_request = ApprovalRequest 7 2 (ExtensionPrincipal ''ext'')
         (Dispatch ''ext.run'' \<lparr>re_usd = None, re_input_tokens = None, re_output_tokens = None,
            re_wall_clock_ms = None, re_output_bytes = None, re_network_egress_bytes = None,
            re_process_count = None, re_concurrency_slots = None\<rparr>) (Some ''sha256:0'') [] None,
       ap_status = Pending\<rparr>)],
     kn_leases = [], kn_audit = []\<rparr>"

definition sample_approval :: lease_approval where
  "sample_approval = \<lparr>la_issued_by = UserPrincipal ''u'', la_allowed_effects = [DispatchCapability],
     la_mounts = \<lparr>mv_mounts = []\<rparr>, la_network = \<lparr>pol_allowed_targets = [],
       pol_deny_private_ip_ranges = False, pol_max_egress_bytes = None\<rparr>,
     la_secrets = [], la_resource_ceiling = None, la_expires_at = None, la_max_invocations = Some 1\<rparr>"


end
