(* ===== verification/Fingerprint.thy ===== *)
theory Fingerprint
  imports HostDecisions
begin

section \<open>Invocation fingerprints\<close>

text \<open>
  \<open>crates/ironclaw_host_api/src/approval.rs\<close>: the fingerprint that ties an approval to one
  invocation is the SHA-256 of the serialised scope, capability, estimate and canonical
  input. Serialising (\<open>serde_json::to_vec\<close>) and hashing (\<open>Sha256::digest\<close>) are third-party
  code, the arguments \<open>to_vec\<close> and \<open>sha256\<close>; the canonical form of the input is the program's.
\<close>

subsection \<open>Canonical JSON\<close>

fun collect_results :: "('e, 'a) result list \<Rightarrow> ('e, 'a list) result" where
  "collect_results [] = Inr []"
| "collect_results (r # rs) = bind_result r (\<lambda>x. bind_result (collect_results rs) (\<lambda>xs. Inr (x # xs)))"

definition MAX_CANONICAL_JSON_DEPTH :: nat where
  "MAX_CANONICAL_JSON_DEPTH = 64"

text \<open>An object's entries are visited in key order; \<open>Map\<close> keys are distinct.\<close>

function canonical_json_at_depth :: "json \<Rightarrow> nat \<Rightarrow> (host_api_error, json) result" where
  "canonical_json_at_depth v depth =
     (if MAX_CANONICAL_JSON_DEPTH < depth then
        Inl (InvariantViolation ''canonical_json: max depth exceeded'')
      else (case v of
          JArray items \<Rightarrow>
            bind_result (collect_results (map (\<lambda>x. canonical_json_at_depth x (depth + 1)) items))
              (\<lambda>xs. Inr (JArray xs))
        | JObject entries \<Rightarrow>
            bind_result (collect_results (map (\<lambda>e.
                bind_result (canonical_json_at_depth (snd e) (depth + 1)) (\<lambda>x. Inr (fst e, x)))
                (sort_key fst entries)))
              (\<lambda>es. Inr (JObject es))
        | _ \<Rightarrow> Inr v))"
  by pat_completeness auto
termination
  by (relation "measure (\<lambda>(v, depth). Suc MAX_CANONICAL_JSON_DEPTH - depth)")
    (simp_all add: MAX_CANONICAL_JSON_DEPTH_def)

declare canonical_json_at_depth.simps [simp del]

definition canonical_json :: "json \<Rightarrow> (host_api_error, json) result" where
  "canonical_json v = canonical_json_at_depth v 0"

subsection \<open>Hexadecimal\<close>

definition HEX :: string where
  "HEX = ''0123456789abcdef''"

fun to_lower_hex :: "u8 list \<Rightarrow> string" where
  "to_lower_hex [] = []"
| "to_lower_hex (b # bs) =
     HEX ! unat (drop_bit 4 b) # HEX ! unat (take_bit 4 b) # to_lower_hex bs"

subsection \<open>The fingerprint\<close>

record fingerprint_payload =
  fp_version :: u8
  fp_kind :: string
  fp_scope :: resource_scope
  fp_capability :: capability_id
  fp_estimate :: resource_estimate
  fp_input :: json

type_synonym serializer = "fingerprint_payload \<Rightarrow> (string, u8 list) result"
type_synonym hash_function = "u8 list \<Rightarrow> u8 list"

definition fingerprint_for_action ::
    "serializer \<Rightarrow> hash_function \<Rightarrow> string \<Rightarrow> resource_scope \<Rightarrow> capability_id \<Rightarrow> resource_estimate
     \<Rightarrow> json \<Rightarrow> (host_api_error, invocation_fingerprint) result" where
  "fingerprint_for_action to_vec sha256 kind scope capability estimate input =
     bind_result (canonical_json input) (\<lambda>canonical_input.
     bind_result (map_err InvariantViolation (to_vec \<lparr>fp_version = 1, fp_kind = kind,
         fp_scope = scope, fp_capability = capability, fp_estimate = estimate,
         fp_input = canonical_input\<rparr>)) (\<lambda>bytes.
     Inr (''sha256:'' @ to_lower_hex (sha256 bytes))))"

definition fingerprint_for_dispatch ::
    "serializer \<Rightarrow> hash_function \<Rightarrow> resource_scope \<Rightarrow> capability_id \<Rightarrow> resource_estimate
     \<Rightarrow> json \<Rightarrow> (host_api_error, invocation_fingerprint) result" where
  "fingerprint_for_dispatch to_vec sha256 = fingerprint_for_action to_vec sha256 ''dispatch''"

definition fingerprint_for_spawn ::
    "serializer \<Rightarrow> hash_function \<Rightarrow> resource_scope \<Rightarrow> capability_id \<Rightarrow> resource_estimate
     \<Rightarrow> json \<Rightarrow> (host_api_error, invocation_fingerprint) result" where
  "fingerprint_for_spawn to_vec sha256 = fingerprint_for_action to_vec sha256 ''spawn_capability''"

subsection \<open>The canonical form forgets exactly the order of object entries\<close>

text \<open>Values that differ at most in the order of the entries of their objects.\<close>

inductive json_equiv :: "json \<Rightarrow> json \<Rightarrow> bool" where
  same: "json_equiv v v"
| arrays: "list_all2 json_equiv xs ys \<Longrightarrow> json_equiv (JArray xs) (JArray ys)"
| objects: "distinct (map fst es) \<Longrightarrow>
    list_all2 (\<lambda>a b. fst a = fst b \<and> json_equiv (snd a) (snd b)) es ds \<Longrightarrow> mset ds = mset fs \<Longrightarrow>
    json_equiv (JObject es) (JObject fs)"

lemma map_sort_key:
  assumes "\<And>x. f (h x) = g x"
  shows "map h (sort_key g xs) = sort_key f (map h xs)"
proof -
  have "map h (insort_key g x ys) = insort_key f (h x) (map h ys)" for x ys
    by (induction ys) (auto simp: assms)
  then show ?thesis by (induction xs) simp_all
qed

lemma sort_key_mset_eq:
  assumes "mset xs = mset ys" "distinct (map f xs)"
  shows "sort_key f xs = sort_key f ys"
proof -
  have "distinct (map f ys)" using assms by (metis distinct_map mset_eq_imp_distinct_iff mset_eq_setD)
  then show ?thesis using assms
    by (intro map_sorted_distinct_set_unique [where f = f])
      (simp_all add: distinct_map mset_eq_setD [OF assms(1)])
qed

lemma canonical_equiv:
  "json_equiv v w \<Longrightarrow> canonical_json_at_depth v depth = canonical_json_at_depth w depth"
proof (induction arbitrary: depth rule: json_equiv.induct)
  case (same v)
  then show ?case by simp
next
  case (arrays xs ys)
  then have "map (\<lambda>x. canonical_json_at_depth x (Suc depth)) xs =
      map (\<lambda>x. canonical_json_at_depth x (Suc depth)) ys"
    by (induction rule: list_all2_induct) auto
  then show ?case by (subst (1 2) canonical_json_at_depth.simps) simp
next
  case (objects es ds fs)
  let ?h = "\<lambda>e. (fst e, canonical_json_at_depth (snd e) (Suc depth))"
  let ?g = "\<lambda>p. bind_result (snd p) (\<lambda>x. Inr (fst p, x))"
  have h: "map ?h es = map ?h ds"
    using objects.IH by (induction rule: list_all2_induct) auto
  have keys: "map fst es = map fst ds"
    using objects.IH by (induction rule: list_all2_induct) auto
  have "map ?h (sort_key fst es) = sort_key fst (map ?h es)"
    by (rule map_sort_key) simp
  also have "\<dots> = sort_key fst (map ?h ds)" by (simp add: h)
  also have "\<dots> = map ?h (sort_key fst ds)" by (rule map_sort_key [symmetric]) simp
  also have "sort_key fst ds = sort_key fst fs"
    by (rule sort_key_mset_eq [OF objects.hyps(2)]) (use objects.hyps(1) keys in simp)
  finally have "map ?g (map ?h (sort_key fst es)) = map ?g (map ?h (sort_key fst fs))" by simp
  then show ?case
    by (subst (1 2) canonical_json_at_depth.simps) (simp add: o_def)
qed

lemma collect_results_Inr_iff:
  "collect_results rs = Inr xs \<longleftrightarrow> rs = map Inr xs"
proof (induction rs arbitrary: xs)
  case Nil
  then show ?case by auto
next
  case (Cons r rs)
  show ?case by (cases r; cases xs) (auto simp: bind_result_Inr_iff Cons.IH)
qed

lemma collect_results_map_Inr [simp]: "collect_results (map (\<lambda>x. Inr (f x)) xs) = Inr (map f xs)"
  by (induction xs) simp_all

lemma map_eq_map_nth:
  assumes "map f xs = map g ys" "i < length ys"
  shows "f (xs ! i) = g (ys ! i)"
proof -
  have len: "length xs = length ys" using assms(1) by (rule map_eq_imp_length_eq)
  have "map f xs ! i = map g ys ! i" by (simp only: assms(1))
  then show ?thesis using assms(2) len by simp
qed

lemma canonical_Inr_depth:
  "canonical_json_at_depth v depth = Inr c \<Longrightarrow> \<not> MAX_CANONICAL_JSON_DEPTH < depth"
  by (subst (asm) canonical_json_at_depth.simps) (simp split: if_splits)

lemma canonical_array_Inr_iff:
  "canonical_json_at_depth (JArray items) depth = Inr c \<longleftrightarrow> \<not> MAX_CANONICAL_JSON_DEPTH < depth \<and>
    (\<exists>xs. map (\<lambda>x. canonical_json_at_depth x (Suc depth)) items = map Inr xs \<and> c = JArray xs)"
  by (subst canonical_json_at_depth.simps)
    (auto simp: bind_result_Inr_iff collect_results_Inr_iff)

lemma canonical_object_Inr_iff:
  "canonical_json_at_depth (JObject entries) depth = Inr c \<longleftrightarrow> \<not> MAX_CANONICAL_JSON_DEPTH < depth \<and>
    (\<exists>es. map (\<lambda>e. bind_result (canonical_json_at_depth (snd e) (Suc depth)) (\<lambda>x. Inr (fst e, x)))
        (sort_key fst entries) = map Inr es \<and> c = JObject es)"
  by (subst canonical_json_at_depth.simps)
    (auto simp: bind_result_Inr_iff collect_results_Inr_iff)

lemma canonical_scalars:
  assumes "\<not> MAX_CANONICAL_JSON_DEPTH < depth"
  shows "canonical_json_at_depth JNull depth = Inr JNull"
    and "canonical_json_at_depth (JBool b) depth = Inr (JBool b)"
    and "canonical_json_at_depth (JNumber n) depth = Inr (JNumber n)"
    and "canonical_json_at_depth (JString t) depth = Inr (JString t)"
  using assms by (subst canonical_json_at_depth.simps, simp)+

lemma canonical_idem:
  "canonical_json_at_depth v depth = Inr c \<Longrightarrow> canonical_json_at_depth c depth = Inr c"
proof (induction v depth arbitrary: c rule: canonical_json_at_depth.induct)
  case (1 v depth)
  have d: "\<not> MAX_CANONICAL_JSON_DEPTH < depth"
    using "1.prems" by (rule canonical_Inr_depth)
  show ?case
  proof (cases v)
    case (JArray items)
    then obtain xs where xs: "map (\<lambda>x. canonical_json_at_depth x (Suc depth)) items = map Inr xs"
      and c: "c = JArray xs"
      using "1.prems" by (auto simp: canonical_array_Inr_iff)
    have "canonical_json_at_depth x (Suc depth) = Inr x" if x: "x \<in> set xs" for x
    proof -
      obtain i where i: "i < length xs" "x = xs ! i" using x by (auto simp: in_set_conv_nth)
      have len: "length items = length xs" using xs by (rule map_eq_imp_length_eq)
      have "canonical_json_at_depth (items ! i) (Suc depth) = Inr x"
        using map_eq_map_nth [OF xs i(1)] i(2) by simp
      then show ?thesis
        using i(1) len "1.IH"(1) [OF d JArray, of "items ! i" x, unfolded Suc_eq_plus1 [symmetric]]
        by simp
    qed
    then have "map (\<lambda>x. canonical_json_at_depth x (Suc depth)) xs = map Inr xs"
      by (rule map_cong [OF refl])
    then show ?thesis using d unfolding c canonical_array_Inr_iff by blast
  next
    case (JObject entries)
    let ?es = "sort_key fst entries"
    obtain es where es: "map (\<lambda>e. bind_result (canonical_json_at_depth (snd e) (Suc depth))
        (\<lambda>x. Inr (fst e, x))) ?es = map Inr es" and c: "c = JObject es"
      using "1.prems" JObject by (auto simp: canonical_object_Inr_iff)
    have len: "length ?es = length es" using es by (rule map_eq_imp_length_eq)
    have at: "fst (es ! i) = fst (?es ! i)
        \<and> canonical_json_at_depth (snd (?es ! i)) (Suc depth) = Inr (snd (es ! i))"
      if "i < length es" for i
      using map_eq_map_nth [OF es that] by (auto simp: bind_result_Inr_iff prod_eq_iff)
    have "map fst es = map fst ?es" using at len by (intro nth_equalityI) auto
    then have "sorted (map fst es)" by simp
    then have sort: "sort_key fst es = es" by (simp add: sorted_sort_id sort_key_id_if_sorted)
    have "canonical_json_at_depth (snd e) (Suc depth) = Inr (snd e)" if e: "e \<in> set es" for e
    proof -
      obtain i where i: "i < length es" "e = es ! i" using e by (auto simp: in_set_conv_nth)
      have "?es ! i \<in> set entries" using i(1) len by (metis nth_mem set_sort)
      then show ?thesis
        using "1.IH"(2) [OF d JObject, of "?es ! i" "snd e", unfolded Suc_eq_plus1 [symmetric]] at [OF i(1)] i(2) by simp
    qed
    then have "map (\<lambda>e. bind_result (canonical_json_at_depth (snd e) (Suc depth))
        (\<lambda>x. Inr (fst e, x))) es = map Inr es"
      by (intro map_cong [OF refl]) simp
    then show ?thesis using d unfolding c canonical_object_Inr_iff sort by blast
  qed (use "1.prems" canonical_scalars [OF d] in auto)
qed

text \<open>Values all of whose objects have distinct keys: the values of \<open>serde_json::Value\<close>.\<close>

fun json_wf :: "json \<Rightarrow> bool" where
  "json_wf (JArray items) = (\<forall>x \<in> set items. json_wf x)"
| "json_wf (JObject entries) = (distinct (map fst entries) \<and> (\<forall>e \<in> set entries. json_wf (snd e)))"
| "json_wf _ = True"

lemma canonical_is_equiv:
  "canonical_json_at_depth v depth = Inr c \<Longrightarrow> json_wf v \<Longrightarrow> json_equiv v c"
proof (induction v depth arbitrary: c rule: canonical_json_at_depth.induct)
  case (1 v depth)
  have d: "\<not> MAX_CANONICAL_JSON_DEPTH < depth"
    using "1.prems"(1) by (rule canonical_Inr_depth)
  show ?case
  proof (cases v)
    case (JArray items)
    then obtain xs where xs: "map (\<lambda>x. canonical_json_at_depth x (Suc depth)) items = map Inr xs"
      and c: "c = JArray xs"
      using "1.prems" by (auto simp: canonical_array_Inr_iff)
    have len: "length items = length xs" using xs by (rule map_eq_imp_length_eq)
    have "json_equiv (items ! i) (xs ! i)" if "i < length xs" for i
      using "1.IH"(1) [OF d JArray, of "items ! i" "xs ! i", unfolded Suc_eq_plus1 [symmetric]]
        map_eq_map_nth [OF xs that] that len "1.prems"(2) JArray by simp
    then show ?thesis using len by (simp add: JArray c json_equiv.arrays list_all2_conv_all_nth)
  next
    case (JObject entries)
    let ?es = "sort_key fst entries"
    obtain es where es: "map (\<lambda>e. bind_result (canonical_json_at_depth (snd e) (Suc depth))
        (\<lambda>x. Inr (fst e, x))) ?es = map Inr es" and c: "c = JObject es"
      using "1.prems" JObject by (auto simp: canonical_object_Inr_iff)
    let ?h = "\<lambda>e. (fst e, projr (canonical_json_at_depth (snd e) (Suc depth)))"
    have len: "length ?es = length es" using es by (rule map_eq_imp_length_eq)
    have at: "es ! i = ?h (?es ! i)"
        "canonical_json_at_depth (snd (?es ! i)) (Suc depth) = Inr (snd (es ! i))"
      if "i < length es" for i
      using map_eq_map_nth [OF es that] by (auto simp: bind_result_Inr_iff prod_eq_iff)
    have "es = map ?h ?es" using at(1) len by (intro nth_equalityI) simp_all
    moreover have "mset (map ?h ?es) = mset (map ?h entries)" by simp
    ultimately have perm: "mset (map ?h entries) = mset es" by simp
    have sub: "json_equiv (snd e) (snd (?h e))" if e: "e \<in> set entries" for e
    proof -
      have "e \<in> set ?es" using e by simp
      then obtain i where i: "i < length es" "e = ?es ! i" unfolding in_set_conv_nth len by blast
      have "canonical_json_at_depth (snd e) (Suc depth) = Inr (snd (?h e))"
        using at(2) [OF i(1)] i(2) by simp
      then show ?thesis
        using "1.IH"(2) [OF d JObject, of e "snd (?h e)", unfolded Suc_eq_plus1 [symmetric]]
          e "1.prems"(2) JObject by simp
    qed
    have "list_all2 (\<lambda>a b. fst a = fst b \<and> json_equiv (snd a) (snd b)) entries (map ?h entries)"
      using sub by (simp add: list_all2_conv_all_nth)
    then show ?thesis
      using perm "1.prems"(2) JObject c by (auto intro: json_equiv.objects)
  qed (use "1.prems" canonical_scalars [OF d] in \<open>auto intro: json_equiv.same\<close>)
qed

text \<open>
  C34: The canonical form of an input ignores the order of the entries of its objects and nothing
  else: reordering leaves it the same, it is itself a reordering of the input, and it is its own
  canonical form.
\<close>

theorem canonical_json_exact:
  assumes "json_wf v"
  shows "(\<forall>w. json_equiv v w \<longrightarrow> canonical_json w = canonical_json v) \<and>
    (\<forall>c. canonical_json v = Inr c \<longrightarrow> json_equiv v c \<and> canonical_json c = Inr c)"
  using canonical_equiv canonical_is_equiv [OF _ assms] canonical_idem
  unfolding canonical_json_def by metis

theorem canonical_json_exact_witness:
  "canonical_json (JObject [(''b'', JNull), (''a'', JArray [JBool True])])
     = canonical_json (JObject [(''a'', JArray [JBool True]), (''b'', JNull)])"
proof -
  have "json_equiv (JObject [(''a'', JArray [JBool True]), (''b'', JNull)])
      (JObject [(''b'', JNull), (''a'', JArray [JBool True])])"
    by (rule json_equiv.objects [where ds = "[(''a'', JArray [JBool True]), (''b'', JNull)]"])
      (simp, simp add: json_equiv.same, simp add: add_mset_commute)
  moreover have "json_wf (JObject [(''a'', JArray [JBool True]), (''b'', JNull)])" by simp
  ultimately show ?thesis using canonical_json_exact by blast
qed

subsection \<open>What a fingerprint binds\<close>

lemma HEX_inj: "i < 16 \<Longrightarrow> j < 16 \<Longrightarrow> HEX ! i = HEX ! j \<Longrightarrow> i = j"
  by (rule nth_eq_iff_index_eq [THEN iffD1, of HEX]) (simp_all add: HEX_def)

lemma to_lower_hex_inj: "to_lower_hex xs = to_lower_hex ys \<Longrightarrow> xs = ys"
proof (induction xs arbitrary: ys)
  case Nil
  then show ?case by (cases ys) simp_all
next
  case (Cons b bs)
  then obtain d ds where ys: "ys = d # ds" by (cases ys) simp_all
  have hi: "unat (drop_bit 4 x) < 16" for x :: u8
  proof -
    have "unat x < 2 ^ LENGTH(8)" by (rule unsigned_less)
    then show ?thesis by (subst unat_drop_bit_eq) (simp add: drop_bit_eq_div)
  qed
  have lo: "unat (take_bit 4 x) < 16" for x :: u8
    by (subst unsigned_take_bit_eq) (simp add: take_bit_eq_mod)
  have "drop_bit 4 b = drop_bit 4 d" "take_bit 4 b = take_bit 4 d" "bs = ds"
    using Cons ys HEX_inj [OF hi hi, of b d] HEX_inj [OF lo lo, of b d]
    by (simp_all add: word_unat_eq_iff)
  then show ?case using ys by (metis bits_ident)
qed

definition payload_of ::
    "string \<Rightarrow> resource_scope \<Rightarrow> capability_id \<Rightarrow> resource_estimate \<Rightarrow> json \<Rightarrow> fingerprint_payload" where
  "payload_of kind scope capability estimate input =
     \<lparr>fp_version = 1, fp_kind = kind, fp_scope = scope, fp_capability = capability,
      fp_estimate = estimate, fp_input = input\<rparr>"

lemma fingerprint_for_action_Inr_iff:
  "fingerprint_for_action to_vec sha256 kind scope capability estimate input = Inr f \<longleftrightarrow>
     (\<exists>c b. canonical_json input = Inr c \<and>
       to_vec (payload_of kind scope capability estimate c) = Inr b \<and>
       f = ''sha256:'' @ to_lower_hex (sha256 b))"
  by (auto simp: fingerprint_for_action_def payload_of_def bind_result_Inr_iff)

text \<open>
  C33: Equal fingerprints mean the same invocation: unless SHA-256 collides on the two
  serialised payloads, the kind, the scope, the capability, the estimate and the input up to the
  order of object entries are the same.
\<close>

theorem fingerprint_binds_invocation:
  assumes serializer: "\<And>p q b. to_vec p = Inr b \<Longrightarrow> to_vec q = Inr b \<Longrightarrow> p = q"
    and "fingerprint_for_action to_vec sha256 kind scope capability estimate input = Inr f"
    and "fingerprint_for_action to_vec sha256 kind' scope' capability' estimate' input' = Inr f"
  shows "(kind = kind' \<and> scope = scope' \<and> capability = capability' \<and> estimate = estimate' \<and>
      canonical_json input = canonical_json input') \<or>
    (\<exists>c c' b b'. canonical_json input = Inr c \<and> canonical_json input' = Inr c' \<and>
      to_vec (payload_of kind scope capability estimate c) = Inr b \<and>
      to_vec (payload_of kind' scope' capability' estimate' c') = Inr b' \<and>
      b \<noteq> b' \<and> sha256 b = sha256 b')"
proof -
  obtain c b where 1: "canonical_json input = Inr c"
      "to_vec (payload_of kind scope capability estimate c) = Inr b"
      "f = ''sha256:'' @ to_lower_hex (sha256 b)"
    using assms(2) by (auto simp: fingerprint_for_action_Inr_iff)
  obtain c' b' where 2: "canonical_json input' = Inr c'"
      "to_vec (payload_of kind' scope' capability' estimate' c') = Inr b'"
      "f = ''sha256:'' @ to_lower_hex (sha256 b')"
    using assms(3) by (auto simp: fingerprint_for_action_Inr_iff)
  have hash: "sha256 b = sha256 b'" using 1(3) 2(3) by (simp add: to_lower_hex_inj)
  show ?thesis
  proof (cases "b = b'")
    case True
    then show ?thesis using serializer [OF 1(2)] 1(1) 2(1,2) by (auto simp: payload_of_def)
  next
    case False
    then show ?thesis using 1 2 hash by blast
  qed
qed

text \<open>A serialiser that knows two payloads only, and a hash that keeps its input.\<close>

definition two_payloads :: "fingerprint_payload \<Rightarrow> fingerprint_payload \<Rightarrow> serializer" where
  "two_payloads p q = (\<lambda>x. if x = p then Inr [1] else if x = q then Inr [2] else Inl ''unsupported'')"

definition sample_estimate :: resource_estimate where
  "sample_estimate = \<lparr>re_usd = None, re_input_tokens = None, re_output_tokens = None,
     re_wall_clock_ms = None, re_output_bytes = None, re_network_egress_bytes = None,
     re_process_count = None, re_concurrency_slots = None\<rparr>"

definition sample_scope :: resource_scope where
  "sample_scope = \<lparr>rs_tenant_id = ''t'', rs_user_id = ''u'', rs_agent_id = None,
     rs_project_id = None, rs_mission_id = None, rs_thread_id = None, rs_invocation_id = 1\<rparr>"

definition sample_payload :: "string \<Rightarrow> fingerprint_payload" where
  "sample_payload kind = payload_of kind sample_scope ''ext.run'' sample_estimate JNull"

lemma two_payloads_inj: "two_payloads p q x = Inr b \<Longrightarrow> two_payloads p q y = Inr b \<Longrightarrow> x = y"
  by (auto simp: two_payloads_def split: if_splits)

lemma canonical_json_JNull: "canonical_json JNull = Inr JNull"
  by (simp add: canonical_json_def canonical_scalars MAX_CANONICAL_JSON_DEPTH_def)

theorem fingerprint_binds_invocation_witness:
  "fingerprint_for_dispatch (two_payloads (sample_payload ''dispatch'') (sample_payload ''spawn_capability''))
     id sample_scope ''ext.run'' sample_estimate JNull = Inr ''sha256:01''
   \<and> fingerprint_for_spawn (two_payloads (sample_payload ''dispatch'') (sample_payload ''spawn_capability''))
     id sample_scope ''ext.run'' sample_estimate JNull \<noteq> Inr ''sha256:01''"
proof -
  let ?v = "two_payloads (sample_payload ''dispatch'') (sample_payload ''spawn_capability'')"
  have d: "fingerprint_for_action ?v id ''dispatch'' sample_scope ''ext.run'' sample_estimate JNull
      = Inr ''sha256:01''"
    by (simp add: fingerprint_for_action_def canonical_json_JNull two_payloads_def
        sample_payload_def payload_of_def HEX_def)
  show ?thesis
    using fingerprint_binds_invocation [of ?v id "''dispatch''" sample_scope "''ext.run''"
        sample_estimate JNull "''sha256:01''" "''spawn_capability''" sample_scope "''ext.run''"
        sample_estimate JNull, OF two_payloads_inj d]
    by (auto simp: fingerprint_for_dispatch_def fingerprint_for_spawn_def d)
qed

end
