(* ===== verification/HostPorts.thy ===== *)
theory HostPorts
  imports Resources RunState Leases Trust HostDecisions
begin

section \<open>The ports of the capability host\<close>

text \<open>
  What the capability host calls and what it answers: the dispatcher
  (\<open>crates/ironclaw_host_api/src/dispatch.rs\<close>), the process manager
  (\<open>crates/ironclaw_processes/src/types.rs\<close>), the obligation handler
  (\<open>crates/ironclaw_capabilities/src/obligations.rs\<close>), its requests (\<open>requests.rs\<close>) and its
  errors (\<open>error.rs\<close>). A trait is the record of its methods, each acting on the state \<open>'w\<close>
  that all services share; a trait with one method is that method.
\<close>

subsection \<open>Dispatch\<close>

record dispatch_request =
  dq_capability_id :: capability_id
  dq_scope :: resource_scope
  dq_estimate :: resource_estimate
  dq_mounts :: "mount_view option"
  dq_resource_reservation :: "resource_reservation option"
  dq_input :: json

record dispatch_result =
  dr_capability_id :: capability_id
  dr_provider :: extension_id
  dr_runtime :: runtime_kind
  dr_output :: json
  dr_usage :: resource_usage
  dr_receipt :: resource_receipt

datatype runtime_dispatch_error_kind =
    Backend
  | Client
  | Executor
  | ExitFailure
  | ExtensionRuntimeMismatch
  | FilesystemDenied
  | Guest
  | InputEncode
  | InvalidResult
  | Manifest
  | Memory
  | MethodMissing
  | NetworkDenied
  | OutputDecode
  | OutputTooLarge
  | ResourceKind
  | UndeclaredCapability
  | UnsupportedRunner
  | UnknownKind

fun dispatch_kind_as_str :: "runtime_dispatch_error_kind \<Rightarrow> string" where
  "dispatch_kind_as_str Backend = ''Backend''"
| "dispatch_kind_as_str Client = ''Client''"
| "dispatch_kind_as_str Executor = ''Executor''"
| "dispatch_kind_as_str ExitFailure = ''ExitFailure''"
| "dispatch_kind_as_str ExtensionRuntimeMismatch = ''ExtensionRuntimeMismatch''"
| "dispatch_kind_as_str FilesystemDenied = ''FilesystemDenied''"
| "dispatch_kind_as_str Guest = ''Guest''"
| "dispatch_kind_as_str InputEncode = ''InputEncode''"
| "dispatch_kind_as_str InvalidResult = ''InvalidResult''"
| "dispatch_kind_as_str Manifest = ''Manifest''"
| "dispatch_kind_as_str Memory = ''Memory''"
| "dispatch_kind_as_str MethodMissing = ''MethodMissing''"
| "dispatch_kind_as_str NetworkDenied = ''NetworkDenied''"
| "dispatch_kind_as_str OutputDecode = ''OutputDecode''"
| "dispatch_kind_as_str OutputTooLarge = ''OutputTooLarge''"
| "dispatch_kind_as_str ResourceKind = ''Resource''"
| "dispatch_kind_as_str UndeclaredCapability = ''UndeclaredCapability''"
| "dispatch_kind_as_str UnsupportedRunner = ''UnsupportedRunner''"
| "dispatch_kind_as_str UnknownKind = ''Unknown''"

fun dispatch_event_kind :: "runtime_dispatch_error_kind \<Rightarrow> string" where
  "dispatch_event_kind Backend = ''backend''"
| "dispatch_event_kind Client = ''client''"
| "dispatch_event_kind Executor = ''executor''"
| "dispatch_event_kind ExitFailure = ''exit_failure''"
| "dispatch_event_kind ExtensionRuntimeMismatch = ''extension.runtime_mismatch''"
| "dispatch_event_kind FilesystemDenied = ''filesystem_denied''"
| "dispatch_event_kind Guest = ''guest''"
| "dispatch_event_kind InputEncode = ''input_encode''"
| "dispatch_event_kind InvalidResult = ''invalid_result''"
| "dispatch_event_kind Manifest = ''manifest''"
| "dispatch_event_kind Memory = ''memory''"
| "dispatch_event_kind MethodMissing = ''method_missing''"
| "dispatch_event_kind NetworkDenied = ''network_denied''"
| "dispatch_event_kind OutputDecode = ''output_decode''"
| "dispatch_event_kind OutputTooLarge = ''output_too_large''"
| "dispatch_event_kind ResourceKind = ''resource''"
| "dispatch_event_kind UndeclaredCapability = ''undeclared_capability''"
| "dispatch_event_kind UnsupportedRunner = ''unsupported_runner''"
| "dispatch_event_kind UnknownKind = ''unknown''"

datatype dispatch_error =
    DispatchUnknownCapability capability_id
  | DispatchUnknownProvider capability_id extension_id
  | DispatchRuntimeMismatch capability_id runtime_kind runtime_kind
  | DispatchMissingRuntimeBackend runtime_kind
  | DispatchUnsupportedRuntime capability_id runtime_kind
  | McpDispatch runtime_dispatch_error_kind
  | ScriptDispatch runtime_dispatch_error_kind
  | WasmDispatch runtime_dispatch_error_kind

type_synonym 'w dispatcher = "dispatch_request \<Rightarrow> ('w, dispatch_error, dispatch_result) operation"

subsection \<open>Processes\<close>

datatype process_status = ProcRunning | ProcCompleted | ProcFailed | ProcKilled

definition process_is_terminal :: "process_status \<Rightarrow> bool" where
  "process_is_terminal s \<longleftrightarrow> s \<noteq> ProcRunning"

record process_record =
  pr_process_id :: process_id
  pr_parent_process_id :: "process_id option"
  pr_invocation_id :: invocation_id
  pr_scope :: resource_scope
  pr_extension_id :: extension_id
  pr_capability_id :: capability_id
  pr_runtime :: runtime_kind
  pr_status :: process_status
  pr_grants :: capability_set
  pr_mounts :: mount_view
  pr_estimated_resources :: resource_estimate
  pr_resource_reservation_id :: "resource_reservation_id option"
  pr_error_kind :: "string option"

record process_start =
  ps_process_id :: process_id
  ps_parent_process_id :: "process_id option"
  ps_invocation_id :: invocation_id
  ps_scope :: resource_scope
  ps_extension_id :: extension_id
  ps_capability_id :: capability_id
  ps_runtime :: runtime_kind
  ps_grants :: capability_set
  ps_mounts :: mount_view
  ps_estimated_resources :: resource_estimate
  ps_resource_reservation_id :: "resource_reservation_id option"
  ps_input :: json

datatype process_error =
    UnknownProcess process_id
  | ProcessAlreadyExists process_id
  | InvalidTransition process_id process_status process_status
  | ProcessReservationMismatch process_id resource_reservation_id "resource_reservation_id option"
  | ProcessReservationAlreadyAssigned process_id resource_reservation_id
  | ProcessReservationNotOwned process_id "resource_reservation_id option"
  | ProcessResource resource_error
  | ProcessResourceCleanupFailed process_error resource_error
  | ProcessResultStoreUnavailable
  | ProcessResultUnavailable process_id
  | ProcessInvalidStoredRecord string
  | ProcessInvalidPath string
  | ProcessFilesystem string
  | ProcessSerialization string
  | ProcessDeserialization string

type_synonym 'w process_manager = "process_start \<Rightarrow> ('w, process_error, process_record) operation"

subsection \<open>Obligation handling\<close>

datatype obligation_phase = InvokePhase | ResumePhase | SpawnPhase

record obligation_request =
  oq_phase :: obligation_phase
  oq_context :: execution_context
  oq_capability_id :: capability_id
  oq_estimate :: resource_estimate
  oq_obligations :: "obligation list"

record obligation_outcome =
  oo_mounts :: "mount_view option"
  oo_resource_reservation :: "resource_reservation option"

definition default_outcome :: obligation_outcome where
  "default_outcome = \<lparr>oo_mounts = None, oo_resource_reservation = None\<rparr>"

record completion_request = obligation_request +
  oq_dispatch :: dispatch_result

record abort_request = obligation_request +
  oq_outcome :: obligation_outcome

datatype obligation_failure_kind =
    AuditFailure
  | MountFailure
  | NetworkFailure
  | OutputFailure
  | ResourceFailure
  | SecretFailure

fun failure_kind_display :: "obligation_failure_kind \<Rightarrow> string" where
  "failure_kind_display AuditFailure = ''Audit''"
| "failure_kind_display MountFailure = ''Mount''"
| "failure_kind_display NetworkFailure = ''Network''"
| "failure_kind_display OutputFailure = ''Output''"
| "failure_kind_display ResourceFailure = ''Resource''"
| "failure_kind_display SecretFailure = ''Secret''"

datatype obligation_error =
    ObligationsUnsupported "obligation list"
  | ObligationFailedWith obligation_failure_kind

record 'w obligation_handler =
  oh_satisfy :: "obligation_request \<Rightarrow> ('w, obligation_error, unit) operation"
  oh_prepare :: "obligation_request \<Rightarrow> ('w, obligation_error, obligation_outcome) operation"
  oh_abort :: "abort_request \<Rightarrow> ('w, obligation_error, unit) operation"
  oh_complete_dispatch ::
    "completion_request \<Rightarrow> ('w, obligation_error, dispatch_result) operation"

fun is_post_dispatch :: "obligation \<Rightarrow> bool" where
  "is_post_dispatch AuditAfter = True"
| "is_post_dispatch RedactOutput = True"
| "is_post_dispatch (EnforceResourceCeiling _) = True"
| "is_post_dispatch (EnforceOutputLimit _) = True"
| "is_post_dispatch _ = False"

definition post_dispatch_obligations :: "obligation list \<Rightarrow> obligation list" where
  "post_dispatch_obligations obs = filter is_post_dispatch obs"

text \<open>The trait's default methods, for a handler that only defines \<open>satisfy\<close>.\<close>

definition default_obligation_handler ::
    "(obligation_request \<Rightarrow> ('w, obligation_error, unit) operation) \<Rightarrow> 'w obligation_handler" where
  "default_obligation_handler satisfy = \<lparr>
     oh_satisfy = satisfy,
     oh_prepare = (\<lambda>q. bind_op (satisfy q) (\<lambda>_. return_op default_outcome)),
     oh_abort = (\<lambda>_. return_op ()),
     oh_complete_dispatch = (\<lambda>q.
       (let unsupported = post_dispatch_obligations (oq_obligations q)
        in if unsupported = [] then return_op (oq_dispatch q)
           else fail_op (ObligationsUnsupported unsupported)))\<rparr>"

subsection \<open>Requests, results and errors of the host\<close>

record invocation_request =
  iq_context :: execution_context
  iq_capability_id :: capability_id
  iq_estimate :: resource_estimate
  iq_input :: json
  iq_trust_decision :: trust_decision

record resume_request = invocation_request +
  iq_approval_request_id :: approval_request_id

datatype resume_context_mismatch =
    CapabilityIdMismatch
  | ApprovalRequestIdMismatch
  | CapabilityAndApprovalRequestIdMismatch

datatype capability_invocation_error =
    UnknownCapability capability_id
  | AuthorizationDenied capability_id deny_reason
  | UnsupportedObligations capability_id "obligation list"
  | ObligationFailed capability_id obligation_failure_kind
  | AuthorizationRequiresApproval capability_id
  | InvocationFingerprintFailed capability_id host_api_error
  | ApprovalRequestMismatch capability_id string
  | ApprovalFingerprintMismatch capability_id
  | ApprovalNotApproved capability_id approval_status
  | ApprovalStoreMissing capability_id string
  | ApprovalLeaseMissing capability_id
  | ResumeStoreMissing capability_id string
  | ProcessManagerMissing capability_id
  | ResumeNotBlocked capability_id run_status
  | ResumeContextMismatch capability_id resume_context_mismatch
  | LeaseFailed lease_error
  | RunStateFailed run_state_error
  | ProcessFailed process_error
  | DispatchFailed string

fun dispatch_error_kind :: "dispatch_error \<Rightarrow> string" where
  "dispatch_error_kind (DispatchUnknownCapability _) = ''UnknownCapability''"
| "dispatch_error_kind (DispatchUnknownProvider _ _) = ''UnknownProvider''"
| "dispatch_error_kind (DispatchRuntimeMismatch _ _ _) = ''RuntimeMismatch''"
| "dispatch_error_kind (DispatchMissingRuntimeBackend _) = ''MissingRuntimeBackend''"
| "dispatch_error_kind (DispatchUnsupportedRuntime _ _) = ''UnsupportedRuntime''"
| "dispatch_error_kind (McpDispatch k) = dispatch_kind_as_str k"
| "dispatch_error_kind (ScriptDispatch k) = dispatch_kind_as_str k"
| "dispatch_error_kind (WasmDispatch k) = dispatch_kind_as_str k"

definition invocation_error_of_dispatch :: "dispatch_error \<Rightarrow> capability_invocation_error" where
  "invocation_error_of_dispatch e = DispatchFailed (dispatch_error_kind e)"

end
