(* ===== verification/CapabilityHost.thy ===== *)
theory CapabilityHost
  imports HostPorts Authorization Fingerprint
begin

section \<open>The capability host\<close>

text \<open>
  \<open>crates/ironclaw_capabilities/src\<close>: \<open>helpers.rs\<close> and \<open>host.rs\<close>, the service that runs a
  capability: it authorizes an invocation, blocks it on an approval or satisfies its
  obligations, dispatches it or spawns its process, and keeps the run record in step.

  \<open>invoke_json\<close> and \<open>spawn_json\<close>, and \<open>resume_json\<close> and \<open>resume_spawn_json\<close>, are written twice
  in the source, with the action kind, the authorizer method and the obligation phase changed;
  the shared stages are definitions with the kind as an argument. Logging (\<open>warn!\<close>) is left
  out. The state \<open>'w\<close> is whatever the host's services share.
\<close>

subsection \<open>Helpers (\<open>helpers.rs\<close>)\<close>

datatype capability_action_kind = DispatchAction | SpawnAction

text \<open>
  What a call takes from outside: the serialiser and the hash of the fingerprint, the clock at
  each point that reads it, and the process id that \<open>ProcessId::new\<close> draws.
\<close>

record call_environment =
  ce_to_vec :: serializer
  ce_sha256 :: hash_function
  ce_leases_at :: timestamp
  ce_authorize_at :: timestamp
  ce_claim_at :: timestamp
  ce_consume_at :: timestamp
  ce_process_id :: process_id

fun invocation_fingerprint_for_kind ::
    "call_environment \<Rightarrow> capability_action_kind \<Rightarrow> resource_scope \<Rightarrow> capability_id
     \<Rightarrow> resource_estimate \<Rightarrow> json \<Rightarrow> (host_api_error, invocation_fingerprint) result" where
  "invocation_fingerprint_for_kind env DispatchAction scope capability estimate input =
     fingerprint_for_dispatch (ce_to_vec env) (ce_sha256 env) scope capability estimate input"
| "invocation_fingerprint_for_kind env SpawnAction scope capability estimate input =
     fingerprint_for_spawn (ce_to_vec env) (ce_sha256 env) scope capability estimate input"

fun action_matches ::
    "capability_action_kind \<Rightarrow> action \<Rightarrow> capability_id \<Rightarrow> resource_estimate \<Rightarrow> bool" where
  "action_matches DispatchAction (Dispatch c e) capability estimate =
     (c = capability \<and> e = estimate)"
| "action_matches SpawnAction (SpawnCapability c e) capability estimate =
     (c = capability \<and> e = estimate)"
| "action_matches _ _ _ _ = False"

definition validate_approval_request_matches_invocation ::
    "approval_request \<Rightarrow> execution_context \<Rightarrow> capability_id \<Rightarrow> resource_estimate
     \<Rightarrow> capability_action_kind \<Rightarrow> (capability_invocation_error, unit) result" where
  "validate_approval_request_matches_invocation approval context capability estimate kind =
     (if \<not> action_matches kind (ar_action approval) capability estimate then
        Inl (ApprovalRequestMismatch capability ''action'')
      else if ar_correlation_id approval \<noteq> ec_correlation_id context then
        Inl (ApprovalRequestMismatch capability ''correlation_id'')
      else if ar_requested_by approval \<noteq> ExtensionPrincipal (ec_extension_id context) then
        Inl (ApprovalRequestMismatch capability ''requested_by'')
      else Inr ())"

definition matching_approval_lease ::
    "'w lease_store \<Rightarrow> timestamp \<Rightarrow> execution_context \<Rightarrow> capability_id \<Rightarrow> invocation_fingerprint
     \<Rightarrow> 'w \<Rightarrow> capability_lease option \<times> 'w" where
  "matching_approval_lease leases now context capability fingerprint w =
     (case cls_active_leases_for_context leases now context w of
        (ls, w) \<Rightarrow> (find (\<lambda>l. ls_scope l = ec_resource_scope context
            \<and> cg_capability (ls_grant l) = capability
            \<and> ls_invocation_fingerprint l = Some fingerprint) ls, w))"

definition fail_run ::
    "'w run_state_store \<Rightarrow> resource_scope \<Rightarrow> invocation_id \<Rightarrow> string
     \<Rightarrow> ('w, run_state_error, unit) operation" where
  "fail_run runs scope inv_id error_kind =
     bind_op (rss_fail runs scope inv_id error_kind) (\<lambda>_. return_op ())"

definition fail_run_if_configured ::
    "'w run_state_store option \<Rightarrow> resource_scope \<Rightarrow> invocation_id \<Rightarrow> string \<Rightarrow> 'w \<Rightarrow> 'w" where
  "fail_run_if_configured run_state scope inv_id error_kind w =
     (case run_state of
        Some runs \<Rightarrow> snd (fail_run runs scope inv_id error_kind w)
      | None \<Rightarrow> w)"

definition complete_run_after_side_effect ::
    "'w run_state_store \<Rightarrow> resource_scope \<Rightarrow> invocation_id \<Rightarrow> 'w \<Rightarrow> 'w" where
  "complete_run_after_side_effect runs scope inv_id w = snd (rss_complete runs scope inv_id w)"

fun approval_not_approved_error_kind :: "approval_status \<Rightarrow> string" where
  "approval_not_approved_error_kind Pending = ''ApprovalPending''"
| "approval_not_approved_error_kind Approved = ''ApprovalApproved''"
| "approval_not_approved_error_kind Denied = ''ApprovalDenied''"
| "approval_not_approved_error_kind Expired = ''ApprovalExpired''"

text \<open>\<open>None\<close> is the source's \<open>unreachable!\<close>: the caller has seen a mismatch.\<close>

fun resume_context_mismatch_kind :: "bool \<Rightarrow> bool \<Rightarrow> resume_context_mismatch option" where
  "resume_context_mismatch_kind True True = Some CapabilityAndApprovalRequestIdMismatch"
| "resume_context_mismatch_kind True False = Some CapabilityIdMismatch"
| "resume_context_mismatch_kind False True = Some ApprovalRequestIdMismatch"
| "resume_context_mismatch_kind False False = None"

definition claim_error_may_be_concurrent_resume :: "lease_error \<Rightarrow> bool" where
  "claim_error_may_be_concurrent_resume e =
     (case e of InactiveLease _ status \<Rightarrow> status = Claimed \<or> status = Consumed | _ \<Rightarrow> False)"

subsection \<open>The host\<close>

record 'w capability_host =
  h_registry :: "capability_id \<Rightarrow> capability_descriptor option"
  h_dispatcher :: "'w dispatcher"
  h_authorizer :: "'w trust_authorizer"
  h_run_state :: "'w run_state_store option"
  h_approval_requests :: "'w approval_request_store option"
  h_capability_leases :: "'w lease_store option"
  h_process_manager :: "'w process_manager option"
  h_obligation_handler :: "'w obligation_handler option"

definition capability_host_new ::
    "(capability_id \<Rightarrow> capability_descriptor option) \<Rightarrow> 'w dispatcher \<Rightarrow> 'w trust_authorizer
     \<Rightarrow> 'w capability_host" where
  "capability_host_new registry dispatcher authorizer = \<lparr>h_registry = registry,
     h_dispatcher = dispatcher, h_authorizer = authorizer, h_run_state = None,
     h_approval_requests = None, h_capability_leases = None, h_process_manager = None,
     h_obligation_handler = None\<rparr>"

fun authorize_for ::
    "capability_action_kind \<Rightarrow> 'w capability_host \<Rightarrow> timestamp \<Rightarrow> execution_context
     \<Rightarrow> capability_descriptor \<Rightarrow> resource_estimate \<Rightarrow> trust_decision \<Rightarrow> 'w \<Rightarrow> decision \<times> 'w" where
  "authorize_for DispatchAction h = ta_dispatch (h_authorizer h)"
| "authorize_for SpawnAction h = ta_spawn (h_authorizer h)"

text \<open>\<open>fail_run_if_configured(\<dots>); return Err(error)\<close>\<close>

definition fail_run_with ::
    "'w run_state_store option \<Rightarrow> resource_scope \<Rightarrow> invocation_id \<Rightarrow> string
     \<Rightarrow> capability_invocation_error \<Rightarrow> ('w, capability_invocation_error, 'a) operation" where
  "fail_run_with run_state scope inv_id error_kind e w =
     (Inl e, fail_run_if_configured run_state scope inv_id error_kind w)"

subsection \<open>Obligations\<close>

fun obligation_error_to_invocation ::
    "capability_id \<Rightarrow> obligation_error \<Rightarrow> capability_invocation_error" where
  "obligation_error_to_invocation capability (ObligationsUnsupported obs) =
     UnsupportedObligations capability obs"
| "obligation_error_to_invocation capability (ObligationFailedWith kind) =
     ObligationFailed capability kind"

definition obligation_invocation_error_kind :: "capability_invocation_error \<Rightarrow> string" where
  "obligation_invocation_error_kind e =
     (case e of
        UnsupportedObligations _ _ \<Rightarrow> ''UnsupportedObligations''
      | ObligationFailed _ _ \<Rightarrow> ''ObligationFailed''
      | _ \<Rightarrow> ''Obligation'')"

definition prepare_obligations ::
    "'w capability_host \<Rightarrow> obligation_phase \<Rightarrow> execution_context \<Rightarrow> capability_id
     \<Rightarrow> resource_estimate \<Rightarrow> obligation list
     \<Rightarrow> ('w, capability_invocation_error, obligation_outcome) operation" where
  "prepare_obligations h phase context capability estimate obligations w =
     (if obligations = [] then return_op default_outcome w
      else if phase = SpawnPhase \<and> post_dispatch_obligations obligations \<noteq> [] then
        fail_op (UnsupportedObligations capability (post_dispatch_obligations obligations)) w
      else (case h_obligation_handler h of
          None \<Rightarrow> fail_op (UnsupportedObligations capability obligations) w
        | Some handler \<Rightarrow>
            map_err_op (obligation_error_to_invocation capability)
              (oh_prepare handler \<lparr>oq_phase = phase, oq_context = context,
                 oq_capability_id = capability, oq_estimate = estimate,
                 oq_obligations = obligations\<rparr>) w))"

definition complete_dispatch_obligations ::
    "'w capability_host \<Rightarrow> obligation_phase \<Rightarrow> execution_context \<Rightarrow> capability_id
     \<Rightarrow> resource_estimate \<Rightarrow> obligation list \<Rightarrow> dispatch_result
     \<Rightarrow> ('w, capability_invocation_error, dispatch_result) operation" where
  "complete_dispatch_obligations h phase context capability estimate obligations dispatch w =
     (if obligations = [] then return_op dispatch w
      else (case h_obligation_handler h of
          None \<Rightarrow>
            (let unsupported = post_dispatch_obligations obligations
             in if unsupported = [] then return_op dispatch w
                else fail_op (UnsupportedObligations capability unsupported) w)
        | Some handler \<Rightarrow>
            map_err_op (obligation_error_to_invocation capability)
              (oh_complete_dispatch handler \<lparr>oq_phase = phase, oq_context = context,
                 oq_capability_id = capability, oq_estimate = estimate,
                 oq_obligations = obligations, oq_dispatch = dispatch\<rparr>) w))"

definition abort_obligations ::
    "'w capability_host \<Rightarrow> obligation_phase \<Rightarrow> execution_context \<Rightarrow> capability_id
     \<Rightarrow> resource_estimate \<Rightarrow> obligation list \<Rightarrow> obligation_outcome \<Rightarrow> 'w \<Rightarrow> 'w" where
  "abort_obligations h phase context capability estimate obligations outcome w =
     (if obligations = [] then w
      else (case h_obligation_handler h of
          None \<Rightarrow> w
        | Some handler \<Rightarrow> snd (oh_abort handler \<lparr>oq_phase = phase, oq_context = context,
             oq_capability_id = capability, oq_estimate = estimate,
             oq_obligations = obligations, oq_outcome = outcome\<rparr> w)))"

subsection \<open>Invoking and spawning\<close>

text \<open>The approval branch; it never returns \<open>Ok\<close>.\<close>

definition block_on_approval ::
    "'w capability_host \<Rightarrow> resource_scope \<Rightarrow> invocation_id \<Rightarrow> capability_id \<Rightarrow> approval_request
     \<Rightarrow> ('w, capability_invocation_error, 'a) operation" where
  "block_on_approval h scope inv_id capability approval w =
     (case (h_run_state h, h_approval_requests h) of
        (Some runs, Some approvals) \<Rightarrow>
          (case ars_save_pending approvals scope approval w of
             (Inl e, w) \<Rightarrow>
               fail_run_with (Some runs) scope inv_id ''ApprovalStore'' (RunStateFailed e) w
           | (Inr _, w) \<Rightarrow>
             (case rss_block_approval runs scope inv_id approval w of
                (Inl e, w) \<Rightarrow>
                  ignoring (ars_discard_pending approvals scope (ar_id approval))
                    (fail_run_with (Some runs) scope inv_id ''ApprovalBlock'' (RunStateFailed e)) w
              | (Inr _, w) \<Rightarrow> fail_op (AuthorizationRequiresApproval capability) w))
      | (Some runs, None) \<Rightarrow>
          fail_run_with (Some runs) scope inv_id ''ApprovalStoreMissing''
            (ApprovalStoreMissing capability ''approval_requests'') w
      | (None, Some _) \<Rightarrow> fail_op (ApprovalStoreMissing capability ''run_state'') w
      | (None, None) \<Rightarrow>
          fail_op (ApprovalStoreMissing capability ''run_state and approval_requests'') w)"

definition request_approval ::
    "'w capability_host \<Rightarrow> capability_action_kind \<Rightarrow> 'r invocation_request_scheme
     \<Rightarrow> invocation_fingerprint \<Rightarrow> approval_request
     \<Rightarrow> ('w, capability_invocation_error, 'a) operation" where
  "request_approval h kind r fingerprint approval w =
     (let context = iq_context r; scope = ec_resource_scope context;
          inv_id = ec_invocation_id context; capability = iq_capability_id r
      in case validate_approval_request_matches_invocation approval context capability
                (iq_estimate r) kind of
          Inl e \<Rightarrow> fail_run_with (h_run_state h) scope inv_id ''ApprovalRequestMismatch'' e w
        | Inr _ \<Rightarrow>
          (case ar_invocation_fingerprint approval of
             Some existing \<Rightarrow>
               if existing \<noteq> fingerprint then
                 fail_run_with (h_run_state h) scope inv_id ''InvocationFingerprintMismatch''
                   (ApprovalFingerprintMismatch capability) w
               else block_on_approval h scope inv_id capability approval w
           | None \<Rightarrow> block_on_approval h scope inv_id capability
                (set_fingerprint approval fingerprint) w))"

definition start_run ::
    "'w capability_host \<Rightarrow> 'r invocation_request_scheme
     \<Rightarrow> ('w, capability_invocation_error, unit) operation" where
  "start_run h r =
     (case h_run_state h of
        None \<Rightarrow> return_op ()
      | Some runs \<Rightarrow> bind_op (map_err_op RunStateFailed
            (rss_start runs \<lparr>rt_invocation_id = ec_invocation_id (iq_context r),
               rt_capability_id = iq_capability_id r,
               rt_scope = ec_resource_scope (iq_context r)\<rparr>))
          (\<lambda>_. return_op ()))"

fun phase_for :: "capability_action_kind \<Rightarrow> obligation_phase" where
  "phase_for DispatchAction = InvokePhase"
| "phase_for SpawnAction = SpawnPhase"

text \<open>The authorizer's decision, once the run is started and the capability is known.\<close>

definition decide_invocation ::
    "call_environment \<Rightarrow> 'w capability_host \<Rightarrow> capability_action_kind
     \<Rightarrow> 'r invocation_request_scheme \<Rightarrow> invocation_fingerprint \<Rightarrow> capability_descriptor
     \<Rightarrow> ('w, capability_invocation_error,
          capability_descriptor \<times> obligation list \<times> obligation_outcome) operation" where
  "decide_invocation env h kind r fingerprint descriptor w =
     (let context = iq_context r; scope = ec_resource_scope context;
          inv_id = ec_invocation_id context; capability = iq_capability_id r
      in case authorize_for kind h (ce_authorize_at env) context descriptor (iq_estimate r)
                (iq_trust_decision r) w of
          (Allow obligations, w) \<Rightarrow>
            (case prepare_obligations h (phase_for kind) context capability (iq_estimate r)
                    obligations w of
               (Inr outcome, w) \<Rightarrow> return_op (descriptor, obligations, outcome) w
             | (Inl e, w) \<Rightarrow>
                 fail_run_with (h_run_state h) scope inv_id
                   (obligation_invocation_error_kind e) e w)
        | (Deny reason, w) \<Rightarrow>
            fail_run_with (h_run_state h) scope inv_id ''AuthorizationDenied''
              (AuthorizationDenied capability reason) w
        | (RequireApproval approval, w) \<Rightarrow> request_approval h kind r fingerprint approval w)"

text \<open>Everything \<open>invoke_json\<close> and \<open>spawn_json\<close> do before their side effect.\<close>

definition invocation_gate ::
    "call_environment \<Rightarrow> 'w capability_host \<Rightarrow> capability_action_kind
     \<Rightarrow> 'r invocation_request_scheme
     \<Rightarrow> ('w, capability_invocation_error,
          capability_descriptor \<times> obligation list \<times> obligation_outcome) operation" where
  "invocation_gate env h kind r =
     (let context = iq_context r; scope = ec_resource_scope context;
          inv_id = ec_invocation_id context; capability = iq_capability_id r
      in if is_err (validate_context context) then
           fail_op (AuthorizationDenied capability InternalInvariantViolation)
         else case invocation_fingerprint_for_kind env kind scope capability (iq_estimate r)
                     (iq_input r) of
             Inl source \<Rightarrow> fail_op (InvocationFingerprintFailed capability source)
           | Inr fingerprint \<Rightarrow> bind_op (start_run h r) (\<lambda>_.
               case h_registry h capability of
                 None \<Rightarrow> fail_run_with (h_run_state h) scope inv_id ''UnknownCapability''
                   (UnknownCapability capability)
               | Some descriptor \<Rightarrow> decide_invocation env h kind r fingerprint descriptor))"

text \<open>
  The dispatch with its post-dispatch obligations. An error comes with the kind that the run
  is failed with.
\<close>

definition dispatch_stage ::
    "'w capability_host \<Rightarrow> obligation_phase \<Rightarrow> execution_context \<Rightarrow> 'r invocation_request_scheme
     \<Rightarrow> obligation list \<Rightarrow> obligation_outcome
     \<Rightarrow> ('w, string \<times> capability_invocation_error, dispatch_result) operation" where
  "dispatch_stage h phase context r obligations outcome w =
     (let capability = iq_capability_id r; estimate = iq_estimate r
      in case h_dispatcher h \<lparr>dq_capability_id = capability,
                dq_scope = ec_resource_scope (iq_context r), dq_estimate = estimate,
                dq_mounts = oo_mounts outcome,
                dq_resource_reservation = oo_resource_reservation outcome,
                dq_input = iq_input r\<rparr> w of
          (Inl e, w) \<Rightarrow> (Inl (''Dispatch'', invocation_error_of_dispatch e),
            abort_obligations h phase context capability estimate obligations outcome w)
        | (Inr dispatch, w) \<Rightarrow>
          (case complete_dispatch_obligations h phase context capability estimate obligations
                  dispatch w of
             (Inl e, w) \<Rightarrow> (Inl (obligation_invocation_error_kind e, e),
               abort_obligations h phase context capability estimate obligations default_outcome w)
           | (Inr dispatch, w) \<Rightarrow> (Inr dispatch, w)))"

definition complete_run_if_configured ::
    "'w run_state_store option \<Rightarrow> resource_scope \<Rightarrow> invocation_id \<Rightarrow> 'w \<Rightarrow> 'w" where
  "complete_run_if_configured run_state scope inv_id w =
     (case run_state of
        Some runs \<Rightarrow> complete_run_after_side_effect runs scope inv_id w
      | None \<Rightarrow> w)"

definition invoke_json ::
    "call_environment \<Rightarrow> 'w capability_host \<Rightarrow> 'r invocation_request_scheme
     \<Rightarrow> ('w, capability_invocation_error, dispatch_result) operation" where
  "invoke_json env h r =
     (let scope = ec_resource_scope (iq_context r); inv_id = ec_invocation_id (iq_context r)
      in bind_op (invocation_gate env h DispatchAction r) (\<lambda>(descriptor, obligations, outcome) w.
           case dispatch_stage h InvokePhase (iq_context r) r obligations outcome w of
             (Inl (kind, e), w) \<Rightarrow> fail_run_with (h_run_state h) scope inv_id kind e w
           | (Inr dispatch, w) \<Rightarrow>
               (Inr dispatch, complete_run_if_configured (h_run_state h) scope inv_id w)))"

text \<open>The process start; an error leaves the run to the caller.\<close>

definition spawn_stage ::
    "call_environment \<Rightarrow> 'w capability_host \<Rightarrow> 'w process_manager \<Rightarrow> execution_context
     \<Rightarrow> 'r invocation_request_scheme \<Rightarrow> capability_descriptor \<Rightarrow> obligation list
     \<Rightarrow> obligation_outcome \<Rightarrow> ('w, capability_invocation_error, process_record) operation" where
  "spawn_stage env h manager context r descriptor obligations outcome w =
     (case manager \<lparr>ps_process_id = ce_process_id env,
             ps_parent_process_id = ec_process_id context,
             ps_invocation_id = ec_invocation_id (iq_context r),
             ps_scope = ec_resource_scope (iq_context r),
             ps_extension_id = cd_provider descriptor,
             ps_capability_id = iq_capability_id r,
             ps_runtime = cd_runtime descriptor,
             ps_grants = ec_grants context,
             ps_mounts = (case oo_mounts outcome of Some m \<Rightarrow> m | None \<Rightarrow> ec_mounts context),
             ps_estimated_resources = iq_estimate r,
             ps_resource_reservation_id =
               map_option rv_id (oo_resource_reservation outcome),
             ps_input = iq_input r\<rparr> w of
        (Inl e, w) \<Rightarrow> (Inl (ProcessFailed e),
          abort_obligations h SpawnPhase context (iq_capability_id r) (iq_estimate r)
            obligations outcome w)
      | (Inr process, w) \<Rightarrow> (Inr process, w))"

definition spawn_json ::
    "call_environment \<Rightarrow> 'w capability_host \<Rightarrow> 'r invocation_request_scheme
     \<Rightarrow> ('w, capability_invocation_error, process_record) operation" where
  "spawn_json env h r =
     (case h_process_manager h of
        None \<Rightarrow> fail_op (ProcessManagerMissing (iq_capability_id r))
      | Some manager \<Rightarrow>
        (let scope = ec_resource_scope (iq_context r); inv_id = ec_invocation_id (iq_context r)
         in bind_op (invocation_gate env h SpawnAction r) (\<lambda>(descriptor, obligations, outcome) w.
              case spawn_stage env h manager (iq_context r) r descriptor obligations outcome w of
                (Inl e, w) \<Rightarrow> fail_run_with (h_run_state h) scope inv_id ''ProcessSpawn'' e w
              | (Inr process, w) \<Rightarrow>
                  (Inr process, complete_run_if_configured (h_run_state h) scope inv_id w))))"

subsection \<open>Resuming\<close>

text \<open>The run must be blocked on this approval of this capability.\<close>

definition check_blocked_run ::
    "'w run_state_store \<Rightarrow> resume_request \<Rightarrow> ('w, capability_invocation_error, unit) operation" where
  "check_blocked_run runs r w =
     (let scope = ec_resource_scope (iq_context r); inv_id = ec_invocation_id (iq_context r);
          capability = iq_capability_id r
      in case rss_get runs scope inv_id w of
          (Inl e, w) \<Rightarrow> fail_op (RunStateFailed e) w
        | (Inr None, w) \<Rightarrow> fail_op (RunStateFailed (UnknownInvocation inv_id)) w
        | (Inr (Some rec), w) \<Rightarrow>
          if rn_status rec \<noteq> BlockedApproval then
            fail_op (ResumeNotBlocked capability (rn_status rec)) w
          else (case resume_context_mismatch_kind (rn_capability_id rec \<noteq> capability)
                       (rn_approval_request_id rec \<noteq> Some (iq_approval_request_id r)) of
              Some kind \<Rightarrow> fail_run_with (Some runs) scope inv_id ''ResumeContextMismatch''
                (ResumeContextMismatch capability kind) w
            | None \<Rightarrow> return_op () w))"

text \<open>The approval must be granted, and granted for this very invocation.\<close>

definition check_approval ::
    "'w run_state_store \<Rightarrow> 'w approval_request_store \<Rightarrow> capability_action_kind
     \<Rightarrow> invocation_fingerprint \<Rightarrow> resume_request
     \<Rightarrow> ('w, capability_invocation_error, unit) operation" where
  "check_approval runs approvals kind fingerprint r w =
     (let context = iq_context r; scope = ec_resource_scope context;
          inv_id = ec_invocation_id context; capability = iq_capability_id r
      in case ars_get approvals scope (iq_approval_request_id r) w of
          (Inl e, w) \<Rightarrow> fail_op (RunStateFailed e) w
        | (Inr None, w) \<Rightarrow>
            fail_op (RunStateFailed (UnknownApprovalRequest (iq_approval_request_id r))) w
        | (Inr (Some rec), w) \<Rightarrow>
          if ap_status rec \<noteq> Approved then
            (if ap_status rec \<noteq> Pending then
               fail_run_with (Some runs) scope inv_id
                 (approval_not_approved_error_kind (ap_status rec))
                 (ApprovalNotApproved capability (ap_status rec)) w
             else fail_op (ApprovalNotApproved capability (ap_status rec)) w)
          else (case validate_approval_request_matches_invocation (ap_request rec) context
                       capability (iq_estimate r) kind of
              Inl e \<Rightarrow> fail_run_with (Some runs) scope inv_id ''ApprovalRequestMismatch'' e w
            | Inr _ \<Rightarrow>
                if ar_invocation_fingerprint (ap_request rec) \<noteq> Some fingerprint then
                  fail_run_with (Some runs) scope inv_id ''InvocationFingerprintMismatch''
                    (ApprovalFingerprintMismatch capability) w
                else return_op () w))"

definition add_grant :: "execution_context \<Rightarrow> capability_grant \<Rightarrow> execution_context" where
  "add_grant c g = c\<lparr>ec_grants := \<lparr>cs_grants = cs_grants (ec_grants c) @ [g]\<rparr>\<rparr>"

definition authorize_resume ::
    "call_environment \<Rightarrow> 'w capability_host \<Rightarrow> 'w run_state_store \<Rightarrow> capability_action_kind
     \<Rightarrow> resume_request \<Rightarrow> capability_descriptor \<Rightarrow> execution_context
     \<Rightarrow> ('w, capability_invocation_error, obligation list) operation" where
  "authorize_resume env h runs kind r descriptor authorized_context w =
     (let scope = ec_resource_scope (iq_context r); inv_id = ec_invocation_id (iq_context r);
          capability = iq_capability_id r
      in case authorize_for kind h (ce_authorize_at env) authorized_context descriptor
                (iq_estimate r) (iq_trust_decision r) w of
          (Allow obligations, w) \<Rightarrow> return_op obligations w
        | (Deny reason, w) \<Rightarrow> fail_run_with (Some runs) scope inv_id ''AuthorizationDenied''
            (AuthorizationDenied capability reason) w
        | (RequireApproval _, w) \<Rightarrow>
            fail_run_with (Some runs) scope inv_id ''AuthorizationRequiresApproval''
              (AuthorizationRequiresApproval capability) w)"

definition claim_lease ::
    "call_environment \<Rightarrow> 'w run_state_store \<Rightarrow> 'w lease_store \<Rightarrow> resume_request
     \<Rightarrow> invocation_fingerprint \<Rightarrow> capability_lease
     \<Rightarrow> ('w, capability_invocation_error, capability_lease) operation" where
  "claim_lease env runs leases r fingerprint lease w =
     (let scope = ec_resource_scope (iq_context r); inv_id = ec_invocation_id (iq_context r)
      in case cls_claim leases (ce_claim_at env) scope (lease_id lease) fingerprint w of
          (Inr claimed, w) \<Rightarrow> return_op claimed w
        | (Inl e, w) \<Rightarrow>
          if claim_error_may_be_concurrent_resume e then fail_op (LeaseFailed e) w
          else fail_run_with (Some runs) scope inv_id ''ApprovalLeaseClaim'' (LeaseFailed e) w)"

text \<open>
  After the claim every failure fails the run and revokes the claimed lease; a failed
  revocation is only logged.
\<close>

definition fail_and_revoke ::
    "'w run_state_store \<Rightarrow> 'w lease_store \<Rightarrow> resume_request \<Rightarrow> capability_lease \<Rightarrow> string
     \<Rightarrow> capability_invocation_error \<Rightarrow> ('w, capability_invocation_error, 'a) operation" where
  "fail_and_revoke runs leases r claimed error_kind e w =
     (let scope = ec_resource_scope (iq_context r); inv_id = ec_invocation_id (iq_context r)
      in ignoring (cls_revoke leases scope (lease_id claimed)) (fail_op e)
           (fail_run_if_configured (Some runs) scope inv_id error_kind w))"

fun resume_phase_for :: "capability_action_kind \<Rightarrow> obligation_phase" where
  "resume_phase_for DispatchAction = ResumePhase"
| "resume_phase_for SpawnAction = SpawnPhase"

record 'w resumption =
  rp_runs :: "'w run_state_store"
  rp_leases :: "'w lease_store"
  rp_context :: execution_context
  rp_descriptor :: capability_descriptor
  rp_obligations :: "obligation list"
  rp_claimed_lease :: capability_lease
  rp_outcome :: obligation_outcome

text \<open>The stages up to the prepared obligations.\<close>

definition claim_and_prepare ::
    "call_environment \<Rightarrow> 'w capability_host \<Rightarrow> 'w run_state_store \<Rightarrow> 'w lease_store
     \<Rightarrow> capability_action_kind \<Rightarrow> resume_request \<Rightarrow> invocation_fingerprint
     \<Rightarrow> capability_descriptor \<Rightarrow> capability_lease
     \<Rightarrow> ('w, capability_invocation_error, 'w resumption) operation" where
  "claim_and_prepare env h runs leases kind r fingerprint descriptor lease =
     (let context = add_grant (iq_context r) (ls_grant lease)
      in bind_op (authorize_resume env h runs kind r descriptor context) (\<lambda>obligations.
         bind_op (claim_lease env runs leases r fingerprint lease) (\<lambda>claimed w.
           case prepare_obligations h (resume_phase_for kind) context (iq_capability_id r)
                  (iq_estimate r) obligations w of
             (Inl e, w) \<Rightarrow>
               fail_and_revoke runs leases r claimed (obligation_invocation_error_kind e) e w
           | (Inr outcome, w) \<Rightarrow>
               return_op \<lparr>rp_runs = runs, rp_leases = leases, rp_context = context,
                 rp_descriptor = descriptor, rp_obligations = obligations,
                 rp_claimed_lease = claimed, rp_outcome = outcome\<rparr> w)))"

definition resume_checked ::
    "call_environment \<Rightarrow> 'w capability_host \<Rightarrow> 'w run_state_store \<Rightarrow> 'w approval_request_store
     \<Rightarrow> 'w lease_store \<Rightarrow> capability_action_kind \<Rightarrow> resume_request \<Rightarrow> invocation_fingerprint
     \<Rightarrow> ('w, capability_invocation_error, 'w resumption) operation" where
  "resume_checked env h runs approvals leases kind r fingerprint =
     (let context = iq_context r; scope = ec_resource_scope context;
          inv_id = ec_invocation_id context; capability = iq_capability_id r
      in bind_op (check_blocked_run runs r) (\<lambda>_.
         bind_op (check_approval runs approvals kind fingerprint r) (\<lambda>_.
           case h_registry h capability of
             None \<Rightarrow> fail_run_with (Some runs) scope inv_id ''UnknownCapability''
               (UnknownCapability capability)
           | Some descriptor \<Rightarrow> (\<lambda>w.
               case matching_approval_lease leases (ce_leases_at env) context capability
                      fingerprint w of
                 (None, w) \<Rightarrow> fail_run_with (Some runs) scope inv_id ''ApprovalLeaseMissing''
                   (ApprovalLeaseMissing capability) w
               | (Some lease, w) \<Rightarrow>
                   claim_and_prepare env h runs leases kind r fingerprint descriptor lease w))))"

definition resume_gate ::
    "call_environment \<Rightarrow> 'w capability_host \<Rightarrow> capability_action_kind \<Rightarrow> resume_request
     \<Rightarrow> ('w, capability_invocation_error, 'w resumption) operation" where
  "resume_gate env h kind r =
     (let capability = iq_capability_id r
      in case h_run_state h of
          None \<Rightarrow> fail_op (ResumeStoreMissing capability ''run_state'')
        | Some runs \<Rightarrow>
          (case h_approval_requests h of
            None \<Rightarrow> fail_op (ResumeStoreMissing capability ''approval_requests'')
          | Some approvals \<Rightarrow>
            (case h_capability_leases h of
              None \<Rightarrow> fail_op (ResumeStoreMissing capability ''capability_leases'')
            | Some leases \<Rightarrow>
              if is_err (validate_context (iq_context r)) then
                fail_op (AuthorizationDenied capability InternalInvariantViolation)
              else (case invocation_fingerprint_for_kind env kind
                           (ec_resource_scope (iq_context r)) capability (iq_estimate r)
                           (iq_input r) of
                  Inl source \<Rightarrow> fail_op (InvocationFingerprintFailed capability source)
                | Inr fingerprint \<Rightarrow>
                    resume_checked env h runs approvals leases kind r fingerprint))))"

text \<open>Success consumes the lease (a failure is only logged) and completes the run.\<close>

definition finish_resume ::
    "call_environment \<Rightarrow> resume_request \<Rightarrow> 'w resumption \<Rightarrow> 'w \<Rightarrow> 'w" where
  "finish_resume env r p w =
     (let scope = ec_resource_scope (iq_context r)
      in ignoring (cls_consume (rp_leases p) (ce_consume_at env) scope
             (lease_id (rp_claimed_lease p)))
           (complete_run_after_side_effect (rp_runs p) scope (ec_invocation_id (iq_context r))) w)"

definition resume_json ::
    "call_environment \<Rightarrow> 'w capability_host \<Rightarrow> resume_request
     \<Rightarrow> ('w, capability_invocation_error, dispatch_result) operation" where
  "resume_json env h r = bind_op (resume_gate env h DispatchAction r) (\<lambda>p w.
     case dispatch_stage h ResumePhase (rp_context p) r (rp_obligations p) (rp_outcome p) w of
       (Inl (kind, e), w) \<Rightarrow>
         fail_and_revoke (rp_runs p) (rp_leases p) r (rp_claimed_lease p) kind e w
     | (Inr dispatch, w) \<Rightarrow> (Inr dispatch, finish_resume env r p w))"

definition resume_spawn_json ::
    "call_environment \<Rightarrow> 'w capability_host \<Rightarrow> resume_request
     \<Rightarrow> ('w, capability_invocation_error, process_record) operation" where
  "resume_spawn_json env h r =
     (case h_process_manager h of
        None \<Rightarrow> fail_op (ProcessManagerMissing (iq_capability_id r))
      | Some manager \<Rightarrow> bind_op (resume_gate env h SpawnAction r) (\<lambda>p w.
          case spawn_stage env h manager (rp_context p) r (rp_descriptor p) (rp_obligations p)
                 (rp_outcome p) w of
            (Inl e, w) \<Rightarrow>
              fail_and_revoke (rp_runs p) (rp_leases p) r (rp_claimed_lease p)
                ''ProcessSpawn'' e w
          | (Inr process, w) \<Rightarrow> (Inr process, finish_resume env r p w)))"

end
