(* ===== verification/HostSafety.thy ===== *)
theory HostSafety
  imports CapabilityHost Traces
begin

section \<open>Runs and their side effects\<close>

text \<open>
  What the capability host guarantees of its run records: a run has at most one side effect (a
  dispatch or a process start), and the record says how it ended. The contract of the services
  is the locale \<open>guarded_host\<close>: the run store keeps the status \<open>st\<close> of each run, the other
  services leave the run store alone, and \<open>eff\<close> counts the side effects of each run.
\<close>

definition request_key :: "'r invocation_request_scheme \<Rightarrow> run_state_key" where
  "request_key r = run_state_key_new (ec_resource_scope (iq_context r)) (ec_invocation_id (iq_context r))"

definition effect_key :: "resource_scope \<Rightarrow> run_state_key" where
  "effect_key scope = run_state_key_new scope (rs_invocation_id scope)"

lemma effect_key_request:
  "context_valid (iq_context r) \<Longrightarrow> effect_key (ec_resource_scope (iq_context r)) = request_key r"
  by (simp add: effect_key_def request_key_def context_valid_iff context_scope_def)

definition run_closed :: "run_status option \<Rightarrow> bool" where
  "run_closed s \<longleftrightarrow> s = Some Completed \<or> s = Some Failed"

text \<open>How an invocation leaves its run.\<close>

fun settled_error :: "capability_invocation_error \<Rightarrow> run_status" where
  "settled_error (AuthorizationRequiresApproval _) = BlockedApproval"
| "settled_error _ = Failed"

fun settled :: "(capability_invocation_error, 'a) result \<Rightarrow> run_status" where
  "settled (Inr _) = Completed"
| "settled (Inl e) = settled_error e"

lemma settled_obligation [simp]:
  "settled_error (obligation_error_to_invocation cap e) = Failed"
  by (cases e) simp_all

text \<open>An invocation is refused before its run exists.\<close>

definition start_request :: "'r invocation_request_scheme \<Rightarrow> run_start" where
  "start_request q = \<lparr>rt_invocation_id = ec_invocation_id (iq_context q),
     rt_capability_id = iq_capability_id q, rt_scope = ec_resource_scope (iq_context q)\<rparr>"

definition request_fingerprint ::
    "call_environment \<Rightarrow> capability_action_kind \<Rightarrow> 'r invocation_request_scheme
     \<Rightarrow> (host_api_error, invocation_fingerprint) result" where
  "request_fingerprint env kind q = invocation_fingerprint_for_kind env kind
     (ec_resource_scope (iq_context q)) (iq_capability_id q) (iq_estimate q) (iq_input q)"

definition run_refused ::
    "call_environment \<Rightarrow> 'w run_state_store \<Rightarrow> capability_action_kind
     \<Rightarrow> 'r invocation_request_scheme \<Rightarrow> 'w \<Rightarrow> bool" where
  "run_refused env runs kind q w \<longleftrightarrow> \<not> context_valid (iq_context q)
     \<or> is_err (request_fingerprint env kind q) \<or> is_err (fst (rss_start runs (start_request q) w))"

locale guarded_host =
  fixes h :: "'w capability_host"
    and runs :: "'w run_state_store"
    and st :: "'w \<Rightarrow> run_state_key \<Rightarrow> run_status option"
    and eff :: "'w \<Rightarrow> run_state_key \<Rightarrow> nat"
  assumes run_store: "h_run_state h = Some runs"
    and start: "rss_start runs t w = (r, w') \<Longrightarrow> eff w' = eff w \<and>
      (case r of
         Inr _ \<Rightarrow> st w (run_state_key_new (rt_scope t) (rt_invocation_id t)) = None
           \<and> st w' = (st w)(run_state_key_new (rt_scope t) (rt_invocation_id t) \<mapsto> Running)
       | Inl _ \<Rightarrow> st w' = st w)"
    and block: "rss_block_approval runs s i a w = (r', w') \<Longrightarrow> eff w' = eff w \<and>
      (case r' of
         Inr _ \<Rightarrow> st w' = (st w)(run_state_key_new s i \<mapsto> BlockedApproval)
       | Inl _ \<Rightarrow> st w' = st w)"
    and complete: "rss_complete runs s i w = (r', w') \<Longrightarrow> eff w' = eff w \<and>
      st w' = (if st w (run_state_key_new s i) = None then st w
               else (st w)(run_state_key_new s i \<mapsto> Completed))"
    and fail: "rss_fail runs s i e w = (r', w') \<Longrightarrow> eff w' = eff w \<and>
      st w' = (if st w (run_state_key_new s i) = None then st w
               else (st w)(run_state_key_new s i \<mapsto> Failed))"
    and get: "rss_get runs s i w = (g, w') \<Longrightarrow> eff w' = eff w \<and> st w' = st w \<and>
      (\<forall>rec. g = Inr (Some rec) \<longrightarrow> st w (run_state_key_new s i) = Some (rn_status rec))"
    and approvals: "h_approval_requests h = Some approvals \<Longrightarrow>
      approval_step approvals c w = (ra, w') \<Longrightarrow> eff w' = eff w \<and> st w' = st w"
    and leases: "h_capability_leases h = Some leases \<Longrightarrow>
      lease_step leases d w = (rl, w') \<Longrightarrow> eff w' = eff w \<and> st w' = st w"
    and authorizer: "authorize_for kind h now ctx desc est tr w = (decision, w') \<Longrightarrow>
      eff w' = eff w \<and> st w' = st w"
    and prepare: "h_obligation_handler h = Some handler \<Longrightarrow>
      oh_prepare handler oq w = (ro, w') \<Longrightarrow> eff w' = eff w \<and> st w' = st w"
    and abort: "h_obligation_handler h = Some handler \<Longrightarrow>
      oh_abort handler oa w = (rb, w') \<Longrightarrow> eff w' = eff w \<and> st w' = st w"
    and complete_dispatch: "h_obligation_handler h = Some handler \<Longrightarrow>
      oh_complete_dispatch handler oc w = (rd, w') \<Longrightarrow> eff w' = eff w \<and> st w' = st w"
    and dispatcher: "h_dispatcher h q w = (rd', w') \<Longrightarrow> st w' = st w \<and>
      eff w' = (eff w)(effect_key (dq_scope q) := Suc (eff w (effect_key (dq_scope q))))"
    and manager: "h_process_manager h = Some spawn \<Longrightarrow> spawn p w = (rp, w') \<Longrightarrow> st w' = st w \<and>
      eff w' = (eff w)(effect_key (ps_scope p) := Suc (eff w (effect_key (ps_scope p))))"
begin

lemma fail_run_Some:
  "w' = fail_run_if_configured (Some runs) s i e w \<Longrightarrow> eff w' = eff w \<and>
     st w' = (if st w (run_state_key_new s i) = None then st w
              else (st w)(run_state_key_new s i \<mapsto> Failed))"
  using fail [of s i e w] by (cases "rss_fail runs s i e w")
    (auto simp: fail_run_if_configured_def fail_run_def bind_op_def return_op_def split: sum.splits)

lemma fail_run_simps:
  "eff (fail_run_if_configured (Some runs) s i e w) = eff w"
  "st (fail_run_if_configured (Some runs) s i e w) =
     (if st w (run_state_key_new s i) = None then st w
      else (st w)(run_state_key_new s i \<mapsto> Failed))"
  using fail_run_Some [OF refl, of s i e w] by simp_all

lemma fail_run_with:
  "fail_run_with (Some runs) s i kind e w = (r, w') \<Longrightarrow> r = Inl e \<and> eff w' = eff w \<and>
     st w' = (if st w (run_state_key_new s i) = None then st w
              else (st w)(run_state_key_new s i \<mapsto> Failed))"
  using fail_run_Some [OF refl, of s i kind w] by (auto simp: fail_run_with_def)

lemma complete_run:
  "w' = complete_run_after_side_effect runs s i w \<Longrightarrow> eff w' = eff w \<and>
     st w' = (if st w (run_state_key_new s i) = None then st w
              else (st w)(run_state_key_new s i \<mapsto> Completed))"
  using complete [of s i w] by (cases "rss_complete runs s i w")
    (auto simp: complete_run_after_side_effect_def)

lemma prepare_obligations:
  "prepare_obligations h phase c cap est obs w = (r, w') \<Longrightarrow> eff w' = eff w \<and> st w' = st w"
  by (auto simp: prepare_obligations_def op_defs apfst_def map_prod_def
      split: if_splits option.splits prod.splits dest: prepare)

lemma complete_dispatch_obligations:
  "complete_dispatch_obligations h phase c cap est obs d w = (r, w') \<Longrightarrow>
     eff w' = eff w \<and> st w' = st w"
  by (auto simp: complete_dispatch_obligations_def op_defs apfst_def map_prod_def Let_def
      split: if_splits option.splits prod.splits dest: complete_dispatch)

lemma abort_obligations:
  "w' = abort_obligations h phase c cap est obs out w \<Longrightarrow> eff w' = eff w \<and> st w' = st w"
  by (auto simp: abort_obligations_def split: option.splits dest: abort [OF _ surjective_pairing])

lemma prepare_error: "prepare_obligations h phase c cap est obs w = (Inl e, w') \<Longrightarrow> settled_error e = Failed"
  by (auto simp: prepare_obligations_def op_defs apfst_def map_prod_def map_err_def
      split: if_splits option.splits prod.splits sum.splits)

lemma save_pending:
  "h_approval_requests h = Some a \<Longrightarrow> ars_save_pending a s q w = (r, w') \<Longrightarrow>
     eff w' = eff w \<and> st w' = st w"
  using approvals [of a "SavePending s q" w] by simp

lemma discard_pending:
  "h_approval_requests h = Some a \<Longrightarrow>
     eff (snd (ars_discard_pending a s q w)) = eff w \<and> st (snd (ars_discard_pending a s q w)) = st w"
  using approvals [of a "DiscardPending s q" w] by (cases "ars_discard_pending a s q w") simp

lemma get_approval:
  "h_approval_requests h = Some a \<Longrightarrow> ars_get a s q w = (r, w') \<Longrightarrow> eff w' = eff w \<and> st w' = st w"
  using approvals [of a "GetApproval s q" w] by simp

lemma active_leases:
  "h_capability_leases h = Some l \<Longrightarrow> cls_active_leases_for_context l now c w = (r, w') \<Longrightarrow>
     eff w' = eff w \<and> st w' = st w"
  using leases [of l "ActiveLeases now c" w] by simp

lemma claim:
  "h_capability_leases h = Some l \<Longrightarrow> cls_claim l now s i fp w = (r, w') \<Longrightarrow>
     eff w' = eff w \<and> st w' = st w"
  using leases [of l "ClaimLease now s i fp" w] by simp

lemma revoke:
  "h_capability_leases h = Some l \<Longrightarrow>
     eff (snd (cls_revoke l s i w)) = eff w \<and> st (snd (cls_revoke l s i w)) = st w"
  using leases [of l "RevokeLease s i" w] by (cases "cls_revoke l s i w") simp

lemma consume:
  "h_capability_leases h = Some l \<Longrightarrow>
     eff (snd (cls_consume l now s i w)) = eff w \<and> st (snd (cls_consume l now s i w)) = st w"
  using leases [of l "ConsumeLease now s i" w] by (cases "cls_consume l now s i w") simp

lemma block_on_approval:
  assumes "block_on_approval h s i cap a w = (r, w')" "st w (run_state_key_new s i) \<noteq> None"
  shows "\<exists>e. r = Inl e \<and> eff w' = eff w \<and>
    st w' = (st w)(run_state_key_new s i \<mapsto> settled_error e)"
proof (cases "h_approval_requests h")
  case None
  then show ?thesis
    using assms by (auto simp: block_on_approval_def run_store dest!: fail_run_with)
next
  case (Some ap)
  obtain r1 w1 where save: "ars_save_pending ap s a w = (r1, w1)" by fastforce
  obtain r2 w2 where blk: "rss_block_approval runs s i a w1 = (r2, w2)" by fastforce
  have 1: "eff w1 = eff w" "st w1 = st w" using save_pending [OF Some save] by auto
  show ?thesis
  proof (cases r1)
    case (Inl e)
    then show ?thesis
      using assms Some save 1 by (auto simp: block_on_approval_def run_store dest!: fail_run_with)
  next
    case ok: (Inr y)
    show ?thesis
    proof (cases r2)
      case (Inl e)
      then show ?thesis
        using assms Some save ok blk block [OF blk] 1 discard_pending [OF Some, of s "ar_id a" w2]
        by (auto simp: block_on_approval_def run_store ignoring_def dest!: fail_run_with)
    next
      case (Inr z)
      then show ?thesis
        using assms Some save ok blk block [OF blk] 1
        by (auto simp: block_on_approval_def run_store fail_op_def)
    qed
  qed
qed

lemma request_approval:
  assumes "request_approval h kind q fp a w = (r, w')" "st w (request_key q) \<noteq> None"
  shows "\<exists>e. r = Inl e \<and> eff w' = eff w \<and>
    st w' = (st w)(request_key q \<mapsto> settled_error e)"
  using assms
  by (auto simp: request_approval_def Let_def request_key_def run_store
      validate_approval_request_matches_invocation_def
      split: if_splits option.splits dest!: fail_run_with dest: block_on_approval)

lemma decide_invocation:
  assumes "decide_invocation env h kind q fp desc w = (r, w')" "st w (request_key q) = Some Running"
  shows "eff w' = eff w \<and> (case r of
      Inr _ \<Rightarrow> st w' = st w
    | Inl e \<Rightarrow> st w' = (st w)(request_key q \<mapsto> settled_error e))"
proof -
  obtain d w1 where d: "authorize_for kind h (ce_authorize_at env) (iq_context q) desc
      (iq_estimate q) (iq_trust_decision q) w = (d, w1)" by fastforce
  have 1: "eff w1 = eff w" "st w1 = st w" using authorizer [OF d] by auto
  show ?thesis
  proof (cases d)
    case (Allow obs)
    obtain r2 w2 where p: "prepare_obligations h (phase_for kind) (iq_context q)
        (iq_capability_id q) (iq_estimate q) obs w1 = (r2, w2)" by fastforce
    have 2: "eff w2 = eff w" "st w2 = st w" using prepare_obligations [OF p] 1 by auto
    show ?thesis
    proof (cases r2)
      case (Inl e)
      then show ?thesis
        using assms d p Allow 2 prepare_error [OF p [unfolded Inl]]
        by (auto simp: decide_invocation_def run_store request_key_def Let_def dest!: fail_run_with)
    next
      case (Inr out)
      then show ?thesis
        using assms d p Allow 2 by (auto simp: decide_invocation_def return_op_def Let_def)
    qed
  next
    case (Deny reason)
    then show ?thesis
      using assms d 1
      by (auto simp: decide_invocation_def run_store request_key_def Let_def dest!: fail_run_with)
  next
    case (RequireApproval a)
    then show ?thesis
      using assms d 1 request_approval [of kind q fp a w1 r w']
      by (auto simp: decide_invocation_def Let_def)
  qed
qed

lemma start_run:
  "start_run h q w = (r, w') \<Longrightarrow> eff w' = eff w \<and> (case r of
     Inr _ \<Rightarrow> st w (request_key q) = None \<and> st w' = (st w)(request_key q \<mapsto> Running)
   | Inl _ \<Rightarrow> st w' = st w \<and> is_err (fst (rss_start runs (start_request q) w)))"
  by (auto simp: start_run_def run_store op_defs apfst_def map_prod_def map_err_def
      request_key_def start_request_def split: prod.splits sum.splits dest!: start)

text \<open>The gate starts the run; on an error it is settled, unless it could not be started.\<close>

lemma invocation_gate:
  assumes "invocation_gate env h kind q w = (r, w')"
  shows "eff w' = eff w \<and> (case r of
      Inr _ \<Rightarrow> context_valid (iq_context q) \<and> st w (request_key q) = None
        \<and> st w' = (st w)(request_key q \<mapsto> Running)
    | Inl e \<Rightarrow> st w' = st w \<and> run_refused env runs kind q w
        \<or> st w (request_key q) = None
          \<and> st w' = (st w)(request_key q \<mapsto> settled_error e))"
proof (cases "is_err (validate_context (iq_context q))")
  case True
  then show ?thesis using assms by (auto simp: invocation_gate_def fail_op_def run_refused_def)
next
  case valid: False
  let ?fp = "invocation_fingerprint_for_kind env kind (ec_resource_scope (iq_context q))
    (iq_capability_id q) (iq_estimate q) (iq_input q)"
  show ?thesis
  proof (cases ?fp)
    case (Inl e)
    then show ?thesis using assms valid by (auto simp: invocation_gate_def Let_def fail_op_def
        run_refused_def request_fingerprint_def)
  next
    case fp: (Inr fp)
    obtain r1 w1 where s: "start_run h q w = (r1, w1)" by fastforce
    show ?thesis
    proof (cases r1)
      case (Inl e)
      then show ?thesis
        using assms valid fp s start_run [OF s]
        by (auto simp: invocation_gate_def Let_def bind_op_def run_refused_def)
    next
      case ok: (Inr u)
      then have 1: "st w (request_key q) = None" "st w1 = (st w)(request_key q \<mapsto> Running)"
        "eff w1 = eff w" using start_run [OF s] by auto
      show ?thesis
      proof (cases "h_registry h (iq_capability_id q)")
        case None
        then show ?thesis
          using assms valid fp s ok 1
          by (auto simp: invocation_gate_def Let_def bind_op_def run_store request_key_def
              dest!: fail_run_with)
      next
        case (Some desc)
        then have "decide_invocation env h kind q fp desc w1 = (r, w')"
          using assms valid fp s ok by (simp add: invocation_gate_def Let_def bind_op_def)
        then show ?thesis
          using decide_invocation [of env kind q fp desc w1 r w'] 1 valid
          by (auto split: sum.splits)
      qed
    qed
  qed
qed

lemma dispatch_stage:
  assumes "dispatch_stage h phase c q obs out w = (r, w')" "context_valid (iq_context q)"
  shows "st w' = st w \<and> eff w' = (eff w)(request_key q := Suc (eff w (request_key q))) \<and>
    (case r of Inr _ \<Rightarrow> True | Inl (_, e) \<Rightarrow> settled_error e = Failed)"
proof -
  let ?q = "\<lparr>dq_capability_id = iq_capability_id q, dq_scope = ec_resource_scope (iq_context q),
    dq_estimate = iq_estimate q, dq_mounts = oo_mounts out,
    dq_resource_reservation = oo_resource_reservation out, dq_input = iq_input q\<rparr>"
  obtain r1 w1 where d: "h_dispatcher h ?q w = (r1, w1)" by fastforce
  have 1: "st w1 = st w" "eff w1 = (eff w)(request_key q := Suc (eff w (request_key q)))"
    using dispatcher [OF d] effect_key_request [OF assms(2)] by auto
  show ?thesis
  proof (cases r1)
    case (Inl e)
    then show ?thesis
      using assms(1) d 1 abort_obligations [OF refl, of phase c _ _ obs out w1]
      by (auto simp: dispatch_stage_def Let_def invocation_error_of_dispatch_def)
  next
    case ok: (Inr x)
    obtain r2 w2 where c: "complete_dispatch_obligations h phase c (iq_capability_id q)
        (iq_estimate q) obs x w1 = (r2, w2)" by fastforce
    have "settled_error e = Failed" if "r2 = Inl e" for e
      using c that by (auto simp: complete_dispatch_obligations_def op_defs apfst_def map_prod_def
          map_err_def Let_def split: if_splits option.splits prod.splits sum.splits)
    then show ?thesis
      using assms(1) d ok c 1 complete_dispatch_obligations [OF c]
        abort_obligations [OF refl, of phase c _ _ obs default_outcome w2]
      by (auto simp: dispatch_stage_def Let_def split: sum.splits)
  qed
qed

lemma spawn_stage:
  assumes "spawn_stage env h spawn c q desc obs out w = (r, w')" "context_valid (iq_context q)"
    "h_process_manager h = Some spawn"
  shows "st w' = st w \<and> eff w' = (eff w)(request_key q := Suc (eff w (request_key q))) \<and>
    (case r of Inr _ \<Rightarrow> True | Inl e \<Rightarrow> settled_error e = Failed)"
  using assms(1) manager [OF assms(3), THEN conjunct1]
    manager [OF assms(3), THEN conjunct2] effect_key_request [OF assms(2)] abort_obligations [OF refl]
  by (auto simp: spawn_stage_def split: prod.splits sum.splits)

text \<open>
  A call either leaves the runs alone, or moves the run it names, which was open, to a new
  status, and if it had a side effect then to a closing one.
\<close>

definition moves :: "'w \<Rightarrow> run_state_key \<Rightarrow> run_status \<Rightarrow> 'w \<Rightarrow> bool" where
  "moves w k s w' \<longleftrightarrow>
     eff w' = eff w \<and> st w' = st w \<or>
     \<not> run_closed (st w k) \<and> st w' = (st w)(k \<mapsto> s) \<and>
       (eff w' = eff w \<or> eff w' = (eff w)(k := Suc (eff w k)) \<and> run_closed (Some s))"

lemma invoke_moves:
  assumes "invoke_json env h q w = (r, w')"
  shows "moves w (request_key q) (settled r) w'"
proof -
  obtain r1 w1 where g: "invocation_gate env h DispatchAction q w = (r1, w1)" by fastforce
  show ?thesis
  proof (cases r1)
    case (Inl e)
    then show ?thesis using assms g invocation_gate [OF g]
      by (auto simp: invoke_json_def Let_def bind_op_def moves_def run_closed_def)
  next
    case (Inr y)
    obtain desc obs out where y: "y = (desc, obs, out)" by (cases y) auto
    have 1: "context_valid (iq_context q)" "st w (request_key q) = None"
      "st w1 = (st w)(request_key q \<mapsto> Running)" "eff w1 = eff w"
      using invocation_gate [OF g] Inr by auto
    obtain r2 w2 where d: "dispatch_stage h InvokePhase (iq_context q) q obs out w1 = (r2, w2)"
      by fastforce
    have 2: "st w2 = st w1" "eff w2 = (eff w)(request_key q := Suc (eff w (request_key q)))"
      "\<And>k e. r2 = Inl (k, e) \<Longrightarrow> settled_error e = Failed"
      using dispatch_stage [OF d 1(1)] 1(4) by auto
    show ?thesis
      using assms g Inr y d 1 2
        complete_run [OF refl, of "ec_resource_scope (iq_context q)" "ec_invocation_id (iq_context q)" w2]
      by (cases r2) (auto simp: invoke_json_def Let_def bind_op_def moves_def run_closed_def
          run_store request_key_def complete_run_if_configured_def dest!: fail_run_with)
  qed
qed

lemma spawn_moves:
  assumes "spawn_json env h q w = (r, w')"
  shows "moves w (request_key q) (settled r) w'"
proof (cases "h_process_manager h")
  case None
  then show ?thesis using assms by (auto simp: spawn_json_def fail_op_def moves_def)
next
  case m: (Some spawn)
  obtain r1 w1 where g: "invocation_gate env h SpawnAction q w = (r1, w1)" by fastforce
  show ?thesis
  proof (cases r1)
    case (Inl e)
    then show ?thesis using assms g m invocation_gate [OF g]
      by (auto simp: spawn_json_def Let_def bind_op_def moves_def run_closed_def)
  next
    case (Inr y)
    obtain desc obs out where y: "y = (desc, obs, out)" by (cases y) auto
    have 1: "context_valid (iq_context q)" "st w (request_key q) = None"
      "st w1 = (st w)(request_key q \<mapsto> Running)" "eff w1 = eff w"
      using invocation_gate [OF g] Inr by auto
    obtain r2 w2 where d: "spawn_stage env h spawn (iq_context q) q desc obs out w1 = (r2, w2)"
      by fastforce
    have 2: "st w2 = st w1" "eff w2 = (eff w)(request_key q := Suc (eff w (request_key q)))"
      "\<And>e. r2 = Inl e \<Longrightarrow> settled_error e = Failed"
      using spawn_stage [OF d 1(1) m] 1(4) by auto
    show ?thesis
      using assms g Inr y d m 1 2
        complete_run [OF refl, of "ec_resource_scope (iq_context q)" "ec_invocation_id (iq_context q)" w2]
      by (cases r2) (auto simp: spawn_json_def Let_def bind_op_def moves_def run_closed_def
          run_store request_key_def complete_run_if_configured_def dest!: fail_run_with)
  qed
qed

text \<open>Once its run is started, an invocation settles it.\<close>

lemma invoke_settles:
  assumes "invoke_json env h q w = (r, w')" "\<not> run_refused env runs DispatchAction q w"
  shows "st w' (request_key q) = Some (settled r)"
proof -
  obtain r1 w1 where g: "invocation_gate env h DispatchAction q w = (r1, w1)" by fastforce
  show ?thesis
  proof (cases r1)
    case (Inl e)
    then show ?thesis using assms g invocation_gate [OF g]
      by (auto simp: invoke_json_def Let_def bind_op_def)
  next
    case (Inr y)
    obtain desc obs out where y: "y = (desc, obs, out)" by (cases y) auto
    have 1: "context_valid (iq_context q)" "st w1 = (st w)(request_key q \<mapsto> Running)"
      using invocation_gate [OF g] Inr by auto
    obtain r2 w2 where d: "dispatch_stage h InvokePhase (iq_context q) q obs out w1 = (r2, w2)"
      by fastforce
    show ?thesis
      using assms(1) g Inr y d 1 dispatch_stage [OF d 1(1)]
        complete_run [OF refl, of "ec_resource_scope (iq_context q)" "ec_invocation_id (iq_context q)" w2]
      by (cases r2) (auto simp: invoke_json_def Let_def bind_op_def
          run_store request_key_def complete_run_if_configured_def dest!: fail_run_with)
  qed
qed

subsection \<open>Resuming\<close>

definition stays_or_fails :: "'w \<Rightarrow> run_state_key \<Rightarrow> 'w \<Rightarrow> bool" where
  "stays_or_fails w k w' \<longleftrightarrow>
     eff w' = eff w \<and> (st w' = st w \<or> st w k = Some BlockedApproval \<and> st w' = (st w)(k \<mapsto> Failed))"

lemma fail_blocked:
  assumes "fail_run_with (Some runs) (ec_resource_scope (iq_context q)) (ec_invocation_id (iq_context q))
      kind e w1 = (r, w')" "st w1 = st w" "eff w1 = eff w" "st w (request_key q) = Some BlockedApproval"
  shows "r = Inl e \<and> stays_or_fails w (request_key q) w'"
  using fail_run_with [OF assms(1)] assms(2-) by (auto simp: stays_or_fails_def request_key_def)

lemma check_blocked_run:
  assumes "check_blocked_run runs q w = (r, w')"
  shows "stays_or_fails w (request_key q) w' \<and>
    (\<forall>u. r = Inr u \<longrightarrow> st w' = st w \<and> eff w' = eff w \<and> st w (request_key q) = Some BlockedApproval)"
  using assms
  by (auto simp: check_blocked_run_def Let_def fail_op_def return_op_def stays_or_fails_def
      request_key_def split: sum.splits option.splits if_splits prod.splits
      dest!: get fail_run_with)

lemma check_approval:
  assumes "check_approval runs ap kind fp q w = (r, w')" "h_approval_requests h = Some ap"
    "st w (request_key q) = Some BlockedApproval"
  shows "stays_or_fails w (request_key q) w' \<and>
    (\<forall>u. r = Inr u \<longrightarrow> st w' = st w \<and> eff w' = eff w)"
proof -
  obtain g w1 where g: "ars_get ap (ec_resource_scope (iq_context q)) (iq_approval_request_id q) w
      = (g, w1)" by fastforce
  have 1: "eff w1 = eff w" "st w1 = st w" using get_approval [OF assms(2) g] by auto
  show ?thesis
    using assms(1) g 1 assms(3)
    by (auto simp: check_approval_def Let_def fail_op_def return_op_def
        stays_or_fails_def request_key_def split: sum.splits option.splits if_splits
        dest!: fail_run_with)
qed

lemma fail_and_revoke:
  assumes "fail_and_revoke runs l q lease kind e w = (r, w')" "h_capability_leases h = Some l"
  shows "r = Inl e \<and> eff w' = eff w \<and>
    st w' = (if st w (request_key q) = None then st w else (st w)(request_key q \<mapsto> Failed))"
  using assms(1) revoke [OF assms(2)] fail_run_Some [OF refl]
  by (auto simp: fail_and_revoke_def Let_def ignoring_def fail_op_def request_key_def)

lemma claim_and_prepare:
  assumes "claim_and_prepare env h runs l kind q fp desc lease w = (r, w')"
    "h_capability_leases h = Some l" "st w (request_key q) = Some BlockedApproval"
  shows "stays_or_fails w (request_key q) w' \<and>
    (\<forall>p. r = Inr p \<longrightarrow> st w' = st w \<and> eff w' = eff w \<and> rp_runs p = runs \<and> rp_leases p = l)"
proof -
  let ?c = "add_grant (iq_context q) (ls_grant lease)"
  obtain d w1 where d: "authorize_for kind h (ce_authorize_at env) ?c desc (iq_estimate q)
      (iq_trust_decision q) w = (d, w1)" by fastforce
  have 1: "eff w1 = eff w" "st w1 = st w" using authorizer [OF d] by auto
  show ?thesis
  proof (cases d)
    case (Allow obs)
    obtain c w2 where c: "cls_claim l (ce_claim_at env) (ec_resource_scope (iq_context q))
        (lease_id lease) fp w1 = (c, w2)" by fastforce
    have 2: "eff w2 = eff w" "st w2 = st w" using claim [OF assms(2) c] 1 by auto
    show ?thesis
    proof (cases c)
      case (Inl e)
      then show ?thesis
        using assms(1,3) d Allow c 2
        by (auto simp: claim_and_prepare_def authorize_resume_def claim_lease_def Let_def
            op_defs stays_or_fails_def request_key_def fail_run_with_def fail_run_simps
            split: if_splits)
    next
      case ok: (Inr cl)
      obtain o' w3 where p: "prepare_obligations h (resume_phase_for kind) ?c (iq_capability_id q)
          (iq_estimate q) obs w2 = (o', w3)" by fastforce
      have 3: "eff w3 = eff w" "st w3 = st w" using prepare_obligations [OF p] 2 by auto
      show ?thesis
        using assms(1,3) d Allow c ok p 3 fail_and_revoke [OF _ assms(2), of q cl _ _ w3 r w']
        by (cases o') (auto simp: claim_and_prepare_def authorize_resume_def claim_lease_def
            Let_def bind_op_def return_op_def stays_or_fails_def)
    qed
  qed (use assms(1,3) d 1 in \<open>auto simp: claim_and_prepare_def authorize_resume_def Let_def
      bind_op_def stays_or_fails_def request_key_def fail_run_with_def fail_run_simps\<close>)
qed

lemma resume_checked:
  assumes "resume_checked env h runs ap l kind q fp w = (r, w')"
    "h_approval_requests h = Some ap" "h_capability_leases h = Some l"
  shows "stays_or_fails w (request_key q) w' \<and>
    (\<forall>p. r = Inr p \<longrightarrow> st w' = st w \<and> eff w' = eff w \<and> st w (request_key q) = Some BlockedApproval
       \<and> rp_runs p = runs \<and> rp_leases p = l)"
proof -
  obtain r1 w1 where b: "check_blocked_run runs q w = (r1, w1)" by fastforce
  show ?thesis
  proof (cases r1)
    case (Inl e)
    then show ?thesis using assms(1) b check_blocked_run [OF b]
      by (auto simp: resume_checked_def Let_def bind_op_def)
  next
    case ok1: (Inr u)
    then have 1: "st w1 = st w" "eff w1 = eff w" "st w (request_key q) = Some BlockedApproval"
      using check_blocked_run [OF b] by auto
    obtain r2 w2 where a: "check_approval runs ap kind fp q w1 = (r2, w2)" by fastforce
    note ca = check_approval [OF a assms(2)]
    show ?thesis
    proof (cases r2)
      case (Inl e)
      then show ?thesis using assms(1) b ok1 a ca 1
        by (auto simp: resume_checked_def Let_def bind_op_def stays_or_fails_def)
    next
      case ok2: (Inr u')
      then have 2: "st w2 = st w" "eff w2 = eff w" using ca 1 by auto
      show ?thesis
      proof (cases "h_registry h (iq_capability_id q)")
        case None
        then show ?thesis using assms(1) b ok1 a ok2 1 2
          by (auto simp: resume_checked_def Let_def bind_op_def stays_or_fails_def request_key_def
              fail_run_with_def fail_run_simps)
      next
        case (Some desc)
        obtain ls w3 where act: "cls_active_leases_for_context l (ce_leases_at env) (iq_context q) w2
            = (ls, w3)" by fastforce
        have 3: "st w3 = st w" "eff w3 = eff w" using active_leases [OF assms(3) act] 2 by auto
        let ?m = "find (\<lambda>x. ls_scope x = ec_resource_scope (iq_context q)
            \<and> cg_capability (ls_grant x) = iq_capability_id q
            \<and> ls_invocation_fingerprint x = Some fp) ls"
        show ?thesis
        proof (cases ?m)
          case None
          then show ?thesis using assms(1) b ok1 a ok2 Some act 1(3) 3
            by (auto simp: resume_checked_def matching_approval_lease_def Let_def bind_op_def
                fail_run_with_def fail_run_simps stays_or_fails_def request_key_def)
        next
          case lease: (Some lease)
          then have c: "claim_and_prepare env h runs l kind q fp desc lease w3 = (r, w')"
            using assms(1) b ok1 a ok2 Some act
            by (simp add: resume_checked_def matching_approval_lease_def Let_def bind_op_def)
          have "st w3 (request_key q) = Some BlockedApproval" using 1(3) 3 by simp
          from claim_and_prepare [OF c assms(3) this, unfolded stays_or_fails_def 3]
          show ?thesis using 1(3) unfolding stays_or_fails_def by blast
        qed
      qed
    qed
  qed
qed

lemma resume_gate:
  assumes "resume_gate env h kind q w = (r, w')"
  shows "stays_or_fails w (request_key q) w' \<and>
    (\<forall>p. r = Inr p \<longrightarrow> st w' = st w \<and> eff w' = eff w \<and> st w (request_key q) = Some BlockedApproval
       \<and> context_valid (iq_context q) \<and> rp_runs p = runs \<and> h_capability_leases h = Some (rp_leases p))"
  using assms
  by (auto simp: resume_gate_def Let_def fail_op_def run_store stays_or_fails_def
      split: option.splits if_splits sum.splits dest!: resume_checked)

lemma finish_resume:
  assumes "h_capability_leases h = Some (rp_leases p)" "rp_runs p = runs"
    "st w (request_key q) \<noteq> None"
  shows "eff (finish_resume env q p w) = eff w"
    "st (finish_resume env q p w) = (st w)(request_key q \<mapsto> Completed)"
  using consume [OF assms(1)] complete_run [OF refl] assms(2,3)
  by (auto simp: finish_resume_def Let_def ignoring_def request_key_def)

lemma resume_moves:
  assumes "resume_json env h q w = (r, w')"
  shows "moves w (request_key q) (case r of Inr _ \<Rightarrow> Completed | Inl _ \<Rightarrow> Failed) w'"
proof -
  obtain r1 w1 where g: "resume_gate env h DispatchAction q w = (r1, w1)" by fastforce
  note rg = resume_gate [OF g]
  show ?thesis
  proof (cases r1)
    case (Inl e)
    then show ?thesis using assms g rg
      by (auto simp: resume_json_def bind_op_def moves_def stays_or_fails_def run_closed_def)
  next
    case (Inr p)
    then have 1: "st w1 = st w" "eff w1 = eff w" "st w (request_key q) = Some BlockedApproval"
      "context_valid (iq_context q)" "rp_runs p = runs" "h_capability_leases h = Some (rp_leases p)"
      using rg by auto
    obtain r2 w2 where d: "dispatch_stage h ResumePhase (rp_context p) q (rp_obligations p)
        (rp_outcome p) w1 = (r2, w2)" by fastforce
    note ds = dispatch_stage [OF d 1(4)]
    show ?thesis
      using assms g Inr d ds 1 finish_resume [OF 1(6,5), of w2 q env]
      by (cases r2) (auto simp: resume_json_def bind_op_def moves_def run_closed_def
          dest!: fail_and_revoke [folded 1(5)])
  qed
qed

lemma resume_spawn_moves:
  assumes "resume_spawn_json env h q w = (r, w')"
  shows "moves w (request_key q) (case r of Inr _ \<Rightarrow> Completed | Inl _ \<Rightarrow> Failed) w'"
proof (cases "h_process_manager h")
  case None
  then show ?thesis using assms by (auto simp: resume_spawn_json_def fail_op_def moves_def)
next
  case m: (Some spawn)
  obtain r1 w1 where g: "resume_gate env h SpawnAction q w = (r1, w1)" by fastforce
  note rg = resume_gate [OF g]
  show ?thesis
  proof (cases r1)
    case (Inl e)
    then show ?thesis using assms g rg m
      by (auto simp: resume_spawn_json_def bind_op_def moves_def stays_or_fails_def run_closed_def)
  next
    case (Inr p)
    then have 1: "st w1 = st w" "eff w1 = eff w" "st w (request_key q) = Some BlockedApproval"
      "context_valid (iq_context q)" "rp_runs p = runs" "h_capability_leases h = Some (rp_leases p)"
      using rg by auto
    obtain r2 w2 where d: "spawn_stage env h spawn (rp_context p) q (rp_descriptor p)
        (rp_obligations p) (rp_outcome p) w1 = (r2, w2)" by fastforce
    note ds = spawn_stage [OF d 1(4) m]
    show ?thesis
      using assms g Inr d ds m 1 finish_resume [OF 1(6,5), of w2 q env]
      by (cases r2) (auto simp: resume_spawn_json_def bind_op_def moves_def run_closed_def
          dest!: fail_and_revoke [folded 1(5)])
  qed
qed

definition accounted :: "'w \<Rightarrow> bool" where
  "accounted w \<longleftrightarrow> (\<forall>k. eff w k \<le> 1 \<and> (\<not> run_closed (st w k) \<longrightarrow> eff w k = 0))"

lemma moves_accounted: "moves w k s w' \<Longrightarrow> accounted w \<Longrightarrow> accounted w'"
  by (auto simp: moves_def accounted_def split: if_splits)

end

subsection \<open>Histories of a host\<close>

text \<open>
  The calls that reach the kernel's state: those of the host, and those of any client of its
  approval and lease stores, in any order.
\<close>

datatype host_command =
    InvokeJson call_environment invocation_request
  | ResumeJson call_environment resume_request
  | SpawnJson call_environment invocation_request
  | ResumeSpawnJson call_environment resume_request
  | OnApprovals approval_command
  | OnLeases lease_command

datatype host_reply =
    DispatchReply "(capability_invocation_error, dispatch_result) result"
  | SpawnReply "(capability_invocation_error, process_record) result"
  | ApprovalsReply approval_reply
  | LeasesReply lease_reply
  | NoStore

fun host_step :: "'w capability_host \<Rightarrow> host_command \<Rightarrow> 'w \<Rightarrow> host_reply \<times> 'w" where
  "host_step h (InvokeJson env q) w = apfst DispatchReply (invoke_json env h q w)"
| "host_step h (ResumeJson env q) w = apfst DispatchReply (resume_json env h q w)"
| "host_step h (SpawnJson env q) w = apfst SpawnReply (spawn_json env h q w)"
| "host_step h (ResumeSpawnJson env q) w = apfst SpawnReply (resume_spawn_json env h q w)"
| "host_step h (OnApprovals c) w =
     (case h_approval_requests h of
        Some approvals \<Rightarrow> apfst ApprovalsReply (approval_step approvals c w)
      | None \<Rightarrow> (NoStore, w))"
| "host_step h (OnLeases c) w =
     (case h_capability_leases h of
        Some leases \<Rightarrow> apfst LeasesReply (lease_step leases c w)
      | None \<Rightarrow> (NoStore, w))"

context guarded_host
begin

lemma kept_accounted: "eff w' = eff w \<and> st w' = st w \<Longrightarrow> accounted w \<Longrightarrow> accounted w'"
  by (simp add: accounted_def)

lemma step_accounted:
  assumes "accounted w"
  shows "accounted (snd (host_step h c w))"
proof (cases c)
  case (InvokeJson env q)
  then show ?thesis
    using moves_accounted [OF invoke_moves [of env q w, OF surjective_pairing] assms] by simp
next
  case (ResumeJson env q)
  then show ?thesis
    using moves_accounted [OF resume_moves [of env q w, OF surjective_pairing] assms] by simp
next
  case (SpawnJson env q)
  then show ?thesis
    using moves_accounted [OF spawn_moves [of env q w, OF surjective_pairing] assms] by simp
next
  case (ResumeSpawnJson env q)
  then show ?thesis
    using moves_accounted [OF resume_spawn_moves [of env q w, OF surjective_pairing] assms] by simp
next
  case (OnApprovals ac)
  then show ?thesis
    using assms kept_accounted [OF approvals [of _ ac w, OF _ surjective_pairing] assms]
    by (cases "h_approval_requests h") simp_all
next
  case (OnLeases lc)
  then show ?thesis
    using assms kept_accounted [OF leases [of _ lc w, OF _ surjective_pairing] assms]
    by (cases "h_capability_leases h") simp_all
qed

lemma effects_at_most_once:
  assumes "\<And>k. eff w k = 0"
  shows "eff (final_state (host_step h) cs w) k \<le> 1"
proof -
  have w: "accounted w" unfolding accounted_def by (simp add: assms)
  have "accounted (final_state (host_step h) cs w)"
    by (rule final_state_invariant [where I = accounted, OF step_accounted w])
  then show ?thesis by (simp add: accounted_def)
qed

end

end
