(* ===== verification/HostWiring.thy ===== *)
theory HostWiring
  imports HostSafety Kernel
begin

section \<open>A host wired with the in-memory stores\<close>

text \<open>
  The capability host over one kernel state: the in-memory run, approval and lease stores, an
  authorizer that reads the state (as the program's grant and lease authorizers do), and a
  dispatcher, a process manager and an obligation handler with a state of their own. The
  state also lists the runs that had a side effect, in order.
\<close>

subsection \<open>Wiring\<close>

record 's host_world = kernel_state +
  hw_services :: 's
  hw_effects :: "run_state_key list"

definition on_services :: "('s \<Rightarrow> 'r \<times> 's) \<Rightarrow> 's host_world \<Rightarrow> 'r \<times> 's host_world" where
  "on_services f w = (case f (hw_services w) of (r, s) \<Rightarrow> (r, w\<lparr>hw_services := s\<rparr>))"

definition recording :: "resource_scope \<Rightarrow> ('s \<Rightarrow> 'r \<times> 's) \<Rightarrow> 's host_world \<Rightarrow> 'r \<times> 's host_world" where
  "recording scope f w =
     (case on_services f w of (r, w') \<Rightarrow> (r, w'\<lparr>hw_effects := hw_effects w' @ [effect_key scope]\<rparr>))"

definition wired_handler :: "'s obligation_handler \<Rightarrow> 's host_world obligation_handler" where
  "wired_handler oh = \<lparr>oh_satisfy = (\<lambda>q. on_services (oh_satisfy oh q)),
     oh_prepare = (\<lambda>q. on_services (oh_prepare oh q)),
     oh_abort = (\<lambda>q. on_services (oh_abort oh q)),
     oh_complete_dispatch = (\<lambda>q. on_services (oh_complete_dispatch oh q))\<rparr>"

type_synonym 'w decision_function =
  "timestamp \<Rightarrow> execution_context \<Rightarrow> capability_descriptor \<Rightarrow> resource_estimate \<Rightarrow> trust_decision
   \<Rightarrow> 'w \<Rightarrow> decision"

definition reading_authorizer ::
    "'w decision_function \<Rightarrow> 'w decision_function \<Rightarrow> 'w trust_authorizer" where
  "reading_authorizer dispatch spawn = \<lparr>
     ta_dispatch = (\<lambda>now c d e t w. (dispatch now c d e t w, w)),
     ta_spawn = (\<lambda>now c d e t w. (spawn now c d e t w, w))\<rparr>"

text \<open>What the kernel takes from outside.\<close>

record 's host_services =
  sv_registry :: "capability_id \<Rightarrow> capability_descriptor option"
  sv_dispatch_decision :: "'s host_world decision_function"
  sv_spawn_decision :: "'s host_world decision_function"
  sv_dispatcher :: "'s dispatcher"
  sv_process_manager :: "'s process_manager option"
  sv_handler :: "'s obligation_handler option"

definition wired_host :: "'s host_services \<Rightarrow> 's host_world capability_host" where
  "wired_host sv = \<lparr>h_registry = sv_registry sv,
     h_dispatcher = (\<lambda>q. recording (dq_scope q) (sv_dispatcher sv q)),
     h_authorizer = reading_authorizer (sv_dispatch_decision sv) (sv_spawn_decision sv),
     h_run_state = Some kernel_runs,
     h_approval_requests = Some kernel_approvals,
     h_capability_leases = Some kernel_leases,
     h_process_manager =
       map_option (\<lambda>spawn p. recording (ps_scope p) (spawn p)) (sv_process_manager sv),
     h_obligation_handler = map_option wired_handler (sv_handler sv)\<rparr>"

lemma wired_host_sel [simp]:
  "h_registry (wired_host sv) = sv_registry sv"
  "h_dispatcher (wired_host sv) = (\<lambda>q. recording (dq_scope q) (sv_dispatcher sv q))"
  "h_run_state (wired_host sv) = Some kernel_runs"
  "h_approval_requests (wired_host sv) = Some kernel_approvals"
  "h_capability_leases (wired_host sv) = Some kernel_leases"
  "h_process_manager (wired_host sv) =
     map_option (\<lambda>spawn p. recording (ps_scope p) (spawn p)) (sv_process_manager sv)"
  "h_obligation_handler (wired_host sv) = map_option wired_handler (sv_handler sv)"
  by (simp_all add: wired_host_def)

definition fresh_world :: "'s \<Rightarrow> 's host_world" where
  "fresh_world s = \<lparr>kn_runs = [], kn_approvals = [], kn_leases = [], kn_audit = [],
     hw_services = s, hw_effects = []\<rparr>"

text \<open>The program's authorizers read the state only.\<close>

lemma grant_authorizer_reads:
  "grant_trust_authorizer = reading_authorizer
     (\<lambda>now c d e t w. authorize_from_grants_with_trust now c d e (cs_grants (ec_grants c)) t)
     (\<lambda>now c d e t w. authorize_from_grants_with_trust now c (spawn_descriptor d) e
        (cs_grants (ec_grants c)) t)"
  by (simp add: grant_trust_authorizer_def reading_authorizer_def)

lemma lease_authorizer_reads:
  "lease_trust_authorizer kernel_leases = reading_authorizer
     (\<lambda>now c d e t w. fst (ta_dispatch (lease_trust_authorizer kernel_leases) now c d e t w))
     (\<lambda>now c d e t w. fst (ta_spawn (lease_trust_authorizer kernel_leases) now c d e t w))"
  by (auto simp: reading_authorizer_def lease_trust_authorizer_def with_lease_grants_def
      active_grants_for_context_def kernel_defs leases_for_scope_def
      Leases.active_leases_for_context_def fun_eq_iff)

subsection \<open>The contract of the capability host holds\<close>

definition run_statuses :: "'e kernel_state_scheme \<Rightarrow> run_state_key \<Rightarrow> run_status option" where
  "run_statuses w k = map_option rn_status (hm_get k (kn_runs w))"

definition effect_count :: "'s host_world \<Rightarrow> run_state_key \<Rightarrow> nat" where
  "effect_count w k = count_list (hw_effects w) k"

lemma on_services_keeps:
  "on_services f w = (r, w') \<Longrightarrow>
     kn_runs w' = kn_runs w \<and> kn_approvals w' = kn_approvals w \<and> kn_leases w' = kn_leases w
     \<and> hw_effects w' = hw_effects w"
  by (auto simp: on_services_def split: prod.splits)

lemma recording_keeps:
  "recording s f w = (r, w') \<Longrightarrow>
     kn_runs w' = kn_runs w \<and> kn_approvals w' = kn_approvals w \<and> kn_leases w' = kn_leases w
     \<and> hw_effects w' = hw_effects w @ [effect_key s]"
  by (auto simp: recording_def split: prod.splits dest!: on_services_keeps)

lemma kernel_approvals_keep:
  "kn_runs (snd (approval_step kernel_approvals c w)) = kn_runs w
   \<and> kn_leases (snd (approval_step kernel_approvals c w)) = kn_leases w
   \<and> hw_effects (snd (approval_step kernel_approvals c w)) = hw_effects w" for w :: "'s host_world"
  by (cases c) (simp_all add: kernel_defs split: prod.splits)

lemma kernel_leases_keep:
  "kn_runs (snd (lease_step kernel_leases c w)) = kn_runs w
   \<and> kn_approvals (snd (lease_step kernel_leases c w)) = kn_approvals w
   \<and> hw_effects (snd (lease_step kernel_leases c w)) = hw_effects w" for w :: "'s host_world"
  by (cases c) (simp_all add: kernel_defs split: prod.splits)

lemma authorize_for_wired:
  "authorize_for kind (wired_host sv) now c d e t w = (dec, w') \<longleftrightarrow>
     w' = w \<and> dec = (case kind of DispatchAction \<Rightarrow> sv_dispatch_decision sv now c d e t w
                      | SpawnAction \<Rightarrow> sv_spawn_decision sv now c d e t w)"
  by (cases kind) (auto simp: wired_host_def reading_authorizer_def)

lemma on_runs_update:
  "on_runs (run_update s i f) w =
     (case hm_get (run_state_key_new s i) (kn_runs w) of
        None \<Rightarrow> (Inl (UnknownInvocation i), w)
      | Some rec \<Rightarrow> (Inr (f rec),
          w\<lparr>kn_runs := hm_insert (run_state_key_new s i) (f rec) (kn_runs w)\<rparr>))"
  by (simp add: on_runs_def run_update_def Let_def split: option.splits)

lemma run_statuses_insert:
  "run_statuses (w\<lparr>kn_runs := hm_insert k rec (kn_runs w)\<rparr>) = (run_statuses w)(k \<mapsto> rn_status rec)"
  by (simp add: run_statuses_def fun_eq_iff)

lemma run_statuses_cong: "kn_runs w' = kn_runs w \<Longrightarrow> run_statuses w' = run_statuses w"
  by (simp add: run_statuses_def fun_eq_iff)

lemma effect_count_cong: "hw_effects w' = hw_effects w \<Longrightarrow> effect_count w' = effect_count w"
  by (simp add: effect_count_def fun_eq_iff)

lemma effect_count_runs [simp]: "effect_count (w\<lparr>kn_runs := m\<rparr>) = effect_count w"
  by (simp add: effect_count_def fun_eq_iff)

lemmas kernel_run_defs = kernel_runs_def run_block_approval_def run_complete_def run_fail_def
  on_runs_update run_statuses_insert

lemma run_status_None: "run_statuses w k = None \<longleftrightarrow> hm_get k (kn_runs w) = None"
  by (simp add: run_statuses_def)

lemma recording_law:
  assumes "recording s f w = (r, w')"
  shows "run_statuses w' = run_statuses w \<and>
    effect_count w' = (effect_count w)(effect_key s := Suc (effect_count w (effect_key s)))"
proof
  show "run_statuses w' = run_statuses w"
    using recording_keeps [OF assms] by (intro run_statuses_cong) simp
  have "hw_effects w' = hw_effects w @ [effect_key s]" using recording_keeps [OF assms] by simp
  then show "effect_count w' = (effect_count w)(effect_key s := Suc (effect_count w (effect_key s)))"
    by (intro ext) (simp add: effect_count_def)
qed

lemma keep_law:
  "kn_runs w' = kn_runs w \<Longrightarrow> hw_effects w' = hw_effects w \<Longrightarrow>
     effect_count w' = effect_count w \<and> run_statuses w' = run_statuses w"
  by (intro conjI effect_count_cong run_statuses_cong)

interpretation wired: guarded_host "wired_host sv" kernel_runs run_statuses effect_count for sv
proof (unfold_locales, goal_cases)
  case 1
  then show ?case by (simp add: wired_host_def)
next
  case (2 t w r w')
  then show ?case
    by (auto simp: kernel_runs_def on_runs_def run_start_record_def Let_def run_statuses_insert
        run_status_None split: if_splits)
next
  case (3 s i a w r' w')
  then show ?case by (auto simp: kernel_run_defs split: option.splits)
next
  case (4 s i w r' w')
  then show ?case by (auto simp: kernel_run_defs run_status_None split: option.splits)
next
  case (5 s i e w r' w')
  then show ?case by (auto simp: kernel_run_defs run_status_None split: option.splits)
next
  case (6 s i w g w')
  then show ?case
    by (auto simp: kernel_runs_def on_runs_def run_get_def run_statuses_def)
next
  case (7 approvals c w ra w')
  then show ?case using kernel_approvals_keep [of c w]
    by (intro keep_law) (auto simp: wired_host_def)
next
  case (8 leases d w rl w')
  then show ?case using kernel_leases_keep [of d w]
    by (intro keep_law) (auto simp: wired_host_def)
next
  case (9 kind now ctx desc est tr w decision w')
  then show ?case by (simp add: authorize_for_wired)
next
  case (10 handler oq w ro w')
  then show ?case
    by (auto simp: wired_host_def wired_handler_def dest!: on_services_keeps intro!: keep_law)
next
  case (11 handler oa w rb w')
  then show ?case
    by (auto simp: wired_host_def wired_handler_def dest!: on_services_keeps intro!: keep_law)
next
  case (12 handler oc w rd w')
  then show ?case
    by (auto simp: wired_host_def wired_handler_def dest!: on_services_keeps intro!: keep_law)
next
  case (13 q w rd' w')
  then show ?case using recording_law [of "dq_scope q" _ w] by (simp add: wired_host_def)
next
  case (14 spawn p w rp w')
  then show ?case by (auto simp: wired_host_def dest: recording_law)
qed

subsection \<open>One side effect per run\<close>

text \<open>
  C1: A run has at most one side effect: whatever host calls (invocations, spawns, resumes) and
  client operations on the approval and lease stores are made, in any order and with any
  services, no run is ever dispatched or spawned twice.
\<close>

theorem one_effect_per_run:
  "count_list (hw_effects (final_state (host_step (wired_host sv)) cs (fresh_world s))) k \<le> 1"
  using wired.effects_at_most_once [of "fresh_world s" sv cs k]
  by (simp add: effect_count_def fresh_world_def)

subsection \<open>Invocations are authorized\<close>

text \<open>The state in which the authorizer decides: the run of the request is started.\<close>

definition run_started :: "'r invocation_request_scheme \<Rightarrow> 's host_world \<Rightarrow> 's host_world" where
  "run_started q w = snd (rss_start kernel_runs (start_request q) w)"

lemma gate_passed:
  assumes "invocation_gate env (wired_host sv) kind q w = (Inr (desc, obs, out), w2)"
  shows "context_valid (iq_context q) \<and> sv_registry sv (iq_capability_id q) = Some desc \<and>
    \<not> is_err (request_fingerprint env kind q) \<and>
    (case kind of
       DispatchAction \<Rightarrow> sv_dispatch_decision sv (ce_authorize_at env) (iq_context q) desc
         (iq_estimate q) (iq_trust_decision q) (run_started q w) = Allow obs
     | SpawnAction \<Rightarrow> sv_spawn_decision sv (ce_authorize_at env) (iq_context q) desc
         (iq_estimate q) (iq_trust_decision q) (run_started q w) = Allow obs) \<and>
    prepare_obligations (wired_host sv) (phase_for kind) (iq_context q) (iq_capability_id q)
      (iq_estimate q) obs (run_started q w) = (Inr out, w2)"
proof -
  have v: "context_valid (iq_context q)"
    using assms by (auto simp: invocation_gate_def Let_def fail_op_def split: if_splits)
  obtain fp where fp: "request_fingerprint env kind q = Inr fp"
    using assms v by (auto simp: invocation_gate_def request_fingerprint_def Let_def fail_op_def
        split: sum.splits)
  obtain w1 where s: "start_run (wired_host sv) q w = (Inr (), w1)"
    and g: "(case sv_registry sv (iq_capability_id q) of
        None \<Rightarrow> fail_run_with (h_run_state (wired_host sv)) (ec_resource_scope (iq_context q))
          (ec_invocation_id (iq_context q)) ''UnknownCapability'' (UnknownCapability (iq_capability_id q))
      | Some descriptor \<Rightarrow> decide_invocation env (wired_host sv) kind q fp descriptor) w1
      = (Inr (desc, obs, out), w2)"
    using assms v fp
    by (auto simp: invocation_gate_def request_fingerprint_def Let_def bind_op_Inr_iff)
  have w1: "w1 = run_started q w"
    using s by (auto simp: start_run_def run_started_def start_request_def op_defs
        apfst_def map_prod_def split: prod.splits sum.splits)
  show ?thesis
  proof (cases "sv_registry sv (iq_capability_id q)")
    case None
    then show ?thesis using g by (simp add: fail_run_with_def)
  next
    case (Some d)
    then have g: "decide_invocation env (wired_host sv) kind q fp d w1 = (Inr (desc, obs, out), w2)"
      using g by simp
    have req: "request_approval h kd qq ff aa ww \<noteq> (Inr yy, zz)" for h kd qq ff aa ww yy zz
      by (auto simp: request_approval_def block_on_approval_def fail_run_with_def fail_op_def
          ignoring_def Let_def split: sum.splits option.splits prod.splits if_splits)
    show ?thesis
      using g Some v fp unfolding w1
      by (cases kind) (auto simp: decide_invocation_def Let_def return_op_def fail_run_with_def
          authorize_for_wired req simp del: authorize_for.simps split: prod.splits decision.splits sum.splits)
  qed
qed

definition kind_decision :: "'s host_services \<Rightarrow> capability_action_kind \<Rightarrow> 's host_world decision_function" where
  "kind_decision sv kind = (case kind of
     DispatchAction \<Rightarrow> sv_dispatch_decision sv | SpawnAction \<Rightarrow> sv_spawn_decision sv)"

text \<open>
  C3: No dispatch without authority: an invocation leaves the number of side effects of every run
  as it was, unless its context is valid, its capability is registered, the authorizer, asked
  after the run was started, answered Allow for exactly this context, descriptor and estimate,
  and every obligation of that decision was prepared.
\<close>

theorem invoke_dispatches_only_allowed:
  "effect_count (snd (invoke_json env (wired_host sv) q w)) = effect_count w \<or>
   (\<exists>desc obs out w2. context_valid (iq_context q) \<and>
     sv_registry sv (iq_capability_id q) = Some desc \<and>
     sv_dispatch_decision sv (ce_authorize_at env) (iq_context q) desc (iq_estimate q)
       (iq_trust_decision q) (run_started q w) = Allow obs \<and>
     prepare_obligations (wired_host sv) InvokePhase (iq_context q) (iq_capability_id q)
       (iq_estimate q) obs (run_started q w) = (Inr out, w2))"
proof -
  obtain r w1 where g: "invocation_gate env (wired_host sv) DispatchAction q w = (r, w1)" by fastforce
  show ?thesis
  proof (cases r)
    case (Inl e)
    then show ?thesis using g wired.invocation_gate [OF g]
      by (simp add: invoke_json_def Let_def bind_op_def)
  next
    case (Inr y)
    then show ?thesis using gate_passed [of env sv DispatchAction q w] g by (cases y) fastforce
  qed
qed

text \<open>
  C4: No process without authority: a spawn leaves the side effects as they were, unless the
  authorizer allowed the spawn with obligations that all can be met before the process starts
  (none that would have to wait for its output), and all of them were prepared.
\<close>

theorem spawn_starts_only_allowed:
  "effect_count (snd (spawn_json env (wired_host sv) q w)) = effect_count w \<or>
   (\<exists>desc obs out w2. context_valid (iq_context q) \<and>
     sv_registry sv (iq_capability_id q) = Some desc \<and>
     sv_spawn_decision sv (ce_authorize_at env) (iq_context q) desc (iq_estimate q)
       (iq_trust_decision q) (run_started q w) = Allow obs \<and>
     post_dispatch_obligations obs = [] \<and>
     prepare_obligations (wired_host sv) SpawnPhase (iq_context q) (iq_capability_id q)
       (iq_estimate q) obs (run_started q w) = (Inr out, w2))"
proof -
  obtain r w1 where g: "invocation_gate env (wired_host sv) SpawnAction q w = (r, w1)" by fastforce
  show ?thesis
  proof (cases r)
    case (Inl e)
    then show ?thesis using g wired.invocation_gate [OF g]
      by (simp add: spawn_json_def Let_def bind_op_def fail_op_def split: option.splits)
  next
    case (Inr y)
    then obtain desc obs out where p: "prepare_obligations (wired_host sv) SpawnPhase (iq_context q)
        (iq_capability_id q) (iq_estimate q) obs (run_started q w) = (Inr out, w1)"
      "context_valid (iq_context q)" "sv_registry sv (iq_capability_id q) = Some desc"
      "sv_spawn_decision sv (ce_authorize_at env) (iq_context q) desc (iq_estimate q)
         (iq_trust_decision q) (run_started q w) = Allow obs"
      using gate_passed [of env sv SpawnAction q w] g by (cases y) fastforce
    have "post_dispatch_obligations obs = []"
      using p(1) by (auto simp: prepare_obligations_def post_dispatch_obligations_def fail_op_def
          split: if_splits)
    then show ?thesis using p by blast
  qed
qed

subsection \<open>Resumes are approved\<close>

definition approved_for ::
    "capability_action_kind \<Rightarrow> resume_request \<Rightarrow> invocation_fingerprint \<Rightarrow> approval_record \<Rightarrow> bool" where
  "approved_for kind q fp a \<longleftrightarrow> ap_status a = Approved
     \<and> action_matches kind (ar_action (ap_request a)) (iq_capability_id q) (iq_estimate q)
     \<and> ar_correlation_id (ap_request a) = ec_correlation_id (iq_context q)
     \<and> ar_requested_by (ap_request a) = ExtensionPrincipal (ec_extension_id (iq_context q))
     \<and> ar_invocation_fingerprint (ap_request a) = Some fp"

definition blocked_on :: "resume_request \<Rightarrow> run_record \<Rightarrow> bool" where
  "blocked_on q rec \<longleftrightarrow> rn_status rec = BlockedApproval
     \<and> rn_capability_id rec = iq_capability_id q
     \<and> rn_approval_request_id rec = Some (iq_approval_request_id q)"

lemma resume_context_mismatch_None:
  "resume_context_mismatch_kind a b = None \<longleftrightarrow> \<not> a \<and> \<not> b"
  by (cases a; cases b) simp_all

lemma blocked_run_passed:
  assumes "check_blocked_run kernel_runs q w = (Inr u, w')"
  shows "w' = w \<and> (\<exists>rec. hm_get (request_key q) (kn_runs w) = Some rec \<and> blocked_on q rec)"
  using assms
  by (auto simp: check_blocked_run_def Let_def kernel_runs_def on_runs_def run_get_def
      fail_op_def return_op_def fail_run_with_def request_key_def blocked_on_def
      resume_context_mismatch_None split: option.splits if_splits)

lemma approval_passed:
  assumes "check_approval runs kernel_approvals kind fp q w = (Inr u, w')"
  shows "w' = w \<and> (\<exists>a. hm_get (approval_key_new (ec_resource_scope (iq_context q))
      (iq_approval_request_id q)) (kn_approvals w) = Some a \<and> approved_for kind q fp a)"
  using assms
  by (auto simp: check_approval_def Let_def kernel_approvals_def on_approvals_def approval_get_def
      validate_approval_request_matches_invocation_def approved_for_def
      fail_op_def return_op_def fail_run_with_def split: option.splits if_splits)

lemma lease_found:
  assumes "matching_approval_lease kernel_leases now c cap fp w = (m, w')"
  shows "w' = w \<and> (\<forall>l. m = Some l \<longrightarrow> l \<in> set (hm_values (kn_leases w)) \<and> lease_is_authorizing now l c
      \<and> ls_scope l = ec_resource_scope c \<and> cg_capability (ls_grant l) = cap
      \<and> ls_invocation_fingerprint l = Some fp)"
  using assms
  by (auto simp: matching_approval_lease_def kernel_leases_def on_leases_def
      Leases.active_leases_for_context_def leases_for_scope_def dest!: find_SomeD)

lemma claim_passed:
  assumes "claim_lease env runs kernel_leases q fp lease w = (Inr claimed, w')"
  shows "\<exists>l. hm_get (lease_key_new (ec_resource_scope (iq_context q)) (lease_id lease)) (kn_leases w)
        = Some l \<and> ls_status l = LeaseActive \<and> ls_invocation_fingerprint l = Some fp
      \<and> claimed = l\<lparr>ls_status := Claimed\<rparr>
      \<and> w' = w\<lparr>kn_leases := hm_insert (lease_key_new (ec_resource_scope (iq_context q))
          (lease_id lease)) claimed (kn_leases w)\<rparr>"
  using assms
  by (auto simp: claim_lease_def Let_def kernel_leases_def on_leases_def lease_claim_def
      ensure_claimable_def fail_op_def return_op_def fail_run_with_def
      split: option.splits if_splits sum.splits)

text \<open>A lease for one invocation that has been used.\<close>

definition spent_lease :: "lease_map \<Rightarrow> lease_key \<Rightarrow> bool" where
  "spent_lease m k \<longleftrightarrow> (\<exists>l. hm_get k m = Some l \<and> ls_status l \<noteq> LeaseActive
     \<and> ls_invocation_fingerprint l \<noteq> None)"

lemma spent_lease_revoke: "spent_lease m k \<Longrightarrow> spent_lease (snd (lease_revoke s i m)) k"
  by (auto simp: spent_lease_def lease_revoke_def Let_def split: option.splits)

lemma spent_lease_consume: "spent_lease m k \<Longrightarrow> spent_lease (snd (lease_consume now s i m)) k"
  by (auto simp: spent_lease_def lease_consume_def consumed_lease_def set_max_invocations_def
      ensure_consumable_def Let_def split: option.splits sum.splits if_splits lease_status.splits)

lemma prepare_keeps_leases:
  "prepare_obligations (wired_host sv) phase c cap est obs w = (r, w') \<Longrightarrow> kn_leases w' = kn_leases w"
  by (auto simp: prepare_obligations_def op_defs apfst_def map_prod_def wired_handler_def
      split: if_splits option.splits prod.splits dest!: on_services_keeps)

definition approval_lease_for ::
    "call_environment \<Rightarrow> resume_request \<Rightarrow> invocation_fingerprint \<Rightarrow> capability_lease \<Rightarrow> bool" where
  "approval_lease_for env q fp lease \<longleftrightarrow>
     lease_is_authorizing (ce_leases_at env) lease (iq_context q)
     \<and> ls_scope lease = ec_resource_scope (iq_context q)
     \<and> cg_capability (ls_grant lease) = iq_capability_id q
     \<and> ls_invocation_fingerprint lease = Some fp"

text \<open>Everything that a resume has checked when it reaches its side effect.\<close>

definition resume_authorized ::
    "call_environment \<Rightarrow> 's host_services \<Rightarrow> capability_action_kind \<Rightarrow> resume_request
     \<Rightarrow> 's host_world \<Rightarrow> invocation_fingerprint \<Rightarrow> capability_lease \<Rightarrow> obligation list \<Rightarrow> bool" where
  "resume_authorized env sv kind q w fp lease obs \<longleftrightarrow>
     context_valid (iq_context q) \<and> request_fingerprint env kind q = Inr fp \<and>
     (\<exists>rec. hm_get (request_key q) (kn_runs w) = Some rec \<and> blocked_on q rec) \<and>
     (\<exists>a. hm_get (approval_key_new (ec_resource_scope (iq_context q)) (iq_approval_request_id q))
        (kn_approvals w) = Some a \<and> approved_for kind q fp a) \<and>
     lease \<in> set (hm_values (kn_leases w)) \<and> approval_lease_for env q fp lease \<and>
     (\<exists>desc. sv_registry sv (iq_capability_id q) = Some desc \<and>
        kind_decision sv kind (ce_authorize_at env) (add_grant (iq_context q) (ls_grant lease)) desc
          (iq_estimate q) (iq_trust_decision q) w = Allow obs)"

lemma claim_and_prepare_passed:
  assumes "claim_and_prepare env (wired_host sv) kernel_runs kernel_leases kind q fp desc lease w
    = (Inr p, w2)"
  shows "kind_decision sv kind (ce_authorize_at env) (add_grant (iq_context q) (ls_grant lease)) desc
      (iq_estimate q) (iq_trust_decision q) w = Allow (rp_obligations p)
    \<and> spent_lease (kn_leases w2) (lease_key_new (ec_resource_scope (iq_context q)) (lease_id lease))
    \<and> rp_leases p = kernel_leases \<and> rp_runs p = kernel_runs"
proof -
  let ?c = "add_grant (iq_context q) (ls_grant lease)"
  obtain obs w1 where a: "authorize_resume env (wired_host sv) kernel_runs kind q desc ?c w = (Inr obs, w1)"
    and rest: "bind_op (claim_lease env kernel_runs kernel_leases q fp lease) (\<lambda>claimed w.
           case prepare_obligations (wired_host sv) (resume_phase_for kind) ?c (iq_capability_id q)
                  (iq_estimate q) obs w of
             (Inl e, w) \<Rightarrow>
               fail_and_revoke kernel_runs kernel_leases q claimed (obligation_invocation_error_kind e) e w
           | (Inr outcome, w) \<Rightarrow>
               return_op \<lparr>rp_runs = kernel_runs, rp_leases = kernel_leases, rp_context = ?c,
                 rp_descriptor = desc, rp_obligations = obs,
                 rp_claimed_lease = claimed, rp_outcome = outcome\<rparr> w) w1 = (Inr p, w2)"
    using assms by (auto simp: claim_and_prepare_def Let_def bind_op_Inr_iff)
  have 1: "w1 = w" "kind_decision sv kind (ce_authorize_at env) ?c desc (iq_estimate q)
      (iq_trust_decision q) w = Allow obs"
    using a by (auto simp: authorize_resume_def authorize_for_wired kind_decision_def return_op_def
        fail_run_with_def Let_def simp del: authorize_for.simps
        split: prod.splits decision.splits capability_action_kind.splits)
  obtain claimed w3 where c: "claim_lease env kernel_runs kernel_leases q fp lease w1 = (Inr claimed, w3)"
    and r: "(case prepare_obligations (wired_host sv) (resume_phase_for kind) ?c (iq_capability_id q)
                  (iq_estimate q) obs w3 of
             (Inl e, w) \<Rightarrow>
               fail_and_revoke kernel_runs kernel_leases q claimed (obligation_invocation_error_kind e) e w
           | (Inr outcome, w) \<Rightarrow>
               return_op \<lparr>rp_runs = kernel_runs, rp_leases = kernel_leases, rp_context = ?c,
                 rp_descriptor = desc, rp_obligations = obs,
                 rp_claimed_lease = claimed, rp_outcome = outcome\<rparr> w) = (Inr p, w2)"
    using rest by (auto simp: bind_op_Inr_iff)
  obtain o4 w4 where prep: "prepare_obligations (wired_host sv) (resume_phase_for kind) ?c
      (iq_capability_id q) (iq_estimate q) obs w3 = (o4, w4)" by fastforce
  obtain out where "o4 = Inr out" and p: "w2 = w4" "rp_obligations p = obs" "rp_leases p = kernel_leases"
      "rp_runs p = kernel_runs"
    using r prep by (cases o4) (auto simp: fail_and_revoke_def ignoring_def fail_op_def Let_def
        return_op_def)
  have "spent_lease (kn_leases w3) (lease_key_new (ec_resource_scope (iq_context q)) (lease_id lease))"
    using claim_passed [OF c] by (auto simp: spent_lease_def)
  then show ?thesis using 1 p prepare_keeps_leases [OF prep] by simp
qed

lemma resume_passed:
  assumes "resume_gate env (wired_host sv) kind q w = (Inr p, w2)"
  shows "\<exists>fp lease. resume_authorized env sv kind q w fp lease (rp_obligations p) \<and>
    spent_lease (kn_leases w2) (lease_key_new (ec_resource_scope (iq_context q)) (lease_id lease))
    \<and> rp_leases p = kernel_leases \<and> rp_runs p = kernel_runs"
proof -
  have v: "context_valid (iq_context q)"
    using assms by (auto simp: resume_gate_def Let_def fail_op_def split: if_splits)
  obtain fp where fp: "request_fingerprint env kind q = Inr fp"
    and g: "resume_checked env (wired_host sv) kernel_runs kernel_approvals kernel_leases kind q fp w
      = (Inr p, w2)"
    using assms v by (auto simp: resume_gate_def request_fingerprint_def Let_def fail_op_def
        split: sum.splits)
  obtain u1 w1 where b: "check_blocked_run kernel_runs q w = (Inr u1, w1)"
    and g1: "bind_op (check_approval kernel_runs kernel_approvals kind fp q) (\<lambda>_.
           case sv_registry sv (iq_capability_id q) of
             None \<Rightarrow> fail_run_with (Some kernel_runs) (ec_resource_scope (iq_context q))
               (ec_invocation_id (iq_context q)) ''UnknownCapability''
               (UnknownCapability (iq_capability_id q))
           | Some descriptor \<Rightarrow> (\<lambda>w.
               case matching_approval_lease kernel_leases (ce_leases_at env) (iq_context q)
                      (iq_capability_id q) fp w of
                 (None, w) \<Rightarrow> fail_run_with (Some kernel_runs) (ec_resource_scope (iq_context q))
                   (ec_invocation_id (iq_context q)) ''ApprovalLeaseMissing''
                   (ApprovalLeaseMissing (iq_capability_id q)) w
               | (Some lease, w) \<Rightarrow> claim_and_prepare env (wired_host sv) kernel_runs kernel_leases
                   kind q fp descriptor lease w)) w1 = (Inr p, w2)"
    using g by (auto simp: resume_checked_def Let_def bind_op_Inr_iff)
  have 1: "w1 = w" "\<exists>rec. hm_get (request_key q) (kn_runs w) = Some rec \<and> blocked_on q rec"
    using blocked_run_passed [OF b] by auto
  obtain u2 w3 where a: "check_approval kernel_runs kernel_approvals kind fp q w = (Inr u2, w3)"
    and g2: "(case sv_registry sv (iq_capability_id q) of
             None \<Rightarrow> fail_run_with (Some kernel_runs) (ec_resource_scope (iq_context q))
               (ec_invocation_id (iq_context q)) ''UnknownCapability''
               (UnknownCapability (iq_capability_id q))
           | Some descriptor \<Rightarrow> (\<lambda>w.
               case matching_approval_lease kernel_leases (ce_leases_at env) (iq_context q)
                      (iq_capability_id q) fp w of
                 (None, w) \<Rightarrow> fail_run_with (Some kernel_runs) (ec_resource_scope (iq_context q))
                   (ec_invocation_id (iq_context q)) ''ApprovalLeaseMissing''
                   (ApprovalLeaseMissing (iq_capability_id q)) w
               | (Some lease, w) \<Rightarrow> claim_and_prepare env (wired_host sv) kernel_runs kernel_leases
                   kind q fp descriptor lease w)) w3 = (Inr p, w2)"
    using g1 1 by (auto simp: bind_op_Inr_iff)
  note ap = approval_passed [OF a]
  obtain desc where d: "sv_registry sv (iq_capability_id q) = Some desc"
    using g2 by (cases "sv_registry sv (iq_capability_id q)") (simp_all add: fail_run_with_def)
  obtain m w4 where m: "matching_approval_lease kernel_leases (ce_leases_at env) (iq_context q)
      (iq_capability_id q) fp w3 = (m, w4)" by fastforce
  obtain lease where l: "m = Some lease" and g3: "claim_and_prepare env (wired_host sv) kernel_runs
      kernel_leases kind q fp desc lease w4 = (Inr p, w2)"
    using g2 d m by (cases m) (simp_all add: fail_run_with_def)
  have "w3 = w" using ap by simp
  moreover have "w4 = w3" "approval_lease_for env q fp lease" "lease \<in> set (hm_values (kn_leases w3))"
    using lease_found [OF m] l by (simp_all add: approval_lease_for_def)
  ultimately show ?thesis
    using v fp 1 ap d claim_and_prepare_passed [OF g3]
    unfolding resume_authorized_def by blast
qed

lemma complete_keeps_leases:
  "complete_dispatch_obligations (wired_host sv) phase c cap est obs d w = (r, w') \<Longrightarrow>
     kn_leases w' = kn_leases w"
  by (auto simp: complete_dispatch_obligations_def op_defs apfst_def map_prod_def wired_handler_def
      Let_def split: if_splits option.splits prod.splits dest!: on_services_keeps)

lemma abort_keeps_leases:
  "kn_leases (abort_obligations (wired_host sv) phase c cap est obs out w) = kn_leases w"
  using on_services_keeps [OF surjective_pairing]
  by (auto simp: abort_obligations_def wired_handler_def split: option.splits)

lemma dispatch_keeps_leases:
  "dispatch_stage (wired_host sv) phase c q obs out w = (r, w') \<Longrightarrow> kn_leases w' = kn_leases w"
  by (auto simp: dispatch_stage_def Let_def abort_keeps_leases split: prod.splits sum.splits
      dest!: recording_keeps complete_keeps_leases)

lemma spawn_keeps_leases:
  "spawn_stage env (wired_host sv) (\<lambda>p. recording (ps_scope p) (f p)) c q desc obs out w = (r, w') \<Longrightarrow>
     kn_leases w' = kn_leases w"
  by (auto simp: spawn_stage_def abort_keeps_leases split: prod.splits sum.splits
      dest!: recording_keeps)

lemma on_runs_leases [simp]: "kn_leases (snd (on_runs f w)) = kn_leases w"
  by (simp add: on_runs_def split: prod.splits)

lemma fail_run_leases [simp]:
  "kn_leases (fail_run_if_configured (Some kernel_runs) s i e w) = kn_leases w"
  by (auto simp: fail_run_if_configured_def fail_run_def bind_op_def return_op_def kernel_runs_def
      on_runs_def split: sum.splits prod.splits)

lemma complete_run_leases [simp]:
  "kn_leases (complete_run_after_side_effect kernel_runs s i w) = kn_leases w"
  by (simp add: complete_run_after_side_effect_def kernel_runs_def)

lemma fail_and_revoke_spent:
  assumes "spent_lease (kn_leases w) k"
  shows "spent_lease (kn_leases (snd (fail_and_revoke kernel_runs kernel_leases q cl kind e w))) k"
  using assms
  by (auto simp: fail_and_revoke_def Let_def ignoring_def fail_op_def kernel_leases_def on_leases_def
      dest: spent_lease_revoke split: prod.splits)
    (metis snd_conv spent_lease_revoke)

lemma finish_resume_spent:
  assumes "spent_lease (kn_leases w) k" "rp_leases p = kernel_leases" "rp_runs p = kernel_runs"
  shows "spent_lease (kn_leases (finish_resume env q p w)) k"
proof -
  have "kn_leases (finish_resume env q p w) = snd (lease_consume (ce_consume_at env)
      (ec_resource_scope (iq_context q)) (lease_id (rp_claimed_lease p)) (kn_leases w))"
    using assms(2,3)
    by (simp add: finish_resume_def Let_def ignoring_def kernel_leases_def on_leases_def
        split: prod.splits)
  then show ?thesis using spent_lease_consume [OF assms(1)] by simp
qed

text \<open>
  C2: A resume dispatches only what was approved, and each lease only once: it leaves the side
  effects as they were, unless the run is blocked on exactly this approval of this capability,
  the approval is granted for this action, correlation, requester and fingerprint, an active
  unexpired lease with that fingerprint belongs to this very invocation, and the authorizer
  allows the context extended by the lease's grant. Then the lease is used up afterwards,
  whatever the outcome.
\<close>

theorem resume_dispatches_only_approved:
  "effect_count (snd (resume_json env (wired_host sv) q w)) = effect_count w \<or>
   (\<exists>fp lease obs. resume_authorized env sv DispatchAction q w fp lease obs \<and>
     spent_lease (kn_leases (snd (resume_json env (wired_host sv) q w)))
       (lease_key_new (ec_resource_scope (iq_context q)) (lease_id lease)))"
proof -
  obtain r w1 where g: "resume_gate env (wired_host sv) DispatchAction q w = (r, w1)" by fastforce
  show ?thesis
  proof (cases r)
    case (Inl e)
    then show ?thesis using g wired.resume_gate [OF g]
      by (simp add: resume_json_def bind_op_def wired.stays_or_fails_def)
  next
    case (Inr p)
    then obtain fp lease where rp: "resume_authorized env sv DispatchAction q w fp lease (rp_obligations p)"
      "spent_lease (kn_leases w1) (lease_key_new (ec_resource_scope (iq_context q)) (lease_id lease))"
      "rp_leases p = kernel_leases" "rp_runs p = kernel_runs"
      using resume_passed g by blast
    obtain r2 w2 where d: "dispatch_stage (wired_host sv) ResumePhase (rp_context p) q
        (rp_obligations p) (rp_outcome p) w1 = (r2, w2)" by fastforce
    have "spent_lease (kn_leases w2) (lease_key_new (ec_resource_scope (iq_context q)) (lease_id lease))"
      using rp(2) dispatch_keeps_leases [OF d] by simp
    then have "spent_lease (kn_leases (snd (resume_json env (wired_host sv) q w)))
        (lease_key_new (ec_resource_scope (iq_context q)) (lease_id lease))"
      using g Inr d rp(3,4)
      by (cases r2) (auto simp: resume_json_def bind_op_def intro: fail_and_revoke_spent
          finish_resume_spent)
    then show ?thesis using rp(1) by blast
  qed
qed

text \<open>
  C5: A resumed spawn starts a process only under a granted approval: the checks are those of a
  resumed dispatch, with the spawn action, the spawn fingerprint and the spawn decision, and the
  lease is used up as well.
\<close>

theorem resume_spawns_only_approved:
  "effect_count (snd (resume_spawn_json env (wired_host sv) q w)) = effect_count w \<or>
   (\<exists>fp lease obs. resume_authorized env sv SpawnAction q w fp lease obs \<and>
     spent_lease (kn_leases (snd (resume_spawn_json env (wired_host sv) q w)))
       (lease_key_new (ec_resource_scope (iq_context q)) (lease_id lease)))"
proof (cases "sv_process_manager sv")
  case None
  then show ?thesis by (simp add: resume_spawn_json_def fail_op_def)
next
  case m: (Some f)
  obtain r w1 where g: "resume_gate env (wired_host sv) SpawnAction q w = (r, w1)" by fastforce
  show ?thesis
  proof (cases r)
    case (Inl e)
    then show ?thesis using g m wired.resume_gate [OF g]
      by (simp add: resume_spawn_json_def bind_op_def wired.stays_or_fails_def)
  next
    case (Inr p)
    then obtain fp lease where rp: "resume_authorized env sv SpawnAction q w fp lease (rp_obligations p)"
      "spent_lease (kn_leases w1) (lease_key_new (ec_resource_scope (iq_context q)) (lease_id lease))"
      "rp_leases p = kernel_leases" "rp_runs p = kernel_runs"
      using resume_passed g by blast
    obtain r2 w2 where d: "spawn_stage env (wired_host sv) (\<lambda>p. recording (ps_scope p) (f p))
        (rp_context p) q (rp_descriptor p) (rp_obligations p) (rp_outcome p) w1 = (r2, w2)" by fastforce
    have "spent_lease (kn_leases w2) (lease_key_new (ec_resource_scope (iq_context q)) (lease_id lease))"
      using rp(2) spawn_keeps_leases [OF d] by simp
    then have "spent_lease (kn_leases (snd (resume_spawn_json env (wired_host sv) q w)))
        (lease_key_new (ec_resource_scope (iq_context q)) (lease_id lease))"
      using g Inr d m rp(3,4)
      by (cases r2) (auto simp: resume_spawn_json_def bind_op_def intro: fail_and_revoke_spent
          finish_resume_spent)
    then show ?thesis using rp(1) by blast
  qed
qed

subsection \<open>Runs are settled\<close>

text \<open>
  C6: An invocation that gets a run record leaves it settled, whatever the services do: Completed
  exactly if it returns a result, BlockedApproval exactly if it returns that an approval is
  required, and Failed for every other error; it is never left Running.
\<close>

theorem invoke_settles_run:
  assumes "context_valid (iq_context q)" "request_fingerprint env DispatchAction q = Inr fp"
    and "hm_get (request_key q) (kn_runs w) = None"
  shows "\<exists>rec. hm_get (request_key q) (kn_runs (snd (invoke_json env (wired_host sv) q w))) = Some rec
    \<and> rn_status rec = settled (fst (invoke_json env (wired_host sv) q w))"
proof -
  have "\<not> run_refused env kernel_runs DispatchAction q w"
    using assms by (simp add: run_refused_def start_request_def kernel_runs_def on_runs_def
        run_start_record_def request_key_def Let_def)
  from wired.invoke_settles [OF surjective_pairing this, of sv]
  show ?thesis by (simp add: run_statuses_def)
qed

definition sample_environment :: call_environment where
  "sample_environment = \<lparr>ce_to_vec = (\<lambda>_. Inr [7]), ce_sha256 = id, ce_leases_at = 0,
     ce_authorize_at = 0, ce_claim_at = 0, ce_consume_at = 0, ce_process_id = 5\<rparr>"

definition sample_invocation :: invocation_request where
  "sample_invocation = \<lparr>iq_context = sample_context [], iq_capability_id = ''ext.run'',
     iq_estimate = no_estimate, iq_input = JNull, iq_trust_decision = sample_trust\<rparr>"

definition sample_result :: dispatch_result where
  "sample_result = \<lparr>dr_capability_id = ''ext.run'', dr_provider = ''ext'', dr_runtime = Wasm,
     dr_output = JNull,
     dr_usage = \<lparr>ru_usd = 0, ru_input_tokens = 0, ru_output_tokens = 0, ru_wall_clock_ms = 0,
       ru_output_bytes = 0, ru_network_egress_bytes = 0, ru_process_count = 0\<rparr>,
     dr_receipt = \<lparr>rr_id = 9, rr_scope = sample_owner, rr_status = Reconciled,
       rr_estimate = no_estimate, rr_actual = None\<rparr>\<rparr>"

definition sample_services :: "unit host_services" where
  "sample_services = \<lparr>sv_registry = (\<lambda>_. Some sample_descriptor),
     sv_dispatch_decision = (\<lambda>_ _ _ _ _ _. Allow []),
     sv_spawn_decision = (\<lambda>_ _ _ _ _ _. Deny PolicyDenied),
     sv_dispatcher = (\<lambda>_ s. (Inr sample_result, s)),
     sv_process_manager = None, sv_handler = None\<rparr>"

lemma sample_fingerprint:
  "request_fingerprint sample_environment DispatchAction sample_invocation = Inr ''sha256:07''"
  by (simp add: request_fingerprint_def sample_environment_def sample_invocation_def
      fingerprint_for_dispatch_def fingerprint_for_action_def canonical_json_JNull HEX_def)

lemma sample_invoke:
  "fst (invoke_json sample_environment (wired_host sample_services) sample_invocation (fresh_world ()))
     = Inr sample_result"
proof -
  have fp: "invocation_fingerprint_for_kind sample_environment DispatchAction sample_owner ''ext.run''
      no_estimate JNull = Inr ''sha256:07''"
    using sample_fingerprint by (simp add: request_fingerprint_def sample_invocation_def sample_context_def)
  show ?thesis
    using fp sample_context_valid [of "[]"]
    by (simp add: invoke_json_def invocation_gate_def Let_def sample_invocation_def sample_context_def
        bind_op_def start_run_def map_err_op_def kernel_runs_def on_runs_def run_start_record_def
        return_op_def decide_invocation_def wired_host_def reading_authorizer_def sample_services_def
        prepare_obligations_def dispatch_stage_def recording_def on_services_def fresh_world_def
        complete_dispatch_obligations_def)
qed

theorem invoke_settles_run_witness:
  "\<exists>rec. hm_get (request_key sample_invocation) (kn_runs (snd (invoke_json sample_environment
       (wired_host sample_services) sample_invocation (fresh_world ())))) = Some rec
     \<and> rn_status rec = Completed"
  using invoke_settles_run [OF _ sample_fingerprint, of "fresh_world ()" sample_services]
    sample_context_valid [of "[]"]
  by (simp add: sample_invocation_def fresh_world_def sample_invoke [unfolded sample_invocation_def fresh_world_def])

end
