(* ===== verification/Secrets.thy ===== *)
theory Secrets
  imports RunState
begin

section \<open>Secrets and their one-shot leases\<close>

text \<open>
  \<open>crates/ironclaw_secrets/src/lib.rs\<close>: secret material is stored per tenant, user, agent and
  project, and leaves the store only through a lease that is good for one consumption. The
  state is the \<open>SecretState\<close> behind the mutex: two hash maps. \<open>SecretLeaseId::new()\<close> draws a
  random UUID, which is an argument of \<open>secret_lease_once\<close>; \<open>SecretString\<close> is the string it
  guards. The trait is a record of methods.
\<close>

type_synonym secret_lease_id = uuid
type_synonym secret_material = string

record secret_metadata =
  sm_scope :: resource_scope
  sm_handle :: secret_handle

datatype secret_lease_status = SecretActive | SecretConsumed | SecretRevoked

record secret_lease =
  sl_id :: secret_lease_id
  sl_scope :: resource_scope
  sl_handle :: secret_handle
  sl_status :: secret_lease_status

datatype secret_store_error =
    UnknownSecret resource_scope secret_handle
  | UnknownSecretLease resource_scope secret_lease_id
  | SecretLeaseConsumed secret_lease_id
  | SecretLeaseRevoked secret_lease_id
  | SecretStoreUnavailable string

fun is_unknown_secret :: "secret_store_error \<Rightarrow> bool" where
  "is_unknown_secret (UnknownSecret _ _) = True"
| "is_unknown_secret _ = False"

fun is_unknown_lease :: "secret_store_error \<Rightarrow> bool" where
  "is_unknown_lease (UnknownSecretLease _ _) = True"
| "is_unknown_lease _ = False"

fun is_consumed :: "secret_store_error \<Rightarrow> bool" where
  "is_consumed (SecretLeaseConsumed _) = True"
| "is_consumed _ = False"

fun is_revoked :: "secret_store_error \<Rightarrow> bool" where
  "is_revoked (SecretLeaseRevoked _) = True"
| "is_revoked _ = False"

subsection \<open>Keys and state\<close>

record secret_key =
  sk_tenant_id :: tenant_id
  sk_user_id :: user_id
  sk_agent_id :: "agent_id option"
  sk_project_id :: "project_id option"
  sk_handle :: secret_handle

definition secret_key_new :: "resource_scope \<Rightarrow> secret_handle \<Rightarrow> secret_key" where
  "secret_key_new s h = \<lparr>sk_tenant_id = rs_tenant_id s, sk_user_id = rs_user_id s,
     sk_agent_id = rs_agent_id s, sk_project_id = rs_project_id s, sk_handle = h\<rparr>"

record secret_lease_key = owner_key +
  slk_invocation_id :: invocation_id
  slk_lease_id :: secret_lease_id

definition secret_lease_key_new :: "resource_scope \<Rightarrow> secret_lease_id \<Rightarrow> secret_lease_key" where
  "secret_lease_key_new s i = \<lparr>ok_tenant_id = rs_tenant_id s, ok_user_id = rs_user_id s,
     ok_agent_id = rs_agent_id s, ok_project_id = rs_project_id s,
     ok_mission_id = rs_mission_id s, ok_thread_id = rs_thread_id s,
     slk_invocation_id = rs_invocation_id s, slk_lease_id = i\<rparr>"

definition secret_lease_key_matches_scope :: "secret_lease_key \<Rightarrow> resource_scope \<Rightarrow> bool" where
  "secret_lease_key_matches_scope k s \<longleftrightarrow>
     ok_tenant_id k = rs_tenant_id s \<and> ok_user_id k = rs_user_id s
     \<and> ok_agent_id k = rs_agent_id s \<and> ok_project_id k = rs_project_id s
     \<and> ok_mission_id k = rs_mission_id s \<and> ok_thread_id k = rs_thread_id s
     \<and> slk_invocation_id k = rs_invocation_id s"

record secret_record =
  sr_metadata :: secret_metadata
  sr_material :: secret_material

record secret_lease_record =
  slr_lease :: secret_lease
  slr_material :: "secret_material option"

record secret_state =
  ss_secrets :: "(secret_key, secret_record) hash_map"
  ss_leases :: "(secret_lease_key, secret_lease_record) hash_map"

definition secret_state_default :: secret_state where
  "secret_state_default = \<lparr>ss_secrets = [], ss_leases = []\<rparr>"

subsection \<open>The in-memory store\<close>

definition secret_put ::
    "resource_scope \<Rightarrow> secret_handle \<Rightarrow> secret_material
     \<Rightarrow> (secret_state, secret_store_error, secret_metadata) operation" where
  "secret_put scope handle material st =
     (let metadata = \<lparr>sm_scope = scope, sm_handle = handle\<rparr>;
          record = \<lparr>sr_metadata = metadata, sr_material = material\<rparr>
      in (Inr metadata,
          st\<lparr>ss_secrets := hm_insert (secret_key_new scope handle) record (ss_secrets st)\<rparr>))"

definition secret_metadata_of ::
    "resource_scope \<Rightarrow> secret_handle
     \<Rightarrow> (secret_state, secret_store_error, secret_metadata option) operation" where
  "secret_metadata_of scope handle st =
     (Inr (map_option sr_metadata (hm_get (secret_key_new scope handle) (ss_secrets st))), st)"

definition secret_lease_once ::
    "secret_lease_id \<Rightarrow> resource_scope \<Rightarrow> secret_handle
     \<Rightarrow> (secret_state, secret_store_error, secret_lease) operation" where
  "secret_lease_once new_id scope handle st =
     (case hm_get (secret_key_new scope handle) (ss_secrets st) of
        None \<Rightarrow> (Inl (UnknownSecret scope handle), st)
      | Some secret \<Rightarrow>
          (let lease = \<lparr>sl_id = new_id, sl_scope = scope, sl_handle = handle,
                 sl_status = SecretActive\<rparr>;
               record = \<lparr>slr_lease = lease, slr_material = Some (sr_material secret)\<rparr>
           in (Inr lease,
               st\<lparr>ss_leases :=
                 hm_insert (secret_lease_key_new scope (sl_id lease)) record (ss_leases st)\<rparr>)))"

definition set_secret_status ::
    "secret_lease_status \<Rightarrow> secret_lease_record \<Rightarrow> secret_lease_record" where
  "set_secret_status status r = r\<lparr>slr_lease := (slr_lease r)\<lparr>sl_status := status\<rparr>\<rparr>"

definition secret_consume ::
    "resource_scope \<Rightarrow> secret_lease_id
     \<Rightarrow> (secret_state, secret_store_error, secret_material) operation" where
  "secret_consume scope lease_id st =
     (let key = secret_lease_key_new scope lease_id;
          write = (\<lambda>r. st\<lparr>ss_leases := hm_insert key r (ss_leases st)\<rparr>)
      in case hm_get key (ss_leases st) of
        None \<Rightarrow> (Inl (UnknownSecretLease scope lease_id), st)
      | Some record \<Rightarrow>
          (case sl_status (slr_lease record) of
             SecretActive \<Rightarrow>
               (let taken = record\<lparr>slr_material := None\<rparr> in
                case slr_material record of
                  None \<Rightarrow> (Inl (SecretStoreUnavailable ''active lease material unavailable''),
                           write (set_secret_status SecretConsumed taken))
                | Some material \<Rightarrow> (Inr material, write (set_secret_status SecretConsumed taken)))
           | SecretConsumed \<Rightarrow> (Inl (SecretLeaseConsumed lease_id), st)
           | SecretRevoked \<Rightarrow> (Inl (SecretLeaseRevoked lease_id), st)))"

definition secret_revoke ::
    "resource_scope \<Rightarrow> secret_lease_id
     \<Rightarrow> (secret_state, secret_store_error, secret_lease) operation" where
  "secret_revoke scope lease_id st =
     (let key = secret_lease_key_new scope lease_id
      in case hm_get key (ss_leases st) of
        None \<Rightarrow> (Inl (UnknownSecretLease scope lease_id), st)
      | Some record \<Rightarrow>
          if sl_status (slr_lease record) = SecretActive then
            (let record' = set_secret_status SecretRevoked (record\<lparr>slr_material := None\<rparr>)
             in (Inr (slr_lease record'),
                 st\<lparr>ss_leases := hm_insert key record' (ss_leases st)\<rparr>))
          else (Inr (slr_lease record), st))"

definition secret_leases_for_scope ::
    "resource_scope \<Rightarrow> (secret_state, secret_store_error, secret_lease list) operation" where
  "secret_leases_for_scope scope st =
     (Inr (map (\<lambda>(k, r). slr_lease r)
        (filter (\<lambda>(k, r). secret_lease_key_matches_scope k scope) (ss_leases st))), st)"

subsection \<open>The trait\<close>

record 'w secret_store =
  sst_put :: "resource_scope \<Rightarrow> secret_handle \<Rightarrow> secret_material
    \<Rightarrow> ('w, secret_store_error, secret_metadata) operation"
  sst_metadata :: "resource_scope \<Rightarrow> secret_handle
    \<Rightarrow> ('w, secret_store_error, secret_metadata option) operation"
  sst_lease_once :: "secret_lease_id \<Rightarrow> resource_scope \<Rightarrow> secret_handle
    \<Rightarrow> ('w, secret_store_error, secret_lease) operation"
  sst_consume :: "resource_scope \<Rightarrow> secret_lease_id
    \<Rightarrow> ('w, secret_store_error, secret_material) operation"
  sst_revoke :: "resource_scope \<Rightarrow> secret_lease_id
    \<Rightarrow> ('w, secret_store_error, secret_lease) operation"
  sst_leases_for_scope :: "resource_scope
    \<Rightarrow> ('w, secret_store_error, secret_lease list) operation"

definition in_memory_secrets :: "secret_state secret_store" where
  "in_memory_secrets = \<lparr>sst_put = secret_put, sst_metadata = secret_metadata_of,
     sst_lease_once = secret_lease_once, sst_consume = secret_consume,
     sst_revoke = secret_revoke, sst_leases_for_scope = secret_leases_for_scope\<rparr>"

subsection \<open>Commands\<close>

datatype secret_command =
    PutSecret resource_scope secret_handle secret_material
  | LookupSecret resource_scope secret_handle
  | LeaseSecret secret_lease_id resource_scope secret_handle
  | ConsumeSecret resource_scope secret_lease_id
  | RevokeSecret resource_scope secret_lease_id
  | ListSecretLeases resource_scope

datatype secret_reply =
    StoredSecret "(secret_store_error, secret_metadata) result"
  | FoundSecret "(secret_store_error, secret_metadata option) result"
  | LeasedSecret "(secret_store_error, secret_lease) result"
  | ReleasedSecret "(secret_store_error, secret_material) result"
  | ListedSecrets "(secret_store_error, secret_lease list) result"

fun secret_step :: "'w secret_store \<Rightarrow> secret_command \<Rightarrow> 'w \<Rightarrow> secret_reply \<times> 'w" where
  "secret_step sec (PutSecret s h m) w = apfst StoredSecret (sst_put sec s h m w)"
| "secret_step sec (LookupSecret s h) w = apfst FoundSecret (sst_metadata sec s h w)"
| "secret_step sec (LeaseSecret i s h) w = apfst LeasedSecret (sst_lease_once sec i s h w)"
| "secret_step sec (ConsumeSecret s i) w = apfst ReleasedSecret (sst_consume sec s i w)"
| "secret_step sec (RevokeSecret s i) w = apfst LeasedSecret (sst_revoke sec s i w)"
| "secret_step sec (ListSecretLeases s) w = apfst ListedSecrets (sst_leases_for_scope sec s w)"

lemmas secret_store_defs = in_memory_secrets_def secret_put_def secret_metadata_of_def
  secret_lease_once_def secret_consume_def secret_revoke_def secret_leases_for_scope_def Let_def

subsection \<open>The specification: a vault of one-shot tokens\<close>

text \<open>
  What the store promises, without its records: a map of secrets by owner and handle, and a map
  of tokens, each good for one release of the material it was made from. A listing is a set.
\<close>

datatype token = Live secret_material | Spent | Withdrawn

record vault =
  va_secrets :: "secret_key \<rightharpoonup> resource_scope \<times> secret_material"
  va_tokens :: "secret_lease_key \<rightharpoonup> secret_handle \<times> token"

definition vault_empty :: vault where
  "vault_empty = \<lparr>va_secrets = Map.empty, va_tokens = Map.empty\<rparr>"

fun token_status :: "token \<Rightarrow> secret_lease_status" where
  "token_status (Live _) = SecretActive"
| "token_status Spent = SecretConsumed"
| "token_status Withdrawn = SecretRevoked"

abbreviation token_lease ::
    "secret_lease_id \<Rightarrow> resource_scope \<Rightarrow> secret_handle \<Rightarrow> token \<Rightarrow> secret_lease" where
  "token_lease i s h t \<equiv> \<lparr>sl_id = i, sl_scope = s, sl_handle = h, sl_status = token_status t\<rparr>"

fun vault_step ::
    "secret_command \<Rightarrow> vault \<Rightarrow> (secret_reply + secret_lease set) \<times> vault" where
  "vault_step (PutSecret s h m) v =
     (Inl (StoredSecret (Inr \<lparr>sm_scope = s, sm_handle = h\<rparr>)),
      v\<lparr>va_secrets := (va_secrets v)(secret_key_new s h \<mapsto> (s, m))\<rparr>)"
| "vault_step (LookupSecret s h) v =
     (Inl (FoundSecret (Inr (map_option (\<lambda>(t, _). \<lparr>sm_scope = t, sm_handle = h\<rparr>)
        (va_secrets v (secret_key_new s h))))), v)"
| "vault_step (LeaseSecret i s h) v =
     (case va_secrets v (secret_key_new s h) of
        None \<Rightarrow> (Inl (LeasedSecret (Inl (UnknownSecret s h))), v)
      | Some (_, m) \<Rightarrow> (Inl (LeasedSecret (Inr (token_lease i s h (Live m)))),
          v\<lparr>va_tokens := (va_tokens v)(secret_lease_key_new s i \<mapsto> (h, Live m))\<rparr>))"
| "vault_step (ConsumeSecret s i) v =
     (case va_tokens v (secret_lease_key_new s i) of
        None \<Rightarrow> (Inl (ReleasedSecret (Inl (UnknownSecretLease s i))), v)
      | Some (h, Live m) \<Rightarrow> (Inl (ReleasedSecret (Inr m)),
          v\<lparr>va_tokens := (va_tokens v)(secret_lease_key_new s i \<mapsto> (h, Spent))\<rparr>)
      | Some (h, Spent) \<Rightarrow> (Inl (ReleasedSecret (Inl (SecretLeaseConsumed i))), v)
      | Some (h, Withdrawn) \<Rightarrow> (Inl (ReleasedSecret (Inl (SecretLeaseRevoked i))), v))"
| "vault_step (RevokeSecret s i) v =
     (case va_tokens v (secret_lease_key_new s i) of
        None \<Rightarrow> (Inl (LeasedSecret (Inl (UnknownSecretLease s i))), v)
      | Some (h, t) \<Rightarrow> (let t' = (if token_status t = SecretActive then Withdrawn else t) in
          (Inl (LeasedSecret (Inr (token_lease i s h t'))),
           v\<lparr>va_tokens := (va_tokens v)(secret_lease_key_new s i \<mapsto> (h, t'))\<rparr>)))"
| "vault_step (ListSecretLeases s) v =
     (Inr {l. \<exists>i h t. va_tokens v (secret_lease_key_new s i) = Some (h, t)
        \<and> l = token_lease i s h t}, v)"

fun secret_reply_matches :: "secret_reply \<Rightarrow> secret_reply + secret_lease set \<Rightarrow> bool" where
  "secret_reply_matches r (Inl q) = (r = q)"
| "secret_reply_matches (ListedSecrets (Inr ls)) (Inr S) = (set ls = S \<and> distinct (map sl_id ls))"
| "secret_reply_matches _ _ = False"

subsection \<open>The abstraction\<close>

fun token_of :: "secret_lease_status \<Rightarrow> secret_material option \<Rightarrow> token" where
  "token_of SecretActive (Some m) = Live m"
| "token_of SecretActive None = Withdrawn"
| "token_of SecretConsumed _ = Spent"
| "token_of SecretRevoked _ = Withdrawn"

definition record_token :: "secret_lease_record \<Rightarrow> secret_handle \<times> token" where
  "record_token r = (sl_handle (slr_lease r), token_of (sl_status (slr_lease r)) (slr_material r))"

definition vault_of :: "secret_state \<Rightarrow> vault" where
  "vault_of st = \<lparr>
     va_secrets = (\<lambda>k. map_option (\<lambda>r. (sm_scope (sr_metadata r), sr_material r))
       (hm_get k (ss_secrets st))),
     va_tokens = (\<lambda>k. map_option record_token (hm_get k (ss_leases st)))\<rparr>"

abbreviation secret_record_key :: "secret_record \<Rightarrow> secret_key" where
  "secret_record_key r \<equiv> secret_key_new (sm_scope (sr_metadata r)) (sm_handle (sr_metadata r))"

abbreviation secret_lease_record_key :: "secret_lease_record \<Rightarrow> secret_lease_key" where
  "secret_lease_record_key r \<equiv> secret_lease_key_new (sl_scope (slr_lease r)) (sl_id (slr_lease r))"

text \<open>
  The invariant of the store: records are filed under their own keys, and a lease retains
  material exactly while it is active.
\<close>

definition secrets_ok :: "secret_state \<Rightarrow> bool" where
  "secrets_ok st \<longleftrightarrow> hm_keyed secret_record_key (ss_secrets st)
     \<and> hm_keyed secret_lease_record_key (ss_leases st)
     \<and> (\<forall>k r. hm_get k (ss_leases st) = Some r \<longrightarrow>
          (slr_material r \<noteq> None \<longleftrightarrow> sl_status (slr_lease r) = SecretActive))"

lemma secret_key_new_eq_iff:
  "secret_key_new s h = secret_key_new t g \<longleftrightarrow>
     rs_tenant_id s = rs_tenant_id t \<and> rs_user_id s = rs_user_id t
     \<and> rs_agent_id s = rs_agent_id t \<and> rs_project_id s = rs_project_id t \<and> h = g"
  by (auto simp: secret_key_new_def)

lemma secret_lease_key_new_eq_iff [simp]:
  "secret_lease_key_new s i = secret_lease_key_new t j \<longleftrightarrow> s = t \<and> i = j"
  by (cases s, cases t) (auto simp: secret_lease_key_new_def)

lemma secret_lease_key_matches_iff [simp]:
  "secret_lease_key_matches_scope (secret_lease_key_new t i) s \<longleftrightarrow> t = s"
  by (cases s, cases t) (auto simp: secret_lease_key_new_def secret_lease_key_matches_scope_def)

lemma set_secret_status_simps [simp]:
  "sl_id (slr_lease (set_secret_status x r)) = sl_id (slr_lease r)"
  "sl_scope (slr_lease (set_secret_status x r)) = sl_scope (slr_lease r)"
  "sl_handle (slr_lease (set_secret_status x r)) = sl_handle (slr_lease r)"
  "sl_status (slr_lease (set_secret_status x r)) = x"
  "slr_material (set_secret_status x r) = slr_material r"
  by (simp_all add: set_secret_status_def)

lemma secrets_ok_default [simp]: "secrets_ok secret_state_default"
  by (simp add: secrets_ok_def secret_state_default_def)

lemma vault_of_default [simp]: "vault_of secret_state_default = vault_empty"
  by (simp add: vault_of_def vault_empty_def secret_state_default_def)

lemma secrets_ok_secret:
  "secrets_ok st \<Longrightarrow> hm_get l (ss_secrets st) = Some q \<Longrightarrow> l = secret_record_key q"
  by (auto simp: secrets_ok_def dest: hm_keyed_get)

lemma secrets_ok_get:
  assumes "secrets_ok st"
  shows "hm_get k (ss_leases st) = Some r \<Longrightarrow> k = secret_lease_record_key r"
    and "hm_get k (ss_leases st) = Some r \<Longrightarrow>
      (slr_material r \<noteq> None \<longleftrightarrow> sl_status (slr_lease r) = SecretActive)"
  using assms by (auto simp: secrets_ok_def dest: hm_keyed_get)

subsection \<open>The store implements the vault\<close>

lemma secrets_ok_step: "secrets_ok st \<Longrightarrow> secrets_ok (snd (secret_step in_memory_secrets c st))"
  by (cases c)
    (auto simp: secret_store_defs secrets_ok_def split: option.splits secret_lease_status.splits
      intro!: hm_keyed_insert dest: hm_keyed_get)

lemma vault_of_step:
  assumes "secrets_ok st"
  shows "vault_of (snd (secret_step in_memory_secrets c st)) = snd (vault_step c (vault_of st))"
proof (cases c)
  case (ConsumeSecret s i)
  then show ?thesis using secrets_ok_get [OF assms, of "secret_lease_key_new s i"]
    by (auto simp: secret_store_defs vault_of_def record_token_def fun_eq_iff
        split: option.splits secret_lease_status.splits)
next
  case (RevokeSecret s i)
  then show ?thesis using secrets_ok_get [OF assms, of "secret_lease_key_new s i"]
    by (cases "hm_get (secret_lease_key_new s i) (ss_leases st)")
      (auto simp: secret_store_defs vault_of_def record_token_def fun_eq_iff
        elim!: token_of.elims token_status.elims)
qed (auto simp: secret_store_defs vault_of_def record_token_def fun_eq_iff split: option.splits)

lemma secret_listing_values:
  "hm_keyed secret_lease_record_key m \<Longrightarrow>
     map (\<lambda>(k, r). slr_lease r) (filter (\<lambda>(k, r). secret_lease_key_matches_scope k s) m) =
     map slr_lease (filter (\<lambda>r. sl_scope (slr_lease r) = s) (hm_values m))"
  by (induction m) (auto simp: hm_keyed_def hm_values_def hm_keys_distinct_def)

lemma secret_listing:
  fixes s :: resource_scope
  assumes "secrets_ok st"
  defines "ls \<equiv> map (\<lambda>(k, r). slr_lease r)
        (filter (\<lambda>(k, r). secret_lease_key_matches_scope k s) (ss_leases st))"
  shows "set ls = {l. \<exists>i h t. va_tokens (vault_of st) (secret_lease_key_new s i) = Some (h, t)
        \<and> l = token_lease i s h t}"
    and "distinct (map sl_id ls)"
proof -
  let ?m = "ss_leases st"
  have k: "hm_keyed secret_lease_record_key ?m" using assms(1) by (simp add: secrets_ok_def)
  have ls: "ls = map slr_lease (filter (\<lambda>r. sl_scope (slr_lease r) = s) (hm_values ?m))"
    unfolding ls_def by (rule secret_listing_values [OF k])
  have "l \<in> set ls \<longleftrightarrow> (\<exists>i h t. va_tokens (vault_of st) (secret_lease_key_new s i) = Some (h, t)
        \<and> l = token_lease i s h t)" for l
  proof
    assume "l \<in> set ls"
    then obtain r where r: "hm_get (secret_lease_record_key r) ?m = Some r"
      "sl_scope (slr_lease r) = s" "l = slr_lease r"
      unfolding ls set_map hm_keyed_filter_set [OF k] by auto
    then show "\<exists>i h t. va_tokens (vault_of st) (secret_lease_key_new s i) = Some (h, t)
        \<and> l = token_lease i s h t"
      using secrets_ok_get(2) [OF assms(1) r(1)]
      by (intro exI [of _ "sl_id l"] exI [of _ "sl_handle l"] exI [of _ "snd (record_token r)"])
        (cases "sl_status l"; auto simp: vault_of_def record_token_def)
  next
    assume "\<exists>i h t. va_tokens (vault_of st) (secret_lease_key_new s i) = Some (h, t)
        \<and> l = token_lease i s h t"
    then obtain i h t r where r: "hm_get (secret_lease_key_new s i) ?m = Some r"
      "record_token r = (h, t)" "l = token_lease i s h t"
      by (auto simp: vault_of_def)
    have "l = slr_lease r"
      using r secrets_ok_get [OF assms(1) r(1)]
      by (cases "sl_status (slr_lease r)") (auto simp: record_token_def)
    moreover have "hm_get (secret_lease_record_key r) ?m = Some r \<and> sl_scope (slr_lease r) = s"
      using r(1) secrets_ok_get(1) [OF assms(1) r(1)] by simp
    ultimately show "l \<in> set ls"
      unfolding ls set_map hm_keyed_filter_set [OF k] by blast
  qed
  then show "set ls = {l. \<exists>i h t. va_tokens (vault_of st) (secret_lease_key_new s i) = Some (h, t)
        \<and> l = token_lease i s h t}"
    by blast
  show "distinct (map sl_id ls)"
    unfolding ls map_map comp_def
    by (rule hm_keyed_filter_distinct [OF k]) simp
qed

lemma record_token_status:
  assumes "secrets_ok st" and "hm_get k (ss_leases st) = Some r"
  shows "token_status (token_of (sl_status (slr_lease r)) (slr_material r)) = sl_status (slr_lease r)"
  using secrets_ok_get(2) [OF assms] by (cases "sl_status (slr_lease r)") auto

lemma vault_reply_step:
  assumes "secrets_ok st"
  shows "secret_reply_matches (fst (secret_step in_memory_secrets c st))
    (fst (vault_step c (vault_of st)))"
proof (cases c)
  case (ListSecretLeases s)
  then show ?thesis using secret_listing [OF assms, of s] by (simp add: secret_store_defs)
next
  case (LookupSecret s h)
  then show ?thesis using secrets_ok_secret [OF assms, of "secret_key_new s h"]
    by (cases "hm_get (secret_key_new s h) (ss_secrets st)")
      (auto simp: secret_store_defs vault_of_def secret_key_new_eq_iff)
next
  case (ConsumeSecret s i)
  then show ?thesis using secrets_ok_get [OF assms, of "secret_lease_key_new s i"]
    by (auto simp: secret_store_defs vault_of_def record_token_def
        split: option.splits secret_lease_status.splits)
next
  case (RevokeSecret s i)
  then show ?thesis
    using secrets_ok_get(1) [OF assms, of "secret_lease_key_new s i"]
      record_token_status [OF assms, of "secret_lease_key_new s i"]
    by (cases "hm_get (secret_lease_key_new s i) (ss_leases st)")
      (auto simp: secret_store_defs vault_of_def record_token_def set_secret_status_def)
qed (auto simp: secret_store_defs vault_of_def split: option.splits)

definition implements_vault :: "secret_state \<Rightarrow> vault \<Rightarrow> bool" where
  "implements_vault st v \<longleftrightarrow> secrets_ok st \<and> vault_of st = v"

interpretation secrets: simulation "secret_step in_memory_secrets" vault_step "\<lambda>_. True"
  implements_vault secret_reply_matches
  by unfold_locales
    (auto simp: implements_vault_def vault_of_step intro: secrets_ok_step vault_reply_step)

text \<open>
  C31: the secret store implements the vault of one-shot tokens: over any sequence of
  operations by any callers from an empty store, every reply (error replies included) is the
  one the vault gives, and a listing holds exactly the scope's tokens, each once.
\<close>

theorem secret_store_refines_vault:
  "list_all2 (\<lambda>(c, r) (d, q). c = d \<and> secret_reply_matches r q)
     (history (secret_step in_memory_secrets) cs secret_state_default)
     (history vault_step cs vault_empty)"
  by (rule secrets.histories_match) (simp_all add: implements_vault_def)

subsection \<open>What a released secret is\<close>

text \<open>The material last put under a key.\<close>

fun put_under :: "secret_key \<Rightarrow> secret_command list \<Rightarrow> secret_material option" where
  "put_under k [] = None"
| "put_under k (PutSecret s h m # cs) =
     (case put_under k cs of Some m' \<Rightarrow> Some m'
      | None \<Rightarrow> if secret_key_new s h = k then Some m else None)"
| "put_under k (_ # cs) = put_under k cs"

text \<open>Commands that use up or withdraw a lease, or make it anew.\<close>

fun touches_lease :: "resource_scope \<Rightarrow> secret_lease_id \<Rightarrow> secret_command \<Rightarrow> bool" where
  "touches_lease s i (ConsumeSecret t j) = (t = s \<and> j = i)"
| "touches_lease s i (RevokeSecret t j) = (t = s \<and> j = i)"
| "touches_lease s i _ = False"

lemma put_under_snoc:
  "put_under k (cs @ [c]) = (case c of
     PutSecret s h m \<Rightarrow> if secret_key_new s h = k then Some m else put_under k cs
   | _ \<Rightarrow> put_under k cs)"
proof (induction cs)
  case Nil
  then show ?case by (cases c) auto
next
  case (Cons d cs)
  then show ?case by (cases d; cases c) (auto split: option.splits)
qed

lemma vault_secret_put_under:
  "map_option snd (va_secrets (final_state vault_step cs vault_empty) k) = put_under k cs"
proof (induction cs rule: rev_induct)
  case Nil
  then show ?case by (simp add: vault_empty_def)
next
  case (snoc c cs)
  then show ?case
    by (cases c) (auto simp: put_under_snoc Let_def split: option.splits token.splits)
qed

lemma vault_live_token:
  "va_tokens (final_state vault_step cs vault_empty) (secret_lease_key_new s i) = Some (h, Live m) \<Longrightarrow>
     \<exists>pre mid. cs = pre @ LeaseSecret i s h # mid
       \<and> put_under (secret_key_new s h) pre = Some m \<and> (\<forall>c \<in> set mid. \<not> touches_lease s i c)"
proof (induction cs rule: rev_induct)
  case Nil
  then show ?case by (simp add: vault_empty_def)
next
  case (snoc c cs)
  let ?v = "final_state vault_step cs vault_empty"
  have here: ?case
    if held: "va_tokens ?v (secret_lease_key_new s i) = Some (h, Live m)" "\<not> touches_lease s i c"
  proof -
    obtain pre mid where "cs = pre @ LeaseSecret i s h # mid"
      "put_under (secret_key_new s h) pre = Some m" "\<forall>c \<in> set mid. \<not> touches_lease s i c"
      using snoc.IH [OF held(1)] by blast
    then show ?thesis using held by (intro exI [of _ pre] exI [of _ "mid @ [c]"]) auto
  qed
  show ?case
  proof (cases c)
    case (LeaseSecret j t g)
    show ?thesis
    proof (cases "t = s \<and> j = i \<and> va_secrets ?v (secret_key_new t g) \<noteq> None")
      case True
      then have "h = g \<and> map_option snd (va_secrets ?v (secret_key_new s h)) = Some m"
        using snoc.prems LeaseSecret by auto
      then have "put_under (secret_key_new s h) cs = Some m" "c = LeaseSecret i s h"
        using True LeaseSecret by (auto simp: vault_secret_put_under)
      then show ?thesis by (intro exI [of _ cs] exI [of _ "[]"]) simp
    next
      case False
      then show ?thesis
        using snoc.prems LeaseSecret by (intro here) (auto split: option.splits if_splits)
    qed
  next
    case (ConsumeSecret t j)
    then show ?thesis using snoc.prems
      by (intro here) (auto split: option.splits token.splits if_splits)
  next
    case (RevokeSecret t j)
    then show ?thesis using snoc.prems
      by (intro here) (auto simp: Let_def split: option.splits if_splits)
  qed ((rule here, use snoc.prems in simp, simp)+)
qed

text \<open>
  C28: a secret is released only through a fresh lease of its owner: if a consumption
  returns material in a store that has run any sequence of operations, then the lease was made
  earlier in exactly this scope, the material is what was last put, before that, under the
  lease's tenant, user, agent, project and handle, and the lease has been neither consumed nor
  revoked since.
\<close>

theorem secret_release_authentic:
  assumes "fst (secret_consume s i
    (final_state (secret_step in_memory_secrets) cs secret_state_default)) = Inr m"
  shows "\<exists>h pre mid. cs = pre @ LeaseSecret i s h # mid
    \<and> put_under (secret_key_new s h) pre = Some m \<and> (\<forall>c \<in> set mid. \<not> touches_lease s i c)"
proof -
  let ?st = "final_state (secret_step in_memory_secrets) cs secret_state_default"
  have st: "secrets_ok ?st" "vault_of ?st = final_state vault_step cs vault_empty"
    using secrets.final_states_match [of secret_state_default vault_empty cs]
    by (simp_all add: implements_vault_def)
  have "fst (secret_step in_memory_secrets (ConsumeSecret s i) ?st) = ReleasedSecret (Inr m)"
    using assms by (simp add: in_memory_secrets_def)
  then have "secret_reply_matches (ReleasedSecret (Inr m))
      (fst (vault_step (ConsumeSecret s i) (vault_of ?st)))"
    using vault_reply_step [OF st(1), of "ConsumeSecret s i"] by simp
  then obtain h where "va_tokens (vault_of ?st) (secret_lease_key_new s i) = Some (h, Live m)"
    by (auto split: option.splits token.splits)
  then show ?thesis using vault_live_token [of cs s i h m] by (auto simp: st(2))
qed

theorem secret_release_authentic_witness:
  "\<exists>h pre mid. [PutSecret sample_owner ''k'' ''old'', PutSecret sample_owner ''k'' ''new'',
       LeaseSecret 7 sample_owner ''k''] = pre @ LeaseSecret 7 sample_owner h # mid
    \<and> put_under (secret_key_new sample_owner h) pre = Some ''new''
    \<and> (\<forall>c \<in> set mid. \<not> touches_lease sample_owner 7 c)"
  by (rule secret_release_authentic)
    (simp add: secret_store_defs secret_state_default_def hm_get_def hm_insert_def)

end
