(* ===== verification/RuntimeEvents.thy ===== *)
theory RuntimeEvents
  imports HostAudit
begin

section \<open>Runtime events\<close>

text \<open>
  \<open>crates/ironclaw_events/src/lib.rs\<close>, the event vocabulary: the redacted events that the
  dispatcher and the process services emit, with the guard that keeps free-form error text out
  of them. The event id and the time stamp that \<open>RuntimeEvent::new\<close> draws are arguments of the
  constructors. The wire form is the struct \<open>RuntimeEventWire\<close> that the hand-written
  \<open>Serialize\<close> and \<open>Deserialize\<close> go through; serde's own encoding of it is left open.
\<close>

datatype runtime_event_kind =
    EvDispatchRequested
  | EvRuntimeSelected
  | EvDispatchSucceeded
  | EvDispatchFailed
  | EvProcessStarted
  | EvProcessCompleted
  | EvProcessFailed
  | EvProcessKilled

record event_payload =
  ev_kind :: runtime_event_kind
  ev_scope :: resource_scope
  ev_capability_id :: capability_id
  ev_provider :: "extension_id option"
  ev_runtime :: "runtime_kind option"
  ev_process_id :: "process_id option"
  ev_output_bytes :: "u64 option"
  ev_error_kind :: "string option"

record runtime_event = event_payload +
  ev_event_id :: uuid
  ev_timestamp :: timestamp

record runtime_event_wire =
  wr_event_id :: uuid
  wr_timestamp :: timestamp
  wr_kind :: runtime_event_kind
  wr_scope :: resource_scope
  wr_capability_id :: capability_id
  wr_provider :: "extension_id option"
  wr_runtime :: "runtime_kind option"
  wr_process_id :: "process_id option"
  wr_output_bytes :: "u64 option"
  wr_error_kind :: "string option"

subsection \<open>The redaction guard\<close>

definition UNCLASSIFIED_ERROR_KIND :: string where
  "UNCLASSIFIED_ERROR_KIND = ''Unclassified''"

definition MAX_ERROR_KIND_LEN :: nat where
  "MAX_ERROR_KIND_LEN = 64"

definition MAX_ERROR_KIND_SEGMENT_LEN :: nat where
  "MAX_ERROR_KIND_SEGMENT_LEN = 24"

definition is_error_kind_char :: "char \<Rightarrow> bool" where
  "is_error_kind_char b \<longleftrightarrow> is_ascii_lowercase b \<or> is_ascii_digit b \<or> b = CHR ''_''"

definition is_kind_separator :: "char \<Rightarrow> bool" where
  "is_kind_separator b \<longleftrightarrow> b = CHR ''.'' \<or> b = CHR '':''"

text \<open>\<open>str::split\<close> with a set of separators.\<close>

fun split_at_any :: "(char \<Rightarrow> bool) \<Rightarrow> string \<Rightarrow> string list" where
  "split_at_any p [] = [[]]"
| "split_at_any p (x # xs) =
     (if p x then [] # split_at_any p xs
      else (case split_at_any p xs of [] \<Rightarrow> [[x]] | s # ss \<Rightarrow> (x # s) # ss))"

definition is_safe_segment :: "string \<Rightarrow> bool" where
  "is_safe_segment segment \<longleftrightarrow>
     \<not> (segment = [] \<or> length segment > MAX_ERROR_KIND_SEGMENT_LEN)
     \<and> is_ascii_lowercase (hd segment)"

definition is_safe_error_kind :: "string \<Rightarrow> bool" where
  "is_safe_error_kind value =
     (if value = [] \<or> length value > MAX_ERROR_KIND_LEN then False
      else if \<not> is_ascii_lowercase (hd value) then False
      else if list_ex (\<lambda>b. \<not> is_error_kind_char b \<and> \<not> is_kind_separator b) value then False
      else list_all is_safe_segment (split_at_any is_kind_separator value))"

definition sanitize_error_kind :: "string \<Rightarrow> string" where
  "sanitize_error_kind value =
     (if is_safe_error_kind value then value else UNCLASSIFIED_ERROR_KIND)"

subsection \<open>Construction\<close>

definition event_new :: "uuid \<Rightarrow> timestamp \<Rightarrow> event_payload \<Rightarrow> runtime_event" where
  "event_new event_id now p = event_payload.extend p
     \<lparr>ev_event_id = event_id, ev_timestamp = now\<rparr>"

definition ev_dispatch_requested ::
    "uuid \<Rightarrow> timestamp \<Rightarrow> resource_scope \<Rightarrow> capability_id \<Rightarrow> runtime_event" where
  "ev_dispatch_requested event_id now scope cap = event_new event_id now
     \<lparr>ev_kind = EvDispatchRequested, ev_scope = scope, ev_capability_id = cap,
      ev_provider = None, ev_runtime = None, ev_process_id = None, ev_output_bytes = None,
      ev_error_kind = None\<rparr>"

definition ev_runtime_selected ::
    "uuid \<Rightarrow> timestamp \<Rightarrow> resource_scope \<Rightarrow> capability_id \<Rightarrow> extension_id \<Rightarrow> runtime_kind
     \<Rightarrow> runtime_event" where
  "ev_runtime_selected event_id now scope cap provider runtime = event_new event_id now
     \<lparr>ev_kind = EvRuntimeSelected, ev_scope = scope, ev_capability_id = cap,
      ev_provider = Some provider, ev_runtime = Some runtime, ev_process_id = None,
      ev_output_bytes = None, ev_error_kind = None\<rparr>"

definition ev_dispatch_succeeded ::
    "uuid \<Rightarrow> timestamp \<Rightarrow> resource_scope \<Rightarrow> capability_id \<Rightarrow> extension_id \<Rightarrow> runtime_kind
     \<Rightarrow> u64 \<Rightarrow> runtime_event" where
  "ev_dispatch_succeeded event_id now scope cap provider runtime output_bytes =
     event_new event_id now
     \<lparr>ev_kind = EvDispatchSucceeded, ev_scope = scope, ev_capability_id = cap,
      ev_provider = Some provider, ev_runtime = Some runtime, ev_process_id = None,
      ev_output_bytes = Some output_bytes, ev_error_kind = None\<rparr>"

definition ev_dispatch_failed ::
    "uuid \<Rightarrow> timestamp \<Rightarrow> resource_scope \<Rightarrow> capability_id \<Rightarrow> extension_id option
     \<Rightarrow> runtime_kind option \<Rightarrow> string \<Rightarrow> runtime_event" where
  "ev_dispatch_failed event_id now scope cap provider runtime error_kind =
     event_new event_id now
     \<lparr>ev_kind = EvDispatchFailed, ev_scope = scope, ev_capability_id = cap,
      ev_provider = provider, ev_runtime = runtime, ev_process_id = None,
      ev_output_bytes = None, ev_error_kind = Some (sanitize_error_kind error_kind)\<rparr>"

definition ev_process_started ::
    "uuid \<Rightarrow> timestamp \<Rightarrow> resource_scope \<Rightarrow> capability_id \<Rightarrow> extension_id \<Rightarrow> runtime_kind
     \<Rightarrow> process_id \<Rightarrow> runtime_event" where
  "ev_process_started event_id now scope cap provider runtime pid = event_new event_id now
     \<lparr>ev_kind = EvProcessStarted, ev_scope = scope, ev_capability_id = cap,
      ev_provider = Some provider, ev_runtime = Some runtime, ev_process_id = Some pid,
      ev_output_bytes = None, ev_error_kind = None\<rparr>"

definition ev_process_completed ::
    "uuid \<Rightarrow> timestamp \<Rightarrow> resource_scope \<Rightarrow> capability_id \<Rightarrow> extension_id \<Rightarrow> runtime_kind
     \<Rightarrow> process_id \<Rightarrow> runtime_event" where
  "ev_process_completed event_id now scope cap provider runtime pid = event_new event_id now
     \<lparr>ev_kind = EvProcessCompleted, ev_scope = scope, ev_capability_id = cap,
      ev_provider = Some provider, ev_runtime = Some runtime, ev_process_id = Some pid,
      ev_output_bytes = None, ev_error_kind = None\<rparr>"

definition ev_process_failed ::
    "uuid \<Rightarrow> timestamp \<Rightarrow> resource_scope \<Rightarrow> capability_id \<Rightarrow> extension_id \<Rightarrow> runtime_kind
     \<Rightarrow> process_id \<Rightarrow> string \<Rightarrow> runtime_event" where
  "ev_process_failed event_id now scope cap provider runtime pid error_kind =
     event_new event_id now
     \<lparr>ev_kind = EvProcessFailed, ev_scope = scope, ev_capability_id = cap,
      ev_provider = Some provider, ev_runtime = Some runtime, ev_process_id = Some pid,
      ev_output_bytes = None, ev_error_kind = Some (sanitize_error_kind error_kind)\<rparr>"

definition ev_process_killed ::
    "uuid \<Rightarrow> timestamp \<Rightarrow> resource_scope \<Rightarrow> capability_id \<Rightarrow> extension_id \<Rightarrow> runtime_kind
     \<Rightarrow> process_id \<Rightarrow> runtime_event" where
  "ev_process_killed event_id now scope cap provider runtime pid = event_new event_id now
     \<lparr>ev_kind = EvProcessKilled, ev_scope = scope, ev_capability_id = cap,
      ev_provider = Some provider, ev_runtime = Some runtime, ev_process_id = Some pid,
      ev_output_bytes = None, ev_error_kind = None\<rparr>"

lemmas event_constructors = ev_dispatch_requested_def ev_runtime_selected_def
  ev_dispatch_succeeded_def ev_dispatch_failed_def ev_process_started_def
  ev_process_completed_def ev_process_failed_def ev_process_killed_def event_new_def
  event_payload.extend_def

subsection \<open>The wire\<close>

definition event_to_wire :: "runtime_event \<Rightarrow> runtime_event_wire" where
  "event_to_wire e = \<lparr>wr_event_id = ev_event_id e, wr_timestamp = ev_timestamp e,
     wr_kind = ev_kind e, wr_scope = ev_scope e, wr_capability_id = ev_capability_id e,
     wr_provider = ev_provider e, wr_runtime = ev_runtime e, wr_process_id = ev_process_id e,
     wr_output_bytes = ev_output_bytes e,
     wr_error_kind = map_option sanitize_error_kind (ev_error_kind e)\<rparr>"

definition event_from_wire :: "runtime_event_wire \<Rightarrow> runtime_event" where
  "event_from_wire w = \<lparr>ev_kind = wr_kind w, ev_scope = wr_scope w,
     ev_capability_id = wr_capability_id w, ev_provider = wr_provider w,
     ev_runtime = wr_runtime w, ev_process_id = wr_process_id w,
     ev_output_bytes = wr_output_bytes w,
     ev_error_kind = map_option sanitize_error_kind (wr_error_kind w),
     ev_event_id = wr_event_id w, ev_timestamp = wr_timestamp w\<rparr>"

subsection \<open>What the guard lets through\<close>

lemma split_at_any_not_Nil [simp]: "split_at_any p s \<noteq> []"
  by (cases s) (auto split: list.splits)

lemma split_at_any_id: "\<forall>x \<in> set s. \<not> p x \<Longrightarrow> split_at_any p s = [s]"
  by (induction s) auto

lemma split_at_any_sep:
  "\<forall>x \<in> set s. \<not> p x \<Longrightarrow> p c \<Longrightarrow> split_at_any p (s @ c # t) = s # split_at_any p t"
  by (induction s) auto

text \<open>A dotted name: a first segment and further ones, each after its separator.\<close>

definition dotted :: "string \<Rightarrow> (char \<times> string) list \<Rightarrow> string" where
  "dotted s rest = s @ concat (map (\<lambda>(c, t). c # t) rest)"

lemma split_at_any_dotted:
  "\<forall>x \<in> set s. \<not> p x \<Longrightarrow> \<forall>(c, t) \<in> set rest. p c \<and> (\<forall>x \<in> set t. \<not> p x) \<Longrightarrow>
     split_at_any p (dotted s rest) = s # map snd rest"
proof (induction rest arbitrary: s)
  case Nil
  then show ?case by (simp add: dotted_def split_at_any_id)
next
  case (Cons e rest)
  obtain c t where e: "e = (c, t)" by fastforce
  have "dotted s (e # rest) = s @ c # dotted t rest" by (simp add: dotted_def e)
  then show ?case using Cons by (simp add: e split_at_any_sep)
qed

lemma dotted_exists:
  "\<exists>s rest. xs = dotted s rest \<and> (\<forall>x \<in> set s. \<not> p x)
     \<and> (\<forall>(c, t) \<in> set rest. p c \<and> (\<forall>x \<in> set t. \<not> p x))"
proof (induction xs)
  case Nil
  show ?case by (intro exI [of _ "[]"]) (simp add: dotted_def)
next
  case (Cons x xs)
  then obtain s rest where xs: "xs = dotted s rest" "\<forall>x \<in> set s. \<not> p x"
    "\<forall>(c, t) \<in> set rest. p c \<and> (\<forall>x \<in> set t. \<not> p x)" by blast
  show ?case
  proof (cases "p x")
    case True
    then show ?thesis using xs
      by (intro exI [of _ "[]"] exI [of _ "(x, s) # rest"]) (auto simp: dotted_def)
  next
    case False
    then show ?thesis using xs
      by (intro exI [of _ "x # s"] exI [of _ rest]) (auto simp: dotted_def)
  qed
qed

text \<open>A segment of a classification token: a lowercase letter and up to 23 more characters.\<close>

definition kind_segment :: "string \<Rightarrow> bool" where
  "kind_segment s \<longleftrightarrow> s \<noteq> [] \<and> length s \<le> 24 \<and> is_ascii_lowercase (hd s)
     \<and> (\<forall>c \<in> set s. is_error_kind_char c)"

definition classification_token :: "string \<Rightarrow> bool" where
  "classification_token v \<longleftrightarrow> length v \<le> 64 \<and> (\<exists>s rest. v = dotted s rest \<and> kind_segment s
     \<and> (\<forall>(c, t) \<in> set rest. is_kind_separator c \<and> kind_segment t))"

lemma error_kind_char_not_separator: "is_error_kind_char c \<Longrightarrow> \<not> is_kind_separator c"
  by (auto simp: is_error_kind_char_def is_kind_separator_def is_ascii_lowercase_def
      is_ascii_digit_def byte_of_def)

lemma is_safe_error_kind_iff: "is_safe_error_kind v \<longleftrightarrow> classification_token v"
proof
  assume safe: "is_safe_error_kind v"
  obtain s rest where v: "v = dotted s rest" and s: "\<forall>x \<in> set s. \<not> is_kind_separator x"
    and rest: "\<forall>(c, t) \<in> set rest. is_kind_separator c \<and> (\<forall>x \<in> set t. \<not> is_kind_separator x)"
    using dotted_exists [of v is_kind_separator] by blast
  have segs: "list_all is_safe_segment (s # map snd rest)"
    and chars: "\<forall>b \<in> set v. is_error_kind_char b \<or> is_kind_separator b"
    and len: "length v \<le> 64"
    using safe split_at_any_dotted [OF s rest]
    by (auto simp: is_safe_error_kind_def v MAX_ERROR_KIND_LEN_def list_ex_iff split: if_splits)
  have seg: "kind_segment t" if "is_safe_segment t" "set t \<subseteq> set v" "\<forall>x \<in> set t. \<not> is_kind_separator x" for t
    using that chars by (auto simp: kind_segment_def is_safe_segment_def MAX_ERROR_KIND_SEGMENT_LEN_def)
  have "kind_segment s" using segs s by (intro seg) (auto simp: v dotted_def)
  moreover have "\<forall>(c, t) \<in> set rest. is_kind_separator c \<and> kind_segment t"
  proof clarify
    fix c t assume ct: "(c, t) \<in> set rest"
    then have "kind_segment t"
      using segs rest by (intro seg) (force simp: v dotted_def list_all_iff)+
    then show "is_kind_separator c \<and> kind_segment t" using rest ct by auto
  qed
  ultimately show "classification_token v" using len v unfolding classification_token_def by blast
next
  assume "classification_token v"
  then obtain s rest where v: "v = dotted s rest" and len: "length v \<le> 64" and s: "kind_segment s"
    and rest: "\<forall>(c, t) \<in> set rest. is_kind_separator c \<and> kind_segment t"
    unfolding classification_token_def by blast
  have "split_at_any is_kind_separator v = s # map snd rest"
    unfolding v using s rest
    by (intro split_at_any_dotted)
      (fastforce simp: kind_segment_def dest: error_kind_char_not_separator)+
  moreover have "list_all is_safe_segment (s # map snd rest)"
    using s rest
    by (auto simp: list_all_iff kind_segment_def is_safe_segment_def MAX_ERROR_KIND_SEGMENT_LEN_def)
  moreover have "\<forall>b \<in> set v. is_error_kind_char b \<or> is_kind_separator b"
    using s rest by (auto simp: v dotted_def kind_segment_def)
  moreover have "v \<noteq> []" "is_ascii_lowercase (hd v)"
    using s by (auto simp: v dotted_def kind_segment_def)
  ultimately show "is_safe_error_kind v"
    using len by (auto simp: is_safe_error_kind_def MAX_ERROR_KIND_LEN_def list_ex_iff)
qed

lemma unclassified_not_safe [simp]: "\<not> is_safe_error_kind UNCLASSIFIED_ERROR_KIND"
  by (simp add: is_safe_error_kind_def UNCLASSIFIED_ERROR_KIND_def is_ascii_lowercase_def
      byte_of_def)

lemma sanitize_idem [simp]: "sanitize_error_kind (sanitize_error_kind v) = sanitize_error_kind v"
  by (simp add: sanitize_error_kind_def)

text \<open>An event whose error kind, if any, is a classification token or the placeholder.\<close>

definition event_redacted :: "runtime_event \<Rightarrow> bool" where
  "event_redacted e \<longleftrightarrow> (case ev_error_kind e of None \<Rightarrow> True
     | Some k \<Rightarrow> is_safe_error_kind k \<or> k = UNCLASSIFIED_ERROR_KIND)"

lemma constructed_events_redacted [simp]:
  "event_redacted (ev_dispatch_requested i now s c)"
  "event_redacted (ev_runtime_selected i now s c x r)"
  "event_redacted (ev_dispatch_succeeded i now s c x r n)"
  "event_redacted (ev_dispatch_failed i now s c xo ro k)"
  "event_redacted (ev_process_started i now s c x r p)"
  "event_redacted (ev_process_completed i now s c x r p)"
  "event_redacted (ev_process_failed i now s c x r p k)"
  "event_redacted (ev_process_killed i now s c x r p)"
  by (simp_all add: event_redacted_def event_constructors sanitize_error_kind_def)

text \<open>
  No error text leaks: \<open>sanitize_error_kind\<close> keeps exactly the values of at most 64 bytes
  that are segments of a lowercase letter and up to 23 letters, digits or underscores, joined
  by dots or colons; everything else becomes the one placeholder.
\<close>

theorem sanitize_error_kind_exact:
  "sanitize_error_kind v = (if classification_token v then v else ''Unclassified'')"
  unfolding sanitize_error_kind_def is_safe_error_kind_iff UNCLASSIFIED_ERROR_KIND_def ..


end
