(* ===== verification/EventLog.thy ===== *)
theory EventLog
  imports RuntimeEvents HashMaps Traces
begin

section \<open>The durable event and audit logs\<close>

text \<open>
  \<open>crates/ironclaw_events/src/lib.rs\<close>, the append logs: per stream, records get the cursors
  1, 2, 3, ...; a reader replays what comes after a cursor, filtered by a read scope and bounded
  by a limit, and resumes at the returned cursor; retention drops a prefix and readers behind it
  get an explicit gap. \<open>InMemoryDurableEventLog\<close> and \<open>InMemoryDurableAuditLog\<close> differ in how a
  record's stream key and its match with a filter are computed, which are the two parameters of
  \<open>log_append\<close> and \<open>log_read_after_cursor\<close>. Lock poisoning is not modelled.
\<close>

subsection \<open>Cursors, streams and filters\<close>

type_synonym event_cursor = u64

definition cursor_origin :: event_cursor where
  "cursor_origin = 0"

record event_stream_key =
  es_tenant_id :: tenant_id
  es_user_id :: user_id
  es_agent_id :: "agent_id option"

definition stream_key_from_scope :: "resource_scope \<Rightarrow> event_stream_key" where
  "stream_key_from_scope s =
     \<lparr>es_tenant_id = rs_tenant_id s, es_user_id = rs_user_id s, es_agent_id = rs_agent_id s\<rparr>"

definition stream_key_matches :: "event_stream_key \<Rightarrow> resource_scope \<Rightarrow> bool" where
  "stream_key_matches k s \<longleftrightarrow> es_tenant_id k = rs_tenant_id s \<and> es_user_id k = rs_user_id s
     \<and> es_agent_id k = rs_agent_id s"

record read_scope =
  rd_project_id :: "project_id option"
  rd_mission_id :: "mission_id option"
  rd_thread_id :: "thread_id option"
  rd_process_id :: "process_id option"

definition read_scope_any :: read_scope where
  "read_scope_any = \<lparr>rd_project_id = None, rd_mission_id = None, rd_thread_id = None,
     rd_process_id = None\<rparr>"

fun matches_optional :: "'a option \<Rightarrow> 'a option \<Rightarrow> bool" where
  "matches_optional None have = True"
| "matches_optional (Some want) have = (have = Some want)"

definition matches_event :: "read_scope \<Rightarrow> runtime_event \<Rightarrow> bool" where
  "matches_event f e \<longleftrightarrow>
     matches_optional (rd_project_id f) (rs_project_id (ev_scope e))
     \<and> matches_optional (rd_mission_id f) (rs_mission_id (ev_scope e))
     \<and> matches_optional (rd_thread_id f) (rs_thread_id (ev_scope e))
     \<and> matches_optional (rd_process_id f) (ev_process_id e)"

definition matches_audit :: "read_scope \<Rightarrow> audit_envelope \<Rightarrow> bool" where
  "matches_audit f r \<longleftrightarrow>
     matches_optional (rd_project_id f) (au_project_id r)
     \<and> matches_optional (rd_mission_id f) (au_mission_id r)
     \<and> matches_optional (rd_thread_id f) (au_thread_id r)
     \<and> matches_optional (rd_process_id f) (au_process_id r)"

record 'a event_log_entry =
  en_cursor :: event_cursor
  en_record :: 'a

record 'a event_replay =
  rp_entries :: "'a event_log_entry list"
  rp_next_cursor :: event_cursor

subsection \<open>One stream\<close>

record 'a stream_state =
  sm_next_cursor :: u64
  sm_earliest_retained :: u64
  sm_entries :: "'a event_log_entry list"

definition stream_default :: "'a stream_state" where
  "stream_default = \<lparr>sm_next_cursor = 0, sm_earliest_retained = 0, sm_entries = []\<rparr>"

definition stream_append ::
    "'a \<Rightarrow> ('a stream_state, event_error, 'a event_log_entry) operation" where
  "stream_append r st =
     (if sm_next_cursor st = - 1 then
        (Inl (EventDurableLog ''event cursor overflowed u64; durable log exhausted''), st)
      else
        (let next_cursor = sm_next_cursor st + 1;
             entry = \<lparr>en_cursor = next_cursor, en_record = r\<rparr>
         in (Inr entry, st\<lparr>sm_next_cursor := next_cursor, sm_entries := sm_entries st @ [entry]\<rparr>)))"

text \<open>The loop of \<open>read_after\<close>: the entries collected so far and the last cursor scanned.\<close>

fun scan_entries ::
    "event_cursor \<Rightarrow> nat \<Rightarrow> ('a \<Rightarrow> bool) \<Rightarrow> 'a event_log_entry list \<Rightarrow> event_cursor
     \<Rightarrow> 'a event_log_entry list \<Rightarrow> 'a event_log_entry list \<times> event_cursor" where
  "scan_entries after limit is_match entries last_scanned [] = (entries, last_scanned)"
| "scan_entries after limit is_match entries last_scanned (e # es) =
     (if en_cursor e \<le> after then scan_entries after limit is_match entries last_scanned es
      else if \<not> is_match (en_record e) then
        scan_entries after limit is_match entries (en_cursor e) es
      else if length (entries @ [e]) \<ge> limit then (entries @ [e], en_cursor e)
      else scan_entries after limit is_match (entries @ [e]) (en_cursor e) es)"

definition stream_read_after ::
    "event_cursor \<Rightarrow> nat \<Rightarrow> ('a \<Rightarrow> bool) \<Rightarrow> 'a stream_state
     \<Rightarrow> (event_error, 'a event_replay) result" where
  "stream_read_after after limit is_match st =
     (if after > sm_next_cursor st then Inl (ReplayGap after (sm_next_cursor st))
      else if sm_earliest_retained st > 0
          \<and> after < saturating_sub (sm_earliest_retained st) 1 then
        Inl (ReplayGap after (sm_earliest_retained st))
      else
        (case scan_entries after limit is_match [] after (sm_entries st) of
           (entries, last_scanned) \<Rightarrow>
             Inr \<lparr>rp_entries = entries,
                  rp_next_cursor = (if entries = [] then last_scanned
                                    else en_cursor (last entries))\<rparr>))"

text \<open>
  \<open>bound + 1\<close> wraps (in a release build) for the last cursor of \<open>u64\<close> only, which no stream
  issues before \<open>2 ^ 64 - 1\<close> appends.
\<close>

definition stream_truncate ::
    "event_cursor \<Rightarrow> ('a stream_state, event_error, unit) operation" where
  "stream_truncate bound st =
     (if bound = 0 then (Inr (), st)
      else if bound > sm_next_cursor st then
        (Inl (InvalidReplayRequest (''truncation cursor '' @ nat_display (unat bound)
           @ '' exceeds stream head '' @ nat_display (unat (sm_next_cursor st)))), st)
      else
        (let st = st\<lparr>sm_entries := filter (\<lambda>e. en_cursor e > bound) (sm_entries st)\<rparr> in
         (Inr (), if bound \<ge> sm_earliest_retained st
                  then st\<lparr>sm_earliest_retained := bound + 1\<rparr> else st)))"

subsection \<open>The in-memory logs\<close>

type_synonym 'a streams = "(event_stream_key, 'a stream_state) hash_map"

definition log_append ::
    "('a \<Rightarrow> event_stream_key) \<Rightarrow> 'a \<Rightarrow> ('a streams, event_error, 'a event_log_entry) operation" where
  "log_append key_of r m =
     (let key = key_of r;
          stream = (case hm_get key m of Some st \<Rightarrow> st | None \<Rightarrow> stream_default)
      in case stream_append r stream of (res, st) \<Rightarrow> (res, hm_insert key st m))"

definition log_read_after_cursor ::
    "(read_scope \<Rightarrow> 'a \<Rightarrow> bool) \<Rightarrow> event_stream_key \<Rightarrow> read_scope \<Rightarrow> event_cursor option \<Rightarrow> nat
     \<Rightarrow> ('a streams, event_error, 'a event_replay) operation" where
  "log_read_after_cursor is_match stream scope_filter after limit m =
     (if limit = 0 then
        (Inl (InvalidReplayRequest ''limit must be greater than zero''), m)
      else
        (let after = (case after of Some c \<Rightarrow> c | None \<Rightarrow> cursor_origin) in
         (case hm_get stream m of
            Some st \<Rightarrow> (stream_read_after after limit (is_match scope_filter) st, m)
          | None \<Rightarrow>
              (if after > 0 then Inl (ReplayGap after cursor_origin)
               else Inr \<lparr>rp_entries = [], rp_next_cursor = after\<rparr>, m))))"

definition log_truncate ::
    "event_stream_key \<Rightarrow> event_cursor \<Rightarrow> ('a streams, event_error, unit) operation" where
  "log_truncate stream cursor m =
     (case hm_get stream m of
        Some st \<Rightarrow> (case stream_truncate cursor st of (r, st') \<Rightarrow> (r, hm_insert stream st' m))
      | None \<Rightarrow> (Inr (), m))"

definition event_stream_of :: "runtime_event \<Rightarrow> event_stream_key" where
  "event_stream_of e = stream_key_from_scope (ev_scope e)"

definition audit_stream_of :: "audit_envelope \<Rightarrow> event_stream_key" where
  "audit_stream_of r =
     \<lparr>es_tenant_id = au_tenant_id r, es_user_id = au_user_id r, es_agent_id = au_agent_id r\<rparr>"

text \<open>The traits \<open>DurableEventLog\<close> and \<open>DurableAuditLog\<close>.\<close>

record ('w, 'a) durable_log =
  dl_append :: "'a \<Rightarrow> ('w, event_error, 'a event_log_entry) operation"
  dl_read_after_cursor :: "event_stream_key \<Rightarrow> read_scope \<Rightarrow> event_cursor option \<Rightarrow> nat
    \<Rightarrow> ('w, event_error, 'a event_replay) operation"

definition in_memory_event_log :: "(runtime_event streams, runtime_event) durable_log" where
  "in_memory_event_log = \<lparr>dl_append = log_append event_stream_of,
     dl_read_after_cursor = log_read_after_cursor matches_event\<rparr>"

definition in_memory_audit_log :: "(audit_envelope streams, audit_envelope) durable_log" where
  "in_memory_audit_log = \<lparr>dl_append = log_append audit_stream_of,
     dl_read_after_cursor = log_read_after_cursor matches_audit\<rparr>"

subsection \<open>Sinks\<close>

type_synonym 'w event_sink = "runtime_event \<Rightarrow> ('w, event_error, unit) operation"

definition durable_sink_emit ::
    "('w, 'a) durable_log \<Rightarrow> 'a \<Rightarrow> ('w, event_error, unit) operation" where
  "durable_sink_emit log r = bind_op (dl_append log r) (\<lambda>_. return_op ())"

definition in_memory_sink_emit :: "'a \<Rightarrow> ('a list, event_error, unit) operation" where
  "in_memory_sink_emit r events = (Inr (), events @ [r])"

subsection \<open>Commands\<close>

datatype 'a log_command =
    AppendRecord 'a
  | ReadRecords event_stream_key read_scope "event_cursor option" nat
  | TruncateLog event_stream_key event_cursor

datatype 'a log_reply =
    Appended "(event_error, 'a event_log_entry) result"
  | Replayed "(event_error, 'a event_replay) result"
  | Truncated "(event_error, unit) result"

fun log_step ::
    "('a streams, 'a) durable_log \<Rightarrow> 'a log_command \<Rightarrow> 'a streams \<Rightarrow> 'a log_reply \<times> 'a streams" where
  "log_step log (AppendRecord r) m = apfst Appended (dl_append log r m)"
| "log_step log (ReadRecords k f after limit) m =
     apfst Replayed (dl_read_after_cursor log k f after limit m)"
| "log_step log (TruncateLog k c) m = apfst Truncated (log_truncate k c m)"

end
