(* ===== verification/EventReplay.thy ===== *)
theory EventReplay
  imports EventLog
begin

section \<open>What the durable logs promise\<close>

text \<open>
  The specification of the logs of \<open>EventLog\<close>: per stream the list of all records ever
  appended, numbered from 1, and how many of the first ones retention has dropped. The
  in-memory logs implement it, and a reader that resumes at the returned cursors receives every
  matching record once and in order.
\<close>

subsection \<open>Numbered records\<close>

fun numbered :: "nat \<Rightarrow> 'a list \<Rightarrow> 'a event_log_entry list" where
  "numbered n [] = []"
| "numbered n (r # rs) = \<lparr>en_cursor = of_nat (Suc n), en_record = r\<rparr> # numbered (Suc n) rs"

definition LOG_CAPACITY :: nat where
  "LOG_CAPACITY = 2 ^ 64 - 1"

lemma unat_cursor: "n \<le> LOG_CAPACITY \<Longrightarrow> unat (of_nat n :: u64) = n"
  by (simp add: LOG_CAPACITY_def unsigned_of_nat take_bit_nat_eq_self)

lemma unat_le_capacity [simp]: "unat (w :: u64) \<le> LOG_CAPACITY"
  using unat_le_max [of w] by (simp add: LOG_CAPACITY_def)

lemma cursor_full_iff: "n \<le> LOG_CAPACITY \<Longrightarrow> (of_nat n :: u64) = - 1 \<longleftrightarrow> n = LOG_CAPACITY"
  using unat_max_word [where 'a = 64] unat_cursor [of n]
  by (auto simp: LOG_CAPACITY_def intro: unsigned_word_eqI [where 'a = nat])

lemma length_numbered [simp]: "length (numbered n rs) = length rs"
  by (induction rs arbitrary: n) simp_all

lemma map_record_numbered [simp]: "map en_record (numbered n rs) = rs"
  by (induction rs arbitrary: n) simp_all

lemma numbered_append: "numbered n (rs @ qs) = numbered n rs @ numbered (n + length rs) qs"
  by (induction rs arbitrary: n) simp_all

lemma numbered_eq_Nil [simp]: "numbered n rs = [] \<longleftrightarrow> rs = []"
  by (cases rs) simp_all

lemma numbered_cursor:
  "e \<in> set (numbered n rs) \<Longrightarrow> n + length rs \<le> LOG_CAPACITY \<Longrightarrow>
     n < unat (en_cursor e) \<and> unat (en_cursor e) \<le> n + length rs"
  by (induction rs arbitrary: n) (force simp: unat_cursor simp del: of_nat_Suc)+

lemma numbered_last:
  "rs \<noteq> [] \<Longrightarrow> en_cursor (last (numbered n rs)) = of_nat (n + length rs)"
  by (induction rs arbitrary: n) auto

text \<open>The records past a cursor are those that many places further on.\<close>

lemma numbered_after:
  "n + length rs \<le> LOG_CAPACITY \<Longrightarrow> n \<le> unat c \<Longrightarrow>
     filter (\<lambda>e. en_cursor e > c) (numbered n rs) = numbered (unat c) (drop (unat c - n) rs)"
proof (induction rs arbitrary: n)
  case Nil
  then show ?case by simp
next
  case (Cons r rs)
  have u: "unat (of_nat (Suc n) :: u64) = Suc n" using Cons.prems by (intro unat_cursor) simp
  show ?case
  proof (cases "n = unat c")
    case True
    have "e \<in> set (numbered n (r # rs)) \<Longrightarrow> en_cursor e > c" for e
      using numbered_cursor [of e n "r # rs"] Cons.prems True by (simp add: word_less_nat_alt)
    then have "filter (\<lambda>e. en_cursor e > c) (numbered n (r # rs)) = numbered n (r # rs)"
      by (simp only: filter_id_conv) blast
    then show ?thesis using True by simp
  next
    case False
    then obtain d where d: "unat c - n = Suc d" "unat c - Suc n = d"
      using Cons.prems(2) by (cases "unat c - n") auto
    have "\<not> (of_nat (Suc n) :: u64) > c" using False Cons.prems u
      by (simp add: word_less_nat_alt del: of_nat_Suc)
    then show ?thesis
      using Cons.IH [of "Suc n"] Cons.prems False by (simp add: d del: of_nat_Suc)
  qed
qed

subsection \<open>The specification\<close>

record 'a plog =
  pl_records :: "'a list"
  pl_low :: nat

definition plog_empty :: "'a plog" where
  "plog_empty = \<lparr>pl_records = [], pl_low = 0\<rparr>"

definition plog_page ::
    "event_cursor \<Rightarrow> nat \<Rightarrow> ('a \<Rightarrow> bool) \<Rightarrow> 'a list \<Rightarrow> 'a event_log_entry list" where
  "plog_page after limit is_match rs =
     take limit (filter (\<lambda>e. is_match (en_record e)) (numbered (unat after) (drop (unat after) rs)))"

definition plog_read ::
    "event_cursor \<Rightarrow> nat \<Rightarrow> ('a \<Rightarrow> bool) \<Rightarrow> 'a plog \<Rightarrow> (event_error, 'a event_replay) result" where
  "plog_read after limit is_match p =
     (let rs = pl_records p; page = plog_page after limit is_match rs in
      if unat after > length rs then Inl (ReplayGap after (of_nat (length rs)))
      else if unat after < pl_low p then Inl (ReplayGap after (of_nat (Suc (pl_low p))))
      else Inr \<lparr>rp_entries = page,
        rp_next_cursor = (if page = [] then of_nat (length rs) else en_cursor (last page))\<rparr>)"

type_synonym 'a log_spec = "event_stream_key \<Rightarrow> 'a plog"

fun log_spec_step ::
    "('a \<Rightarrow> event_stream_key) \<Rightarrow> (read_scope \<Rightarrow> 'a \<Rightarrow> bool) \<Rightarrow> 'a log_command \<Rightarrow> 'a log_spec
     \<Rightarrow> 'a log_reply \<times> 'a log_spec" where
  "log_spec_step key_of is_match (AppendRecord r) L =
     (let p = L (key_of r); rs = pl_records p in
      if length rs = LOG_CAPACITY then
        (Appended (Inl (EventDurableLog ''event cursor overflowed u64; durable log exhausted'')), L)
      else (Appended (Inr \<lparr>en_cursor = of_nat (Suc (length rs)), en_record = r\<rparr>),
            L(key_of r := p\<lparr>pl_records := rs @ [r]\<rparr>)))"
| "log_spec_step key_of is_match (ReadRecords k f after limit) L =
     (Replayed (if limit = 0 then
          Inl (InvalidReplayRequest ''limit must be greater than zero'')
        else plog_read (case after of Some c \<Rightarrow> c | None \<Rightarrow> cursor_origin) limit (is_match f)
          (L k)), L)"
| "log_spec_step key_of is_match (TruncateLog k c) L =
     (let p = L k; n = length (pl_records p) in
      if c = 0 \<or> n = 0 then (Truncated (Inr ()), L)
      else if unat c > n then
        (Truncated (Inl (InvalidReplayRequest (''truncation cursor '' @ nat_display (unat c)
           @ '' exceeds stream head '' @ nat_display n))), L)
      else (Truncated (Inr ()), L(k := p\<lparr>pl_low := max (pl_low p) (unat c)\<rparr>)))"

text \<open>Truncation at the very last cursor is where \<open>bound + 1\<close> overflows.\<close>

fun no_full_truncation :: "'a log_command \<Rightarrow> bool" where
  "no_full_truncation (TruncateLog k c) = (c \<noteq> - 1)"
| "no_full_truncation _ = True"

subsection \<open>One stream implements its log\<close>

definition stream_implements :: "'a stream_state \<Rightarrow> 'a plog \<Rightarrow> bool" where
  "stream_implements st p \<longleftrightarrow>
     length (pl_records p) \<le> LOG_CAPACITY \<and> pl_low p \<le> length (pl_records p)
     \<and> pl_low p < LOG_CAPACITY
     \<and> sm_next_cursor st = of_nat (length (pl_records p))
     \<and> sm_earliest_retained st = (if pl_low p = 0 then 0 else of_nat (Suc (pl_low p)))
     \<and> sm_entries st = numbered (pl_low p) (drop (pl_low p) (pl_records p))"

lemma stream_implements_default [simp]: "stream_implements stream_default plog_empty"
  by (simp add: stream_implements_def stream_default_def plog_empty_def LOG_CAPACITY_def)

lemma stream_implementsD:
  assumes "stream_implements st p"
  shows "unat (sm_next_cursor st) = length (pl_records p)"
    and "unat (sm_earliest_retained st) = (if pl_low p = 0 then 0 else Suc (pl_low p))"
    and "pl_low p + length (drop (pl_low p) (pl_records p)) = length (pl_records p)"
    and "length (pl_records p) \<le> LOG_CAPACITY"
  using assms by (auto simp: stream_implements_def unat_cursor simp del: of_nat_Suc)

lemma stream_append_implements:
  assumes "stream_implements st p"
  shows "fst (stream_append r st) =
      (if length (pl_records p) = LOG_CAPACITY then
         Inl (EventDurableLog ''event cursor overflowed u64; durable log exhausted'')
       else Inr \<lparr>en_cursor = of_nat (Suc (length (pl_records p))), en_record = r\<rparr>)"
    and "stream_implements (snd (stream_append r st))
      (if length (pl_records p) = LOG_CAPACITY then p
       else p\<lparr>pl_records := pl_records p @ [r]\<rparr>)"
  using assms cursor_full_iff [of "length (pl_records p)"]
  by (auto simp: stream_append_def stream_implements_def Let_def numbered_append add.commute)

lemma scan_entries_collected:
  "length acc < limit \<Longrightarrow> fst (scan_entries after limit q acc l es) =
     acc @ take (limit - length acc) (filter (\<lambda>e. en_cursor e > after \<and> q (en_record e)) es)"
proof (induction es arbitrary: acc l)
  case Nil
  then show ?case by simp
next
  case (Cons e es)
  then show ?case
    by (auto simp: not_le take_Cons')
qed

lemma scan_entries_last:
  "length acc < limit \<Longrightarrow>
     filter (\<lambda>e. en_cursor e > after \<and> q (en_record e)) es = [] \<Longrightarrow>
     snd (scan_entries after limit q acc l es) =
       (let later = filter (\<lambda>e. en_cursor e > after) es in
        if later = [] then l else en_cursor (last later))"
  by (induction es arbitrary: l) (auto simp: Let_def not_le split: if_splits)

lemma filter_numbered_after:
  assumes "stream_implements st p" and "pl_low p \<le> unat c"
  shows "filter (\<lambda>e. en_cursor e > c) (sm_entries st) =
    numbered (unat c) (drop (unat c) (pl_records p))"
  using assms numbered_after [of "pl_low p" "drop (pl_low p) (pl_records p)" c]
  by (simp add: stream_implements_def)

lemma stream_read_implements:
  assumes "stream_implements st p" and "limit \<noteq> 0"
  shows "stream_read_after after limit q st = plog_read after limit q p"
proof (cases "unat after > length (pl_records p) \<or> unat after < pl_low p")
  case True
  then show ?thesis
    using assms(1) stream_implementsD [OF assms(1)]
    by (auto simp: stream_read_after_def plog_read_def Let_def word_less_nat_alt
        unat_saturating_sub stream_implements_def split: if_splits)
next
  case False
  let ?later = "numbered (unat after) (drop (unat after) (pl_records p))"
  let ?scan = "scan_entries after limit q [] after (sm_entries st)"
  have later: "filter (\<lambda>e. en_cursor e > after) (sm_entries st) = ?later"
    using False by (intro filter_numbered_after [OF assms(1)]) simp
  have "filter (\<lambda>e. en_cursor e > after \<and> q (en_record e)) (sm_entries st) =
      filter (\<lambda>e. q (en_record e)) ?later"
    by (simp flip: later add: conj_commute)
  then have page: "fst ?scan = plog_page after limit q (pl_records p)"
    and empty: "plog_page after limit q (pl_records p) = [] \<Longrightarrow>
      snd ?scan = (if ?later = [] then after else en_cursor (last ?later))"
    using scan_entries_collected [of "[]" limit after q after "sm_entries st"]
      scan_entries_last [of "[]" limit after q "sm_entries st" after] assms(2)
    by (auto simp: plog_page_def later Let_def)
  have head: "(if ?later = [] then after else en_cursor (last ?later)) = of_nat (length (pl_records p))"
    using False stream_implementsD(1) [OF assms(1)] by (auto simp: numbered_last)
  show ?thesis
    using False page empty head stream_implementsD [OF assms(1)]
    by (auto simp: stream_read_after_def plog_read_def Let_def word_less_nat_alt
        unat_saturating_sub split: prod.split if_splits)
qed

lemma stream_truncate_implements:
  assumes "stream_implements st p" and "c \<noteq> - 1" and "pl_records p \<noteq> []"
  shows "fst (stream_truncate c st) =
      (if unat c > length (pl_records p) then
         Inl (InvalidReplayRequest (''truncation cursor '' @ nat_display (unat c)
           @ '' exceeds stream head '' @ nat_display (length (pl_records p))))
       else Inr ())" (is ?reply)
    and "stream_implements (snd (stream_truncate c st))
      (if c = 0 \<or> unat c > length (pl_records p) then p
       else p\<lparr>pl_low := max (pl_low p) (unat c)\<rparr>)" (is ?state)
proof -
  have u: "unat c < LOG_CAPACITY"
    using assms(2) cursor_full_iff [of "unat c"] unat_le_capacity [of c]
    by (simp add: less_le)
  note head = stream_implementsD [OF assms(1)]
  show ?reply
    by (auto simp: stream_truncate_def Let_def word_less_nat_alt head)
  show ?state
  proof (cases "c = 0 \<or> unat c > length (pl_records p)")
    case True
    then show ?thesis using assms(1)
      by (auto simp: stream_truncate_def Let_def word_less_nat_alt head)
  next
    case False
    let ?low = "max (pl_low p) (unat c)"
    have "filter (\<lambda>e. en_cursor e > c) (sm_entries st) = numbered ?low (drop ?low (pl_records p))"
    proof (cases "pl_low p \<le> unat c")
      case True
      then show ?thesis using filter_numbered_after [OF assms(1) True] by (simp add: max_def)
    next
      case low: False
      have "filter (\<lambda>e. en_cursor e > c) (sm_entries st) = sm_entries st"
        unfolding filter_id_conv
      proof
        fix e assume "e \<in> set (sm_entries st)"
        then have "pl_low p < unat (en_cursor e)"
          using numbered_cursor [of e "pl_low p" "drop (pl_low p) (pl_records p)"] head(3,4) assms(1)
          by (simp add: stream_implements_def)
        then show "en_cursor e > c" using low by (simp add: word_less_nat_alt)
      qed
      then show ?thesis using low assms(1) by (simp add: stream_implements_def max_def)
    qed
    moreover have "unat (c + 1) = Suc (unat c)"
      using u by (simp add: LOG_CAPACITY_def unat_word_ariths)
    then have "c + 1 = of_nat (Suc (unat c))"
      using unat_cursor [of "Suc (unat c)"] u
      by (intro unsigned_word_eqI [where 'a = nat]) (simp del: of_nat_Suc)
    moreover have "sm_earliest_retained st \<le> c \<longleftrightarrow> pl_low p < unat c \<or> pl_low p = 0"
      using head(2) by (auto simp: word_le_nat_alt split: if_splits)
    ultimately show ?thesis
      using False assms(1) u head(1) by (auto simp: stream_truncate_def stream_implements_def Let_def
          word_less_nat_alt max_def unat_eq_zero)
  qed
qed

subsection \<open>The logs implement the specification\<close>

definition log_implements :: "'a streams \<Rightarrow> 'a log_spec \<Rightarrow> bool" where
  "log_implements m L \<longleftrightarrow> (\<forall>k. case hm_get k m of
     None \<Rightarrow> L k = plog_empty
   | Some st \<Rightarrow> stream_implements st (L k) \<and> pl_records (L k) \<noteq> [])"

lemma log_implements_empty: "log_implements [] (\<lambda>_. plog_empty)"
  by (simp add: log_implements_def)

lemma log_implementsD:
  assumes "log_implements m L"
  shows "hm_get k m = None \<Longrightarrow> L k = plog_empty"
    and "hm_get k m = Some st \<Longrightarrow> stream_implements st (L k) \<and> pl_records (L k) \<noteq> []"
  using assms by (auto simp: log_implements_def dest!: spec [of _ k])

lemma log_implements_insert:
  "log_implements m L \<Longrightarrow> stream_implements st p \<Longrightarrow> pl_records p \<noteq> [] \<Longrightarrow>
     log_implements (hm_insert k st m) (L(k := p))"
  unfolding log_implements_def by (clarsimp split: option.splits) (metis option.distinct(1))

lemma log_implements_insert_same:
  "log_implements m L \<Longrightarrow> stream_implements st (L k) \<Longrightarrow> pl_records (L k) \<noteq> [] \<Longrightarrow>
     log_implements (hm_insert k st m) L"
  using log_implements_insert [of m L st "L k" k] by simp

definition in_memory_log ::
    "('a \<Rightarrow> event_stream_key) \<Rightarrow> (read_scope \<Rightarrow> 'a \<Rightarrow> bool) \<Rightarrow> ('a streams, 'a) durable_log" where
  "in_memory_log key_of is_match = \<lparr>dl_append = log_append key_of,
     dl_read_after_cursor = log_read_after_cursor is_match\<rparr>"

lemma log_simulates:
  assumes "log_implements m L" and "no_full_truncation c"
  shows "log_implements (snd (log_step (in_memory_log key_of is_match) c m))
      (snd (log_spec_step key_of is_match c L))" (is ?state)
    and "fst (log_step (in_memory_log key_of is_match) c m) =
      fst (log_spec_step key_of is_match c L)" (is ?reply)
proof -
  have "?state \<and> ?reply"
  proof (cases c)
    case (AppendRecord r)
    define st where "st = (case hm_get (key_of r) m of Some st \<Rightarrow> st | None \<Rightarrow> stream_default)"
    have "stream_implements st (L (key_of r))"
      using log_implementsD [OF assms(1), of "key_of r"] by (auto simp: st_def split: option.split)
    note app = stream_append_implements [OF this, of r]
    have "snd (log_step (in_memory_log key_of is_match) c m) =
        hm_insert (key_of r) (snd (stream_append r st)) m"
      and "fst (log_step (in_memory_log key_of is_match) c m) = Appended (fst (stream_append r st))"
      by (simp_all add: AppendRecord in_memory_log_def log_append_def st_def Let_def
          split: prod.split)
    moreover have "pl_records (L (key_of r)) \<noteq> []"
      if "length (pl_records (L (key_of r))) = LOG_CAPACITY"
      using that by (auto simp: LOG_CAPACITY_def)
    ultimately show ?thesis
      using app assms(1) by (cases "length (pl_records (L (key_of r))) = LOG_CAPACITY")
        (simp_all add: AppendRecord Let_def log_implements_insert log_implements_insert_same)
  next
    case (ReadRecords k f after limit)
    show ?thesis
    proof (cases "hm_get k m")
      case None
      then show ?thesis
        using assms(1) log_implementsD(1) [OF assms(1) None]
        by (auto simp: ReadRecords in_memory_log_def log_read_after_cursor_def Let_def plog_read_def
            plog_page_def plog_empty_def cursor_origin_def word_gt_0 unat_gt_0)
    next
      case (Some st)
      then show ?thesis
        using assms(1) log_implementsD(2) [OF assms(1) Some]
        by (simp add: ReadRecords in_memory_log_def log_read_after_cursor_def Let_def
            stream_read_implements)
    qed
  next
    case (TruncateLog k t)
    show ?thesis
    proof (cases "hm_get k m")
      case None
      then show ?thesis
        using assms(1) log_implementsD(1) [OF assms(1) None]
        by (simp add: TruncateLog log_truncate_def plog_empty_def)
    next
      case (Some st)
      note st = log_implementsD(2) [OF assms(1) Some]
      show ?thesis
        using assms stream_truncate_implements [of st "L k" t] st Some
        by (auto simp: TruncateLog log_truncate_def Let_def split: prod.split if_splits
            intro: log_implements_insert log_implements_insert_same)
    qed
  qed
  then show ?state ?reply by simp_all
qed

interpretation event_log: simulation "log_step in_memory_event_log"
  "log_spec_step event_stream_of matches_event" no_full_truncation log_implements "(=)"
  using log_simulates [of _ _ _ event_stream_of matches_event]
  by unfold_locales (simp_all add: in_memory_event_log_def in_memory_log_def)

interpretation audit_log: simulation "log_step in_memory_audit_log"
  "log_spec_step audit_stream_of matches_audit" no_full_truncation log_implements "(=)"
  using log_simulates [of _ _ _ audit_stream_of matches_audit]
  by unfold_locales (simp_all add: in_memory_audit_log_def in_memory_log_def)


subsection \<open>Reading page by page\<close>

text \<open>A reader that resumes at the returned cursor until a page is empty, with \<open>n\<close> reads at most.\<close>

fun read_pages ::
    "nat \<Rightarrow> (event_cursor \<Rightarrow> (event_error, 'a event_replay) result) \<Rightarrow> event_cursor
     \<Rightarrow> (event_error, 'a event_log_entry list) result option" where
  "read_pages 0 rd c = None"
| "read_pages (Suc n) rd c =
     (case rd c of
        Inl e \<Rightarrow> Some (Inl e)
      | Inr page \<Rightarrow>
          if rp_entries page = [] then Some (Inr [])
          else (case read_pages n rd (rp_next_cursor page) of
                  Some (Inr es) \<Rightarrow> Some (Inr (rp_entries page @ es))
                | other \<Rightarrow> other))"

lemma numbered_sorted:
  "n + length rs \<le> LOG_CAPACITY \<Longrightarrow>
     sorted_wrt (\<lambda>a b. en_cursor a < en_cursor b) (numbered n rs)"
proof (induction rs arbitrary: n)
  case Nil
  then show ?case by simp
next
  case (Cons r rs)
  have "unat (of_nat (Suc n) :: u64) = Suc n" using Cons.prems by (intro unat_cursor) simp
  then show ?case
    using Cons numbered_cursor [of _ "Suc n" rs]
    by (auto simp: word_less_nat_alt simp del: of_nat_Suc)
qed

lemma filter_after_last:
  assumes "sorted_wrt (\<lambda>a b. en_cursor a < en_cursor b) (page @ rest)" and "page \<noteq> []"
  shows "filter (\<lambda>e. en_cursor e > en_cursor (last page)) (page @ rest) = rest"
proof -
  obtain ps p where page: "page = ps @ [p]" using assms(2) by (cases page rule: rev_cases) auto
  show ?thesis using assms(1)
    by (auto simp: page sorted_wrt_append filter_empty_conv intro!: filter_True)
qed

lemma plog_pages:
  assumes "length (pl_records p) \<le> LOG_CAPACITY" and "limit \<noteq> 0"
  shows "pl_low p \<le> unat c \<Longrightarrow> unat c \<le> length (pl_records p) \<Longrightarrow>
    length (filter (\<lambda>e. q (en_record e)) (numbered (unat c) (drop (unat c) (pl_records p)))) < n \<Longrightarrow>
    read_pages n (\<lambda>c. plog_read c limit q p) c =
      Some (Inr (filter (\<lambda>e. q (en_record e)) (numbered (unat c) (drop (unat c) (pl_records p)))))"
proof (induction n arbitrary: c)
  case 0
  then show ?case by simp
next
  case (Suc n)
  let ?after = "\<lambda>c. numbered (unat c) (drop (unat c) (pl_records p))"
  let ?F = "\<lambda>c. filter (\<lambda>e. q (en_record e)) (?after c)"
  define page where "page = take limit (?F c)"
  have read: "plog_read c limit q p = Inr \<lparr>rp_entries = page, rp_next_cursor =
      (if page = [] then of_nat (length (pl_records p)) else en_cursor (last page))\<rparr>"
    using Suc.prems by (simp add: plog_read_def plog_page_def page_def Let_def)
  show ?case
  proof (cases "page = []")
    case True
    then show ?thesis using assms(2) by (simp add: read page_def)
  next
    case False
    let ?d = "en_cursor (last page)"
    have le: "unat c + length (drop (unat c) (pl_records p)) \<le> LOG_CAPACITY"
      using assms(1) Suc.prems(2) by simp
    have F: "?F c = page @ drop limit (?F c)" by (simp add: page_def)
    have "last page \<in> set (?F c)"
      using False unfolding page_def by (intro in_set_takeD [OF last_in_set])
    then have "last page \<in> set (?after c)" by simp
    then have d: "unat c < unat ?d" "unat ?d \<le> length (pl_records p)"
      using numbered_cursor [OF _ le] Suc.prems(2) by auto
    have "?after ?d = filter (\<lambda>e. en_cursor e > ?d) (?after c)"
      using numbered_after [OF le, of ?d] d by simp
    then have "?F ?d = filter (\<lambda>e. en_cursor e > ?d) (?F c)"
      by (simp add: conj_commute)
    also have "\<dots> = drop limit (?F c)"
      using filter_after_last [of page "drop limit (?F c)"] False F
        sorted_wrt_filter [OF numbered_sorted [OF le], of "\<lambda>e. q (en_record e)"] by simp
    finally have rest: "?F ?d = drop limit (?F c)" .
    have "read_pages n (\<lambda>c. plog_read c limit q p) ?d = Some (Inr (?F ?d))"
    proof (rule Suc.IH)
      have "length (?F c) \<noteq> 0" using False by (auto simp: page_def)
      then show "length (?F ?d) < n"
        using Suc.prems(3) assms(2) unfolding rest length_drop by linarith
    qed (use Suc.prems(1) d in simp_all)
    then show ?thesis using False F by (simp add: read rest)
  qed
qed

text \<open>The records appended to a stream, which it accepts as long as it has cursors.\<close>

fun appended_to :: "('a \<Rightarrow> event_stream_key) \<Rightarrow> event_stream_key \<Rightarrow> 'a log_command list \<Rightarrow> 'a list" where
  "appended_to key_of k [] = []"
| "appended_to key_of k (AppendRecord r # cs) =
     (if key_of r = k then r # appended_to key_of k cs else appended_to key_of k cs)"
| "appended_to key_of k (_ # cs) = appended_to key_of k cs"

lemma spec_records_step:
  "length (pl_records (L k)) \<le> LOG_CAPACITY \<Longrightarrow>
     pl_records (snd (log_spec_step key_of is_match c L) k) =
       take LOG_CAPACITY (pl_records (L k) @ appended_to key_of k [c])"
  by (cases c) (auto simp: Let_def)

lemma appended_to_Cons:
  "appended_to key_of k (c # cs) = appended_to key_of k [c] @ appended_to key_of k cs"
  by (cases c) simp_all

lemma spec_records:
  "length (pl_records (L k)) \<le> LOG_CAPACITY \<Longrightarrow>
     pl_records (final_state (log_spec_step key_of is_match) cs L k) =
       take LOG_CAPACITY (pl_records (L k) @ appended_to key_of k cs)"
proof (induction cs arbitrary: L)
  case Nil
  then show ?case by simp
next
  case (Cons c cs)
  let ?L = "snd (log_spec_step key_of is_match c L)"
  have step: "pl_records (?L k) = take LOG_CAPACITY (pl_records (L k) @ appended_to key_of k [c])"
    using Cons.prems by (rule spec_records_step)
  then have "length (pl_records (?L k)) \<le> LOG_CAPACITY" by simp
  then show ?case
    using Cons.IH [of ?L]
    by (simp only: final_state_simps step appended_to_Cons [of key_of k c cs])
      (simp add: min_def take_append)
qed

lemma replay_pages_complete:
  fixes is_match :: "read_scope \<Rightarrow> 'a \<Rightarrow> bool"
  defines "rd \<equiv> \<lambda>k f limit m c. fst (log_read_after_cursor is_match k f (Some c) limit m)"
  assumes m: "log_implements m L" and rs: "length (pl_records (L k)) \<le> LOG_CAPACITY"
    and ok: "rd k f limit m c = Inr page" and n: "length (pl_records (L k)) < n"
  shows "read_pages n (rd k f limit m) c = Some (Inr (filter
    (\<lambda>e. is_match f (en_record e) \<and> en_cursor e > c) (numbered 0 (pl_records (L k)))))"
proof -
  have limit: "limit \<noteq> 0"
    using ok by (cases "limit = 0") (simp_all add: rd_def log_read_after_cursor_def)
  have rd: "rd k f limit m c = plog_read c limit (is_match f) (L k)" for c
    using log_simulates(2) [OF m, of "ReadRecords k f (Some c) limit" undefined is_match] limit
    by (simp add: rd_def in_memory_log_def)
  have c: "pl_low (L k) \<le> unat c" "unat c \<le> length (pl_records (L k))"
    using ok unfolding rd by (auto simp: plog_read_def Let_def split: if_splits)
  have after: "filter (\<lambda>e. en_cursor e > c) (numbered 0 (pl_records (L k))) =
      numbered (unat c) (drop (unat c) (pl_records (L k)))"
    using numbered_after [of 0 "pl_records (L k)" c] rs by simp
  have "length (filter (\<lambda>e. is_match f (en_record e))
      (numbered (unat c) (drop (unat c) (pl_records (L k))))) < n"
    by (rule le_less_trans [OF length_filter_le]) (use n in simp)
  then have "read_pages n (\<lambda>c. plog_read c limit (is_match f) (L k)) c = Some (Inr (filter
      (\<lambda>e. is_match f (en_record e)) (filter (\<lambda>e. en_cursor e > c) (numbered 0 (pl_records (L k))))))"
    unfolding after by (intro plog_pages [OF rs limit c])
  moreover have "rd k f limit m = (\<lambda>c. plog_read c limit (is_match f) (L k))"
    by (intro ext rd)
  ultimately show ?thesis by (simp add: conj_commute)
qed

text \<open>
  C29: replay is complete: whatever has happened to the event log (short of truncating at
  cursor \<open>2 ^ 64 - 1\<close>), a reader whose cursor the log accepts and who reads on, page by page of
  any positive limit, comes to an end after at most one read per record and one more, and has
  then received exactly the records of its stream after its cursor that its filter admits, each
  once and in the order they were appended.
\<close>

theorem event_replay_complete:
  assumes "\<forall>c \<in> set cs. no_full_truncation c"
    and "m = final_state (log_step in_memory_event_log) cs []"
    and "rs = take LOG_CAPACITY (appended_to event_stream_of k cs)"
    and "fst (dl_read_after_cursor in_memory_event_log k f (Some c) limit m) = Inr page"
    and "length rs < n"
  shows "read_pages n (\<lambda>c. fst (dl_read_after_cursor in_memory_event_log k f (Some c) limit m)) c =
    Some (Inr (filter (\<lambda>e. matches_event f (en_record e) \<and> en_cursor e > c) (numbered 0 rs)))"
proof -
  let ?L = "final_state (log_spec_step event_stream_of matches_event) cs (\<lambda>_. plog_empty)"
  have "log_implements m ?L"
    unfolding assms(2) by (rule event_log.final_states_match [OF log_implements_empty assms(1)])
  moreover have "pl_records (?L k) = rs"
    unfolding assms(3) using spec_records [of "\<lambda>_. plog_empty" k] by (simp add: plog_empty_def)
  moreover have "length rs \<le> LOG_CAPACITY" by (simp add: assms(3))
  ultimately show ?thesis
    using replay_pages_complete [where L = ?L and k = k and is_match = matches_event and f = f
        and limit = limit and m = m and c = c and page = page and n = n] assms(4,5)
    by (simp add: in_memory_event_log_def)
qed


subsection \<open>Samples\<close>

definition sample_event :: "uuid \<Rightarrow> runtime_event" where
  "sample_event i = ev_dispatch_requested i 0 \<lparr>rs_tenant_id = ''t'', rs_user_id = ''u'',
     rs_agent_id = None, rs_project_id = None, rs_mission_id = None, rs_thread_id = None,
     rs_invocation_id = 1\<rparr> ''ext.run''"

lemmas event_log_eval = in_memory_event_log_def log_append_def log_read_after_cursor_def
  stream_append_def stream_default_def stream_read_after_def saturating_sub_def sample_event_def
  event_stream_of_def stream_key_from_scope_def event_constructors hm_get_def hm_insert_def
  log_truncate_def stream_truncate_def matches_event_def read_scope_any_def Let_def

abbreviation sample_stream :: event_stream_key where
  "sample_stream \<equiv> event_stream_of (sample_event 0)"


theorem event_replay_complete_witness:
  "read_pages 4 (\<lambda>c. fst (dl_read_after_cursor in_memory_event_log sample_stream read_scope_any
       (Some c) 1 (final_state (log_step in_memory_event_log)
         [AppendRecord (sample_event 1), AppendRecord (sample_event 2),
          TruncateLog sample_stream 1, AppendRecord (sample_event 3)] []))) 1 =
     Some (Inr [\<lparr>en_cursor = 2, en_record = sample_event 2\<rparr>,
       \<lparr>en_cursor = 3, en_record = sample_event 3\<rparr>])"
proof -
  let ?cs = "[AppendRecord (sample_event 1), AppendRecord (sample_event 2),
    TruncateLog sample_stream 1, AppendRecord (sample_event 3)]"
  have rs: "take LOG_CAPACITY (appended_to event_stream_of sample_stream ?cs) =
      [sample_event 1, sample_event 2, sample_event 3]"
    by (simp add: LOG_CAPACITY_def event_log_eval)
  have page: "fst (dl_read_after_cursor in_memory_event_log sample_stream read_scope_any (Some 1) 1
      (final_state (log_step in_memory_event_log) ?cs [])) =
      Inr \<lparr>rp_entries = [\<lparr>en_cursor = 2, en_record = sample_event 2\<rparr>], rp_next_cursor = 2\<rparr>"
    by (simp add: event_log_eval word_le_nat_alt word_less_nat_alt)
  have "matches_event read_scope_any e" for e
    by (simp add: matches_event_def read_scope_any_def)
  then show ?thesis
    using event_replay_complete [OF _ refl rs [symmetric] page, of 4] by simp
qed

end
