(* ===== verification/TextLines.thy ===== *)
theory TextLines
  imports HostAudit
begin

section \<open>UTF-8, blank text and lines\<close>

text \<open>
  The functions of the Rust standard library on text that the log readers and the manifest
  checks call: \<open>str::from_utf8\<close> with its error report, \<open>trim().is_empty()\<close> and \<open>str::lines\<close>.
\<close>

subsection \<open>\<open>str::from_utf8\<close>\<close>

definition utf8_char_width :: "nat \<Rightarrow> nat" where
  "utf8_char_width b = (if b < 128 then 1 else if b < 194 then 0 else if b < 224 then 2
     else if b < 240 then 3 else if b < 245 then 4 else 0)"

definition is_continuation :: "char \<Rightarrow> bool" where
  "is_continuation c \<longleftrightarrow> 128 \<le> byte_of c \<and> byte_of c < 192"

text \<open>The second byte of a three- or four-byte character: no overlong form, no surrogate, no
  character above U+10FFFF.\<close>

definition second_byte_ok :: "nat \<Rightarrow> nat \<Rightarrow> bool" where
  "second_byte_ok a b \<longleftrightarrow>
     (if a = 224 then 160 \<le> b else if a = 240 then 144 \<le> b else 128 \<le> b)
     \<and> (if a = 237 then b \<le> 159 else if a = 244 then b \<le> 143 else b \<le> 191)"

text \<open>
  One character: its width, or the error length that \<open>Utf8Error\<close> reports, \<open>None\<close> at an
  unexpected end.
\<close>

fun utf8_step :: "string \<Rightarrow> (nat option, nat) result" where
  "utf8_step [] = Inl None"
| "utf8_step (a # s) =
     (let w = utf8_char_width (byte_of a) in
      if w = 1 then Inr 1
      else if w = 0 then Inl (Some 1)
      else (case s of
          [] \<Rightarrow> Inl None
        | b # s' \<Rightarrow>
            if w = 2 then (if is_continuation b then Inr 2 else Inl (Some 1))
            else if \<not> second_byte_ok (byte_of a) (byte_of b) then Inl (Some 1)
            else (case s' of
                [] \<Rightarrow> Inl None
              | c # s'' \<Rightarrow>
                  if \<not> is_continuation c then Inl (Some 2)
                  else if w = 3 then Inr 3
                  else (case s'' of
                      [] \<Rightarrow> Inl None
                    | d # _ \<Rightarrow> if is_continuation d then Inr 4 else Inl (Some 3)))))"

lemma utf8_step_width:
  "utf8_step s = Inr n \<Longrightarrow> 0 < n \<and> n \<le> length s \<and> utf8_step (s @ t) = Inr n"
  by (cases s rule: utf8_step.cases) (auto simp: Let_def split: if_splits list.splits)

text \<open>The position of the first error, counted from the beginning.\<close>

function utf8_from :: "nat \<Rightarrow> string \<Rightarrow> (nat \<times> nat option, unit) result" where
  "utf8_from i s =
     (if s = [] then Inr ()
      else (case utf8_step s of
              Inl e \<Rightarrow> Inl (i, e)
            | Inr n \<Rightarrow> utf8_from (i + n) (drop n s)))"
  by pat_completeness auto

termination
proof (relation "measure (\<lambda>(i, s). length s)", goal_cases)
  case (2 i s n)
  then show ?case using utf8_step_width [of s n "[]"] by simp
qed simp

declare utf8_from.simps [simp del]

definition utf8_error_display :: "nat \<times> nat option \<Rightarrow> string" where
  "utf8_error_display = (\<lambda>(i, e). case e of
     Some n \<Rightarrow> ''invalid utf-8 sequence of '' @ nat_display n @ '' bytes from index '' @ nat_display i
   | None \<Rightarrow> ''incomplete utf-8 byte sequence from index '' @ nat_display i)"

definition from_utf8 :: "string \<Rightarrow> (string, string) result" where
  "from_utf8 s = (case utf8_from 0 s of
     Inl e \<Rightarrow> Inl (utf8_error_display e) | Inr _ \<Rightarrow> Inr s)"

definition utf8_valid :: "string \<Rightarrow> bool" where
  "utf8_valid s \<longleftrightarrow> \<not> is_err (utf8_from 0 s)"

lemma utf8_from_append:
  "utf8_from i s = Inr () \<Longrightarrow> utf8_from i (s @ t) = utf8_from (i + length s) t"
proof (induction i s rule: utf8_from.induct)
  case (1 i s)
  show ?case
  proof (cases "s = []")
    case True
    then show ?thesis by simp
  next
    case False
    then obtain n where n: "utf8_step s = Inr n" "utf8_from (i + n) (drop n s) = Inr ()"
      using "1.prems" by (auto simp: utf8_from.simps [of i s] split: sum.splits)
    note w = utf8_step_width [OF n(1), of t]
    have "utf8_from i (s @ t) = utf8_from (i + n) (drop n s @ t)"
      using w False by (simp add: utf8_from.simps [of i "s @ t"])
    also have "\<dots> = utf8_from (i + n + length (drop n s)) t"
      by (rule "1.IH" [OF False n])
    finally show ?thesis using w by simp
  qed
qed

lemma utf8_from_shift: "utf8_from i s = Inr () \<Longrightarrow> utf8_from j s = Inr ()"
proof (induction i s arbitrary: j rule: utf8_from.induct)
  case (1 i s)
  show ?case
  proof (cases "s = []")
    case True
    then show ?thesis by (simp add: utf8_from.simps)
  next
    case False
    then obtain n where n: "utf8_step s = Inr n" "utf8_from (i + n) (drop n s) = Inr ()"
      using "1.prems" by (auto simp: utf8_from.simps [of i s] split: sum.splits)
    have "utf8_from (j + n) (drop n s) = Inr ()"
      by (rule "1.IH" [OF False n])
    then show ?thesis using n(1) False by (simp add: utf8_from.simps [of j s])
  qed
qed

lemma utf8_valid_append: "utf8_valid s \<Longrightarrow> utf8_valid t \<Longrightarrow> utf8_valid (s @ t)"
  using utf8_from_append [of 0 s t] utf8_from_shift [of 0 t "length s"]
  by (auto simp: utf8_valid_def not_is_err_iff)

lemma utf8_valid_Nil [simp]: "utf8_valid []"
  by (simp add: utf8_valid_def utf8_from.simps)

lemma utf8_valid_concat: "\<forall>s \<in> set ss. utf8_valid s \<Longrightarrow> utf8_valid (concat ss)"
  by (induction ss) (simp_all add: utf8_valid_append)

lemma utf8_valid_ascii: "\<forall>c \<in> set s. byte_of c < 128 \<Longrightarrow> utf8_valid s"
proof (induction s)
  case Nil
  then show ?case by simp
next
  case (Cons c s)
  have "utf8_valid [c]" using Cons.prems
    by (simp add: utf8_valid_def utf8_from.simps utf8_char_width_def)
  then show ?case using Cons utf8_valid_append [of "[c]" s] by simp
qed

lemma from_utf8_valid: "utf8_valid s \<Longrightarrow> from_utf8 s = Inr s"
  by (auto simp: utf8_valid_def from_utf8_def not_is_err_iff)

subsection \<open>\<open>trim().is_empty()\<close>\<close>

text \<open>
  Every character has Unicode's property \<open>White_Space\<close>: U+0009 to U+000D, U+0020, U+0085,
  U+00A0, U+1680, U+2000 to U+200A, U+2028, U+2029, U+202F, U+205F and U+3000.
\<close>

definition is_white_space3 :: "nat \<Rightarrow> nat \<Rightarrow> nat \<Rightarrow> bool" where
  "is_white_space3 a b c \<longleftrightarrow> a = 225 \<and> b = 154 \<and> c = 128
     \<or> a = 226 \<and> b = 128 \<and> (128 \<le> c \<and> c \<le> 138 \<or> c = 168 \<or> c = 169 \<or> c = 175)
     \<or> a = 226 \<and> b = 129 \<and> c = 159
     \<or> a = 227 \<and> b = 128 \<and> c = 128"

fun is_blank :: "string \<Rightarrow> bool" where
  "is_blank [] = True"
| "is_blank (a # s) =
     (if 9 \<le> byte_of a \<and> byte_of a \<le> 13 \<or> byte_of a = 32 then is_blank s
      else (case s of
          [] \<Rightarrow> False
        | b # s' \<Rightarrow>
            if byte_of a = 194 \<and> (byte_of b = 133 \<or> byte_of b = 160) then is_blank s'
            else (case s' of
                [] \<Rightarrow> False
              | c # s'' \<Rightarrow> is_white_space3 (byte_of a) (byte_of b) (byte_of c) \<and> is_blank s'')))"

subsection \<open>\<open>str::lines\<close>\<close>

text \<open>
  A line ends at a line feed, which is dropped with a carriage return before it; what follows
  the last line feed is a line unless it is empty.
\<close>

definition strip_cr :: "string \<Rightarrow> string" where
  "strip_cr l = (if l \<noteq> [] \<and> last l = CHR 0x0D then butlast l else l)"

definition str_lines :: "string \<Rightarrow> string list" where
  "str_lines s = (let ps = split_on (CHR 0x0A) s in
     map strip_cr (butlast ps) @ (if last ps = [] then [] else [last ps]))"

lemma str_lines_concat:
  assumes "\<forall>l \<in> set ls. CHR 0x0A \<notin> set l \<and> (l = [] \<or> last l \<noteq> CHR 0x0D)"
  shows "str_lines (concat (map (\<lambda>l. l @ [CHR 0x0A]) ls)) = ls"
proof -
  have "split_on (CHR 0x0A) (concat (map (\<lambda>l. l @ [CHR 0x0A]) ls)) = ls @ [[]]"
    using assms by (induction ls) (simp_all add: split_on_append_sep)
  moreover have "map strip_cr ls = ls"
    using assms by (induction ls) (auto simp: strip_cr_def)
  ultimately show ?thesis by (simp add: str_lines_def)
qed

end
