(* ===== verification/Jsonl.thy ===== *)
theory Jsonl
  imports EventReplay TextLines
begin

section \<open>JSONL logs\<close>

text \<open>
  \<open>crates/ironclaw_events/src/lib.rs\<close>, the helpers on a JSONL file: a record per line. The
  parser \<open>serde_json::from_str\<close> of one line is the argument \<open>parse\<close>; its error is the message.
\<close>

definition serde_error :: "(string, 'a) result \<Rightarrow> (event_error, 'a) result" where
  "serde_error r = map_err EventSerialize r"

definition jsonl_lines :: "string \<Rightarrow> string list" where
  "jsonl_lines text = filter (\<lambda>line. \<not> is_blank line) (str_lines text)"

text \<open>\<open>collect\<close> into a \<open>Result\<close>: the first error ends it.\<close>

fun collect_results :: "('e, 'a) result list \<Rightarrow> ('e, 'a list) result" where
  "collect_results [] = Inr []"
| "collect_results (r # rs) = bind_result r (\<lambda>x. bind_result (collect_results rs) (\<lambda>xs. Inr (x # xs)))"

definition parse_jsonl ::
    "(string \<Rightarrow> (string, 'a) result) \<Rightarrow> string \<Rightarrow> (event_error, 'a list) result" where
  "parse_jsonl parse bytes =
     bind_result (serde_error (from_utf8 bytes)) (\<lambda>text.
       collect_results (map (\<lambda>line. serde_error (parse line)) (jsonl_lines text)))"

text \<open>The loop of \<open>replay_jsonl\<close>: the cursor of the last line and the entries so far.\<close>

fun replay_lines ::
    "(string \<Rightarrow> (string, 'a) result) \<Rightarrow> u64 \<Rightarrow> nat \<Rightarrow> u64 \<Rightarrow> 'a event_log_entry list \<Rightarrow> string list
     \<Rightarrow> (event_error, u64 \<times> 'a event_log_entry list) result" where
  "replay_lines parse after limit current_cursor entries [] = Inr (current_cursor, entries)"
| "replay_lines parse after limit current_cursor entries (line # lines) =
     (let current_cursor = current_cursor + 1 in
      bind_result (serde_error (parse line)) (\<lambda>r.
        replay_lines parse after limit current_cursor
          (if current_cursor > after \<and> length entries < limit
           then entries @ [\<lparr>en_cursor = current_cursor, en_record = r\<rparr>] else entries) lines))"

definition replay_jsonl ::
    "(string \<Rightarrow> (string, 'a) result) \<Rightarrow> string \<Rightarrow> event_cursor option \<Rightarrow> nat
     \<Rightarrow> (event_error, 'a event_replay) result" where
  "replay_jsonl parse bytes after limit =
     (if limit = 0 then Inl (InvalidReplayRequest ''limit must be greater than zero'')
      else
        (let after = (case after of Some c \<Rightarrow> c | None \<Rightarrow> cursor_origin) in
         bind_result (serde_error (from_utf8 bytes)) (\<lambda>text.
         bind_result (replay_lines parse after limit 0 [] (jsonl_lines text))
           (\<lambda>(current_cursor, entries).
             if after > current_cursor then Inl (ReplayGap after current_cursor)
             else Inr \<lparr>rp_entries = entries, rp_next_cursor =
               (if entries = [] then after else en_cursor (last entries))\<rparr>))))"

subsection \<open>A file of records\<close>

text \<open>What a writer produces with a printer of one record: a line for each.\<close>

definition to_jsonl :: "('a \<Rightarrow> string) \<Rightarrow> 'a list \<Rightarrow> string" where
  "to_jsonl print rs = concat (map (\<lambda>r. print r @ [CHR 0x0A]) rs)"

text \<open>
  The documented behaviour of serde's compact JSON that a JSONL file relies on: a record prints
  to one line of UTF-8 that is not blank and parses back.
\<close>

definition prints_lines ::
    "(string \<Rightarrow> (string, 'a) result) \<Rightarrow> ('a \<Rightarrow> string) \<Rightarrow> 'a \<Rightarrow> bool" where
  "prints_lines parse print r \<longleftrightarrow> parse (print r) = Inr r \<and> utf8_valid (print r)
     \<and> CHR 0x0A \<notin> set (print r) \<and> \<not> is_blank (print r) \<and> last (print r) \<noteq> CHR 0x0D"

lemma jsonl_text:
  assumes "\<forall>r \<in> set rs. prints_lines parse print r"
  shows "from_utf8 (to_jsonl print rs) = Inr (to_jsonl print rs)"
    and "jsonl_lines (to_jsonl print rs) = map print rs"
proof -
  have "utf8_valid (print r @ [CHR 0x0A])" if "r \<in> set rs" for r
    using assms that utf8_valid_ascii [of "[CHR 0x0A]"]
    by (intro utf8_valid_append) (auto simp: prints_lines_def byte_of_def)
  then show "from_utf8 (to_jsonl print rs) = Inr (to_jsonl print rs)"
    unfolding to_jsonl_def by (intro from_utf8_valid utf8_valid_concat) auto
  have "to_jsonl print rs = concat (map (\<lambda>l. l @ [CHR 0x0A]) (map print rs))"
    by (simp add: to_jsonl_def comp_def)
  then have "str_lines (to_jsonl print rs) = map print rs"
    using assms by (simp only:) (intro str_lines_concat, auto simp: prints_lines_def)
  then show "jsonl_lines (to_jsonl print rs) = map print rs"
    using assms by (auto simp: jsonl_lines_def prints_lines_def)
qed

lemma replay_lines_printed:
  "\<forall>r \<in> set rs. prints_lines parse print r \<Longrightarrow> n + length rs \<le> LOG_CAPACITY \<Longrightarrow>
     replay_lines parse after limit (of_nat n) acc (map print rs) =
       Inr (of_nat (n + length rs), acc @ take (limit - length acc)
         (filter (\<lambda>e. en_cursor e > after) (numbered n rs)))"
proof (induction rs arbitrary: n acc)
  case Nil
  then show ?case by simp
next
  case (Cons r rs)
  have "serde_error (parse (print r)) = Inr r"
    using Cons.prems by (simp add: prints_lines_def serde_error_def)
  moreover have next_cursor: "of_nat n + 1 = (of_nat (Suc n) :: u64)" by simp
  ultimately show ?case
    using Cons.IH [of "Suc n"] Cons.prems
    by (auto simp: Let_def next_cursor take_Cons' simp del: of_nat_Suc)
qed

lemma replay_jsonl_printed:
  assumes "\<forall>r \<in> set rs. prints_lines parse print r" and "length rs \<le> LOG_CAPACITY"
  shows "replay_jsonl parse (to_jsonl print rs) after limit =
    (if limit = 0 then Inl (InvalidReplayRequest ''limit must be greater than zero'')
     else plog_read (case after of Some c \<Rightarrow> c | None \<Rightarrow> cursor_origin) limit (\<lambda>_. True)
       \<lparr>pl_records = rs, pl_low = 0\<rparr>)"
proof -
  define c where "c = (case after of Some c \<Rightarrow> c | None \<Rightarrow> cursor_origin)"
  have lines: "replay_lines parse c limit 0 [] (map print rs) =
      Inr (of_nat (length rs), plog_page c limit (\<lambda>_. True) rs)"
    using replay_lines_printed [OF assms(1), of 0 c limit "[]"] numbered_after [of 0 rs c] assms(2)
    by (simp add: plog_page_def)
  have page: "plog_page c limit (\<lambda>_. True) rs = [] \<longleftrightarrow> limit = 0 \<or> length rs \<le> unat c"
    by (auto simp: plog_page_def)
  have head: "c > of_nat (length rs) \<longleftrightarrow> unat c > length rs"
    "unat c = length rs \<Longrightarrow> c = of_nat (length rs)"
    using unat_cursor [OF assms(2)] by (auto simp: word_less_nat_alt intro: unsigned_word_eqI [where 'a = nat])
  show ?thesis
    unfolding replay_jsonl_def c_def [symmetric]
    using head page by (auto simp: jsonl_text [OF assms(1)] lines serde_error_def plog_read_def Let_def)
qed

lemma collect_printed:
  "\<forall>r \<in> set rs. prints_lines parse print r \<Longrightarrow>
     collect_results (map (\<lambda>line. serde_error (parse line)) (map print rs)) = Inr rs"
  by (induction rs) (simp_all add: prints_lines_def serde_error_def)

subsection \<open>The file and the memory agree\<close>

lemma appended_to_all:
  "\<forall>r \<in> set rs. key_of r = k \<Longrightarrow> appended_to key_of k (map AppendRecord rs) = rs"
  by (induction rs) simp_all

lemma spec_appends_keep_low:
  "pl_low (final_state (log_spec_step key_of is_match) (map AppendRecord rs) L k) = pl_low (L k)"
  by (induction rs arbitrary: L) (simp_all add: Let_def)

lemma no_full_truncation_appends: "\<forall>c \<in> set (map AppendRecord rs). no_full_truncation c"
  by auto

lemma spec_appends:
  assumes "\<forall>r \<in> set rs. key_of r = k" and "length rs \<le> LOG_CAPACITY"
  shows "final_state (log_spec_step key_of is_match) (map AppendRecord rs) (\<lambda>_. plog_empty) k =
    \<lparr>pl_records = rs, pl_low = 0\<rparr>"
proof -
  let ?p = "final_state (log_spec_step key_of is_match) (map AppendRecord rs) (\<lambda>_. plog_empty) k"
  have "pl_records ?p = rs"
    using spec_records [of "\<lambda>_. plog_empty" k key_of is_match "map AppendRecord rs"] assms
    by (simp add: plog_empty_def appended_to_all)
  moreover have "pl_low ?p = 0"
    by (simp add: spec_appends_keep_low plog_empty_def)
  ultimately show ?thesis by simp
qed

text \<open>
  C37: a JSONL file of events is a faithful log: if every event prints to a line that parses
  back, then parsing the file gives the events back in order, and replaying the file after any
  cursor with any limit answers, errors and gaps included, exactly as the in-memory log to which
  the same events were appended.
\<close>

theorem jsonl_replays_like_memory:
  assumes "\<forall>r \<in> set rs. prints_lines parse print r" and "\<forall>r \<in> set rs. event_stream_of r = k"
    and "length rs \<le> LOG_CAPACITY"
  shows "parse_jsonl parse (to_jsonl print rs) = Inr rs
    \<and> replay_jsonl parse (to_jsonl print rs) after limit =
      fst (dl_read_after_cursor in_memory_event_log k read_scope_any after limit
        (final_state (log_step in_memory_event_log) (map AppendRecord rs) []))"
proof
  show "parse_jsonl parse (to_jsonl print rs) = Inr rs"
    using collect_printed [OF assms(1)]
    by (simp add: parse_jsonl_def jsonl_text [OF assms(1)] serde_error_def)
  let ?m = "final_state (log_step in_memory_event_log) (map AppendRecord rs) []"
  let ?L = "final_state (log_spec_step event_stream_of matches_event) (map AppendRecord rs)
    (\<lambda>_. plog_empty)"
  have m: "log_implements ?m ?L"
    by (rule event_log.final_states_match [OF log_implements_empty no_full_truncation_appends])
  have any: "matches_event read_scope_any = (\<lambda>_. True)"
    by (simp add: fun_eq_iff matches_event_def read_scope_any_def)
  have "fst (log_step in_memory_event_log (ReadRecords k read_scope_any after limit) ?m) =
      fst (log_spec_step event_stream_of matches_event (ReadRecords k read_scope_any after limit) ?L)"
    by (rule event_log.reply_step [OF m]) simp
  then show "replay_jsonl parse (to_jsonl print rs) after limit =
      fst (dl_read_after_cursor in_memory_event_log k read_scope_any after limit ?m)"
    using spec_appends [OF assms(2,3)]
    by (simp add: replay_jsonl_printed [OF assms(1,3)] any)
qed

definition sample_print :: "runtime_event \<Rightarrow> string" where
  "sample_print e = (if ev_event_id e = 1 then ''{1}'' else ''{2}'')"

definition sample_parse :: "string \<Rightarrow> (string, runtime_event) result" where
  "sample_parse s = (if s = ''{1}'' then Inr (sample_event 1)
     else if s = ''{2}'' then Inr (sample_event 2) else Inl ''expected value'')"

theorem jsonl_replays_like_memory_witness:
  "parse_jsonl sample_parse (to_jsonl sample_print [sample_event 1, sample_event 2]) =
     Inr [sample_event 1, sample_event 2]"
proof -
  have "prints_lines sample_parse sample_print (sample_event 1)"
    and "prints_lines sample_parse sample_print (sample_event 2)"
    by (simp_all add: prints_lines_def sample_parse_def sample_print_def sample_event_def
        event_constructors utf8_valid_ascii byte_of_def is_white_space3_def)
  then show ?thesis
    using jsonl_replays_like_memory [of "[sample_event 1, sample_event 2]" sample_parse sample_print
        sample_stream]
    by (simp add: LOG_CAPACITY_def event_stream_of_def sample_event_def event_constructors)
qed

end
