(* ===== verification/Filesystem.thy ===== *)
theory Filesystem
  imports HostTypes TextLines
begin

section \<open>The virtual filesystem\<close>

text \<open>
  \<open>crates/ironclaw_filesystem/src/lib.rs\<close>: the trait of root filesystems addressed by virtual
  paths, the composite root that routes a path to the backend mounted nearest above it, and the
  scoped view that an invocation gets, which resolves scoped paths through its mount view and
  checks the mount's permissions. A trait is the record of its methods on the shared state \<open>'w\<close>.
  The backends over the operating system, PostgreSQL and libSQL are not modelled, except for the
  path functions that the database backends share.
\<close>

datatype filesystem_operation =
    MountLocalOp
  | ReadFileOp
  | WriteFileOp
  | AppendFileOp
  | ListDirOp
  | StatOp
  | DeleteOp
  | CreateDirAllOp

fun operation_display :: "filesystem_operation \<Rightarrow> string" where
  "operation_display MountLocalOp = ''mount_local''"
| "operation_display ReadFileOp = ''read_file''"
| "operation_display WriteFileOp = ''write_file''"
| "operation_display AppendFileOp = ''append_file''"
| "operation_display ListDirOp = ''list_dir''"
| "operation_display StatOp = ''stat''"
| "operation_display DeleteOp = ''delete''"
| "operation_display CreateDirAllOp = ''create_dir_all''"

datatype filesystem_error =
    FsContract host_api_error
  | FsPermissionDenied scoped_path filesystem_operation
  | FsMountNotFound virtual_path
  | FsNotFound virtual_path filesystem_operation
  | FsPathOutsideMount virtual_path
  | FsSymlinkEscape virtual_path
  | FsMountConflict virtual_path
  | FsBackend virtual_path filesystem_operation string

datatype file_type = RegularFile | Directory | Symlink | OtherFile

record dir_entry =
  de_name :: string
  de_path :: virtual_path
  de_file_type :: file_type

record file_stat =
  fl_path :: virtual_path
  fl_file_type :: file_type
  fl_len :: u64

subsection \<open>Catalog records\<close>

type_synonym backend_id = string

definition backend_id_new :: "string \<Rightarrow> (host_api_error, backend_id) result" where
  "backend_id_new v =
     (if is_blank v then Inl (InvalidId ''filesystem backend'' v ''backend id must not be empty'')
      else if CHR ''/'' \<in> set v \<or> CHR 0x5C \<in> set v \<or> contains_control v then
        Inl (InvalidId ''filesystem backend'' v ''backend id must be a simple non-path identifier'')
      else Inr v)"

datatype backend_kind =
    LocalBackend
  | DatabaseBackend
  | MemoryDocuments
  | ObjectStore
  | CustomBackend string

datatype storage_class = FileContent | StructuredRecords | DerivedProjection

datatype content_kind =
    GenericFile
  | ProjectFile
  | Artifact
  | MemoryDocument
  | SystemState
  | ExtensionPackageContent
  | StructuredRecord

datatype index_policy = NotIndexed | FullText | VectorIndex | FullTextAndVector | BackendDefined

record backend_capabilities =
  bc_read :: bool
  bc_write :: bool
  bc_append :: bool
  bc_list :: bool
  bc_stat :: bool
  bc_delete :: bool
  bc_indexed :: bool
  bc_embedded :: bool

record mount_descriptor =
  md_virtual_root :: virtual_path
  md_backend_id :: backend_id
  md_backend_kind :: backend_kind
  md_storage_class :: storage_class
  md_content_kind :: content_kind
  md_index_policy :: index_policy
  md_capabilities :: backend_capabilities

record path_placement =
  pp_path :: virtual_path
  pp_matched_root :: virtual_path
  pp_backend_id :: backend_id
  pp_backend_kind :: backend_kind
  pp_storage_class :: storage_class
  pp_content_kind :: content_kind
  pp_index_policy :: index_policy
  pp_capabilities :: backend_capabilities

definition placement_from_descriptor :: "virtual_path \<Rightarrow> mount_descriptor \<Rightarrow> path_placement" where
  "placement_from_descriptor path d = \<lparr>pp_path = path, pp_matched_root = md_virtual_root d,
     pp_backend_id = md_backend_id d, pp_backend_kind = md_backend_kind d,
     pp_storage_class = md_storage_class d, pp_content_kind = md_content_kind d,
     pp_index_policy = md_index_policy d, pp_capabilities = md_capabilities d\<rparr>"

subsection \<open>The trait \<open>RootFilesystem\<close>\<close>

record 'w root_filesystem =
  fs_read_file :: "virtual_path \<Rightarrow> ('w, filesystem_error, string) operation"
  fs_write_file :: "virtual_path \<Rightarrow> string \<Rightarrow> ('w, filesystem_error, unit) operation"
  fs_append_file :: "virtual_path \<Rightarrow> string \<Rightarrow> ('w, filesystem_error, unit) operation"
  fs_list_dir :: "virtual_path \<Rightarrow> ('w, filesystem_error, dir_entry list) operation"
  fs_stat :: "virtual_path \<Rightarrow> ('w, filesystem_error, file_stat) operation"
  fs_delete :: "virtual_path \<Rightarrow> ('w, filesystem_error, unit) operation"
  fs_create_dir_all :: "virtual_path \<Rightarrow> ('w, filesystem_error, unit) operation"

text \<open>The default methods: a backend without the operation fails before any effect.\<close>

definition default_append_file ::
    "virtual_path \<Rightarrow> string \<Rightarrow> ('w, filesystem_error, unit) operation" where
  "default_append_file path bytes =
     fail_op (FsBackend path AppendFileOp ''append_file is not supported by this backend'')"

definition default_delete :: "virtual_path \<Rightarrow> ('w, filesystem_error, unit) operation" where
  "default_delete path =
     fail_op (FsBackend path DeleteOp ''delete is not supported by this backend'')"

definition default_create_dir_all :: "virtual_path \<Rightarrow> ('w, filesystem_error, unit) operation" where
  "default_create_dir_all path =
     fail_op (FsBackend path CreateDirAllOp ''create_dir_all is not supported by this backend'')"

subsection \<open>The composite root\<close>

record 'w composite_mount =
  cm_descriptor :: mount_descriptor
  cm_backend :: "'w root_filesystem"

definition path_prefix_matches :: "string \<Rightarrow> string \<Rightarrow> bool" where
  "path_prefix_matches pre path \<longleftrightarrow> path = pre \<or> prefix (pre @ ''/'') path"

definition mount_dyn ::
    "mount_descriptor \<Rightarrow> 'w root_filesystem
     \<Rightarrow> ('w composite_mount list, filesystem_error, unit) operation" where
  "mount_dyn descriptor backend mounts =
     (if list_ex (\<lambda>m. md_virtual_root (cm_descriptor m) = md_virtual_root descriptor) mounts then
        (Inl (FsMountConflict (md_virtual_root descriptor)), mounts)
      else (Inr (), mounts @ [\<lparr>cm_descriptor = descriptor, cm_backend = backend\<rparr>]))"

definition matching_mount ::
    "'w composite_mount list \<Rightarrow> virtual_path \<Rightarrow> (filesystem_error, 'w composite_mount) result" where
  "matching_mount mounts path =
     (case max_by_key (\<lambda>m. length (md_virtual_root (cm_descriptor m)))
         (filter (\<lambda>m. path_prefix_matches (md_virtual_root (cm_descriptor m)) path) mounts) of
        Some m \<Rightarrow> Inr m
      | None \<Rightarrow> Inl (FsMountNotFound path))"

definition describe_path ::
    "'w composite_mount list \<Rightarrow> virtual_path \<Rightarrow> (filesystem_error, path_placement) result" where
  "describe_path mounts path =
     bind_result (matching_mount mounts path) (\<lambda>m.
       Inr (placement_from_descriptor path (cm_descriptor m)))"

definition catalog_mounts :: "'w composite_mount list \<Rightarrow> mount_descriptor list" where
  "catalog_mounts mounts = sort_key md_virtual_root (map cm_descriptor mounts)"

definition routed ::
    "'w composite_mount list \<Rightarrow> ('w root_filesystem \<Rightarrow> virtual_path \<Rightarrow> ('w, filesystem_error, 'a) operation)
     \<Rightarrow> virtual_path \<Rightarrow> ('w, filesystem_error, 'a) operation" where
  "routed mounts method path =
     (case matching_mount mounts path of
        Inl e \<Rightarrow> fail_op e | Inr m \<Rightarrow> method (cm_backend m) path)"

definition composite_root :: "'w composite_mount list \<Rightarrow> 'w root_filesystem" where
  "composite_root mounts = \<lparr>
     fs_read_file = routed mounts fs_read_file,
     fs_write_file = (\<lambda>path bytes. routed mounts (\<lambda>b p. fs_write_file b p bytes) path),
     fs_append_file = (\<lambda>path bytes. routed mounts (\<lambda>b p. fs_append_file b p bytes) path),
     fs_list_dir = routed mounts fs_list_dir,
     fs_stat = routed mounts fs_stat,
     fs_delete = routed mounts fs_delete,
     fs_create_dir_all = routed mounts fs_create_dir_all\<rparr>"

subsection \<open>The scoped view\<close>

record 'w scoped_filesystem =
  sf_root :: "'w root_filesystem"
  sf_mounts :: mount_view

fun operation_allowed :: "mount_permissions \<Rightarrow> filesystem_operation \<Rightarrow> bool" where
  "operation_allowed p ReadFileOp = mp_read p"
| "operation_allowed p WriteFileOp = mp_write p"
| "operation_allowed p AppendFileOp = mp_write p"
| "operation_allowed p ListDirOp = mp_list p"
| "operation_allowed p StatOp = (mp_read p \<or> mp_list p)"
| "operation_allowed p DeleteOp = mp_delete p"
| "operation_allowed p CreateDirAllOp = mp_write p"
| "operation_allowed p MountLocalOp = False"

definition resolve_with_permission ::
    "'w scoped_filesystem \<Rightarrow> scoped_path \<Rightarrow> filesystem_operation
     \<Rightarrow> (filesystem_error, virtual_path) result" where
  "resolve_with_permission s path operation =
     bind_result (map_err FsContract (resolve_with_grant (sf_mounts s) path)) (\<lambda>(vp, grant).
       if \<not> operation_allowed (mg_permissions grant) operation then
         Inl (FsPermissionDenied path operation)
       else Inr vp)"

definition scoped_operation ::
    "'w scoped_filesystem \<Rightarrow> filesystem_operation
     \<Rightarrow> ('w root_filesystem \<Rightarrow> virtual_path \<Rightarrow> ('w, filesystem_error, 'a) operation)
     \<Rightarrow> scoped_path \<Rightarrow> ('w, filesystem_error, 'a) operation" where
  "scoped_operation s operation method path =
     (case resolve_with_permission s path operation of
        Inl e \<Rightarrow> fail_op e | Inr vp \<Rightarrow> method (sf_root s) vp)"

definition scoped_read_file where
  "scoped_read_file s path = scoped_operation s ReadFileOp fs_read_file path"

definition scoped_write_file where
  "scoped_write_file s path bytes =
     scoped_operation s WriteFileOp (\<lambda>r p. fs_write_file r p bytes) path"

definition scoped_append_file where
  "scoped_append_file s path bytes =
     scoped_operation s AppendFileOp (\<lambda>r p. fs_append_file r p bytes) path"

definition scoped_list_dir where
  "scoped_list_dir s path = scoped_operation s ListDirOp fs_list_dir path"

definition scoped_stat where
  "scoped_stat s path = scoped_operation s StatOp fs_stat path"

definition scoped_delete where
  "scoped_delete s path = scoped_operation s DeleteOp fs_delete path"

definition scoped_create_dir_all where
  "scoped_create_dir_all s path = scoped_operation s CreateDirAllOp fs_create_dir_all path"

subsection \<open>Path functions of the database backends\<close>

definition trim_matches :: "char \<Rightarrow> string \<Rightarrow> string" where
  "trim_matches c s = trim_end_matches c (trim_start_matches c s)"

fun collect_prefixes :: "string \<Rightarrow> string list \<Rightarrow> (host_api_error, virtual_path list) result" where
  "collect_prefixes current [] = Inr []"
| "collect_prefixes current (s # ss) =
     (if s = [] then collect_prefixes current ss
      else (let current = current @ ''/'' @ s in
        bind_result (virtual_path_new current) (\<lambda>p.
        bind_result (collect_prefixes current ss) (\<lambda>ps. Inr (p # ps)))))"

definition virtual_path_prefixes :: "virtual_path \<Rightarrow> (host_api_error, virtual_path list) result" where
  "virtual_path_prefixes path =
     collect_prefixes [] (split_on (CHR ''/'') (trim_matches (CHR ''/'') path))"

definition child_path_like_pattern :: "virtual_path \<Rightarrow> string" where
  "child_path_like_pattern path =
     concat (map (\<lambda>c. if c = CHR ''!'' \<or> c = CHR ''%'' \<or> c = CHR ''_'' then [CHR ''!'', c] else [c])
       (trim_end_matches (CHR ''/'') path)) @ ''/%''"

subsection \<open>Commands\<close>

datatype fs_command =
    FsRead
  | FsWrite string
  | FsAppend string
  | FsList
  | FsStat
  | FsDelete
  | FsCreate

datatype fs_value = BytesValue string | EntriesValue "dir_entry list" | StatValue file_stat | UnitValue

fun command_operation :: "fs_command \<Rightarrow> filesystem_operation" where
  "command_operation FsRead = ReadFileOp"
| "command_operation (FsWrite _) = WriteFileOp"
| "command_operation (FsAppend _) = AppendFileOp"
| "command_operation FsList = ListDirOp"
| "command_operation FsStat = StatOp"
| "command_operation FsDelete = DeleteOp"
| "command_operation FsCreate = CreateDirAllOp"

definition value_op :: "('a \<Rightarrow> fs_value) \<Rightarrow> ('w, filesystem_error, 'a) operation
    \<Rightarrow> ('w, filesystem_error, fs_value) operation" where
  "value_op f m = bind_op m (\<lambda>x. return_op (f x))"

fun fs_run :: "'w root_filesystem \<Rightarrow> fs_command \<Rightarrow> virtual_path
    \<Rightarrow> ('w, filesystem_error, fs_value) operation" where
  "fs_run r FsRead p = value_op BytesValue (fs_read_file r p)"
| "fs_run r (FsWrite b) p = value_op (\<lambda>_. UnitValue) (fs_write_file r p b)"
| "fs_run r (FsAppend b) p = value_op (\<lambda>_. UnitValue) (fs_append_file r p b)"
| "fs_run r FsList p = value_op EntriesValue (fs_list_dir r p)"
| "fs_run r FsStat p = value_op StatValue (fs_stat r p)"
| "fs_run r FsDelete p = value_op (\<lambda>_. UnitValue) (fs_delete r p)"
| "fs_run r FsCreate p = value_op (\<lambda>_. UnitValue) (fs_create_dir_all r p)"

fun scoped_run :: "'w scoped_filesystem \<Rightarrow> fs_command \<Rightarrow> scoped_path
    \<Rightarrow> ('w, filesystem_error, fs_value) operation" where
  "scoped_run s FsRead p = value_op BytesValue (scoped_read_file s p)"
| "scoped_run s (FsWrite b) p = value_op (\<lambda>_. UnitValue) (scoped_write_file s p b)"
| "scoped_run s (FsAppend b) p = value_op (\<lambda>_. UnitValue) (scoped_append_file s p b)"
| "scoped_run s FsList p = value_op EntriesValue (scoped_list_dir s p)"
| "scoped_run s FsStat p = value_op StatValue (scoped_stat s p)"
| "scoped_run s FsDelete p = value_op (\<lambda>_. UnitValue) (scoped_delete s p)"
| "scoped_run s FsCreate p = value_op (\<lambda>_. UnitValue) (scoped_create_dir_all s p)"

lemmas scoped_defs = scoped_read_file_def scoped_write_file_def scoped_append_file_def
  scoped_list_dir_def scoped_stat_def scoped_delete_def scoped_create_dir_all_def
  scoped_operation_def value_op_def

lemma scoped_run_eq:
  "scoped_run s c p = (case resolve_with_permission s p (command_operation c) of
     Inl e \<Rightarrow> fail_op e | Inr vp \<Rightarrow> fs_run (sf_root s) c vp)"
  by (cases c) (simp_all add: scoped_defs split: sum.split)

lemma composite_run_eq:
  "fs_run (composite_root ms) c p =
     (case matching_mount ms p of Inl e \<Rightarrow> fail_op e | Inr m \<Rightarrow> fs_run (cm_backend m) c p)"
  by (cases c) (simp_all add: composite_root_def routed_def value_op_def split: sum.split)

subsection \<open>Confinement\<close>

text \<open>A mount whose key covers a path, and no covering mount has a longer key.\<close>

definition nearest :: "('m \<Rightarrow> string) \<Rightarrow> 'm list \<Rightarrow> string \<Rightarrow> 'm \<Rightarrow> bool" where
  "nearest key ms p m \<longleftrightarrow> m \<in> set ms \<and> path_prefix_matches (key m) p
     \<and> (\<forall>m' \<in> set ms. path_prefix_matches (key m') p \<longrightarrow> length (key m') \<le> length (key m))"

definition uncovered :: "('m \<Rightarrow> string) \<Rightarrow> 'm list \<Rightarrow> string \<Rightarrow> bool" where
  "uncovered key ms p \<longleftrightarrow> (\<forall>m \<in> set ms. \<not> path_prefix_matches (key m) p)"

lemma path_prefix_matches_alias: "path_prefix_matches a p \<longleftrightarrow> alias_matches a p"
  by (simp add: path_prefix_matches_def alias_matches_def)

abbreviation backend_root :: "'w composite_mount \<Rightarrow> virtual_path" where
  "backend_root m \<equiv> md_virtual_root (cm_descriptor m)"

lemma matching_mount_cases:
  "(case matching_mount ms p of
      Inl e \<Rightarrow> e = FsMountNotFound p \<and> uncovered backend_root ms p
    | Inr m \<Rightarrow> nearest backend_root ms p m)"
proof (cases "max_by_key (\<lambda>m. length (backend_root m))
    (filter (\<lambda>m. path_prefix_matches (backend_root m) p) ms)")
  case None
  then show ?thesis by (auto simp: matching_mount_def uncovered_def filter_empty_conv)
next
  case (Some m)
  then show ?thesis using max_by_key_Some [OF Some] by (auto simp: matching_mount_def nearest_def)
qed

lemma resolve_confined:
  assumes "mount_view_ok view" and "scoped_path_ok p"
  shows "(case resolve_with_grant view p of
      Inl e \<Rightarrow> uncovered mg_alias (mv_mounts view) p
    | Inr (vp, m) \<Rightarrow> nearest mg_alias (mv_mounts view) p m
        \<and> vp = mg_target m @ drop (length (mg_alias m)) p
        \<and> path_prefix_matches (mg_target m) vp \<and> virtual_path_ok vp)"
proof (cases "max_by_key (\<lambda>m. length (mg_alias m))
    (filter (\<lambda>m. alias_matches (mg_alias m) p) (mv_mounts view))")
  case None
  then show ?thesis
    by (auto simp: resolve_with_grant_def uncovered_def path_prefix_matches_alias filter_empty_conv)
next
  case (Some m)
  note m = max_by_key_Some [OF Some]
  have "virtual_path_ok (mg_target m)" "mount_alias_ok (mg_alias m)" "alias_matches (mg_alias m) p"
    using assms(1) m by (auto simp: mount_view_ok_def)
  note r = resolve_mount_exact [OF this(1,2) assms(2) this(3)]
  have "alias_matches (mg_target m) (mg_target m @ drop (length (mg_alias m)) p)"
    using m by (auto simp: alias_matches_def prefix_def)
  then show ?thesis
    using Some m r by (simp add: resolve_with_grant_def nearest_def path_prefix_matches_alias Let_def)
qed

text \<open>
  C11: an invocation's filesystem is confined to its mounts: every operation on a scoped
  path either fails without any effect, because no mount covers the path, the mount does not
  permit the operation or no backend owns the target, or it is exactly the operation of the
  backend mounted nearest above the virtual path, on the target of the nearest covering mount
  extended by the rest of the path: a canonical path at or below that target, and the mount
  permits the operation.
\<close>

theorem scoped_filesystem_confined:
  assumes "mount_view_ok (sf_mounts s)" and "scoped_path_ok p"
    and "sf_root s = composite_root backends"
  shows "(\<exists>e. scoped_run s c p w = (Inl (FsContract e), w)
        \<and> uncovered mg_alias (mv_mounts (sf_mounts s)) p)
    \<or> (\<exists>m vp. nearest mg_alias (mv_mounts (sf_mounts s)) p m
        \<and> vp = mg_target m @ drop (length (mg_alias m)) p
        \<and> path_prefix_matches (mg_target m) vp \<and> virtual_path_ok vp
        \<and> (if \<not> operation_allowed (mg_permissions m) (command_operation c) then
             scoped_run s c p w = (Inl (FsPermissionDenied p (command_operation c)), w)
           else
             scoped_run s c p w = (Inl (FsMountNotFound vp), w) \<and> uncovered backend_root backends vp
             \<or> (\<exists>b. nearest backend_root backends vp b
                  \<and> scoped_run s c p w = fs_run (cm_backend b) c vp w)))"
proof (cases "resolve_with_grant (sf_mounts s) p")
  case (Inl e)
  then show ?thesis using resolve_confined [OF assms(1,2)]
    by (simp add: scoped_run_eq resolve_with_permission_def fail_op_def)
next
  case (Inr r)
  obtain vp m where r: "r = (vp, m)" by fastforce
  have m: "nearest mg_alias (mv_mounts (sf_mounts s)) p m" "vp = mg_target m @ drop (length (mg_alias m)) p"
    "path_prefix_matches (mg_target m) vp" "virtual_path_ok vp"
    using resolve_confined [OF assms(1,2)] unfolding Inr r by auto
  have "if \<not> operation_allowed (mg_permissions m) (command_operation c) then
        scoped_run s c p w = (Inl (FsPermissionDenied p (command_operation c)), w)
      else
        scoped_run s c p w = (Inl (FsMountNotFound vp), w) \<and> uncovered backend_root backends vp
        \<or> (\<exists>b. nearest backend_root backends vp b
             \<and> scoped_run s c p w = fs_run (cm_backend b) c vp w)"
    using Inr matching_mount_cases [of vp backends]
    by (auto simp: r assms(3) scoped_run_eq resolve_with_permission_def composite_run_eq fail_op_def
        split: sum.splits)
  then show ?thesis using m by blast
qed

definition sample_backend :: "nat root_filesystem" where
  "sample_backend = \<lparr>fs_read_file = (\<lambda>p w. (Inr p, w + 1)),
     fs_write_file = (\<lambda>p b w. (Inr (), w + 1)), fs_append_file = default_append_file,
     fs_list_dir = (\<lambda>p w. (Inr [], w)), fs_stat = (\<lambda>p. fail_op (FsNotFound p StatOp)),
     fs_delete = default_delete, fs_create_dir_all = default_create_dir_all\<rparr>"

definition sample_backends :: "nat composite_mount list" where
  "sample_backends = [\<lparr>cm_descriptor = \<lparr>md_virtual_root = ''/projects'',
       md_backend_id = ''local'', md_backend_kind = LocalBackend, md_storage_class = FileContent,
       md_content_kind = ProjectFile, md_index_policy = NotIndexed,
       md_capabilities = \<lparr>bc_read = True, bc_write = True, bc_append = False, bc_list = True,
         bc_stat = True, bc_delete = False, bc_indexed = False, bc_embedded = False\<rparr>\<rparr>,
       cm_backend = sample_backend\<rparr>]"

definition sample_scoped :: "nat scoped_filesystem" where
  "sample_scoped = \<lparr>sf_root = composite_root sample_backends, sf_mounts = sample_mounts\<rparr>"

theorem scoped_filesystem_confined_witness:
  "scoped_run sample_scoped FsRead ''/workspace/a'' 0 = (Inr (BytesValue ''/projects/p1/a''), 1)
   \<and> (\<exists>m. nearest mg_alias (mv_mounts sample_mounts) ''/workspace/a'' m)"
proof -
  have "scoped_path_new ''/workspace/a'' = Inr ''/workspace/a''" by code_simp
  then have p: "scoped_path_ok ''/workspace/a''" by (auto simp: scoped_path_ok_def)
  have read: "scoped_run sample_scoped FsRead ''/workspace/a'' 0 =
      (Inr (BytesValue ''/projects/p1/a''), 1)"
    by code_simp
  have s: "mount_view_ok (sf_mounts sample_scoped)"
    "sf_root sample_scoped = composite_root sample_backends"
    by (simp_all add: sample_scoped_def sample_mounts_ok)
  have m: "sf_mounts sample_scoped = sample_mounts" by (simp add: sample_scoped_def)
  show ?thesis
    using scoped_filesystem_confined [OF s(1) p s(2), of FsRead 0] read unfolding m by auto
qed

subsection \<open>A limit of the database backends\<close>

text \<open>
  \<open>create_dir_all\<close> of the database backends builds a virtual path from every prefix of its path.
  The first segment of \<open>/system/extensions/...\<close> alone is not below a known root, so creating any
  directory there fails.
\<close>

lemma system_extension_prefixes_fail:
  assumes "path_form (''system'' # ss) v"
  shows "virtual_path_prefixes v =
    Inl (InvalidPath ''/system'' ''virtual path must begin with a known root'')"
proof -
  have v: "v = render (''system'' # ss)" and ok: "\<forall>s \<in> set ss. segment_ok s"
    using assms by (auto simp: path_form_def)
  have "trim_start_matches (CHR ''/'') v = join_with (CHR ''/'') (''system'' # ss)"
    unfolding v by (rule trim_start_render) (use assms in \<open>simp_all add: path_form_def\<close>)
  moreover have "trim_end_matches (CHR ''/'') (join_with (CHR ''/'') (''system'' # ss)) =
      join_with (CHR ''/'') (''system'' # ss)"
    using path_form_clean(5) [OF assms] last_join_with [of "''system'' # ss" "CHR ''/''"] assms
    by (cases "join_with (CHR ''/'') (''system'' # ss)" rule: rev_cases)
      (auto simp: trim_end_matches_def v render_def)
  ultimately have "split_on (CHR ''/'') (trim_matches (CHR ''/'') v) = ''system'' # ss"
    using assms by (simp add: trim_matches_def split_on_join_with path_form_def segment_ok_def)
  moreover have "virtual_path_new ''/system'' =
      Inl (InvalidPath ''/system'' ''virtual path must begin with a known root'')"
    by code_simp
  ultimately show ?thesis by (simp add: virtual_path_prefixes_def Let_def)
qed

end
