(* ===== verification/Extensions.thy ===== *)
theory Extensions
  imports Filesystem Trust HashMaps Traces
begin

section \<open>Extension packages and their registry\<close>

text \<open>
  \<open>crates/ironclaw_extensions/src/lib.rs\<close>: the validation of manifests, the descriptors drawn
  from them, the registry that the host and the dispatcher look capabilities up in, and the
  discovery that fills it from the filesystem. The TOML parser (with serde's derived
  deserialisation of the raw manifest) and \<open>url::Url::parse\<close> (its scheme, if it parses) are the
  arguments \<open>parse_toml\<close> and \<open>url_scheme\<close>.
\<close>

datatype extension_error =
    ExtContract host_api_error
  | ManifestParse string
  | InvalidManifest string
  | InvalidAssetPath string string
  | ManifestIdMismatch virtual_path extension_id extension_id
  | DuplicateExtension extension_id
  | DuplicateCapability capability_id
  | ExtFilesystem filesystem_error

type_synonym asset_path = string

subsection \<open>Asset paths\<close>

definition is_ascii_alphabetic :: "char \<Rightarrow> bool" where
  "is_ascii_alphabetic c \<longleftrightarrow> is_ascii_lowercase c \<or> 65 \<le> byte_of c \<and> byte_of c \<le> 90"

definition looks_like_windows_asset :: "string \<Rightarrow> bool" where
  "looks_like_windows_asset v \<longleftrightarrow>
     2 \<le> length v \<and> is_ascii_alphabetic (v ! 0) \<and> v ! 1 = CHR '':''
     \<or> 3 \<le> length v \<and> v ! 1 = CHR '':'' \<and> (v ! 2 = CHR 0x5C \<or> v ! 2 = CHR ''/'')"

definition validate_asset_path :: "string \<Rightarrow> (extension_error, unit) result" where
  "validate_asset_path v =
     (if v = [] then Inl (InvalidAssetPath v ''asset path must not be empty'')
      else if contains_control v then
        Inl (InvalidAssetPath v ''NUL/control characters are not allowed'')
      else if sublist ''://'' v then Inl (InvalidAssetPath v ''URLs are not extension asset paths'')
      else if hd v = CHR ''/'' then Inl (InvalidAssetPath v ''asset path must be relative'')
      else if looks_like_windows_asset v \<or> CHR 0x5C \<in> set v then
        Inl (InvalidAssetPath v ''host path separators are not allowed'')
      else if list_ex (\<lambda>s. s = [] \<or> s = ''.'' \<or> s = ''..'') (split_on (CHR ''/'') v) then
        Inl (InvalidAssetPath v ''empty or dot path segments are not allowed'')
      else Inr ())"

definition asset_path_new :: "string \<Rightarrow> (extension_error, asset_path) result" where
  "asset_path_new v = bind_result (validate_asset_path v) (\<lambda>_. Inr v)"

definition asset_resolve_under ::
    "asset_path \<Rightarrow> virtual_path \<Rightarrow> (extension_error, virtual_path) result" where
  "asset_resolve_under asset root = map_err ExtContract
     (virtual_path_new (trim_end_matches (CHR ''/'') root @ ''/'' @ asset))"

subsection \<open>Manifests\<close>

datatype extension_runtime =
    RtWasm asset_path
  | RtScript string "string option" string "string list"
  | RtMcp string "string option" "string list" "string option"
  | RtFirstParty string
  | RtSystem string

fun runtime_kind_of :: "extension_runtime \<Rightarrow> runtime_kind" where
  "runtime_kind_of (RtWasm _) = Wasm"
| "runtime_kind_of (RtScript _ _ _ _) = Script"
| "runtime_kind_of (RtMcp _ _ _ _) = Mcp"
| "runtime_kind_of (RtFirstParty _) = FirstPartyRuntime"
| "runtime_kind_of (RtSystem _) = SystemRuntime"

record capability_manifest =
  cx_id :: capability_id
  cx_description :: string
  cx_effects :: "effect_kind list"
  cx_default_permission :: permission_mode
  cx_parameters_schema :: json
  cx_resource_profile :: "resource_profile option"

record extension_manifest =
  xm_id :: extension_id
  xm_name :: string
  xm_version :: string
  xm_description :: string
  xm_requested_trust :: requested_trust_class
  xm_trust :: trust_class
  xm_runtime :: extension_runtime
  xm_capabilities :: "capability_manifest list"

datatype raw_runtime =
    RawWasm string
  | RawScript "string option" "string option" "string option" string "string list"
  | RawMcp string "string option" "string list" "string option"
  | RawFirstParty string
  | RawSystem string

text \<open>A raw capability has the fields of a capability manifest, its id unchecked.\<close>

record raw_capability =
  rw_id :: string
  rw_description :: string
  rw_effects :: "effect_kind list"
  rw_default_permission :: permission_mode
  rw_parameters_schema :: json
  rw_resource_profile :: "resource_profile option"

record raw_manifest =
  rm_id :: string
  rm_name :: string
  rm_version :: string
  rm_description :: string
  rm_trust :: requested_trust_class
  rm_runtime :: raw_runtime
  rm_capabilities :: "raw_capability list"

definition default_requested_trust :: requested_trust_class where
  "default_requested_trust = Untrusted"

text \<open>The custom deserialiser; \<open>debug\<close> is the \<open>Debug\<close> form of a string, which only the message holds.\<close>

definition deserialize_requested_trust ::
    "(string \<Rightarrow> string) \<Rightarrow> string \<Rightarrow> (string, requested_trust_class) result" where
  "deserialize_requested_trust debug v =
     (if v = ''untrusted'' then Inr Untrusted
      else if v = ''third_party'' then Inr ThirdParty
      else if v = ''first_party_requested'' then Inr FirstPartyRequested
      else if v = ''system_requested'' then Inr SystemRequested
      else if v = ''sandbox'' then Inl ''trust = \"sandbox\" is obsolete; use \"untrusted\"''
      else if v = ''user_trusted'' then
        Inl ''trust = \"user_trusted\" is obsolete; use \"third_party\"''
      else if v = ''first_party'' then
        Inl ''trust = \"first_party\" is obsolete; use \"first_party_requested\"''
      else if v = ''system'' then Inl ''trust = \"system\" is obsolete; use \"system_requested\"''
      else Inl (''unsupported trust value '' @ debug v @
        ''; expected one of untrusted, third_party, first_party_requested, system_requested''))"

fun requested_trust_to_descriptor_trust :: "requested_trust_class \<Rightarrow> trust_class" where
  "requested_trust_to_descriptor_trust ThirdParty = UserTrusted"
| "requested_trust_to_descriptor_trust Untrusted = Sandbox"
| "requested_trust_to_descriptor_trust FirstPartyRequested = Sandbox"
| "requested_trust_to_descriptor_trust SystemRequested = Sandbox"

definition validate_non_empty :: "string \<Rightarrow> string \<Rightarrow> (extension_error, unit) result" where
  "validate_non_empty kind v =
     (if is_blank v then Inl (InvalidManifest (kind @ '' must not be empty'')) else Inr ())"

definition validate_mcp_http_url ::
    "(string \<Rightarrow> string option) \<Rightarrow> string \<Rightarrow> string \<Rightarrow> (extension_error, unit) result" where
  "validate_mcp_http_url url_scheme transport v =
     (case url_scheme v of
        None \<Rightarrow> Inl (InvalidManifest
          (''mcp '' @ transport @ '' transport URL must be absolute http(s) URL''))
      | Some scheme \<Rightarrow>
          if \<not> (scheme = ''http'' \<or> scheme = ''https'') then
            Inl (InvalidManifest (''mcp '' @ transport @ '' transport URL must use http or https''))
          else Inr ())"

definition validate_if_present ::
    "string \<Rightarrow> string option \<Rightarrow> (extension_error, unit) result" where
  "validate_if_present kind v = (case v of None \<Rightarrow> Inr () | Some s \<Rightarrow> validate_non_empty kind s)"

definition validate_mcp_runtime_shape ::
    "(string \<Rightarrow> string option) \<Rightarrow> string \<Rightarrow> string option \<Rightarrow> string option
     \<Rightarrow> (extension_error, unit) result" where
  "validate_mcp_runtime_shape url_scheme transport command url =
     bind_result (validate_non_empty ''mcp transport'' transport) (\<lambda>_.
     bind_result (validate_if_present ''mcp command'' command) (\<lambda>_.
     bind_result (validate_if_present ''mcp url'' url) (\<lambda>_.
       if transport = ''stdio'' then
         (if url \<noteq> None then Inl (InvalidManifest ''mcp stdio transport must not specify url'')
          else if command = None then Inl (InvalidManifest ''mcp stdio transport requires command'')
          else Inr ())
       else if transport = ''http'' \<or> transport = ''sse'' then
         (if command \<noteq> None then
            Inl (InvalidManifest (''mcp '' @ transport @ '' transport must not specify command''))
          else (case url of
              None \<Rightarrow> Inl (InvalidManifest (''mcp '' @ transport @ '' transport requires url''))
            | Some u \<Rightarrow> validate_mcp_http_url url_scheme transport u))
       else Inl (InvalidManifest ''mcp transport must be one of stdio, http, or sse''))))"

definition SELF_ASSERTED_RUNTIME :: string where
  "SELF_ASSERTED_RUNTIME = ''first-party and system runtimes are host-assigned and cannot be self-asserted by manifests''"

fun into_runtime ::
    "(string \<Rightarrow> string option) \<Rightarrow> raw_runtime \<Rightarrow> (extension_error, extension_runtime) result" where
  "into_runtime url_scheme (RawWasm module_path) =
     bind_result (asset_path_new module_path) (\<lambda>m. Inr (RtWasm m))"
| "into_runtime url_scheme (RawScript runner backend img command args) =
     bind_result (case (runner, backend) of
         (Some r, None) \<Rightarrow> Inr r
       | (None, Some b) \<Rightarrow> Inr b
       | (Some _, Some _) \<Rightarrow> Inl (InvalidManifest
           ''script runtime must specify either runner or legacy backend, not both'')
       | (None, None) \<Rightarrow> Inl (InvalidManifest ''script runtime runner is required'')) (\<lambda>r.
     bind_result (validate_non_empty ''script runner'' r) (\<lambda>_.
     bind_result (if r = ''docker''
         then validate_non_empty ''script image'' (case img of Some i \<Rightarrow> i | None \<Rightarrow> [])
         else Inr ()) (\<lambda>_.
     bind_result (validate_non_empty ''script command'' command) (\<lambda>_.
       Inr (RtScript r img command args)))))"
| "into_runtime url_scheme (RawMcp transport command args url) =
     bind_result (validate_mcp_runtime_shape url_scheme transport command url) (\<lambda>_.
       Inr (RtMcp transport command args url))"
| "into_runtime url_scheme (RawFirstParty service) =
     bind_result (validate_non_empty ''first-party service'' service) (\<lambda>_.
       Inl (InvalidManifest SELF_ASSERTED_RUNTIME))"
| "into_runtime url_scheme (RawSystem service) =
     bind_result (validate_non_empty ''system service'' service) (\<lambda>_.
       Inl (InvalidManifest SELF_ASSERTED_RUNTIME))"

definition capability_from_raw ::
    "raw_capability \<Rightarrow> (extension_error, capability_manifest) result" where
  "capability_from_raw raw =
     (if is_blank (rw_description raw) then
        Inl (InvalidManifest (''capability '' @ rw_id raw @ '' description must not be empty''))
      else bind_result (map_err ExtContract (capability_id_new (rw_id raw))) (\<lambda>i.
        Inr \<lparr>cx_id = i, cx_description = rw_description raw, cx_effects = rw_effects raw,
             cx_default_permission = rw_default_permission raw,
             cx_parameters_schema = rw_parameters_schema raw,
             cx_resource_profile = rw_resource_profile raw\<rparr>))"

fun capabilities_from_raw ::
    "raw_capability list \<Rightarrow> (extension_error, capability_manifest list) result" where
  "capabilities_from_raw [] = Inr []"
| "capabilities_from_raw (r # rs) = bind_result (capability_from_raw r) (\<lambda>c.
     bind_result (capabilities_from_raw rs) (\<lambda>cs. Inr (c # cs)))"

definition manifest_from_raw ::
    "(string \<Rightarrow> string option) \<Rightarrow> raw_manifest \<Rightarrow> (extension_error, extension_manifest) result" where
  "manifest_from_raw url_scheme raw =
     (if is_blank (rm_name raw) then Inl (InvalidManifest ''name must not be empty'')
      else if is_blank (rm_version raw) then Inl (InvalidManifest ''version must not be empty'')
      else if rm_capabilities raw = [] then
        Inl (InvalidManifest ''at least one capability is required'')
      else
        bind_result (map_err ExtContract (name_id_new ''extension'' (rm_id raw))) (\<lambda>i.
        bind_result (into_runtime url_scheme (rm_runtime raw)) (\<lambda>runtime.
        bind_result (capabilities_from_raw (rm_capabilities raw)) (\<lambda>capabilities.
          Inr \<lparr>xm_id = i, xm_name = rm_name raw, xm_version = rm_version raw,
               xm_description = rm_description raw, xm_requested_trust = rm_trust raw,
               xm_trust = requested_trust_to_descriptor_trust (rm_trust raw),
               xm_runtime = runtime, xm_capabilities = capabilities\<rparr>))))"

definition manifest_parse ::
    "(string \<Rightarrow> (string, raw_manifest) result) \<Rightarrow> (string \<Rightarrow> string option) \<Rightarrow> string
     \<Rightarrow> (extension_error, extension_manifest) result" where
  "manifest_parse parse_toml url_scheme input =
     bind_result (map_err ManifestParse (parse_toml input)) (manifest_from_raw url_scheme)"

subsection \<open>Packages\<close>

record extension_package =
  xp_id :: extension_id
  xp_root :: virtual_path
  xp_manifest :: extension_manifest
  xp_capabilities :: "capability_descriptor list"

definition invalid_package_root :: "virtual_path \<Rightarrow> extension_error" where
  "invalid_package_root root = InvalidManifest
     (''extension package root '' @ root @ '' must be /system/extensions/<extension>'')"

definition extension_id_from_package_root ::
    "virtual_path \<Rightarrow> (extension_error, extension_id) result" where
  "extension_id_from_package_root root =
     (case strip_prefix ''/system/extensions/'' root of
        None \<Rightarrow> Inl (invalid_package_root root)
      | Some extension \<Rightarrow>
          if extension = [] \<or> CHR ''/'' \<in> set extension then Inl (invalid_package_root root)
          else map_err ExtContract (name_id_new ''extension'' extension))"

definition ensure_extension_root_matches ::
    "extension_id \<Rightarrow> virtual_path \<Rightarrow> (extension_error, unit) result" where
  "ensure_extension_root_matches i root =
     bind_result (extension_id_from_package_root root) (\<lambda>expected.
       if expected \<noteq> i then Inl (ManifestIdMismatch root expected i) else Inr ())"

definition descriptor_of :: "extension_manifest \<Rightarrow> capability_manifest \<Rightarrow> capability_descriptor" where
  "descriptor_of m c = \<lparr>cd_id = cx_id c, cd_provider = xm_id m,
     cd_runtime = runtime_kind_of (xm_runtime m), cd_trust_ceiling = xm_trust m,
     cd_description = cx_description c, cd_parameters_schema = cx_parameters_schema c,
     cd_effects = cx_effects c, cd_default_permission = cx_default_permission c,
     cd_resource_profile = cx_resource_profile c\<rparr>"

text \<open>The closure mapped over the capabilities, with the set of ids seen so far.\<close>

fun descriptors_from ::
    "extension_manifest \<Rightarrow> capability_id set \<Rightarrow> capability_manifest list
     \<Rightarrow> (extension_error, capability_descriptor list) result" where
  "descriptors_from m seen [] = Inr []"
| "descriptors_from m seen (c # cs) =
     (let expected_prefix = xm_id m @ ''.'' in
      if \<not> prefix expected_prefix (cx_id c) then
        Inl (InvalidManifest (''capability id '' @ cx_id c @ '' must be provider-prefixed with ''
          @ expected_prefix))
      else if cx_id c \<in> seen then Inl (DuplicateCapability (cx_id c))
      else bind_result (descriptors_from m (insert (cx_id c) seen) cs) (\<lambda>ds.
        Inr (descriptor_of m c # ds)))"

definition package_from_manifest ::
    "extension_manifest \<Rightarrow> virtual_path \<Rightarrow> (extension_error, extension_package) result" where
  "package_from_manifest m root =
     bind_result (ensure_extension_root_matches (xm_id m) root) (\<lambda>_.
     bind_result (descriptors_from m {} (xm_capabilities m)) (\<lambda>capabilities.
       Inr \<lparr>xp_id = xm_id m, xp_root = root, xp_manifest = m, xp_capabilities = capabilities\<rparr>))"

definition validate_package_consistency ::
    "extension_package \<Rightarrow> (extension_error, unit) result" where
  "validate_package_consistency p =
     bind_result (package_from_manifest (xp_manifest p) (xp_root p)) (\<lambda>expected.
       if xp_id p \<noteq> xp_id expected then
         Inl (InvalidManifest (''package id '' @ xp_id p @ '' does not match manifest/root id ''
           @ xp_id expected))
       else if xp_capabilities p \<noteq> xp_capabilities expected then
         Inl (InvalidManifest ''package capability descriptors do not match manifest declarations'')
       else Inr ())"

definition package_identity_of ::
    "extension_package \<Rightarrow> package_source \<Rightarrow> string option \<Rightarrow> string option
     \<Rightarrow> (extension_error, package_identity) result" where
  "package_identity_of p source digest signer =
     bind_result (validate_package_consistency p) (\<lambda>_.
     bind_result (map_err ExtContract (name_id_new ''package'' (xm_id (xp_manifest p)))) (\<lambda>i.
       Inr \<lparr>pi_package_id = i, pi_source = source, pi_digest = digest, pi_signer = signer\<rparr>))"

definition trust_policy_input_of ::
    "extension_package \<Rightarrow> package_source \<Rightarrow> string option \<Rightarrow> string option
     \<Rightarrow> (extension_error, trust_policy_input) result" where
  "trust_policy_input_of p source digest signer =
     bind_result (package_identity_of p source digest signer) (\<lambda>identity.
       Inr \<lparr>tpi_identity = identity, tpi_requested_trust = xm_requested_trust (xp_manifest p),
            tpi_requested_authority = set (map cd_id (xp_capabilities p))\<rparr>)"

subsection \<open>The registry\<close>

record extension_registry =
  xr_packages :: "(extension_id, extension_package) hash_map"
  xr_capabilities :: "(capability_id, capability_descriptor) hash_map"
  xr_extension_order :: "extension_id list"
  xr_capability_order :: "capability_id list"

definition registry_new :: extension_registry where
  "registry_new = \<lparr>xr_packages = [], xr_capabilities = [], xr_extension_order = [],
     xr_capability_order = []\<rparr>"

text \<open>The first loop of \<open>insert\<close>, with the set of ids seen so far.\<close>

fun check_descriptors ::
    "extension_registry \<Rightarrow> extension_id \<Rightarrow> capability_id set \<Rightarrow> capability_descriptor list
     \<Rightarrow> (extension_error, unit) result" where
  "check_descriptors reg package seen [] = Inr ()"
| "check_descriptors reg package seen (d # ds) =
     (if cd_id d \<in> seen \<or> hm_get (cd_id d) (xr_capabilities reg) \<noteq> None then
        Inl (DuplicateCapability (cd_id d))
      else if cd_provider d \<noteq> package then
        Inl (InvalidManifest (''descriptor '' @ cd_id d @ '' provider '' @ cd_provider d
          @ '' does not match package '' @ package))
      else check_descriptors reg package (insert (cd_id d) seen) ds)"

text \<open>The second loop.\<close>

fun add_descriptors :: "capability_descriptor list \<Rightarrow> extension_registry \<Rightarrow> extension_registry" where
  "add_descriptors [] reg = reg"
| "add_descriptors (d # ds) reg = add_descriptors ds
     (reg\<lparr>xr_capability_order := xr_capability_order reg @ [cd_id d],
          xr_capabilities := hm_insert (cd_id d) d (xr_capabilities reg)\<rparr>)"

definition registry_insert ::
    "extension_package \<Rightarrow> (extension_registry, extension_error, unit) operation" where
  "registry_insert p reg =
     (case validate_package_consistency p of
        Inl e \<Rightarrow> (Inl e, reg)
      | Inr _ \<Rightarrow>
          if hm_get (xp_id p) (xr_packages reg) \<noteq> None then (Inl (DuplicateExtension (xp_id p)), reg)
          else (case check_descriptors reg (xp_id p) {} (xp_capabilities p) of
              Inl e \<Rightarrow> (Inl e, reg)
            | Inr _ \<Rightarrow>
                (let reg = add_descriptors (xp_capabilities p) reg in
                 (Inr (), reg\<lparr>xr_extension_order := xr_extension_order reg @ [xp_id p],
                    xr_packages := hm_insert (xp_id p) p (xr_packages reg)\<rparr>))))"

definition get_extension :: "extension_registry \<Rightarrow> extension_id \<Rightarrow> extension_package option" where
  "get_extension reg i = hm_get i (xr_packages reg)"

definition get_capability :: "extension_registry \<Rightarrow> capability_id \<Rightarrow> capability_descriptor option" where
  "get_capability reg i = hm_get i (xr_capabilities reg)"

definition registry_extensions :: "extension_registry \<Rightarrow> extension_package list" where
  "registry_extensions reg = List.map_filter (get_extension reg) (xr_extension_order reg)"

definition registry_capabilities :: "extension_registry \<Rightarrow> capability_descriptor list" where
  "registry_capabilities reg = List.map_filter (get_capability reg) (xr_capability_order reg)"

subsection \<open>Discovery\<close>

text \<open>One directory entry: the package it holds, \<open>None\<close> if the entry is skipped.\<close>

definition load_package ::
    "(string \<Rightarrow> (string, raw_manifest) result) \<Rightarrow> (string \<Rightarrow> string option) \<Rightarrow> 'w root_filesystem
     \<Rightarrow> virtual_path \<Rightarrow> dir_entry \<Rightarrow> ('w, extension_error, extension_package option) operation" where
  "load_package parse_toml url_scheme fs root entry w =
     (if de_file_type entry \<noteq> Directory then (Inr None, w)
      else case name_id_new ''extension'' (de_name entry) of
        Inl _ \<Rightarrow> (Inr None, w)
      | Inr expected \<Rightarrow>
          (case virtual_path_new (trim_end_matches (CHR ''/'') root @ ''/'' @ de_name entry
              @ ''/manifest.toml'') of
             Inl e \<Rightarrow> (Inl (ExtContract e), w)
           | Inr manifest_path \<Rightarrow>
               (case fs_read_file fs manifest_path w of
                  (Inl e, w) \<Rightarrow> (Inl (ExtFilesystem e), w)
                | (Inr bytes, w) \<Rightarrow>
                    (bind_result (map_err ManifestParse (from_utf8 bytes)) (\<lambda>text.
                     bind_result (manifest_parse parse_toml url_scheme text) (\<lambda>m.
                       if xm_id m \<noteq> expected then
                         Inl (ManifestIdMismatch (de_path entry) expected (xm_id m))
                       else bind_result (package_from_manifest m (de_path entry)) (\<lambda>p.
                         Inr (Some p)))), w))))"

fun discover_entries ::
    "(string \<Rightarrow> (string, raw_manifest) result) \<Rightarrow> (string \<Rightarrow> string option) \<Rightarrow> 'w root_filesystem
     \<Rightarrow> virtual_path \<Rightarrow> dir_entry list \<Rightarrow> extension_registry
     \<Rightarrow> ('w, extension_error, extension_registry) operation" where
  "discover_entries parse_toml url_scheme fs root [] reg w = (Inr reg, w)"
| "discover_entries parse_toml url_scheme fs root (entry # entries) reg w =
     (case load_package parse_toml url_scheme fs root entry w of
        (Inl e, w) \<Rightarrow> (Inl e, w)
      | (Inr None, w) \<Rightarrow> discover_entries parse_toml url_scheme fs root entries reg w
      | (Inr (Some p), w) \<Rightarrow>
          (case registry_insert p reg of
             (Inl e, _) \<Rightarrow> (Inl e, w)
           | (Inr _, reg) \<Rightarrow> discover_entries parse_toml url_scheme fs root entries reg w))"

definition discover ::
    "(string \<Rightarrow> (string, raw_manifest) result) \<Rightarrow> (string \<Rightarrow> string option) \<Rightarrow> 'w root_filesystem
     \<Rightarrow> virtual_path \<Rightarrow> ('w, extension_error, extension_registry) operation" where
  "discover parse_toml url_scheme fs root w =
     (case fs_list_dir fs root w of
        (Inl e, w) \<Rightarrow> (Inl (ExtFilesystem e), w)
      | (Inr entries, w) \<Rightarrow>
          discover_entries parse_toml url_scheme fs root (sort_key de_name entries) registry_new w)"

subsection \<open>What a package is\<close>

lemma descriptors_from_Inr:
  "descriptors_from m seen cs = Inr ds \<Longrightarrow> ds = map (descriptor_of m) cs
     \<and> (\<forall>c \<in> set cs. prefix (xm_id m @ ''.'') (cx_id c)) \<and> distinct (map cx_id cs)"
proof -
  have "descriptors_from m seen cs = Inr ds \<Longrightarrow> ds = map (descriptor_of m) cs
     \<and> (\<forall>c \<in> set cs. prefix (xm_id m @ ''.'') (cx_id c)) \<and> distinct (map cx_id cs)
     \<and> cx_id ` set cs \<inter> seen = {}"
  proof (induction cs arbitrary: seen ds)
    case Nil
    then show ?case by simp
  next
    case (Cons c cs)
    then obtain ds' where "descriptors_from m (insert (cx_id c) seen) cs = Inr ds'"
      "ds = descriptor_of m c # ds'" "prefix (xm_id m @ ''.'') (cx_id c)" "cx_id c \<notin> seen"
      by (auto simp: Let_def bind_result_Inr_iff split: if_splits)
    then show ?case using Cons.IH [of "insert (cx_id c) seen" ds'] by auto
  qed
  then show "descriptors_from m seen cs = Inr ds \<Longrightarrow> ds = map (descriptor_of m) cs
     \<and> (\<forall>c \<in> set cs. prefix (xm_id m @ ''.'') (cx_id c)) \<and> distinct (map cx_id cs)"
    by simp
qed

lemma extension_root_Inr:
  "extension_id_from_package_root root = Inr i \<Longrightarrow> root = ''/system/extensions/'' @ i"
  by (auto simp: extension_id_from_package_root_def strip_prefix_def name_id_new_def prefix_def
      split: option.splits if_splits sum.splits)

lemma package_from_manifest_Inr:
  "package_from_manifest m root = Inr p \<longleftrightarrow>
     ensure_extension_root_matches (xm_id m) root = Inr ()
     \<and> (\<exists>ds. descriptors_from m {} (xm_capabilities m) = Inr ds
          \<and> p = \<lparr>xp_id = xm_id m, xp_root = root, xp_manifest = m, xp_capabilities = ds\<rparr>)"
  by (auto simp: package_from_manifest_def bind_result_Inr_iff)

definition package_ok :: "extension_package \<Rightarrow> bool" where
  "package_ok p \<longleftrightarrow> package_from_manifest (xp_manifest p) (xp_root p) = Inr p"

lemma package_from_manifest_ok: "package_from_manifest m root = Inr p \<Longrightarrow> package_ok p"
  by (auto simp: package_ok_def package_from_manifest_Inr)

lemma validate_package_consistency_iff:
  "validate_package_consistency p = Inr () \<longleftrightarrow> package_ok p"
proof
  assume "validate_package_consistency p = Inr ()"
  then obtain q where q: "package_from_manifest (xp_manifest p) (xp_root p) = Inr q"
    "xp_id p = xp_id q" "xp_capabilities p = xp_capabilities q"
    by (auto simp: validate_package_consistency_def bind_result_Inr_iff split: if_splits)
  then have "q = p"
    by (auto simp: package_from_manifest_Inr)
  then show "package_ok p" using q(1) by (simp add: package_ok_def)
next
  assume "package_ok p"
  then show "validate_package_consistency p = Inr ()"
    by (simp add: package_ok_def validate_package_consistency_def)
qed

lemma package_okD:
  assumes "package_ok p"
  shows "xp_id p = xm_id (xp_manifest p)"
    and "xp_root p = ''/system/extensions/'' @ xp_id p"
    and "xp_capabilities p = map (descriptor_of (xp_manifest p)) (xm_capabilities (xp_manifest p))"
    and "distinct (map cd_id (xp_capabilities p))"
    and "\<forall>d \<in> set (xp_capabilities p). cd_provider d = xp_id p
      \<and> cd_runtime d = runtime_kind_of (xm_runtime (xp_manifest p))
      \<and> cd_trust_ceiling d = xm_trust (xp_manifest p) \<and> prefix (xp_id p @ ''.'') (cd_id d)"
proof -
  obtain ds where root: "ensure_extension_root_matches (xm_id (xp_manifest p)) (xp_root p) = Inr ()"
    and ds: "descriptors_from (xp_manifest p) {} (xm_capabilities (xp_manifest p)) = Inr ds"
    and p: "xp_id p = xm_id (xp_manifest p)" "xp_capabilities p = ds"
    using assms unfolding package_ok_def package_from_manifest_Inr
    by (metis extension_package.select_convs(1,4))
  show "xp_id p = xm_id (xp_manifest p)" by (rule p(1))
  show "xp_root p = ''/system/extensions/'' @ xp_id p"
    using root extension_root_Inr
    by (auto simp: p(1) ensure_extension_root_matches_def bind_result_Inr_iff split: if_splits)
  note d = descriptors_from_Inr [OF ds]
  show "xp_capabilities p = map (descriptor_of (xp_manifest p)) (xm_capabilities (xp_manifest p))"
    using d p(2) by simp
  show "distinct (map cd_id (xp_capabilities p))"
    using d by (auto simp: p(2) descriptor_of_def comp_def)
  show "\<forall>d \<in> set (xp_capabilities p). cd_provider d = xp_id p
      \<and> cd_runtime d = runtime_kind_of (xm_runtime (xp_manifest p))
      \<and> cd_trust_ceiling d = xm_trust (xp_manifest p) \<and> prefix (xp_id p @ ''.'') (cd_id d)"
    using d by (auto simp: p descriptor_of_def)
qed

subsection \<open>The registry stays consistent\<close>

definition registry_ok :: "extension_registry \<Rightarrow> bool" where
  "registry_ok reg \<longleftrightarrow>
     (\<forall>i p. get_extension reg i = Some p \<longrightarrow> xp_id p = i \<and> package_ok p)
     \<and> (\<forall>i d. get_capability reg i = Some d \<longrightarrow> cd_id d = i
          \<and> (\<exists>p. get_extension reg (cd_provider d) = Some p \<and> d \<in> set (xp_capabilities p)))
     \<and> (\<forall>i p d. get_extension reg i = Some p \<longrightarrow> d \<in> set (xp_capabilities p) \<longrightarrow>
          get_capability reg (cd_id d) = Some d)"

lemma registry_ok_new [simp]: "registry_ok registry_new"
  by (simp add: registry_ok_def registry_new_def get_extension_def get_capability_def)

lemma check_descriptors_Inr:
  "check_descriptors reg i seen ds = Inr () \<Longrightarrow>
     \<forall>d \<in> set ds. get_capability reg (cd_id d) = None \<and> cd_provider d = i"
  by (induction ds arbitrary: seen) (auto simp: get_capability_def split: if_splits)

lemma add_descriptors_get:
  "distinct (map cd_id ds) \<Longrightarrow> get_capability (add_descriptors ds reg) i =
     (case find (\<lambda>d. cd_id d = i) ds of Some d \<Rightarrow> Some d | None \<Rightarrow> get_capability reg i)"
proof (induction ds arbitrary: reg)
  case Nil
  then show ?case by simp
next
  case (Cons d ds)
  have "find (\<lambda>e. cd_id e = cd_id d) ds = None"
    using Cons.prems by (auto simp: find_None_iff) (metis image_eqI)
  then show ?case
    using Cons by (auto simp: get_capability_def split: option.splits)
qed

lemma add_descriptors_packages [simp]: "get_extension (add_descriptors ds reg) = get_extension reg"
  by (induction ds arbitrary: reg) (simp_all add: get_extension_def fun_eq_iff)

lemma add_descriptors_xr_packages [simp]:
  "xr_packages (add_descriptors ds reg) = xr_packages reg"
  by (induction ds arbitrary: reg) simp_all

lemma find_distinct:
  "distinct (map f ds) \<Longrightarrow> d \<in> set ds \<Longrightarrow> find (\<lambda>e. f e = f d) ds = Some d"
  by (induction ds) (auto simp: image_iff)

lemma registry_insert_cases:
  obtains (rejected) e where "registry_insert p reg = (Inl e, reg)"
  | (accepted) reg' where "registry_insert p reg = (Inr (), reg')" "package_ok p"
      "get_extension reg (xp_id p) = None"
      "\<forall>d \<in> set (xp_capabilities p). get_capability reg (cd_id d) = None"
      "\<And>i. get_extension reg' i = (if i = xp_id p then Some p else get_extension reg i)"
      "\<And>i. get_capability reg' i = (case find (\<lambda>d. cd_id d = i) (xp_capabilities p) of
         Some d \<Rightarrow> Some d | None \<Rightarrow> get_capability reg i)"
proof (cases "validate_package_consistency p = Inr () \<and> get_extension reg (xp_id p) = None
    \<and> check_descriptors reg (xp_id p) {} (xp_capabilities p) = Inr ()")
  case True
  then have ok: "package_ok p" by (simp add: validate_package_consistency_iff)
  define reg1 where "reg1 = add_descriptors (xp_capabilities p) reg"
  let ?reg' = "reg1\<lparr>xr_extension_order := xr_extension_order reg1 @ [xp_id p],
    xr_packages := hm_insert (xp_id p) p (xr_packages reg1)\<rparr>"
  have "registry_insert p reg = (Inr (), ?reg')"
    using True by (simp add: registry_insert_def get_extension_def reg1_def Let_def)
  moreover have "get_extension ?reg' i = (if i = xp_id p then Some p else get_extension reg i)" for i
    by (simp add: get_extension_def reg1_def)
  moreover have "get_capability ?reg' i = (case find (\<lambda>d. cd_id d = i) (xp_capabilities p) of
         Some d \<Rightarrow> Some d | None \<Rightarrow> get_capability reg i)" for i
    using add_descriptors_get [OF package_okD(4) [OF ok], of reg i]
    by (simp add: get_capability_def reg1_def)
  ultimately show ?thesis
    using True check_descriptors_Inr by (intro accepted) (auto simp: ok)
next
  case False
  then show ?thesis
    by (intro rejected [of "projl (fst (registry_insert p reg))"])
      (auto simp: registry_insert_def get_extension_def split: sum.splits)
qed

lemma registry_ok_insert:
  assumes "registry_ok reg"
  shows "registry_ok (snd (registry_insert p reg))"
proof (cases rule: registry_insert_cases [of p reg])
  case (rejected e)
  then show ?thesis using assms by simp
next
  case (accepted reg')
  note ok = package_okD [OF accepted(2)]
  show ?thesis
    unfolding accepted(1) snd_conv registry_ok_def accepted(5,6)
  proof (intro conjI allI impI)
    fix i q assume "(if i = xp_id p then Some p else get_extension reg i) = Some q"
    then show "xp_id q = i" "package_ok q"
      using assms accepted(2) by (auto simp: registry_ok_def split: if_splits)
  next
    fix i d assume d: "(case find (\<lambda>d. cd_id d = i) (xp_capabilities p) of
      Some d \<Rightarrow> Some d | None \<Rightarrow> get_capability reg i) = Some d"
    show "cd_id d = i"
      using d assms by (auto simp: registry_ok_def split: option.splits dest: find_SomeD)
    show "\<exists>q. (if cd_provider d = xp_id p then Some p else get_extension reg (cd_provider d)) = Some q
        \<and> d \<in> set (xp_capabilities q)"
    proof (cases "find (\<lambda>d. cd_id d = i) (xp_capabilities p)")
      case None
      then show ?thesis using d assms accepted(3) by (fastforce simp: registry_ok_def)
    next
      case (Some e)
      then show ?thesis using d ok(5) find_SomeD [OF Some] by auto
    qed
  next
    fix i q d
    assume q: "(if i = xp_id p then Some p else get_extension reg i) = Some q"
      and d: "d \<in> set (xp_capabilities q)"
    show "(case find (\<lambda>e. cd_id e = cd_id d) (xp_capabilities p) of
        Some d \<Rightarrow> Some d | None \<Rightarrow> get_capability reg (cd_id d)) = Some d"
    proof (cases "i = xp_id p")
      case True
      then show ?thesis using q d find_distinct [OF ok(4)] by simp
    next
      case False
      then have old: "get_capability reg (cd_id d) = Some d"
        using q d assms by (auto simp: registry_ok_def)
      then have "find (\<lambda>e. cd_id e = cd_id d) (xp_capabilities p) = None"
        using accepted(4) by (auto simp: find_None_iff)
      then show ?thesis using old by simp
    qed
  qed
qed

lemma registry_ok_reachable: "registry_ok (final_state registry_insert ps registry_new)"
  by (rule final_state_invariant [of registry_ok]) (rule registry_ok_insert, assumption, simp)

text \<open>
  What the users of a registry rely on: a capability that is found names a provider that is
  registered and that runs on the descriptor's runtime.
\<close>

locale registry_contract =
  fixes capability :: "capability_id \<Rightarrow> capability_descriptor option"
    and package :: "extension_id \<Rightarrow> extension_package option"
  assumes same_id: "capability i = Some d \<Longrightarrow> cd_id d = i"
    and provider_registered: "capability i = Some d \<Longrightarrow> package (cd_provider d) \<noteq> None"
    and provider_runtime: "capability i = Some d \<Longrightarrow> package (cd_provider d) = Some p \<Longrightarrow>
      runtime_kind_of (xm_runtime (xp_manifest p)) = cd_runtime d"

lemma registry_ok_contract:
  assumes "registry_ok reg"
  shows "registry_contract (get_capability reg) (get_extension reg)"
proof
  fix i d
  assume d: "get_capability reg i = Some d"
  then obtain p where p: "get_extension reg (cd_provider d) = Some p" "d \<in> set (xp_capabilities p)"
    "cd_id d = i" "package_ok p"
    using assms by (fastforce simp: registry_ok_def)
  then show "cd_id d = i" "get_extension reg (cd_provider d) \<noteq> None" by simp_all
  fix q
  assume "get_extension reg (cd_provider d) = Some q"
  then show "runtime_kind_of (xm_runtime (xp_manifest q)) = cd_runtime d"
    using p package_okD(5) by auto
qed

interpretation registry: registry_contract
  "get_capability (final_state registry_insert ps registry_new)"
  "get_extension (final_state registry_insert ps registry_new)" for ps
  by (rule registry_ok_contract [OF registry_ok_reachable])

subsection \<open>What a manifest can declare\<close>

lemma printable_no_control:
  "\<forall>c \<in> set s. 32 \<le> byte_of c \<and> byte_of c < 127 \<Longrightarrow> \<not> contains_control s"
  by (induction s) (auto split: list.splits)

lemma name_char_plain:
  "is_name_char c \<or> c = CHR ''.'' \<Longrightarrow>
     c \<noteq> CHR ''/'' \<and> c \<noteq> CHR 0x5C \<and> 32 \<le> byte_of c \<and> byte_of c < 127"
  by (auto simp: is_name_char_def is_ascii_lowercase_def is_ascii_digit_def byte_of_def)

lemma name_segment_ok:
  assumes "name_id_new kind i = Inr j"
  shows "j = i \<and> segment_ok i"
proof -
  have "validate_name_segment kind i = Inr ()" and j: "j = i"
    using assms by (auto simp: name_id_new_def split: sum.splits)
  then have i: "i \<noteq> []" "i \<noteq> ''.''" "i \<noteq> ''..''" "\<forall>c \<in> set i. is_name_char c \<or> c = CHR ''.''"
    by (auto simp: validate_name_segment_def list_ex_iff split: if_splits)
  then have "\<forall>c \<in> set i. c \<noteq> CHR ''/'' \<and> c \<noteq> CHR 0x5C \<and> 32 \<le> byte_of c \<and> byte_of c < 127"
    using name_char_plain by blast
  then show ?thesis using i j printable_no_control [of i] by (auto simp: segment_ok_def)
qed

lemma asset_path_segments:
  assumes "asset_path_new a = Inr b"
  shows "b = a \<and> (\<forall>s \<in> set (split_on (CHR ''/'') a). segment_ok s)"
proof -
  have v: "validate_asset_path a = Inr ()" and b: "b = a"
    using assms by (auto simp: asset_path_new_def bind_result_Inr_iff)
  have "segment_ok s" if s: "s \<in> set (split_on (CHR ''/'') a)" for s
  proof -
    have "\<not> contains_control a" "CHR 0x5C \<notin> set a" "s \<noteq> []" "s \<noteq> ''.''" "s \<noteq> ''..''"
      using v s by (auto simp: validate_asset_path_def list_ex_iff split: if_splits)
    then show ?thesis
      using s split_on_no_sep [OF s] split_on_mem [OF s] contains_control_split [of a]
      by (auto simp: segment_ok_def)
  qed
  then show ?thesis using b by simp
qed

lemma asset_resolve_contained:
  assumes "asset_path_new a = Inr b" and "virtual_path_ok root"
  shows "asset_resolve_under b root = Inr (root @ ''/'' @ b)"
proof -
  have b: "b = a" and ok: "\<forall>s \<in> set (split_on (CHR ''/'') a). segment_ok s"
    using asset_path_segments [OF assms(1)] by simp_all
  have a: "a \<noteq> []"
    using assms(1) by (auto simp: asset_path_new_def validate_asset_path_def bind_result_Inr_iff)
  have "join_tail root a = Inr (root @ render (split_on (CHR ''/'') a))"
    using join_tail_render [OF assms(2) _ ok] by (simp add: join_with_split_on)
  then show ?thesis
    using a by (simp add: b join_tail_def asset_resolve_under_def render_def join_with_split_on)
qed

lemma extension_root_ok:
  assumes "segment_ok i"
  shows "virtual_path_ok (''/system/extensions/'' @ i)"
proof -
  have "path_form [''system'', ''extensions'', i] (''/system/extensions/'' @ i)"
    using assms by (simp add: path_form_def render_def) (simp add: segment_ok_def byte_of_def)
  moreover have "under_root (''/system/extensions/'' @ i)"
    by (simp add: under_root_def VIRTUAL_ROOTS_def)
  ultimately show ?thesis by (auto simp: virtual_path_ok_iff)
qed

text \<open>A manifest as \<open>manifest_from_raw\<close> returns it.\<close>

definition self_declared :: "extension_package \<Rightarrow> bool" where
  "self_declared p \<longleftrightarrow>
     runtime_kind_of (xm_runtime (xp_manifest p)) \<in> {Wasm, Script, Mcp}
     \<and> xm_trust (xp_manifest p) \<in> {Sandbox, UserTrusted}
     \<and> (\<forall>m. xm_runtime (xp_manifest p) = RtWasm m \<longrightarrow> (\<exists>a. asset_path_new a = Inr m))
     \<and> segment_ok (xm_id (xp_manifest p))"

lemma into_runtime_declared:
  "into_runtime url_scheme raw = Inr r \<Longrightarrow>
     runtime_kind_of r \<in> {Wasm, Script, Mcp}
     \<and> (\<forall>m. r = RtWasm m \<longrightarrow> (\<exists>a. asset_path_new a = Inr m))"
  by (cases raw) (auto simp: bind_result_Inr_iff split: if_splits option.splits)

lemma manifest_from_raw_declared:
  "manifest_from_raw url_scheme raw = Inr m \<Longrightarrow> package_from_manifest m root = Inr p \<Longrightarrow>
     self_declared p"
  by (cases "rm_trust raw")
    (auto simp: manifest_from_raw_def bind_result_Inr_iff package_from_manifest_Inr self_declared_def
      dest!: into_runtime_declared name_segment_ok split: if_splits)

lemma load_package_declared:
  "load_package parse_toml url_scheme fs root entry w = (Inr (Some p), w') \<Longrightarrow>
     package_ok p \<and> self_declared p"
  by (auto simp: load_package_def manifest_parse_def bind_result_Inr_iff
      split: if_splits sum.splits prod.splits
      dest: manifest_from_raw_declared intro: package_from_manifest_ok)

definition declared_registry :: "extension_registry \<Rightarrow> bool" where
  "declared_registry reg \<longleftrightarrow> registry_ok reg
     \<and> (\<forall>i p. get_extension reg i = Some p \<longrightarrow> self_declared p)"

lemma declared_insert:
  assumes "declared_registry reg" and "self_declared p"
  shows "declared_registry (snd (registry_insert p reg))"
proof (cases rule: registry_insert_cases [of p reg])
  case (rejected e)
  then show ?thesis using assms by simp
next
  case (accepted reg')
  then show ?thesis
    using assms registry_ok_insert [of reg p] by (auto simp: declared_registry_def)
qed

lemma discover_entries_declared:
  "declared_registry reg \<Longrightarrow>
     discover_entries parse_toml url_scheme fs root entries reg w = (Inr reg', w') \<Longrightarrow>
     declared_registry reg'"
proof (induction entries arbitrary: reg w)
  case Nil
  then show ?case by simp
next
  case (Cons entry entries)
  obtain r w1 where load: "load_package parse_toml url_scheme fs root entry w = (r, w1)"
    by fastforce
  show ?case
  proof (cases r)
    case (Inl e)
    then show ?thesis using Cons.prems load by simp
  next
    case (Inr po)
    show ?thesis
    proof (cases po)
      case None
      then show ?thesis using Cons load Inr by simp
    next
      case (Some p)
      then have "self_declared p" using load Inr by (auto dest: load_package_declared)
      then have "declared_registry (snd (registry_insert p reg))"
        using Cons.prems(1) by (intro declared_insert)
      then show ?thesis
        using Cons.IH Cons.prems(2) load Inr Some by (auto split: prod.splits sum.splits)
    qed
  qed
qed

text \<open>
  C17: whatever lies in the filesystem, a registry that discovery returns is sound: a
  capability found under an id has that id, prefixed by its provider, and is one of those its
  provider declares; the provider is registered under its own directory of \<open>/system/extensions\<close>
  and runs on the descriptor's runtime; no manifest gives itself a first-party or system runtime
  or a trust ceiling above user-trusted; and a WASM module resolves to a path below its
  package's root.
\<close>

theorem discovered_registry_sound:
  assumes "fst (discover parse_toml url_scheme fs root w) = Inr reg"
    and "get_capability reg i = Some d"
  shows "cd_id d = i \<and> prefix (cd_provider d @ ''.'') i
    \<and> cd_runtime d \<in> {Wasm, Script, Mcp} \<and> cd_trust_ceiling d \<in> {Sandbox, UserTrusted}
    \<and> (\<exists>p. get_extension reg (cd_provider d) = Some p \<and> xp_id p = cd_provider d
        \<and> d \<in> set (xp_capabilities p) \<and> xp_root p = ''/system/extensions/'' @ cd_provider d
        \<and> cd_runtime d = runtime_kind_of (xm_runtime (xp_manifest p))
        \<and> (\<forall>m. xm_runtime (xp_manifest p) = RtWasm m \<longrightarrow>
              asset_resolve_under m (xp_root p) = Inr (xp_root p @ ''/'' @ m)))"
proof -
  have new: "declared_registry registry_new"
    by (simp add: declared_registry_def) (simp add: registry_new_def get_extension_def)
  obtain entries w1 where "fst (discover_entries parse_toml url_scheme fs root entries
      registry_new w1) = Inr reg"
    using assms(1) by (auto simp: discover_def split: prod.splits sum.splits)
  then have "declared_registry reg"
    by (metis discover_entries_declared [OF new] prod.collapse)
  then obtain p where p: "get_extension reg (cd_provider d) = Some p" "d \<in> set (xp_capabilities p)"
    "xp_id p = cd_provider d" "package_ok p" "self_declared p" and i: "cd_id d = i"
    using assms(2) unfolding declared_registry_def registry_ok_def by metis
  note ok = package_okD [OF p(4)]
  have root: "virtual_path_ok (xp_root p)"
    using p(5) extension_root_ok [of "xm_id (xp_manifest p)"]
    by (simp add: ok(1,2) self_declared_def)
  have "asset_resolve_under m (xp_root p) = Inr (xp_root p @ ''/'' @ m)"
    if wasm: "xm_runtime (xp_manifest p) = RtWasm m" for m
  proof -
    obtain a where "asset_path_new a = Inr m"
      using p(5) wasm unfolding self_declared_def by blast
    then show ?thesis by (rule asset_resolve_contained [OF _ root])
  qed
  moreover have "cd_runtime d = runtime_kind_of (xm_runtime (xp_manifest p))"
    "cd_trust_ceiling d = xm_trust (xp_manifest p)" "prefix (cd_provider d @ ''.'') i"
    using bspec [OF ok(5) p(2)] unfolding p(3) i by blast+
  moreover have "xp_root p = ''/system/extensions/'' @ cd_provider d"
    using ok(2) unfolding p(3) .
  moreover have "cd_runtime d \<in> {Wasm, Script, Mcp}" "cd_trust_ceiling d \<in> {Sandbox, UserTrusted}"
    using p(5) calculation(2,3) unfolding self_declared_def by metis+
  ultimately show ?thesis
    using p(1-3) i by blast
qed

definition sample_raw_manifest :: raw_manifest where
  "sample_raw_manifest = \<lparr>rm_id = ''echo'', rm_name = ''Echo'', rm_version = ''1'',
     rm_description = [], rm_trust = SystemRequested, rm_runtime = RawWasm ''bin/echo.wasm'',
     rm_capabilities = [\<lparr>rw_id = ''echo.say'', rw_description = ''says it'',
       rw_effects = [DispatchCapability], rw_default_permission = AskMode,
       rw_parameters_schema = JNull, rw_resource_profile = None\<rparr>]\<rparr>"

definition sample_extension_fs :: "unit root_filesystem" where
  "sample_extension_fs = \<lparr>fs_read_file = (\<lambda>p w. (Inr ''toml'', w)),
     fs_write_file = (\<lambda>p b w. (Inr (), w)), fs_append_file = default_append_file,
     fs_list_dir = (\<lambda>p w. (Inr [\<lparr>de_name = ''echo'', de_path = ''/system/extensions/echo'',
       de_file_type = Directory\<rparr>], w)),
     fs_stat = (\<lambda>p. fail_op (FsNotFound p StatOp)), fs_delete = default_delete,
     fs_create_dir_all = default_create_dir_all\<rparr>"

definition sample_discovery :: "(extension_error, extension_registry) result" where
  "sample_discovery = fst (discover (\<lambda>_. Inr sample_raw_manifest) (\<lambda>_. None) sample_extension_fs
     ''/system/extensions'' ())"

theorem discovered_registry_sound_witness:
  "\<exists>reg d p. sample_discovery = Inr reg \<and> get_capability reg ''echo.say'' = Some d
     \<and> cd_trust_ceiling d \<in> {Sandbox, UserTrusted}
     \<and> get_extension reg (cd_provider d) = Some p
     \<and> xp_root p = ''/system/extensions/'' @ cd_provider d"
proof -
  have "case sample_discovery of Inl _ \<Rightarrow> False
      | Inr reg \<Rightarrow> get_capability reg ''echo.say'' \<noteq> None"
    by code_simp
  then obtain reg d where reg: "sample_discovery = Inr reg"
    and d: "get_capability reg ''echo.say'' = Some d"
    by (auto split: sum.splits)
  show ?thesis
    using discovered_registry_sound [OF reg [unfolded sample_discovery_def] d] reg d by blast
qed

end
