(* ===== verification/GovernorPort.thy ===== *)
theory GovernorPort
  imports Resources
begin

section \<open>The governor as a port\<close>

text \<open>
  The trait \<open>ResourceGovernor\<close> of \<open>crates/ironclaw_resources/src/lib.rs\<close> as the services above it
  see it: the record of its methods on a shared state \<open>'w\<close>, with the contract that the status of
  each reservation obeys. The id that \<open>reserve\<close> draws is an argument.
\<close>

record 'w governor_port =
  gov_set_limit :: "resource_account \<Rightarrow> resource_limits \<Rightarrow> 'w \<Rightarrow> 'w"
  gov_reserve :: "resource_reservation_id \<Rightarrow> resource_scope \<Rightarrow> resource_estimate
    \<Rightarrow> ('w, resource_error, resource_reservation) operation"
  gov_reconcile :: "resource_reservation_id \<Rightarrow> resource_usage
    \<Rightarrow> ('w, resource_error, resource_receipt) operation"
  gov_release :: "resource_reservation_id \<Rightarrow> ('w, resource_error, resource_receipt) operation"

definition in_memory_governor :: "decimal_ops \<Rightarrow> resource_state governor_port" where
  "in_memory_governor ops = \<lparr>gov_set_limit = set_limit,
     gov_reserve = (\<lambda>i scope e. reserve_with_id ops scope e i),
     gov_reconcile = reconcile ops, gov_release = release ops\<rparr>"

locale governor_contract =
  fixes gov :: "'w governor_port"
    and status :: "'w \<Rightarrow> resource_reservation_id \<Rightarrow> reservation_status option"
  assumes reserve_law: "case fst (gov_reserve gov i s e w) of
      Inl _ \<Rightarrow> status (snd (gov_reserve gov i s e w)) = status w
    | Inr r \<Rightarrow> rv_id r = i \<and> status w i = None
        \<and> status (snd (gov_reserve gov i s e w)) = (status w)(i \<mapsto> ReservationActive)"
    and release_law: "status (snd (gov_release gov i w)) =
        (if status w i = Some ReservationActive then (status w)(i \<mapsto> Released) else status w)"
    and release_reply: "status w i = Some ReservationActive \<Longrightarrow> \<not> is_err (fst (gov_release gov i w))"
    and reconcile_law: "case fst (gov_reconcile gov i u w) of
      Inl _ \<Rightarrow> status (snd (gov_reconcile gov i u w)) = status w
    | Inr _ \<Rightarrow> status w i = Some ReservationActive
        \<and> status (snd (gov_reconcile gov i u w)) = (status w)(i \<mapsto> Reconciled)"
begin

lemma release_settles: "status (snd (gov_release gov i w)) i \<noteq> Some ReservationActive"
  by (simp add: release_law)

lemma release_others: "j \<noteq> i \<Longrightarrow> status (snd (gov_release gov i w)) j = status w j"
  by (simp add: release_law)

end

lemma release_status:
  "status_of (snd (release ops i s)) =
     (if status_of s i = Some ReservationActive then (status_of s)(i \<mapsto> Released) else status_of s)"
  by (auto simp: release_def status_of_def Let_def fun_eq_iff split: option.splits)

lemma reconcile_status:
  "case fst (reconcile ops i u s) of
      Inl _ \<Rightarrow> status_of (snd (reconcile ops i u s)) = status_of s
    | Inr _ \<Rightarrow> status_of s i = Some ReservationActive
        \<and> status_of (snd (reconcile ops i u s)) = (status_of s)(i \<mapsto> Reconciled)"
  by (auto simp: reconcile_def status_of_def Let_def fun_eq_iff split: option.splits sum.splits)

lemma reserve_status:
  "case fst (reserve_with_id ops scope e i s) of
      Inl _ \<Rightarrow> status_of (snd (reserve_with_id ops scope e i s)) = status_of s
    | Inr r \<Rightarrow> rv_id r = i \<and> status_of s i = None
        \<and> status_of (snd (reserve_with_id ops scope e i s)) =
            (status_of s)(i \<mapsto> ReservationActive)"
  by (auto simp: reserve_with_id_def status_of_def Let_def fun_eq_iff
      split: option.splits sum.splits)

lemma in_memory_governor_sel:
  "gov_reserve (in_memory_governor ops) i scope e = reserve_with_id ops scope e i"
  "gov_reconcile (in_memory_governor ops) = reconcile ops"
  "gov_release (in_memory_governor ops) = release ops"
  by (simp_all add: in_memory_governor_def)

lemma release_ok: "status_of s i = Some ReservationActive \<Longrightarrow> \<not> is_err (fst (release ops i s))"
  by (auto simp: release_def status_of_def Let_def)

interpretation governor_port: governor_contract "in_memory_governor ops" status_of for ops
  by (unfold_locales; unfold in_memory_governor_sel)
    (rule reserve_status release_status release_ok reconcile_status; assumption?)+

end
