(* ===== verification/Dispatcher.thy ===== *)
theory Dispatcher
  imports Extensions EventLog HostPorts GovernorPort
begin

section \<open>The runtime dispatcher\<close>

text \<open>
  \<open>crates/ironclaw_dispatcher/src/lib.rs\<close>: the dispatcher looks the capability and its provider
  up in the registry, picks the adapter of its runtime and runs it, reporting each stage to the
  event sink. The runtime adapters drive third-party engines: an adapter is a method on the
  shared state \<open>'w\<close>, in which the filesystem and the governor live that the request hands it.
  Each event draws an id and a time stamp: \<open>dispatch_json\<close> takes those of its three events.
\<close>

record runtime_adapter_request =
  ra_package :: extension_package
  ra_descriptor :: capability_descriptor
  ra_capability_id :: capability_id
  ra_scope :: resource_scope
  ra_estimate :: resource_estimate
  ra_mounts :: "mount_view option"
  ra_resource_reservation :: "resource_reservation option"
  ra_input :: json

record runtime_adapter_result =
  ro_output :: json
  ro_usage :: resource_usage
  ro_receipt :: resource_receipt
  ro_output_bytes :: u64

type_synonym 'w runtime_adapter =
  "runtime_adapter_request \<Rightarrow> ('w, dispatch_error, runtime_adapter_result) operation"

record 'w runtime_dispatcher =
  rd_registry :: extension_registry
  rd_governor :: "'w governor_port"
  rd_runtime_adapters :: "runtime_kind \<rightharpoonup> 'w runtime_adapter"
  rd_event_sink :: "'w event_sink option"

definition dispatcher_new ::
    "extension_registry \<Rightarrow> 'w governor_port \<Rightarrow> 'w runtime_dispatcher" where
  "dispatcher_new registry governor = \<lparr>rd_registry = registry, rd_governor = governor,
     rd_runtime_adapters = Map.empty, rd_event_sink = None\<rparr>"

definition with_runtime_adapter ::
    "runtime_kind \<Rightarrow> 'w runtime_adapter \<Rightarrow> 'w runtime_dispatcher \<Rightarrow> 'w runtime_dispatcher" where
  "with_runtime_adapter runtime adapter d =
     d\<lparr>rd_runtime_adapters := (rd_runtime_adapters d)(runtime \<mapsto> adapter)\<rparr>"

definition with_event_sink :: "'w event_sink \<Rightarrow> 'w runtime_dispatcher \<Rightarrow> 'w runtime_dispatcher" where
  "with_event_sink sink d = d\<lparr>rd_event_sink := Some sink\<rparr>"

fun dispatch_failure_kind :: "dispatch_error \<Rightarrow> string" where
  "dispatch_failure_kind (DispatchUnknownCapability _) = ''unknown_capability''"
| "dispatch_failure_kind (DispatchUnknownProvider _ _) = ''unknown_provider''"
| "dispatch_failure_kind (DispatchRuntimeMismatch _ _ _) = ''runtime_mismatch''"
| "dispatch_failure_kind (DispatchMissingRuntimeBackend _) = ''missing_runtime_backend''"
| "dispatch_failure_kind (DispatchUnsupportedRuntime _ _) = ''unsupported_runtime''"
| "dispatch_failure_kind (McpDispatch k) = dispatch_event_kind k"
| "dispatch_failure_kind (ScriptDispatch k) = dispatch_event_kind k"
| "dispatch_failure_kind (WasmDispatch k) = dispatch_event_kind k"

text \<open>A best-effort sink: its result is dropped.\<close>

definition dispatcher_emit :: "'w runtime_dispatcher \<Rightarrow> runtime_event \<Rightarrow> 'w \<Rightarrow> 'w" where
  "dispatcher_emit d e w = (case rd_event_sink d of Some sink \<Rightarrow> snd (sink e w) | None \<Rightarrow> w)"

definition emit_dispatch_failure ::
    "'w runtime_dispatcher \<Rightarrow> uuid \<times> timestamp \<Rightarrow> resource_scope \<Rightarrow> capability_id
     \<Rightarrow> extension_id option \<Rightarrow> runtime_kind option \<Rightarrow> dispatch_error \<Rightarrow> 'w \<Rightarrow> 'w" where
  "emit_dispatch_failure d stamp scope cap provider runtime error = dispatcher_emit d
     (ev_dispatch_failed (fst stamp) (snd stamp) scope cap provider runtime
       (dispatch_failure_kind error))"

definition release_request_reservation ::
    "'w runtime_dispatcher \<Rightarrow> dispatch_request \<Rightarrow> 'w \<Rightarrow> 'w" where
  "release_request_reservation d q w = (case dq_resource_reservation q of
     Some reservation \<Rightarrow> snd (gov_release (rd_governor d) (rv_id reservation) w)
   | None \<Rightarrow> w)"

text \<open>The early returns of the validation: release, report, fail.\<close>

definition reject_dispatch ::
    "'w runtime_dispatcher \<Rightarrow> uuid \<times> timestamp \<Rightarrow> dispatch_request \<Rightarrow> extension_id option
     \<Rightarrow> runtime_kind option \<Rightarrow> dispatch_error \<Rightarrow> ('w, dispatch_error, 'a) operation" where
  "reject_dispatch d stamp q provider runtime error w =
     (let w = release_request_reservation d q w;
          w = emit_dispatch_failure d stamp (dq_scope q) (dq_capability_id q) provider runtime error w
      in (Inl error, w))"

definition adapter_request ::
    "extension_package \<Rightarrow> capability_descriptor \<Rightarrow> dispatch_request \<Rightarrow> runtime_adapter_request" where
  "adapter_request package descriptor q = \<lparr>ra_package = package, ra_descriptor = descriptor,
     ra_capability_id = dq_capability_id q, ra_scope = dq_scope q, ra_estimate = dq_estimate q,
     ra_mounts = dq_mounts q, ra_resource_reservation = dq_resource_reservation q,
     ra_input = dq_input q\<rparr>"

text \<open>From the selection of the runtime on.\<close>

definition run_adapter ::
    "'w runtime_dispatcher \<Rightarrow> uuid \<times> timestamp \<Rightarrow> uuid \<times> timestamp \<Rightarrow> dispatch_request
     \<Rightarrow> extension_package \<Rightarrow> capability_descriptor \<Rightarrow> 'w runtime_adapter
     \<Rightarrow> ('w, dispatch_error, dispatch_result) operation" where
  "run_adapter d stamp2 stamp3 q package descriptor adapter w =
     (let scope = dq_scope q; cap = dq_capability_id q;
          provider = cd_provider descriptor; runtime = cd_runtime descriptor;
          w = dispatcher_emit d
            (ev_runtime_selected (fst stamp2) (snd stamp2) scope cap provider runtime) w
      in case adapter (adapter_request package descriptor q) w of
        (Inl error, w) \<Rightarrow>
          (Inl error, emit_dispatch_failure d stamp3 scope cap (Some provider) (Some runtime) error w)
      | (Inr execution, w) \<Rightarrow>
          (let w = dispatcher_emit d (ev_dispatch_succeeded (fst stamp3) (snd stamp3) scope cap
                 provider runtime (ro_output_bytes execution)) w
           in (Inr \<lparr>dr_capability_id = cap, dr_provider = provider, dr_runtime = runtime,
                 dr_output = ro_output execution, dr_usage = ro_usage execution,
                 dr_receipt = ro_receipt execution\<rparr>, w)))"

definition dispatch_json ::
    "(uuid \<times> timestamp) \<times> (uuid \<times> timestamp) \<times> (uuid \<times> timestamp) \<Rightarrow> 'w runtime_dispatcher
     \<Rightarrow> dispatch_request \<Rightarrow> ('w, dispatch_error, dispatch_result) operation" where
  "dispatch_json stamps d q w =
     (case stamps of (stamp1, stamp2, stamp3) \<Rightarrow>
      let cap = dq_capability_id q;
          w = dispatcher_emit d
            (ev_dispatch_requested (fst stamp1) (snd stamp1) (dq_scope q) cap) w
      in case get_capability (rd_registry d) cap of
        None \<Rightarrow> reject_dispatch d stamp2 q None None (DispatchUnknownCapability cap) w
      | Some descriptor \<Rightarrow>
          (let provider = cd_provider descriptor; runtime = cd_runtime descriptor in
           case get_extension (rd_registry d) provider of
             None \<Rightarrow> reject_dispatch d stamp2 q (Some provider) (Some runtime)
               (DispatchUnknownProvider cap provider) w
           | Some package \<Rightarrow>
               (let package_runtime = runtime_kind_of (xm_runtime (xp_manifest package)) in
                if runtime \<noteq> package_runtime then
                  reject_dispatch d stamp2 q (Some provider) (Some runtime)
                    (DispatchRuntimeMismatch cap runtime package_runtime) w
                else case rd_runtime_adapters d runtime of
                    None \<Rightarrow> reject_dispatch d stamp2 q (Some provider) (Some runtime)
                      (DispatchMissingRuntimeBackend runtime) w
                  | Some adapter \<Rightarrow> run_adapter d stamp2 stamp3 q package descriptor adapter w)))"

subsection \<open>What a dispatch does\<close>

text \<open>
  To say which events a dispatch reports, the state is paired with the list of an in-memory
  sink; the governor and the adapters act on the first component.
\<close>

definition beside :: "('x, 'e, 'a) operation \<Rightarrow> ('x \<times> 'y, 'e, 'a) operation" where
  "beside m xy = (case m (fst xy) of (r, x) \<Rightarrow> (r, (x, snd xy)))"

definition recording_sink :: "('x \<times> runtime_event list) event_sink" where
  "recording_sink e xy = (case in_memory_sink_emit e (snd xy) of (r, es) \<Rightarrow> (r, (fst xy, es)))"

definition governor_beside :: "'x governor_port \<Rightarrow> ('x \<times> 'y) governor_port" where
  "governor_beside g = \<lparr>gov_set_limit = (\<lambda>a l xy. (gov_set_limit g a l (fst xy), snd xy)),
     gov_reserve = (\<lambda>i s e. beside (gov_reserve g i s e)),
     gov_reconcile = (\<lambda>i u. beside (gov_reconcile g i u)),
     gov_release = (\<lambda>i. beside (gov_release g i))\<rparr>"

definition recorded_dispatcher ::
    "extension_registry \<Rightarrow> 'x governor_port \<Rightarrow> (runtime_kind \<rightharpoonup> 'x runtime_adapter)
     \<Rightarrow> ('x \<times> runtime_event list) runtime_dispatcher" where
  "recorded_dispatcher reg g adapters = \<lparr>rd_registry = reg, rd_governor = governor_beside g,
     rd_runtime_adapters = (\<lambda>k. map_option (\<lambda>a q. beside (a q)) (adapters k)),
     rd_event_sink = Some recording_sink\<rparr>"

text \<open>Every failure kind is a classification token, so no event loses it to the redaction guard.\<close>

lemma dispatch_event_kind_safe: "is_safe_error_kind (dispatch_event_kind k)"
  by (cases k) (simp_all add: is_safe_error_kind_def is_safe_segment_def MAX_ERROR_KIND_LEN_def
      MAX_ERROR_KIND_SEGMENT_LEN_def is_error_kind_char_def is_kind_separator_def
      is_ascii_lowercase_def is_ascii_digit_def byte_of_def)

lemma dispatch_token_safe:
  "is_safe_error_kind ''unknown_capability''" "is_safe_error_kind ''unknown_provider''"
  "is_safe_error_kind ''runtime_mismatch''" "is_safe_error_kind ''missing_runtime_backend''"
  "is_safe_error_kind ''unsupported_runtime''"
  by code_simp+

lemma dispatch_failure_kind_safe: "is_safe_error_kind (dispatch_failure_kind e)"
  by (cases e) (simp_all only: dispatch_failure_kind.simps dispatch_token_safe dispatch_event_kind_safe)

lemma failure_event_kind:
  "ev_dispatch_failed i now scope cap provider runtime (dispatch_failure_kind e) =
     event_new i now \<lparr>ev_kind = EvDispatchFailed, ev_scope = scope, ev_capability_id = cap,
       ev_provider = provider, ev_runtime = runtime, ev_process_id = None, ev_output_bytes = None,
       ev_error_kind = Some (dispatch_failure_kind e)\<rparr>"
  by (simp add: ev_dispatch_failed_def sanitize_error_kind_def dispatch_failure_kind_safe)

context registry_contract begin

lemma lookup_never_fails:
  "capability i = Some d \<Longrightarrow>
     \<exists>p. package (cd_provider d) = Some p \<and> runtime_kind_of (xm_runtime (xp_manifest p)) = cd_runtime d"
  using provider_registered provider_runtime by blast

end

text \<open>The release of a prepared reservation.\<close>

definition release_prepared :: "'x governor_port \<Rightarrow> dispatch_request \<Rightarrow> 'x \<Rightarrow> 'x" where
  "release_prepared g q x = (case dq_resource_reservation q of
     Some reservation \<Rightarrow> snd (gov_release g (rv_id reservation) x) | None \<Rightarrow> x)"

definition failure_event ::
    "uuid \<times> timestamp \<Rightarrow> dispatch_request \<Rightarrow> extension_id option \<Rightarrow> runtime_kind option
     \<Rightarrow> dispatch_error \<Rightarrow> runtime_event" where
  "failure_event stamp q provider runtime e = event_new (fst stamp) (snd stamp)
     \<lparr>ev_kind = EvDispatchFailed, ev_scope = dq_scope q, ev_capability_id = dq_capability_id q,
      ev_provider = provider, ev_runtime = runtime, ev_process_id = None, ev_output_bytes = None,
      ev_error_kind = Some (dispatch_failure_kind e)\<rparr>"

lemma recorded_emit:
  "dispatcher_emit (recorded_dispatcher reg g adapters) e (x, es) = (x, es @ [e])"
  by (simp add: dispatcher_emit_def recorded_dispatcher_def recording_sink_def in_memory_sink_emit_def)

lemma recorded_reject:
  "reject_dispatch (recorded_dispatcher reg g adapters) stamp q provider runtime e (x, es) =
     (Inl e, (release_prepared g q x, es @ [failure_event stamp q provider runtime e]))"
proof -
  have "release_request_reservation (recorded_dispatcher reg g adapters) q (x, es) =
      (release_prepared g q x, es)"
    by (auto simp: release_request_reservation_def release_prepared_def recorded_dispatcher_def
        governor_beside_def beside_def split: option.split prod.split)
  then show ?thesis
    by (simp add: reject_dispatch_def emit_dispatch_failure_def recorded_emit failure_event_kind
        failure_event_def Let_def)
qed

definition built_registry :: "extension_package list \<Rightarrow> extension_registry" where
  "built_registry ps = final_state registry_insert ps registry_new"

lemma built_registry_lookup:
  assumes "get_capability (built_registry ps) i = Some d"
  obtains p where "get_extension (built_registry ps) (cd_provider d) = Some p"
    "runtime_kind_of (xm_runtime (xp_manifest p)) = cd_runtime d"
  using registry.lookup_never_fails assms unfolding built_registry_def by blast

lemma recorded_adapter:
  "rd_runtime_adapters (recorded_dispatcher reg g adapters) k =
     map_option (\<lambda>a q. beside (a q)) (adapters k)"
  "rd_registry (recorded_dispatcher reg g adapters) = reg"
  by (simp_all add: recorded_dispatcher_def)

lemma recorded_run:
  "run_adapter (recorded_dispatcher reg g adapters) s2 s3 q p d (\<lambda>r. beside (adapter r)) (x, es) =
    (let selected = ev_runtime_selected (fst s2) (snd s2) (dq_scope q) (dq_capability_id q)
           (cd_provider d) (cd_runtime d) in
     case adapter (adapter_request p d q) x of
       (Inl e, x') \<Rightarrow> (Inl e, (x', es @ [selected,
          failure_event s3 q (Some (cd_provider d)) (Some (cd_runtime d)) e]))
     | (Inr r, x') \<Rightarrow> (Inr \<lparr>dr_capability_id = dq_capability_id q, dr_provider = cd_provider d,
           dr_runtime = cd_runtime d, dr_output = ro_output r, dr_usage = ro_usage r,
           dr_receipt = ro_receipt r\<rparr>,
         (x', es @ [selected, ev_dispatch_succeeded (fst s3) (snd s3)
           (dq_scope q) (dq_capability_id q) (cd_provider d) (cd_runtime d) (ro_output_bytes r)])))"
  by (simp add: run_adapter_def beside_def recorded_emit emit_dispatch_failure_def
      failure_event_kind failure_event_def Let_def split: prod.split sum.split)


end
