(* ===== verification/ProcessStores.thy ===== *)
theory ProcessStores
  imports HostPorts EventLog GovernorPort HashMaps Traces
begin

section \<open>Process stores\<close>

text \<open>
  \<open>crates/ironclaw_processes/src/types.rs\<close>, \<open>memory_store.rs\<close> and \<open>wrappers.rs\<close>: the traits of the
  process and result stores, the in-memory stores, and the two decorators of the process store:
  one reserves resources for each process and settles them when it ends, one reports every
  transition to the event sink. \<open>ProcessRecord\<close>, \<open>ProcessStart\<close> and \<open>ProcessError\<close> are in
  \<open>HostPorts\<close>; \<open>same_scope_owner\<close> is the function of that name in \<open>RunState\<close>. The drop guard of the
  reserving store only acts when the store below panics, which no modelled store does.
\<close>

record process_key = owner_key + pk_process_id :: process_id

definition process_key_new :: "resource_scope \<Rightarrow> process_id \<Rightarrow> process_key" where
  "process_key_new s i = \<lparr>ok_tenant_id = rs_tenant_id s, ok_user_id = rs_user_id s,
     ok_agent_id = rs_agent_id s, ok_project_id = rs_project_id s,
     ok_mission_id = rs_mission_id s, ok_thread_id = rs_thread_id s, pk_process_id = i\<rparr>"

record process_result_record =
  po_process_id :: process_id
  po_scope :: resource_scope
  po_status :: process_status
  po_output :: "json option"
  po_output_ref :: "virtual_path option"
  po_error_kind :: "string option"

record process_exit =
  pe_process_id :: process_id
  pe_scope :: resource_scope
  pe_extension_id :: extension_id
  pe_capability_id :: capability_id
  pe_runtime :: runtime_kind
  pe_status :: process_status
  pe_error_kind :: "string option"

definition exit_from_terminal :: "process_record \<Rightarrow> process_exit" where
  "exit_from_terminal r = \<lparr>pe_process_id = pr_process_id r, pe_scope = pr_scope r,
     pe_extension_id = pr_extension_id r, pe_capability_id = pr_capability_id r,
     pe_runtime = pr_runtime r, pe_status = pr_status r, pe_error_kind = pr_error_kind r\<rparr>"

definition ensure_status_transition ::
    "process_id \<Rightarrow> process_status \<Rightarrow> process_status \<Rightarrow> (process_error, unit) result" where
  "ensure_status_transition pid from_status to_status =
     (if from_status \<noteq> ProcRunning then Inl (InvalidTransition pid from_status to_status)
      else Inr ())"

subsection \<open>The traits\<close>

record 'w process_store =
  prs_start :: "process_start \<Rightarrow> ('w, process_error, process_record) operation"
  prs_complete :: "resource_scope \<Rightarrow> process_id \<Rightarrow> ('w, process_error, process_record) operation"
  prs_fail :: "resource_scope \<Rightarrow> process_id \<Rightarrow> string \<Rightarrow> ('w, process_error, process_record) operation"
  prs_kill :: "resource_scope \<Rightarrow> process_id \<Rightarrow> ('w, process_error, process_record) operation"
  prs_get :: "resource_scope \<Rightarrow> process_id \<Rightarrow> ('w, process_error, process_record option) operation"
  prs_records_for_scope :: "resource_scope \<Rightarrow> ('w, process_error, process_record list) operation"

record 'w process_result_store =
  prr_complete :: "resource_scope \<Rightarrow> process_id \<Rightarrow> json
    \<Rightarrow> ('w, process_error, process_result_record) operation"
  prr_fail :: "resource_scope \<Rightarrow> process_id \<Rightarrow> string
    \<Rightarrow> ('w, process_error, process_result_record) operation"
  prr_kill :: "resource_scope \<Rightarrow> process_id \<Rightarrow> ('w, process_error, process_result_record) operation"
  prr_get :: "resource_scope \<Rightarrow> process_id
    \<Rightarrow> ('w, process_error, process_result_record option) operation"

text \<open>The default method \<open>output\<close>, which no in-memory store overrides.\<close>

definition result_output ::
    "'w process_result_store \<Rightarrow> resource_scope \<Rightarrow> process_id
     \<Rightarrow> ('w, process_error, json option) operation" where
  "result_output store scope pid =
     bind_op (prr_get store scope pid) (\<lambda>r. return_op (Option.bind r po_output))"

subsection \<open>The in-memory process store\<close>

type_synonym process_map = "(process_key, process_record) hash_map"

definition process_update_status ::
    "resource_scope \<Rightarrow> process_id \<Rightarrow> process_status \<Rightarrow> string option
     \<Rightarrow> (process_map, process_error, process_record) operation" where
  "process_update_status scope pid to_status error_kind records =
     (let key = process_key_new scope pid in
      case hm_get key records of
        None \<Rightarrow> (Inl (UnknownProcess pid), records)
      | Some record \<Rightarrow>
          (case ensure_status_transition pid (pr_status record) to_status of
             Inl e \<Rightarrow> (Inl e, records)
           | Inr _ \<Rightarrow>
               (let record' = record\<lparr>pr_status := to_status, pr_error_kind := error_kind\<rparr>
                in (Inr record', hm_insert key record' records))))"

definition running_record :: "process_start \<Rightarrow> process_record" where
  "running_record t = \<lparr>pr_process_id = ps_process_id t, pr_parent_process_id = ps_parent_process_id t,
     pr_invocation_id = ps_invocation_id t, pr_scope = ps_scope t,
     pr_extension_id = ps_extension_id t, pr_capability_id = ps_capability_id t,
     pr_runtime = ps_runtime t, pr_status = ProcRunning, pr_grants = ps_grants t,
     pr_mounts = ps_mounts t, pr_estimated_resources = ps_estimated_resources t,
     pr_resource_reservation_id = ps_resource_reservation_id t, pr_error_kind = None\<rparr>"

definition process_start_record ::
    "process_start \<Rightarrow> (process_map, process_error, process_record) operation" where
  "process_start_record t records =
     (let record = running_record t;
          key = process_key_new (pr_scope record) (pr_process_id record)
      in if hm_get key records \<noteq> None then
           (Inl (ProcessAlreadyExists (pr_process_id record)), records)
         else (Inr record, hm_insert key record records))"

definition process_complete ::
    "resource_scope \<Rightarrow> process_id \<Rightarrow> (process_map, process_error, process_record) operation" where
  "process_complete scope pid = process_update_status scope pid ProcCompleted None"

definition process_fail ::
    "resource_scope \<Rightarrow> process_id \<Rightarrow> string
     \<Rightarrow> (process_map, process_error, process_record) operation" where
  "process_fail scope pid error_kind = process_update_status scope pid ProcFailed (Some error_kind)"

definition process_kill ::
    "resource_scope \<Rightarrow> process_id \<Rightarrow> (process_map, process_error, process_record) operation" where
  "process_kill scope pid = process_update_status scope pid ProcKilled None"

definition process_get ::
    "resource_scope \<Rightarrow> process_id
     \<Rightarrow> (process_map, process_error, process_record option) operation" where
  "process_get scope pid records = (Inr (hm_get (process_key_new scope pid) records), records)"

definition process_records_for_scope ::
    "resource_scope \<Rightarrow> (process_map, process_error, process_record list) operation" where
  "process_records_for_scope scope records =
     (Inr (sort_key pr_process_id
            (filter (\<lambda>r. same_scope_owner (pr_scope r) scope) (hm_values records))), records)"

definition in_memory_processes :: "process_map process_store" where
  "in_memory_processes = \<lparr>prs_start = process_start_record, prs_complete = process_complete,
     prs_fail = process_fail, prs_kill = process_kill, prs_get = process_get,
     prs_records_for_scope = process_records_for_scope\<rparr>"

subsection \<open>The in-memory result store\<close>

type_synonym result_map = "(process_key, process_result_record) hash_map"

definition store_result ::
    "resource_scope \<Rightarrow> process_id \<Rightarrow> process_status \<Rightarrow> json option \<Rightarrow> string option
     \<Rightarrow> result_map \<Rightarrow> process_result_record \<times> result_map" where
  "store_result scope pid status out error_kind records =
     (let record = \<lparr>po_process_id = pid, po_scope = scope, po_status = status, po_output = out,
            po_output_ref = None, po_error_kind = error_kind\<rparr>
      in (record, hm_insert (process_key_new scope pid) record records))"

definition result_complete ::
    "resource_scope \<Rightarrow> process_id \<Rightarrow> json
     \<Rightarrow> (result_map, process_error, process_result_record) operation" where
  "result_complete scope pid out records =
     apfst Inr (store_result scope pid ProcCompleted (Some out) None records)"

definition result_fail ::
    "resource_scope \<Rightarrow> process_id \<Rightarrow> string
     \<Rightarrow> (result_map, process_error, process_result_record) operation" where
  "result_fail scope pid error_kind records =
     apfst Inr (store_result scope pid ProcFailed None (Some error_kind) records)"

definition result_kill ::
    "resource_scope \<Rightarrow> process_id \<Rightarrow> (result_map, process_error, process_result_record) operation" where
  "result_kill scope pid records =
     apfst Inr (store_result scope pid ProcKilled None None records)"

definition result_get ::
    "resource_scope \<Rightarrow> process_id
     \<Rightarrow> (result_map, process_error, process_result_record option) operation" where
  "result_get scope pid records = (Inr (hm_get (process_key_new scope pid) records), records)"

definition in_memory_results :: "result_map process_result_store" where
  "in_memory_results = \<lparr>prr_complete = result_complete, prr_fail = result_fail,
     prr_kill = result_kill, prr_get = result_get\<rparr>"

subsection \<open>The reporting store\<close>

text \<open>Each method reports at most one event; \<open>stamp\<close> is its id and time.\<close>

definition emit_best_effort :: "'w event_sink \<Rightarrow> runtime_event \<Rightarrow> 'w \<Rightarrow> 'w" where
  "emit_best_effort sink e w = snd (sink e w)"

definition reporting ::
    "'w event_sink \<Rightarrow> (process_record \<Rightarrow> runtime_event)
     \<Rightarrow> ('w, process_error, process_record) operation
     \<Rightarrow> ('w, process_error, process_record) operation" where
  "reporting sink event m w =
     (case m w of
        (Inl e, w) \<Rightarrow> (Inl e, w)
      | (Inr record, w) \<Rightarrow> (Inr record, emit_best_effort sink (event record) w))"

definition eventing_store ::
    "uuid \<times> timestamp \<Rightarrow> 'w event_sink \<Rightarrow> 'w process_store \<Rightarrow> 'w process_store" where
  "eventing_store stamp sink inner = \<lparr>
     prs_start = (\<lambda>t. reporting sink
       (\<lambda>r. ev_process_started (fst stamp) (snd stamp) (pr_scope r) (pr_capability_id r)
          (pr_extension_id r) (pr_runtime r) (pr_process_id r)) (prs_start inner t)),
     prs_complete = (\<lambda>s i. reporting sink
       (\<lambda>r. ev_process_completed (fst stamp) (snd stamp) (pr_scope r) (pr_capability_id r)
          (pr_extension_id r) (pr_runtime r) (pr_process_id r)) (prs_complete inner s i)),
     prs_fail = (\<lambda>s i k. reporting sink
       (\<lambda>r. ev_process_failed (fst stamp) (snd stamp) (pr_scope r) (pr_capability_id r)
          (pr_extension_id r) (pr_runtime r) (pr_process_id r)
          (case pr_error_kind r of Some k \<Rightarrow> k | None \<Rightarrow> ''Unknown'')) (prs_fail inner s i k)),
     prs_kill = (\<lambda>s i. reporting sink
       (\<lambda>r. ev_process_killed (fst stamp) (snd stamp) (pr_scope r) (pr_capability_id r)
          (pr_extension_id r) (pr_runtime r) (pr_process_id r)) (prs_kill inner s i)),
     prs_get = prs_get inner, prs_records_for_scope = prs_records_for_scope inner\<rparr>"

subsection \<open>The reserving store\<close>

text \<open>
  \<open>ResourceManagedProcessStore\<close> keeps the reservations it made in a map of its own behind a
  mutex: a cell of the shared state. The id that \<open>reserve\<close> draws is an argument of \<open>start\<close>.
\<close>

type_synonym owned_map = "(process_key, resource_reservation_id) hash_map"

record ('w, 'm) cell =
  cl_get :: "'w \<Rightarrow> 'm"
  cl_set :: "'m \<Rightarrow> 'w \<Rightarrow> 'w"

type_synonym 'w owned_cell = "('w, owned_map) cell"

record 'w managed_store =
  ms_inner :: "'w process_store"
  ms_governor :: "'w governor_port"
  ms_completion_usage :: resource_usage
  ms_owned :: "'w owned_cell"

definition record_owned_reservation ::
    "'w managed_store \<Rightarrow> resource_scope \<Rightarrow> process_id \<Rightarrow> resource_reservation_id \<Rightarrow> 'w \<Rightarrow> 'w" where
  "record_owned_reservation m scope pid i w =
     cl_set (ms_owned m) (hm_insert (process_key_new scope pid) i (cl_get (ms_owned m) w)) w"

definition take_owned_reservation ::
    "'w managed_store \<Rightarrow> resource_scope \<Rightarrow> process_id \<Rightarrow> resource_reservation_id option
     \<Rightarrow> ('w, process_error, resource_reservation_id) operation" where
  "take_owned_reservation m scope pid actual w =
     (let key = process_key_new scope pid; owned = cl_get (ms_owned m) w in
      case hm_get key owned of
        None \<Rightarrow> (Inl (ProcessReservationNotOwned pid actual), w)
      | Some i \<Rightarrow>
          (let w = cl_set (ms_owned m) (hm_remove key owned) w in
           if Some i \<noteq> actual then
             (Inl (ProcessReservationMismatch pid i actual), record_owned_reservation m scope pid i w)
           else (Inr i, w)))"

definition release_reservation ::
    "'w managed_store \<Rightarrow> resource_reservation_id \<Rightarrow> ('w, resource_error, unit) operation" where
  "release_reservation m i = bind_op (gov_release (ms_governor m) i) (\<lambda>_. return_op ())"

definition reconcile_reservation ::
    "'w managed_store \<Rightarrow> resource_reservation_id \<Rightarrow> ('w, resource_error, unit) operation" where
  "reconcile_reservation m i =
     bind_op (gov_reconcile (ms_governor m) i (ms_completion_usage m)) (\<lambda>_. return_op ())"

definition settle_after_error ::
    "('w, resource_error, unit) operation \<Rightarrow> process_error
     \<Rightarrow> ('w, process_error, 'a) operation" where
  "settle_after_error settle original w =
     (case settle w of
        (Inr _, w) \<Rightarrow> (Inl original, w)
      | (Inl cleanup, w) \<Rightarrow> (Inl (ProcessResourceCleanupFailed original cleanup), w))"

definition managed_start ::
    "'w managed_store \<Rightarrow> resource_reservation_id \<Rightarrow> process_start
     \<Rightarrow> ('w, process_error, process_record) operation" where
  "managed_start m new_id t w =
     (case ps_resource_reservation_id t of
        Some i \<Rightarrow> (Inl (ProcessReservationAlreadyAssigned (ps_process_id t) i), w)
      | None \<Rightarrow>
        (case gov_reserve (ms_governor m) new_id (ps_scope t) (ps_estimated_resources t) w of
           (Inl e, w) \<Rightarrow> (Inl (ProcessResource e), w)
         | (Inr reservation, w) \<Rightarrow>
           (let i = rv_id reservation in
            case prs_start (ms_inner m) (t\<lparr>ps_resource_reservation_id := Some i\<rparr>) w of
              (Inr record, w) \<Rightarrow>
                if pr_resource_reservation_id record = Some i then
                  (Inr record, record_owned_reservation m (pr_scope record) (pr_process_id record) i w)
                else settle_after_error (release_reservation m i)
                  (ProcessReservationMismatch (pr_process_id record) i
                     (pr_resource_reservation_id record)) w
            | (Inl e, w) \<Rightarrow> settle_after_error (release_reservation m i) e w)))"

text \<open>
  \<open>complete\<close>, \<open>fail\<close> and \<open>kill\<close> are the same text but for the transition of the inner store and
  for \<open>complete\<close>'s reconciling the reservation where the others release it.
\<close>

definition managed_transition ::
    "'w managed_store \<Rightarrow> (resource_reservation_id \<Rightarrow> ('w, resource_error, unit) operation)
     \<Rightarrow> ('w, process_error, process_record) operation \<Rightarrow> resource_scope \<Rightarrow> process_id
     \<Rightarrow> ('w, process_error, process_record) operation" where
  "managed_transition m settle transition scope pid w =
     (case prs_get (ms_inner m) scope pid w of
        (Inl e, w) \<Rightarrow> (Inl e, w)
      | (Inr None, w) \<Rightarrow> (Inl (UnknownProcess pid), w)
      | (Inr (Some current), w) \<Rightarrow>
        (case take_owned_reservation m scope pid (pr_resource_reservation_id current) w of
           (Inl e, w) \<Rightarrow> (Inl e, w)
         | (Inr i, w) \<Rightarrow>
           (case transition w of
              (Inl e, w) \<Rightarrow> (Inl e, record_owned_reservation m scope pid i w)
            | (Inr record, w) \<Rightarrow>
                if pr_resource_reservation_id record \<noteq> Some i then
                  settle_after_error (settle i) (ProcessReservationMismatch (pr_process_id record) i
                    (pr_resource_reservation_id record)) w
                else (case settle i w of
                    (Inl e, w) \<Rightarrow> (Inl (ProcessResource e), w)
                  | (Inr _, w) \<Rightarrow> (Inr record, w)))))"

definition managed_complete ::
    "'w managed_store \<Rightarrow> resource_scope \<Rightarrow> process_id
     \<Rightarrow> ('w, process_error, process_record) operation" where
  "managed_complete m scope pid = managed_transition m (reconcile_reservation m)
     (prs_complete (ms_inner m) scope pid) scope pid"

definition managed_fail ::
    "'w managed_store \<Rightarrow> resource_scope \<Rightarrow> process_id \<Rightarrow> string
     \<Rightarrow> ('w, process_error, process_record) operation" where
  "managed_fail m scope pid error_kind = managed_transition m (release_reservation m)
     (prs_fail (ms_inner m) scope pid error_kind) scope pid"

definition managed_kill ::
    "'w managed_store \<Rightarrow> resource_scope \<Rightarrow> process_id
     \<Rightarrow> ('w, process_error, process_record) operation" where
  "managed_kill m scope pid = managed_transition m (release_reservation m)
     (prs_kill (ms_inner m) scope pid) scope pid"

definition resource_managed_store ::
    "resource_reservation_id \<Rightarrow> 'w managed_store \<Rightarrow> 'w process_store" where
  "resource_managed_store new_id m = \<lparr>prs_start = managed_start m new_id,
     prs_complete = managed_complete m, prs_fail = managed_fail m, prs_kill = managed_kill m,
     prs_get = prs_get (ms_inner m), prs_records_for_scope = prs_records_for_scope (ms_inner m)\<rparr>"

end
