(* ===== verification/ProcessLifecycle.thy ===== *)
theory ProcessLifecycle
  imports ProcessStores
begin

section \<open>The lifecycle of a process\<close>

text \<open>
  The contract of a process store (\<open>process_contract\<close>), what the reserving and the reporting store
  make of it over any history of commands, and the production stack \<open>Eventing(ResourceManaged(\<dots>))\<close>
  over one state, in which the contracts hold.
\<close>

subsection \<open>Endings\<close>

datatype process_ending = EndComplete | EndFail string | EndKill

fun ending_status :: "process_ending \<Rightarrow> process_status" where
  "ending_status EndComplete = ProcCompleted"
| "ending_status (EndFail _) = ProcFailed"
| "ending_status EndKill = ProcKilled"

fun ending_error :: "process_ending \<Rightarrow> string option" where
  "ending_error (EndFail k) = Some k"
| "ending_error _ = None"

fun prs_end :: "'w process_store \<Rightarrow> process_ending \<Rightarrow> resource_scope \<Rightarrow> process_id
    \<Rightarrow> ('w, process_error, process_record) operation" where
  "prs_end store EndComplete s i = prs_complete store s i"
| "prs_end store (EndFail k) s i = prs_fail store s i k"
| "prs_end store EndKill s i = prs_kill store s i"

definition ended :: "process_ending \<Rightarrow> process_record \<Rightarrow> process_record" where
  "ended c r = r\<lparr>pr_status := ending_status c, pr_error_kind := ending_error c\<rparr>"

lemma ending_status_neq [simp]: "ending_status c \<noteq> ProcRunning"
  by (cases c) simp_all

lemma ended_simps [simp]:
  "pr_status (ended c r) = ending_status c" "pr_error_kind (ended c r) = ending_error c"
  "pr_scope (ended c r) = pr_scope r" "pr_process_id (ended c r) = pr_process_id r"
  "pr_resource_reservation_id (ended c r) = pr_resource_reservation_id r"
  by (simp_all add: ended_def)

lemma running_record_simps [simp]:
  "pr_status (running_record t) = ProcRunning" "pr_scope (running_record t) = ps_scope t"
  "pr_process_id (running_record t) = ps_process_id t" "pr_error_kind (running_record t) = None"
  "pr_resource_reservation_id (running_record t) = ps_resource_reservation_id t"
  by (simp_all add: running_record_def)

abbreviation start_key :: "process_start \<Rightarrow> process_key" where
  "start_key t \<equiv> process_key_new (ps_scope t) (ps_process_id t)"

abbreviation record_key :: "process_record \<Rightarrow> process_key" where
  "record_key r \<equiv> process_key_new (pr_scope r) (pr_process_id r)"

subsection \<open>The contract of a process store\<close>

locale process_contract =
  fixes store :: "'w process_store"
    and records :: "'w \<Rightarrow> process_key \<rightharpoonup> process_record"
  assumes start_reply: "fst (prs_start store t w) =
      (if records w (start_key t) = None then Inr (running_record t)
       else Inl (ProcessAlreadyExists (ps_process_id t)))"
    and start_state: "records (snd (prs_start store t w)) =
      (if records w (start_key t) = None then (records w)(start_key t \<mapsto> running_record t)
       else records w)"
    and end_reply: "fst (prs_end store c s i w) = (case records w (process_key_new s i) of
        None \<Rightarrow> Inl (UnknownProcess i)
      | Some r \<Rightarrow> if pr_status r = ProcRunning then Inr (ended c r)
          else Inl (InvalidTransition i (pr_status r) (ending_status c)))"
    and end_state: "records (snd (prs_end store c s i w)) = (case records w (process_key_new s i) of
        None \<Rightarrow> records w
      | Some r \<Rightarrow> if pr_status r = ProcRunning then (records w)(process_key_new s i \<mapsto> ended c r)
          else records w)"
    and get_reply: "fst (prs_get store s i w) = Inr (records w (process_key_new s i))"
    and get_state: "records (snd (prs_get store s i w)) = records w"

lemma in_memory_process_sel:
  "prs_start in_memory_processes = process_start_record"
  "prs_get in_memory_processes = process_get"
  "prs_end in_memory_processes c s i =
     process_update_status s i (ending_status c) (ending_error c)"
  by (simp_all add: in_memory_processes_def)
    (cases c; simp add: process_complete_def process_fail_def process_kill_def)

lemmas process_store_defs = process_start_record_def process_get_def process_update_status_def
  ensure_status_transition_def ended_def Let_def

interpretation memory_processes: process_contract in_memory_processes "\<lambda>m k. hm_get k m"
  by (unfold_locales; unfold in_memory_process_sel)
    (auto simp: process_store_defs fun_eq_iff split: option.splits)

subsection \<open>Histories\<close>

text \<open>
  A command carries what its call draws: the stamp of the event it may report and, if it starts a
  process, the id of the reservation it may make (no other method of a store uses that id).
\<close>

datatype process_command =
    StartProcess "uuid \<times> timestamp" resource_reservation_id process_start
  | EndProcess "uuid \<times> timestamp" process_ending resource_scope process_id

fun process_step ::
    "(uuid \<times> timestamp \<Rightarrow> resource_reservation_id \<Rightarrow> 'w process_store) \<Rightarrow> process_command
     \<Rightarrow> ('w, process_error, process_record) operation" where
  "process_step store_of (StartProcess stamp i t) = prs_start (store_of stamp i) t"
| "process_step store_of (EndProcess stamp c s i) = prs_end (store_of stamp 0) c s i"

fun ends :: "process_key \<Rightarrow> process_command \<Rightarrow> (process_error, process_record) result \<Rightarrow> bool" where
  "ends k (EndProcess _ _ s i) r \<longleftrightarrow> process_key_new s i = k \<and> \<not> is_err r"
| "ends k (StartProcess _ _ _) r \<longleftrightarrow> False"

context process_contract begin

definition finished :: "process_key \<Rightarrow> 'w \<Rightarrow> bool" where
  "finished k w \<longleftrightarrow> (\<exists>r. records w k = Some r \<and> pr_status r \<noteq> ProcRunning)"

lemma finished_final:
  assumes "records w k = Some r" and "pr_status r \<noteq> ProcRunning"
  shows "records (snd (process_step (\<lambda>_ _. store) c w)) k = Some r"
  using assms by (cases c) (auto simp: start_state end_state split: option.splits)

lemma ends_finishes:
  "ends k c (fst (process_step (\<lambda>_ _. store) c w)) \<Longrightarrow>
     \<not> finished k w \<and> finished k (snd (process_step (\<lambda>_ _. store) c w))"
  by (cases c) (auto simp: finished_def end_reply end_state split: option.splits if_splits)

end

sublocale process_contract \<subseteq> endings: once_only "process_step (\<lambda>_ _. store)" "finished k" "ends k"
  for k
  by unfold_locales (auto dest: ends_finishes simp: finished_def intro: finished_final)

subsection \<open>What the reserving store keeps\<close>

text \<open>
  The status that a process's reservation has once the process has a status: \<open>rejected\<close> says
  whether the governor refuses the completion usage.
\<close>

definition settled_as :: "bool \<Rightarrow> process_status \<Rightarrow> reservation_status" where
  "settled_as rejected st = (case st of
     ProcRunning \<Rightarrow> ReservationActive
   | ProcCompleted \<Rightarrow> (if rejected then ReservationActive else Reconciled)
   | _ \<Rightarrow> Released)"

text \<open>
  Processes, owned reservations and the governor's statuses agree: \<open>base\<close> are the reservations
  that others held before.
\<close>

definition managed_ok ::
    "bool \<Rightarrow> resource_reservation_id set \<Rightarrow> (process_key \<rightharpoonup> process_record)
     \<Rightarrow> (process_key \<rightharpoonup> resource_reservation_id)
     \<Rightarrow> (resource_reservation_id \<Rightarrow> reservation_status option) \<Rightarrow> bool" where
  "managed_ok rejected base recs own st \<longleftrightarrow>
     (\<forall>k r. recs k = Some r \<longrightarrow> k = record_key r
        \<and> (\<exists>i. pr_resource_reservation_id r = Some i \<and> i \<notin> base
             \<and> st i = Some (settled_as rejected (pr_status r))
             \<and> own k = (if pr_status r = ProcRunning then Some i else None)))
     \<and> (\<forall>k. recs k = None \<longrightarrow> own k = None)
     \<and> (\<forall>k l r s. recs k = Some r \<longrightarrow> recs l = Some s \<longrightarrow>
          pr_resource_reservation_id r = pr_resource_reservation_id s \<longrightarrow> k = l)
     \<and> (\<forall>i. st i = Some ReservationActive \<longleftrightarrow> i \<in> base \<or> (\<exists>k r. recs k = Some r
          \<and> pr_resource_reservation_id r = Some i
          \<and> settled_as rejected (pr_status r) = ReservationActive))"

definition reserved_by ::
    "bool \<Rightarrow> resource_reservation_id set \<Rightarrow> (process_key \<rightharpoonup> resource_reservation_id)
     \<Rightarrow> (resource_reservation_id \<Rightarrow> reservation_status option) \<Rightarrow> process_key \<Rightarrow> process_record
     \<Rightarrow> resource_reservation_id \<Rightarrow> bool" where
  "reserved_by rejected base own st k r i \<longleftrightarrow> pr_resource_reservation_id r = Some i \<and> i \<notin> base
     \<and> st i = Some (settled_as rejected (pr_status r))
     \<and> own k = (if pr_status r = ProcRunning then Some i else None)"

lemma managed_okI:
  assumes "\<And>k r. recs k = Some r \<Longrightarrow> k = record_key r \<and> (\<exists>i. reserved_by rejected base own st k r i)"
    and "\<And>k. recs k = None \<Longrightarrow> own k = None"
    and "\<And>k l r s. recs k = Some r \<Longrightarrow> recs l = Some s \<Longrightarrow>
      pr_resource_reservation_id r = pr_resource_reservation_id s \<Longrightarrow> k = l"
    and "\<And>i. st i = Some ReservationActive \<longleftrightarrow> i \<in> base \<or> (\<exists>k r. recs k = Some r
          \<and> pr_resource_reservation_id r = Some i
          \<and> settled_as rejected (pr_status r) = ReservationActive)"
  shows "managed_ok rejected base recs own st"
  unfolding managed_ok_def using assms unfolding reserved_by_def by (intro conjI; blast)

lemma managed_okD:
  assumes "managed_ok rejected base recs own st" and "recs k = Some r"
  obtains i where "k = record_key r" "reserved_by rejected base own st k r i"
  using assms unfolding managed_ok_def reserved_by_def by blast

lemma managed_ok_inj:
  "managed_ok rejected base recs own st \<Longrightarrow> recs k = Some r \<Longrightarrow> recs l = Some s \<Longrightarrow>
     pr_resource_reservation_id r = pr_resource_reservation_id s \<Longrightarrow> k = l"
  unfolding managed_ok_def by blast

lemma managed_ok_active:
  "managed_ok rejected base recs own st \<Longrightarrow> st i = Some ReservationActive \<longleftrightarrow>
     i \<in> base \<or> (\<exists>k r. recs k = Some r \<and> pr_resource_reservation_id r = Some i
       \<and> settled_as rejected (pr_status r) = ReservationActive)"
  unfolding managed_ok_def by blast

lemma managed_ok_own_None: "managed_ok rejected base recs own st \<Longrightarrow> recs k = None \<Longrightarrow> own k = None"
  unfolding managed_ok_def by blast

lemma managed_ok_fresh:
  assumes "managed_ok rejected base recs own st" and "st i = None"
  shows "i \<notin> base" and "recs k = Some r \<Longrightarrow> pr_resource_reservation_id r \<noteq> Some i"
  using managed_ok_active [OF assms(1), of i] assms(2)
  by (auto elim!: managed_okD [OF assms(1)] simp: reserved_by_def)

text \<open>Changing one reservation leaves the processes that have another.\<close>

lemma reserved_by_other:
  "reserved_by rejected base own st k r j \<Longrightarrow> pr_resource_reservation_id r \<noteq> Some i \<Longrightarrow> k \<noteq> l \<Longrightarrow>
     reserved_by rejected base (own(l := x)) (st(i := y)) k r j"
  by (auto simp: reserved_by_def)

text \<open>A reservation that was made and released at once.\<close>

lemma managed_ok_spare:
  assumes ok: "managed_ok rejected base recs own st" and i: "st i = None"
  shows "managed_ok rejected base recs own (st(i \<mapsto> Released))"
proof (rule managed_okI)
  fix k r assume r: "recs k = Some r"
  show "k = record_key r \<and> (\<exists>j. reserved_by rejected base own (st(i \<mapsto> Released)) k r j)"
    using managed_okD [OF ok r] managed_ok_fresh(2) [OF ok i r]
    by (metis fun_upd_other reserved_by_def)
next
  fix j
  show "(st(i \<mapsto> Released)) j = Some ReservationActive \<longleftrightarrow> j \<in> base \<or> (\<exists>k r. recs k = Some r
      \<and> pr_resource_reservation_id r = Some j \<and> settled_as rejected (pr_status r) = ReservationActive)"
    using managed_ok_active [OF ok, of j] managed_ok_fresh [OF ok i] by (cases "j = i") auto
qed (use ok managed_ok_own_None managed_ok_inj in blast)+

lemma managed_ok_started:
  assumes ok: "managed_ok rejected base recs own st" and i: "st i = None" and k: "recs k = None"
    and r: "k = record_key r" "pr_resource_reservation_id r = Some i" "pr_status r = ProcRunning"
  shows "managed_ok rejected base (recs(k \<mapsto> r)) (own(k \<mapsto> i)) (st(i \<mapsto> ReservationActive))"
proof (rule managed_okI)
  fix l s assume s: "(recs(k \<mapsto> r)) l = Some s"
  show "l = record_key s \<and>
      (\<exists>j. reserved_by rejected base (own(k \<mapsto> i)) (st(i \<mapsto> ReservationActive)) l s j)"
  proof (cases "l = k")
    case True
    have "reserved_by rejected base (own(k \<mapsto> i)) (st(i \<mapsto> ReservationActive)) k r i"
      using r managed_ok_fresh(1) [OF ok i] by (simp add: reserved_by_def settled_as_def)
    then show ?thesis using True s r(1) by auto
  next
    case False
    then have "recs l = Some s" using s by simp
    then show ?thesis
      using managed_okD [OF ok] managed_ok_fresh(2) [OF ok i] False reserved_by_other by metis
  qed
next
  fix l assume "(recs(k \<mapsto> r)) l = None"
  then show "(own(k \<mapsto> i)) l = None"
    using managed_ok_own_None [OF ok] by (cases "l = k") simp_all
next
  fix l l' s s' assume "(recs(k \<mapsto> r)) l = Some s" "(recs(k \<mapsto> r)) l' = Some s'"
    "pr_resource_reservation_id s = pr_resource_reservation_id s'"
  then show "l = l'"
    using managed_ok_inj [OF ok] managed_ok_fresh(2) [OF ok i] r(2) by (metis fun_upd_apply option.inject)
next
  fix j
  show "(st(i \<mapsto> ReservationActive)) j = Some ReservationActive \<longleftrightarrow> j \<in> base
      \<or> (\<exists>l s. (recs(k \<mapsto> r)) l = Some s \<and> pr_resource_reservation_id s = Some j
          \<and> settled_as rejected (pr_status s) = ReservationActive)"
  proof (cases "j = i")
    case True
    have "settled_as rejected (pr_status r) = ReservationActive"
      using r(3) by (simp add: settled_as_def)
    then show ?thesis using True r(2) by (metis fun_upd_same)
  next
    case False
    have "(\<exists>l s. (recs(k \<mapsto> r)) l = Some s \<and> pr_resource_reservation_id s = Some j
          \<and> settled_as rejected (pr_status s) = ReservationActive)
        \<longleftrightarrow> (\<exists>l s. recs l = Some s \<and> pr_resource_reservation_id s = Some j
          \<and> settled_as rejected (pr_status s) = ReservationActive)"
      using False k r(2) by (metis fun_upd_apply option.distinct(1) option.inject)
    then show ?thesis using managed_ok_active [OF ok, of j] False by simp
  qed
qed

lemma managed_ok_ended:
  assumes ok: "managed_ok rejected base recs own st" and r: "recs k = Some r"
    "pr_status r = ProcRunning" "pr_resource_reservation_id r = Some i"
  shows "managed_ok rejected base (recs(k \<mapsto> ended c r)) (own(k := None))
    (st(i \<mapsto> settled_as rejected (ending_status c)))"
proof (rule managed_okI)
  have other: "pr_resource_reservation_id s \<noteq> Some i" if "recs l = Some s" "l \<noteq> k" for l s
    using managed_ok_inj [OF ok that(1) r(1)] that(2) r(3) by auto
  have base: "i \<notin> base" and key: "k = record_key r"
    using managed_okD [OF ok r(1)] r(3) by (metis option.inject reserved_by_def)+
  {
    fix l s assume s: "(recs(k \<mapsto> ended c r)) l = Some s"
    show "l = record_key s \<and> (\<exists>j. reserved_by rejected base (own(k := None))
        (st(i \<mapsto> settled_as rejected (ending_status c))) l s j)"
    proof (cases "l = k")
      case True
      have "reserved_by rejected base (own(k := None))
          (st(i \<mapsto> settled_as rejected (ending_status c))) k (ended c r) i"
        using r(3) base by (simp add: reserved_by_def)
      then show ?thesis using True s key by auto
    next
      case False
      then have "recs l = Some s" using s by simp
      then show ?thesis
        using managed_okD [OF ok] other False reserved_by_other by metis
    qed
  next
    fix l assume "(recs(k \<mapsto> ended c r)) l = None"
    then show "(own(k := None)) l = None"
      using managed_ok_own_None [OF ok] by (cases "l = k") simp_all
  next
    fix l l' s s' assume "(recs(k \<mapsto> ended c r)) l = Some s" "(recs(k \<mapsto> ended c r)) l' = Some s'"
      "pr_resource_reservation_id s = pr_resource_reservation_id s'"
    then show "l = l'"
      using managed_ok_inj [OF ok] other r(1,3) by (metis ended_simps(5) fun_upd_apply option.inject)
  next
    fix j
    let ?active = "\<lambda>recs. \<exists>l s. recs l = Some s \<and> pr_resource_reservation_id s = Some j
          \<and> settled_as rejected (pr_status s) = ReservationActive"
    show "(st(i \<mapsto> settled_as rejected (ending_status c))) j = Some ReservationActive
        \<longleftrightarrow> j \<in> base \<or> ?active (recs(k \<mapsto> ended c r))"
    proof (cases "j = i")
      case True
      have "?active (recs(k \<mapsto> ended c r)) \<longleftrightarrow>
          settled_as rejected (ending_status c) = ReservationActive"
        using True other r(3) by (metis ended_simps(1,5) fun_upd_apply option.inject)
      then show ?thesis using True base by simp
    next
      case False
      have "?active (recs(k \<mapsto> ended c r)) \<longleftrightarrow> ?active recs"
        using False r by (metis ended_simps(5) fun_upd_apply option.inject)
      then show ?thesis using managed_ok_active [OF ok, of j] False by simp
    qed
  }
qed

subsection \<open>The contract of the services below the reserving store\<close>

definition preserves :: "('w \<Rightarrow> 'v) \<Rightarrow> ('w \<Rightarrow> 'r \<times> 'w) \<Rightarrow> bool" where
  "preserves view m \<longleftrightarrow> (\<forall>w. view (snd (m w)) = view w)"

lemma preservesD: "preserves view m \<Longrightarrow> view (snd (m w)) = view w"
  by (simp add: preserves_def)

text \<open>
  The store, the governor and the cell of owned reservations act on their own parts of the state
  and leave \<open>rest\<close> alone. Whether the governor rejects the completion usage does not depend on
  the reservation.
\<close>

locale managed_processes =
  processes: process_contract store records + governor: governor_contract gov status
  for store :: "'w process_store" and records and gov :: "'w governor_port" and status +
  fixes cell :: "'w owned_cell"
    and usage :: resource_usage
    and rejected :: bool
    and rest :: "'w \<Rightarrow> 'e"
  assumes reconcile_reply: "status w i = Some ReservationActive \<Longrightarrow>
      is_err (fst (gov_reconcile gov i usage w)) = rejected"
    and cell_law: "cl_get cell (cl_set cell m w) = m" "records (cl_set cell m w) = records w"
      "status (cl_set cell m w) = status w" "rest (cl_set cell m w) = rest w"
    and store_frame: "preserves (\<lambda>w. (cl_get cell w, status w, rest w)) (prs_start store t)"
      "preserves (\<lambda>w. (cl_get cell w, status w, rest w)) (prs_end store c s i)"
      "preserves (\<lambda>w. (cl_get cell w, status w, rest w)) (prs_get store s i)"
    and governor_frame: "preserves (\<lambda>w. (cl_get cell w, records w, rest w)) (gov_reserve gov j sc e)"
      "preserves (\<lambda>w. (cl_get cell w, records w, rest w)) (gov_release gov j)"
      "preserves (\<lambda>w. (cl_get cell w, records w, rest w)) (gov_reconcile gov j u)"
begin

abbreviation managed :: "'w managed_store" where
  "managed \<equiv> \<lparr>ms_inner = store, ms_governor = gov, ms_completion_usage = usage, ms_owned = cell\<rparr>"

definition owned :: "'w \<Rightarrow> process_key \<rightharpoonup> resource_reservation_id" where
  "owned w = (\<lambda>k. hm_get k (cl_get cell w))"

definition ok :: "resource_reservation_id set \<Rightarrow> 'w \<Rightarrow> bool" where
  "ok base w \<longleftrightarrow> managed_ok rejected base (records w) (owned w) (status w)"

lemma frames [simp]:
  "owned (snd (prs_start store t w)) = owned w" "status (snd (prs_start store t w)) = status w"
  "rest (snd (prs_start store t w)) = rest w"
  "owned (snd (prs_end store c s i w)) = owned w" "status (snd (prs_end store c s i w)) = status w"
  "rest (snd (prs_end store c s i w)) = rest w"
  "owned (snd (prs_get store s i w)) = owned w" "status (snd (prs_get store s i w)) = status w"
  "rest (snd (prs_get store s i w)) = rest w"
  "owned (snd (gov_reserve gov j sc e w)) = owned w" "records (snd (gov_reserve gov j sc e w)) = records w"
  "rest (snd (gov_reserve gov j sc e w)) = rest w"
  "owned (snd (gov_release gov j w)) = owned w" "records (snd (gov_release gov j w)) = records w"
  "rest (snd (gov_release gov j w)) = rest w"
  "owned (snd (gov_reconcile gov j u w)) = owned w" "records (snd (gov_reconcile gov j u w)) = records w"
  "rest (snd (gov_reconcile gov j u w)) = rest w"
  using store_frame [THEN preservesD] governor_frame [THEN preservesD] by (simp_all add: owned_def)

lemma record_owned [simp]:
  "owned (record_owned_reservation managed s i j w) = (owned w)(process_key_new s i \<mapsto> j)"
  "records (record_owned_reservation managed s i j w) = records w"
  "status (record_owned_reservation managed s i j w) = status w"
  "rest (record_owned_reservation managed s i j w) = rest w"
  by (simp_all add: record_owned_reservation_def owned_def cell_law fun_eq_iff)

text \<open>Starting a process: nothing, a spare reservation, or a process with its reservation.\<close>

lemma start_cases:
  assumes start: "managed_start managed new_id t w = (r, w')" and inv: "ok base w"
  obtains (failed) e where "r = Inl e" "records w' = records w" "owned w' = owned w"
      "status w' = status w" "rest w' = rest w"
    | (spare) e where "r = Inl e" "records w' = records w" "owned w' = owned w"
      "status w new_id = None" "status w' = (status w)(new_id \<mapsto> Released)" "rest w' = rest w"
    | (started) p where "r = Inr p" "pr_status p = ProcRunning"
      "records w (record_key p) = None" "status w new_id = None"
      "pr_resource_reservation_id p = Some new_id"
      "records w' = (records w)(record_key p \<mapsto> p)"
      "owned w' = (owned w)(record_key p \<mapsto> new_id)"
      "status w' = (status w)(new_id \<mapsto> ReservationActive)" "rest w' = rest w"
proof (cases "ps_resource_reservation_id t")
  case (Some i)
  then show ?thesis using start by (intro failed) (auto simp: managed_start_def)
next
  case None
  obtain q w1 where res: "gov_reserve gov new_id (ps_scope t) (ps_estimated_resources t) w = (q, w1)"
    by fastforce
  note law = governor.reserve_law [of new_id "ps_scope t" "ps_estimated_resources t" w]
  have frame1: "records w1 = records w" "owned w1 = owned w" "rest w1 = rest w"
    using frames(10-12) [of new_id "ps_scope t" "ps_estimated_resources t" w] res by simp_all
  show ?thesis
  proof (cases q)
    case (Inl e)
    then show ?thesis using start None res law frame1
      by (intro failed) (auto simp: managed_start_def)
  next
    case (Inr reservation)
    let ?t = "t\<lparr>ps_resource_reservation_id := Some new_id\<rparr>"
    have new: "rv_id reservation = new_id" "status w new_id = None"
        "status w1 = (status w)(new_id \<mapsto> ReservationActive)"
      using law res Inr by auto
    obtain y w2 where p: "prs_start store ?t w1 = (y, w2)" by fastforce
    note s = processes.start_reply [of ?t w1] processes.start_state [of ?t w1]
    have frame2: "owned w2 = owned w1" "status w2 = status w1" "rest w2 = rest w1"
      using frames(1-3) [of ?t w1] p by simp_all
    show ?thesis
    proof (cases "records w (start_key t)")
      case None
      then show ?thesis
        using start \<open>ps_resource_reservation_id t = None\<close> res Inr new p s frame1 frame2
        by (intro started [of "running_record ?t"]) (auto simp: managed_start_def)
    next
      case (Some other)
      obtain x w3 where rel: "gov_release gov new_id w2 = (x, w3)" by fastforce
      have "\<not> is_err x"
        using governor.release_reply [of w2 new_id] frame2 new(3) rel by simp
      then obtain receipt where x: "x = Inr receipt" by (auto simp: not_is_err_iff)
      have "status w3 = (status w)(new_id \<mapsto> Released)"
        using governor.release_law [of new_id w2] frame2 new(3) rel by simp
      then show ?thesis
        using start \<open>ps_resource_reservation_id t = None\<close> res Inr new p s frame1 frame2 rel x Some
          frames(13-15) [of new_id w2]
        by (intro spare) (auto simp: managed_start_def settle_after_error_def release_reservation_def
            bind_op_def return_op_def)
    qed
  qed
qed

text \<open>Settling the reservation of a process that ended.\<close>

definition settle_for :: "process_ending \<Rightarrow> resource_reservation_id \<Rightarrow> ('w, resource_error, unit) operation" where
  "settle_for c = (if c = EndComplete then reconcile_reservation managed
     else release_reservation managed)"

lemma managed_end:
  "prs_end (resource_managed_store j managed) c s i =
     managed_transition managed (settle_for c) (prs_end store c s i) s i"
  by (cases c) (simp_all add: resource_managed_store_def managed_complete_def managed_fail_def
      managed_kill_def settle_for_def)

lemma settle_effect:
  assumes settle: "settle_for c n w = (x, w')" and active: "status w n = Some ReservationActive"
  shows "is_err x \<longleftrightarrow> rejected \<and> c = EndComplete"
    and "status w' = (status w)(n \<mapsto> settled_as rejected (ending_status c))"
    and "records w' = records w" and "owned w' = owned w" and "rest w' = rest w"
proof -
  obtain y v where m: "(if c = EndComplete then apfst (map_sum id (\<lambda>_. ())) (gov_reconcile gov n usage w)
      else apfst (map_sum id (\<lambda>_. ())) (gov_release gov n w)) = (y, v)" by fastforce
  have "settle_for c n w = (y, v)"
    using m by (auto simp: settle_for_def reconcile_reservation_def release_reservation_def bind_op_def
        return_op_def split: if_splits prod.splits sum.splits)
  then have yv: "y = x" "v = w'" using settle by simp_all
  have released: "settled_as rejected (ending_status c) = Released" if "c \<noteq> EndComplete"
    using that by (cases c) (simp_all add: settled_as_def)
  have "(is_err x \<longleftrightarrow> rejected \<and> c = EndComplete)
      \<and> status w' = (status w)(n \<mapsto> settled_as rejected (ending_status c))
      \<and> records w' = records w \<and> owned w' = owned w \<and> rest w' = rest w"
  proof (cases "c = EndComplete")
    case True
    obtain z where z: "gov_reconcile gov n usage w = (z, w')" "x = map_sum id (\<lambda>_. ()) z"
      using m True yv by (cases "gov_reconcile gov n usage w") auto
    then show ?thesis
      using reconcile_reply [OF active] governor.reconcile_law [of n usage w] True active
        frames(16-18) [of n usage w]
      by (cases z) (auto simp: settled_as_def)
  next
    case False
    obtain z where z: "gov_release gov n w = (z, w')" "x = map_sum id (\<lambda>_. ()) z"
      using m False yv by (cases "gov_release gov n w") auto
    then show ?thesis
      using governor.release_reply [OF active] governor.release_law [of n w] False active
        frames(13-15) [of n w] released
      by (cases z) auto
  qed
  then show "is_err x \<longleftrightarrow> rejected \<and> c = EndComplete"
    "status w' = (status w)(n \<mapsto> settled_as rejected (ending_status c))"
    "records w' = records w" "owned w' = owned w" "rest w' = rest w"
    by blast+
qed

lemma take_owned:
  assumes "owned w (process_key_new s i) = own"
  shows "fst (take_owned_reservation managed s i actual w) = (case own of
      None \<Rightarrow> Inl (ProcessReservationNotOwned i actual)
    | Some n \<Rightarrow> if Some n = actual then Inr n else Inl (ProcessReservationMismatch i n actual))"
    and "owned (snd (take_owned_reservation managed s i actual w)) =
      (if own = actual then (owned w)(process_key_new s i := None) else owned w)"
    and "records (snd (take_owned_reservation managed s i actual w)) = records w"
    and "status (snd (take_owned_reservation managed s i actual w)) = status w"
    and "rest (snd (take_owned_reservation managed s i actual w)) = rest w"
  using assms
  by (auto simp: take_owned_reservation_def owned_def cell_law record_owned_reservation_def fun_eq_iff
      Let_def split: option.splits)

text \<open>Ending a process: nothing, or the end of a running process with its reservation.\<close>

lemma end_cases:
  assumes step: "prs_end (resource_managed_store j managed) c s i w = (r, w')" and inv: "ok base w"
  obtains (failed) e where "r = Inl e" "records w' = records w" "owned w' = owned w"
      "status w' = status w" "rest w' = rest w"
    | (finished) p n where "records w (process_key_new s i) = Some p" "pr_status p = ProcRunning"
      "pr_resource_reservation_id p = Some n"
      "is_err r \<longleftrightarrow> rejected \<and> c = EndComplete" "\<not> is_err r \<Longrightarrow> r = Inr (ended c p)"
      "records w' = (records w)(process_key_new s i \<mapsto> ended c p)"
      "owned w' = (owned w)(process_key_new s i := None)"
      "status w' = (status w)(n \<mapsto> settled_as rejected (ending_status c))" "rest w' = rest w"
proof -
  let ?k = "process_key_new s i"
  obtain g w1 where get: "prs_get store s i w = (g, w1)" by fastforce
  have g: "g = Inr (records w ?k)" "records w1 = records w" "owned w1 = owned w" "status w1 = status w"
      "rest w1 = rest w"
    using processes.get_reply [of s i w] processes.get_state [of s i w] frames(7-9) [of s i w] get
    by simp_all
  show ?thesis
  proof (cases "records w ?k")
    case None
    then show ?thesis using step get g
      by (intro failed) (auto simp: managed_end managed_transition_def)
  next
    case (Some p)
    obtain n where n: "reserved_by rejected base (owned w) (status w) ?k p n"
      using managed_okD [OF inv [unfolded ok_def] Some] by blast
    obtain y w2 where own: "take_owned_reservation managed s i (pr_resource_reservation_id p) w1 = (y, w2)"
      by fastforce
    note own_eff = take_owned [OF refl, where w = w1 and s = s and i = i
        and actual = "pr_resource_reservation_id p"]
    show ?thesis
    proof (cases "pr_status p = ProcRunning")
      case False
      then show ?thesis using step get g Some n own own_eff
        by (intro failed) (auto simp: managed_end managed_transition_def reserved_by_def)
    next
      case True
      have y: "y = Inr n" "owned w2 = (owned w)(?k := None)" "records w2 = records w"
          "status w2 = status w" "rest w2 = rest w"
        using own own_eff n True g by (simp_all add: reserved_by_def)
      obtain z w3 where fin: "prs_end store c s i w2 = (z, w3)" by fastforce
      have z: "z = Inr (ended c p)" "records w3 = (records w)(?k \<mapsto> ended c p)"
          "owned w3 = owned w2" "status w3 = status w2" "rest w3 = rest w2"
        using processes.end_reply [of c s i w2] processes.end_state [of c s i w2]
          frames(4-6) [of c s i w2] fin Some True y(3) by simp_all
      obtain x w4 where settle: "settle_for c n w3 = (x, w4)" by fastforce
      have active: "status w3 n = Some ReservationActive"
        using z(4) y(4) n True by (simp add: reserved_by_def settled_as_def)
      note eff = settle_effect [OF settle active]
      have resv: "pr_resource_reservation_id p = Some n" using n by (simp add: reserved_by_def)
      have rw: "(r, w') = (case x of Inl e \<Rightarrow> (Inl (ProcessResource e), w4) | Inr _ \<Rightarrow> (Inr (ended c p), w4))"
        using step get g(1) Some own y(1) fin z(1) settle resv
        by (simp add: managed_end managed_transition_def split: sum.splits)
      show ?thesis
      proof (rule finished [of p n])
        show "is_err r \<longleftrightarrow> rejected \<and> c = EndComplete" "\<not> is_err r \<Longrightarrow> r = Inr (ended c p)"
          using rw eff(1) by (auto split: sum.splits)
        have "w' = w4" using rw by (auto split: sum.splits)
        then show "records w' = (records w)(?k \<mapsto> ended c p)" "owned w' = (owned w)(?k := None)"
          "status w' = (status w)(n \<mapsto> settled_as rejected (ending_status c))" "rest w' = rest w"
          using eff(2-5) y z by simp_all
      qed (use Some True resv in simp_all)
    qed
  qed
qed

lemma ok_start:
  assumes "managed_start managed new_id t w = (r, w')" and "ok base w"
  shows "ok base w'"
  using assms
proof (cases rule: start_cases)
  case (failed e)
  then show ?thesis using assms(2) by (simp add: ok_def)
next
  case (spare e)
  then show ?thesis using assms(2) managed_ok_spare by (simp add: ok_def)
next
  case (started p)
  then show ?thesis using assms(2) managed_ok_started [OF _ _ _ refl] by (simp add: ok_def)
qed

lemma ok_end:
  assumes "prs_end (resource_managed_store j managed) c s i w = (r, w')" and "ok base w"
  shows "ok base w'"
  using assms
proof (cases rule: end_cases)
  case (failed e)
  then show ?thesis using assms(2) by (simp add: ok_def)
next
  case (finished p n)
  then show ?thesis using assms(2) managed_ok_ended by (simp add: ok_def)
qed

end

subsection \<open>What the reporting store reports\<close>

definition process_events_of :: "process_key \<Rightarrow> runtime_event list \<Rightarrow> runtime_event list" where
  "process_events_of k es = filter (\<lambda>e. case ev_process_id e of
     None \<Rightarrow> False | Some i \<Rightarrow> process_key_new (ev_scope e) i = k) es"

text \<open>The events that a process has caused once it has a record: their kinds and error kinds.\<close>

definition lifecycle_events ::
    "bool \<Rightarrow> process_record option \<Rightarrow> (runtime_event_kind \<times> string option) list" where
  "lifecycle_events rejected ro = (case ro of
     None \<Rightarrow> []
   | Some r \<Rightarrow> (EvProcessStarted, None) #
       (case pr_status r of
          ProcRunning \<Rightarrow> []
        | ProcCompleted \<Rightarrow> (if rejected then [] else [(EvProcessCompleted, None)])
        | ProcFailed \<Rightarrow> [(EvProcessFailed, map_option sanitize_error_kind (pr_error_kind r))]
        | ProcKilled \<Rightarrow> [(EvProcessKilled, None)]))"

definition events_mirror ::
    "bool \<Rightarrow> runtime_event list \<Rightarrow> (process_key \<rightharpoonup> process_record) \<Rightarrow> bool" where
  "events_mirror rejected es recs \<longleftrightarrow> (\<forall>k.
     map (\<lambda>e. (ev_kind e, ev_error_kind e)) (process_events_of k es) = lifecycle_events rejected (recs k))"

text \<open>The event of an ending.\<close>

fun ending_event :: "uuid \<times> timestamp \<Rightarrow> process_ending \<Rightarrow> process_record \<Rightarrow> runtime_event" where
  "ending_event stamp EndComplete = (\<lambda>r. ev_process_completed (fst stamp) (snd stamp) (pr_scope r)
     (pr_capability_id r) (pr_extension_id r) (pr_runtime r) (pr_process_id r))"
| "ending_event stamp (EndFail _) = (\<lambda>r. ev_process_failed (fst stamp) (snd stamp) (pr_scope r)
     (pr_capability_id r) (pr_extension_id r) (pr_runtime r) (pr_process_id r)
     (case pr_error_kind r of Some k \<Rightarrow> k | None \<Rightarrow> ''Unknown''))"
| "ending_event stamp EndKill = (\<lambda>r. ev_process_killed (fst stamp) (snd stamp) (pr_scope r)
     (pr_capability_id r) (pr_extension_id r) (pr_runtime r) (pr_process_id r))"

lemma eventing_end:
  "prs_end (eventing_store stamp sink inner) c s i =
     reporting sink (ending_event stamp c) (prs_end inner c s i)"
  by (cases c) (simp_all add: eventing_store_def)

lemma ending_event_fields:
  "ev_process_id (ending_event stamp c r) = Some (pr_process_id r)"
  "ev_scope (ending_event stamp c r) = pr_scope r"
  by (cases c; simp add: event_constructors)+

lemma events_mirror_started:
  assumes "events_mirror rejected es recs" and "recs (record_key r) = None"
    and "pr_status r = ProcRunning"
  shows "events_mirror rejected (es @ [ev_process_started i now (pr_scope r) (pr_capability_id r)
      (pr_extension_id r) (pr_runtime r) (pr_process_id r)]) (recs(record_key r \<mapsto> r))"
  using assms by (auto simp: events_mirror_def process_events_of_def lifecycle_events_def event_constructors)

lemma events_mirror_ended:
  assumes "events_mirror rejected es recs" and "recs k = Some r" and "k = record_key r"
    and "pr_status r = ProcRunning"
  shows "\<not> (rejected \<and> c = EndComplete) \<Longrightarrow>
      events_mirror rejected (es @ [ending_event stamp c (ended c r)]) (recs(k \<mapsto> ended c r))"
    and "rejected \<and> c = EndComplete \<Longrightarrow> events_mirror rejected es (recs(k \<mapsto> ended c r))"
proof -
  have old: "map (\<lambda>e. (ev_kind e, ev_error_kind e)) (process_events_of k es) = [(EvProcessStarted, None)]"
    using assms(1,2,4) by (simp add: events_mirror_def lifecycle_events_def)
  have other: "map (\<lambda>e. (ev_kind e, ev_error_kind e)) (process_events_of l es) =
      lifecycle_events rejected ((recs(k \<mapsto> ended c r)) l)" if "l \<noteq> k" for l
    using assms(1) that by (simp add: events_mirror_def)
  show "events_mirror rejected (es @ [ending_event stamp c (ended c r)]) (recs(k \<mapsto> ended c r))"
    if "\<not> (rejected \<and> c = EndComplete)"
    unfolding events_mirror_def
  proof
    fix l
    have "process_events_of l (es @ [ending_event stamp c (ended c r)]) =
        process_events_of l es @ (if l = k then [ending_event stamp c (ended c r)] else [])"
      using assms(3) by (auto simp: process_events_of_def ending_event_fields)
    moreover have "lifecycle_events rejected (Some (ended c r)) = [(EvProcessStarted, None),
        (ev_kind (ending_event stamp c (ended c r)), ev_error_kind (ending_event stamp c (ended c r)))]"
      using that by (cases c) (auto simp: lifecycle_events_def event_constructors)
    ultimately show "map (\<lambda>e. (ev_kind e, ev_error_kind e))
        (process_events_of l (es @ [ending_event stamp c (ended c r)])) =
        lifecycle_events rejected ((recs(k \<mapsto> ended c r)) l)"
      using old other [of l] by (cases "l = k") simp_all
  qed
  show "events_mirror rejected es (recs(k \<mapsto> ended c r))" if "rejected \<and> c = EndComplete"
    unfolding events_mirror_def
  proof
    fix l
    have "lifecycle_events rejected (Some (ended c r)) = [(EvProcessStarted, None)]"
      using that by (simp add: lifecycle_events_def)
    then show "map (\<lambda>e. (ev_kind e, ev_error_kind e)) (process_events_of l es) =
        lifecycle_events rejected ((recs(k \<mapsto> ended c r)) l)"
      using old other [of l] by (cases "l = k") simp_all
  qed
qed

locale reporting_processes = managed_processes store records gov status cell usage rejected events
  for store :: "'w process_store" and records gov status cell usage rejected
    and events :: "'w \<Rightarrow> runtime_event list" +
  fixes sink :: "'w event_sink"
  assumes sink_law: "events (snd (sink e w)) = events w @ [e]"
    and sink_frame: "preserves (\<lambda>w. (cl_get cell w, records w, status w)) (sink e)"
begin

definition stack :: "uuid \<times> timestamp \<Rightarrow> resource_reservation_id \<Rightarrow> 'w process_store" where
  "stack stamp new_id = eventing_store stamp sink (resource_managed_store new_id managed)"

definition sound :: "resource_reservation_id set \<Rightarrow> 'w \<Rightarrow> bool" where
  "sound base w \<longleftrightarrow> ok base w \<and> events_mirror rejected (events w) (records w)"

lemma emitted [simp]:
  "records (emit_best_effort sink e w) = records w" "status (emit_best_effort sink e w) = status w"
  "owned (emit_best_effort sink e w) = owned w" "events (emit_best_effort sink e w) = events w @ [e]"
  using sink_frame [THEN preservesD] sink_law by (simp_all add: emit_best_effort_def owned_def)

lemma sound_start:
  assumes inv: "sound base w"
  shows "sound base (snd (prs_start (stack stamp new_id) t w))"
proof -
  obtain r w' where start: "managed_start managed new_id t w = (r, w')" by fastforce
  have ok: "ok base w" using inv by (simp add: sound_def)
  note ok' = ok_start [OF start ok]
  show ?thesis using start ok
  proof (cases rule: start_cases)
    case (failed e)
    then show ?thesis using inv ok' start
      by (simp add: sound_def stack_def eventing_store_def reporting_def resource_managed_store_def)
  next
    case (spare e)
    then show ?thesis using inv ok' start
      by (simp add: sound_def stack_def eventing_store_def reporting_def resource_managed_store_def)
  next
    case (started p)
    then show ?thesis using inv ok' start events_mirror_started [of rejected "events w" "records w" p]
      by (simp add: sound_def stack_def eventing_store_def reporting_def resource_managed_store_def ok_def)
  qed
qed

lemma sound_end:
  assumes inv: "sound base w"
  shows "sound base (snd (prs_end (stack stamp new_id) c s i w))"
proof -
  obtain r w' where step: "prs_end (resource_managed_store new_id managed) c s i w = (r, w')" by fastforce
  have ok: "ok base w" using inv by (simp add: sound_def)
  note ok' = ok_end [OF step ok]
  show ?thesis using step ok
  proof (cases rule: end_cases)
    case (failed e)
    then show ?thesis using inv ok' step by (simp add: sound_def stack_def eventing_end reporting_def)
  next
    case (finished p n)
    have key: "process_key_new s i = record_key p"
      using managed_okD [OF ok [unfolded ok_def] finished(1)] by blast
    note mirror = events_mirror_ended [of rejected "events w" "records w", OF _ finished(1) key finished(2)]
    show ?thesis
    proof (cases r)
      case (Inl e)
      have "prs_end (stack stamp new_id) c s i w = (Inl e, w')"
        using step by (simp add: stack_def eventing_end reporting_def Inl)
      moreover have "rejected \<and> c = EndComplete" using finished(4) Inl by simp
      then have "events_mirror rejected (events w') (records w')"
        using mirror(2) inv unfolding sound_def finished(6,9) by blast
      ultimately show ?thesis using ok' by (simp add: sound_def)
    next
      case (Inr q)
      then show ?thesis using inv ok' step finished(4-9) mirror(1)
        by (simp add: sound_def stack_def eventing_end reporting_def ok_def)
    qed
  qed
qed

lemma sound_step: "sound base w \<Longrightarrow> sound base (snd (process_step stack c w))"
  by (cases c) (simp_all add: sound_start sound_end)

lemma sound_run: "sound base w \<Longrightarrow> sound base (final_state (process_step stack) cs w)"
  by (rule final_state_invariant) (rule sound_step)

end

subsection \<open>The production stack\<close>

text \<open>
  The stores, the governor and the sink of one host share a state, each acting on its own field:
  \<open>EventingProcessStore\<close> over \<open>ResourceManagedProcessStore\<close> over the in-memory store.
\<close>

record process_world =
  pw_processes :: process_map
  pw_owned :: owned_map
  pw_governor :: resource_state
  pw_events :: "runtime_event list"

definition on_processes :: "(process_map \<Rightarrow> 'r \<times> process_map) \<Rightarrow> process_world \<Rightarrow> 'r \<times> process_world" where
  "on_processes f w = (case f (pw_processes w) of (r, s) \<Rightarrow> (r, w\<lparr>pw_processes := s\<rparr>))"

definition on_governor ::
    "(resource_state \<Rightarrow> 'r \<times> resource_state) \<Rightarrow> process_world \<Rightarrow> 'r \<times> process_world" where
  "on_governor f w = (case f (pw_governor w) of (r, s) \<Rightarrow> (r, w\<lparr>pw_governor := s\<rparr>))"

definition world_processes :: "process_world process_store" where
  "world_processes = \<lparr>prs_start = (\<lambda>t. on_processes (process_start_record t)),
     prs_complete = (\<lambda>s i. on_processes (process_complete s i)),
     prs_fail = (\<lambda>s i k. on_processes (process_fail s i k)),
     prs_kill = (\<lambda>s i. on_processes (process_kill s i)),
     prs_get = (\<lambda>s i. on_processes (process_get s i)),
     prs_records_for_scope = (\<lambda>s. on_processes (process_records_for_scope s))\<rparr>"

definition world_governor :: "decimal_ops \<Rightarrow> process_world governor_port" where
  "world_governor ops = \<lparr>
     gov_set_limit = (\<lambda>a l w. w\<lparr>pw_governor := set_limit a l (pw_governor w)\<rparr>),
     gov_reserve = (\<lambda>i s e. on_governor (reserve_with_id ops s e i)),
     gov_reconcile = (\<lambda>i u. on_governor (reconcile ops i u)),
     gov_release = (\<lambda>i. on_governor (release ops i))\<rparr>"

definition world_owned :: "process_world owned_cell" where
  "world_owned = \<lparr>cl_get = pw_owned, cl_set = (\<lambda>m. pw_owned_update (\<lambda>_. m))\<rparr>"

definition world_sink :: "process_world event_sink" where
  "world_sink e w = (case in_memory_sink_emit e (pw_events w) of (r, es) \<Rightarrow> (r, w\<lparr>pw_events := es\<rparr>))"

definition production_stack ::
    "decimal_ops \<Rightarrow> resource_usage \<Rightarrow> uuid \<times> timestamp \<Rightarrow> resource_reservation_id
     \<Rightarrow> process_world process_store" where
  "production_stack ops usage stamp new_id = eventing_store stamp world_sink
     (resource_managed_store new_id \<lparr>ms_inner = world_processes, ms_governor = world_governor ops,
        ms_completion_usage = usage, ms_owned = world_owned\<rparr>)"

text \<open>A host that starts with a governor in any state and no processes.\<close>

definition fresh_world :: "resource_state \<Rightarrow> process_world" where
  "fresh_world g = \<lparr>pw_processes = [], pw_owned = [], pw_governor = g, pw_events = []\<rparr>"

definition stack_run ::
    "decimal_ops \<Rightarrow> resource_usage \<Rightarrow> process_command list \<Rightarrow> resource_state \<Rightarrow> process_world" where
  "stack_run ops usage cs g = final_state (process_step (production_stack ops usage)) cs (fresh_world g)"

lemma world_process_sel:
  "prs_start world_processes t = on_processes (process_start_record t)"
  "prs_get world_processes s i = on_processes (process_get s i)"
  "prs_end world_processes c s i =
     on_processes (process_update_status s i (ending_status c) (ending_error c))"
  by (simp_all add: world_processes_def)
    (cases c; simp add: process_complete_def process_fail_def process_kill_def)

lemma world_governor_sel:
  "gov_reserve (world_governor ops) i s e = on_governor (reserve_with_id ops s e i)"
  "gov_reconcile (world_governor ops) i u = on_governor (reconcile ops i u)"
  "gov_release (world_governor ops) i = on_governor (release ops i)"
  by (simp_all add: world_governor_def)

lemma on_governor_simps [simp]:
  "fst (on_governor f w) = fst (f (pw_governor w))"
  "pw_governor (snd (on_governor f w)) = snd (f (pw_governor w))"
  "pw_processes (snd (on_governor f w)) = pw_processes w"
  "pw_owned (snd (on_governor f w)) = pw_owned w" "pw_events (snd (on_governor f w)) = pw_events w"
  by (simp_all add: on_governor_def split: prod.split)

lemma on_processes_simps [simp]:
  "fst (on_processes f w) = fst (f (pw_processes w))"
  "pw_processes (snd (on_processes f w)) = snd (f (pw_processes w))"
  "pw_governor (snd (on_processes f w)) = pw_governor w"
  "pw_owned (snd (on_processes f w)) = pw_owned w" "pw_events (snd (on_processes f w)) = pw_events w"
  by (simp_all add: on_processes_def split: prod.split)

lemma reconcile_rejects:
  "status_of s i = Some ReservationActive \<Longrightarrow>
     is_err (fst (reconcile ops i u s)) = is_err (validate_usage u)"
  by (auto simp: reconcile_def status_of_def Let_def split: option.splits sum.splits)

interpretation stack: reporting_processes world_processes "\<lambda>w k. hm_get k (pw_processes w)"
    "world_governor ops" "\<lambda>w. status_of (pw_governor w)" world_owned usage
    "is_err (validate_usage usage)" pw_events world_sink
  for ops usage
proof (unfold_locales, goal_cases)
  case (1 t w) then show ?case by (simp add: world_process_sel process_store_defs)
next
  case (2 t w) then show ?case by (auto simp: world_process_sel process_store_defs fun_eq_iff)
next
  case (3 c s i w) then show ?case
    by (auto simp: world_process_sel process_store_defs split: option.split)
next
  case (4 c s i w) then show ?case
    by (auto simp: world_process_sel process_store_defs fun_eq_iff split: option.split)
next
  case (7 i s e w) then show ?case
    unfolding world_governor_sel on_governor_simps by (rule reserve_status)
next
  case (8 i w) then show ?case
    unfolding world_governor_sel on_governor_simps by (rule release_status)
next
  case (9 w i) then show ?case
    unfolding world_governor_sel on_governor_simps by (rule release_ok)
next
  case (10 i u w) then show ?case
    unfolding world_governor_sel on_governor_simps by (rule reconcile_status)
qed (simp_all add: world_process_sel world_governor_sel world_owned_def world_sink_def
    in_memory_sink_emit_def preserves_def process_get_def reconcile_rejects)

lemma world_owned_get: "cl_get world_owned w = pw_owned w"
  by (simp add: world_owned_def)

lemma production_stack_eq: "production_stack ops usage = stack.stack ops usage"
  by (rule ext)+ (simp add: production_stack_def stack.stack_def)

lemma stack_run_sound:
  "stack.sound usage {i. status_of g i = Some ReservationActive} (stack_run ops usage cs g)"
  unfolding stack_run_def production_stack_eq
  by (rule stack.sound_run)
    (simp add: stack.sound_def stack.ok_def fresh_world_def managed_ok_def events_mirror_def
      process_events_of_def lifecycle_events_def stack.owned_def world_owned_get)


text \<open>
  The event log tells the lifecycle: after any history, the events with a process's
  identity are exactly its start and, once it has ended, the one event of its ending, a failure
  with the redacted form of the error kind in its record. (A process whose completion usage the
  governor rejects completes without an event.)
\<close>

theorem process_events_mirror_records:
  "map (\<lambda>e. (ev_kind e, ev_error_kind e))
       (process_events_of k (pw_events (stack_run ops usage cs g))) =
     lifecycle_events (is_err (validate_usage usage)) (hm_get k (pw_processes (stack_run ops usage cs g)))"
  using stack_run_sound [of usage g ops cs] by (simp add: stack.sound_def events_mirror_def)

text \<open>
  A process ends at most once: in any history of any callers on the in-memory store,
  at most one completion, failure or kill of a process succeeds.
\<close>

theorem process_ends_at_most_once:
  "occurrences (ends k) (history (process_step (\<lambda>_ _. in_memory_processes)) cs records) \<le> 1"
  by (rule memory_processes.endings.at_most_once)

end
