(* ===== verification/ProcessHost.thy ===== *)
theory ProcessHost
  imports ProcessLifecycle
begin

section \<open>The process host\<close>

text \<open>
  \<open>crates/ironclaw_processes/src/host.rs\<close> and \<open>cancellation.rs\<close>: the interface through which a host
  reads, awaits, follows and kills processes, and the registry of cancellation tokens. A token is
  a shared atomic flag: the registry's state numbers the tokens and knows which are cancelled; the
  future that waits for a flag is not modelled. A polling loop runs while others act: its argument
  is the list of what happens to the state at each of its waits, and its value is \<open>None\<close> if it is
  still polling after the last.
\<close>

subsection \<open>Cancellation\<close>

type_synonym cancellation_token = nat

record cancellation_registry =
  cr_tokens :: "(process_key, cancellation_token) hash_map"
  cr_next :: cancellation_token
  cr_cancelled :: "cancellation_token list"

definition registry_empty :: cancellation_registry where
  "registry_empty = \<lparr>cr_tokens = [], cr_next = 0, cr_cancelled = []\<rparr>"

definition token_new :: "cancellation_registry \<Rightarrow> cancellation_token \<times> cancellation_registry" where
  "token_new reg = (cr_next reg, reg\<lparr>cr_next := cr_next reg + 1\<rparr>)"

definition token_cancel :: "cancellation_token \<Rightarrow> cancellation_registry \<Rightarrow> cancellation_registry" where
  "token_cancel token reg = reg\<lparr>cr_cancelled := token # cr_cancelled reg\<rparr>"

definition token_is_cancelled :: "cancellation_token \<Rightarrow> cancellation_registry \<Rightarrow> bool" where
  "token_is_cancelled token reg \<longleftrightarrow> token \<in> set (cr_cancelled reg)"

definition registry_register ::
    "resource_scope \<Rightarrow> process_id \<Rightarrow> cancellation_registry
     \<Rightarrow> cancellation_token \<times> cancellation_registry" where
  "registry_register scope pid reg =
     (case token_new reg of (token, reg) \<Rightarrow>
        (token, reg\<lparr>cr_tokens := hm_insert (process_key_new scope pid) token (cr_tokens reg)\<rparr>))"

definition registry_cancel ::
    "resource_scope \<Rightarrow> process_id \<Rightarrow> cancellation_registry \<Rightarrow> bool \<times> cancellation_registry" where
  "registry_cancel scope pid reg =
     (let key = process_key_new scope pid;
          removed = reg\<lparr>cr_tokens := hm_remove key (cr_tokens reg)\<rparr>
      in case hm_get key (cr_tokens reg) of
           Some token \<Rightarrow> (True, token_cancel token removed)
         | None \<Rightarrow> (False, removed))"

definition registry_unregister ::
    "resource_scope \<Rightarrow> process_id \<Rightarrow> cancellation_registry \<Rightarrow> cancellation_registry" where
  "registry_unregister scope pid reg =
     reg\<lparr>cr_tokens := hm_remove (process_key_new scope pid) (cr_tokens reg)\<rparr>"

definition on_cell :: "('w, 'm) cell \<Rightarrow> ('m \<Rightarrow> 'r \<times> 'm) \<Rightarrow> 'w \<Rightarrow> 'r \<times> 'w" where
  "on_cell c f w = (case f (cl_get c w) of (r, m) \<Rightarrow> (r, cl_set c m w))"

subsection \<open>Queries and kill\<close>

record 'w process_host =
  ph_store :: "'w process_store"
  ph_cancellation_registry :: "('w, cancellation_registry) cell option"
  ph_result_store :: "'w process_result_store option"

definition process_host_new :: "'w process_store \<Rightarrow> 'w process_host" where
  "process_host_new store = \<lparr>ph_store = store, ph_cancellation_registry = None,
     ph_result_store = None\<rparr>"

definition host_status ::
    "'w process_host \<Rightarrow> resource_scope \<Rightarrow> process_id
     \<Rightarrow> ('w, process_error, process_record option) operation" where
  "host_status h scope pid = prs_get (ph_store h) scope pid"

definition cancel_if_registered ::
    "'w process_host \<Rightarrow> process_record \<Rightarrow> 'w \<Rightarrow> 'w" where
  "cancel_if_registered h record w = (case ph_cancellation_registry h of
     Some cell \<Rightarrow> snd (on_cell cell (registry_cancel (pr_scope record) (pr_process_id record)) w)
   | None \<Rightarrow> w)"

definition record_kill_result ::
    "'w process_host \<Rightarrow> process_record \<Rightarrow> ('w, process_error, unit) operation" where
  "record_kill_result h record = (case ph_result_store h of
     Some results \<Rightarrow> bind_op (prr_kill results (pr_scope record) (pr_process_id record))
       (\<lambda>_. return_op ())
   | None \<Rightarrow> return_op ())"

definition record_kill_side_effects ::
    "'w process_host \<Rightarrow> process_record \<Rightarrow> ('w, process_error, unit) operation" where
  "record_kill_side_effects h record w = record_kill_result h record (cancel_if_registered h record w)"

text \<open>Whether the record found after a failed kill says that the process was killed.\<close>

definition found_killed :: "(process_error, process_record option) result \<Rightarrow> process_record option" where
  "found_killed r = (case r of
     Inr (Some record) \<Rightarrow> if pr_status record = ProcKilled then Some record else None
   | _ \<Rightarrow> None)"

fun is_invalid_transition :: "process_error \<Rightarrow> bool" where
  "is_invalid_transition (InvalidTransition _ _ _) = True"
| "is_invalid_transition _ = False"

definition host_kill ::
    "'w process_host \<Rightarrow> resource_scope \<Rightarrow> process_id
     \<Rightarrow> ('w, process_error, process_record) operation" where
  "host_kill h scope pid w =
     (case prs_kill (ph_store h) scope pid w of
        (Inr record, w) \<Rightarrow>
          bind_op (record_kill_side_effects h record) (\<lambda>_. return_op record) w
      | (Inl error, w) \<Rightarrow>
          (case prs_get (ph_store h) scope pid w of (found, w) \<Rightarrow>
             (case found_killed found of
                Some record \<Rightarrow> bind_op (record_kill_side_effects h record)
                  (\<lambda>_. if is_invalid_transition error then return_op record else fail_op error) w
              | None \<Rightarrow> (Inl error, w))))"

definition host_result_store ::
    "'w process_host \<Rightarrow> (process_error, 'w process_result_store) result" where
  "host_result_store h = (case ph_result_store h of
     Some results \<Rightarrow> Inr results | None \<Rightarrow> Inl ProcessResultStoreUnavailable)"

definition host_result ::
    "'w process_host \<Rightarrow> resource_scope \<Rightarrow> process_id
     \<Rightarrow> ('w, process_error, process_result_record option) operation" where
  "host_result h scope pid w = (case host_result_store h of
     Inl e \<Rightarrow> (Inl e, w) | Inr results \<Rightarrow> prr_get results scope pid w)"

definition host_output ::
    "'w process_host \<Rightarrow> resource_scope \<Rightarrow> process_id \<Rightarrow> ('w, process_error, json option) operation" where
  "host_output h scope pid w = (case host_result_store h of
     Inl e \<Rightarrow> (Inl e, w) | Inr results \<Rightarrow> result_output results scope pid w)"

subsection \<open>Polling\<close>

text \<open>A lookup that must find the process.\<close>

definition must_get ::
    "'w process_host \<Rightarrow> resource_scope \<Rightarrow> process_id \<Rightarrow> ('w, process_error, process_record) operation" where
  "must_get h scope pid = bind_op (prs_get (ph_store h) scope pid) (\<lambda>r.
     case r of Some record \<Rightarrow> return_op record | None \<Rightarrow> fail_op (UnknownProcess pid))"

text \<open>
  \<open>await_result\<close>: others act between the two lookups of a round (\<open>f\<close>) and during its sleep (\<open>g\<close>);
  \<open>seen\<close> is \<open>terminal_without_result_seen\<close>.
\<close>

fun await_result ::
    "'w process_host \<Rightarrow> resource_scope \<Rightarrow> process_id \<Rightarrow> bool \<Rightarrow> (('w \<Rightarrow> 'w) \<times> ('w \<Rightarrow> 'w)) list \<Rightarrow> 'w
     \<Rightarrow> ((process_error, process_result_record) result \<times> 'w) option" where
  "await_result h scope pid seen [] w = None"
| "await_result h scope pid seen ((f, g) # waits) w =
     (case host_result h scope pid w of
        (Inl e, w) \<Rightarrow> Some (Inl e, w)
      | (Inr (Some r), w) \<Rightarrow> Some (Inr r, w)
      | (Inr None, w) \<Rightarrow>
          (case must_get h scope pid (f w) of
             (Inl e, w) \<Rightarrow> Some (Inl e, w)
           | (Inr record, w) \<Rightarrow>
               if process_is_terminal (pr_status record) then
                 if ph_result_store h = None \<or> seen then Some (Inl (ProcessResultUnavailable pid), w)
                 else await_result h scope pid True waits (g w)
               else await_result h scope pid False waits (g w)))"

fun await_process ::
    "'w process_host \<Rightarrow> resource_scope \<Rightarrow> process_id \<Rightarrow> ('w \<Rightarrow> 'w) list \<Rightarrow> 'w
     \<Rightarrow> ((process_error, process_exit) result \<times> 'w) option" where
  "await_process h scope pid [] w = None"
| "await_process h scope pid (g # waits) w =
     (case must_get h scope pid w of
        (Inl e, w) \<Rightarrow> Some (Inl e, w)
      | (Inr record, w) \<Rightarrow>
          if process_is_terminal (pr_status record) then Some (Inr (exit_from_terminal record), w)
          else await_process h scope pid waits (g w))"

record process_subscription =
  su_scope :: resource_scope
  su_process_id :: process_id
  su_last_status :: "process_status option"
  su_pending_initial :: "process_record option"
  su_finished :: bool

definition subscribe ::
    "'w process_host \<Rightarrow> resource_scope \<Rightarrow> process_id
     \<Rightarrow> ('w, process_error, process_subscription) operation" where
  "subscribe h scope pid = bind_op (must_get h scope pid) (\<lambda>initial.
     return_op \<lparr>su_scope = scope, su_process_id = pid, su_last_status = Some (pr_status initial),
       su_pending_initial = Some initial, su_finished = False\<rparr>)"

fun subscription_poll ::
    "'w process_host \<Rightarrow> process_subscription \<Rightarrow> ('w \<Rightarrow> 'w) list \<Rightarrow> 'w
     \<Rightarrow> ((process_error, process_record option) result \<times> process_subscription \<times> 'w) option" where
  "subscription_poll h u [] w = None"
| "subscription_poll h u (g # waits) w =
     (case must_get h (su_scope u) (su_process_id u) w of
        (Inl e, w) \<Rightarrow> Some (Inl e, u, w)
      | (Inr record, w) \<Rightarrow>
          if Some (pr_status record) \<noteq> su_last_status u then
            Some (Inr (Some record), u\<lparr>su_last_status := Some (pr_status record),
              su_finished := su_finished u \<or> process_is_terminal (pr_status record)\<rparr>, w)
          else subscription_poll h u waits (g w))"

definition subscription_next ::
    "'w process_host \<Rightarrow> process_subscription \<Rightarrow> ('w \<Rightarrow> 'w) list \<Rightarrow> 'w
     \<Rightarrow> ((process_error, process_record option) result \<times> process_subscription \<times> 'w) option" where
  "subscription_next h u waits w = (case su_pending_initial u of
     Some record \<Rightarrow> Some (Inr (Some record), u\<lparr>su_pending_initial := None,
       su_finished := su_finished u \<or> process_is_terminal (pr_status record)\<rparr>, w)
   | None \<Rightarrow> if su_finished u then Some (Inr None, u, w) else subscription_poll h u waits w)"

subsection \<open>Results\<close>

text \<open>The contract of a result store: each method writes the one record of its process.\<close>

definition kill_result :: "resource_scope \<Rightarrow> process_id \<Rightarrow> process_result_record" where
  "kill_result s i = \<lparr>po_process_id = i, po_scope = s, po_status = ProcKilled, po_output = None,
     po_output_ref = None, po_error_kind = None\<rparr>"

definition completed_result :: "resource_scope \<Rightarrow> process_id \<Rightarrow> json \<Rightarrow> process_result_record" where
  "completed_result s i out = \<lparr>po_process_id = i, po_scope = s, po_status = ProcCompleted,
     po_output = Some out, po_output_ref = None, po_error_kind = None\<rparr>"

definition failed_result :: "resource_scope \<Rightarrow> process_id \<Rightarrow> string \<Rightarrow> process_result_record" where
  "failed_result s i k = \<lparr>po_process_id = i, po_scope = s, po_status = ProcFailed,
     po_output = None, po_output_ref = None, po_error_kind = Some k\<rparr>"

locale result_contract =
  fixes results :: "'w process_result_store"
    and outcomes :: "'w \<Rightarrow> process_key \<rightharpoonup> process_result_record"
  assumes complete_law: "fst (prr_complete results s i out w) = Inr (completed_result s i out)"
      "outcomes (snd (prr_complete results s i out w)) =
         (outcomes w)(process_key_new s i \<mapsto> completed_result s i out)"
    and fail_law: "fst (prr_fail results s i k w) = Inr (failed_result s i k)"
      "outcomes (snd (prr_fail results s i k w)) =
         (outcomes w)(process_key_new s i \<mapsto> failed_result s i k)"
    and kill_law: "fst (prr_kill results s i w) = Inr (kill_result s i)"
      "outcomes (snd (prr_kill results s i w)) = (outcomes w)(process_key_new s i \<mapsto> kill_result s i)"
    and get_law: "fst (prr_get results s i w) = Inr (outcomes w (process_key_new s i))"
      "outcomes (snd (prr_get results s i w)) = outcomes w"

lemmas result_store_defs = in_memory_results_def result_complete_def result_fail_def result_kill_def
  result_get_def store_result_def completed_result_def failed_result_def kill_result_def

interpretation memory_results: result_contract in_memory_results "\<lambda>m k. hm_get k m"
  by unfold_locales (auto simp: result_store_defs Let_def fun_eq_iff)

end
