(* ===== verification/ProcessSupervisor.thy ===== *)
theory ProcessSupervisor
  imports ProcessHost
begin

section \<open>The background process manager\<close>

text \<open>
  \<open>crates/ironclaw_processes/src/services.rs\<close>: \<open>spawn\<close> records a running process and detaches a
  task that runs the executor, then writes the result and the final status. Several tasks and
  several calls of \<open>ProcessHost::kill\<close> run at once; each store call is atomic, everything else
  interleaves. A task or call is an agent whose stage is the store call it makes next, and the
  functions \<open>task_step\<close> and \<open>kill_step\<close> are the code between two store calls. The executor is
  third-party: its outcome, whenever it comes, is an argument of its step.
\<close>

subsection \<open>The manager\<close>

datatype background_failure_stage =
    StoreLookup | StoreComplete | StoreFail | ResultStoreComplete | ResultStoreFail

record background_failure =
  bf_scope :: resource_scope
  bf_process_id :: process_id
  bf_stage :: background_failure_stage
  bf_error :: process_error

record execution_request =
  er_process_id :: process_id
  er_invocation_id :: invocation_id
  er_scope :: resource_scope
  er_extension_id :: extension_id
  er_capability_id :: capability_id
  er_runtime :: runtime_kind
  er_estimate :: resource_estimate
  er_mounts :: mount_view
  er_resource_reservation :: "resource_reservation option"
  er_input :: json
  er_cancellation :: "cancellation_token option"

text \<open>What \<open>catch_unwind\<close> of the executor gives.\<close>

datatype execution_outcome = ExecOk json | ExecErr string | ExecPanic

record 'w background_manager =
  bm_store :: "'w process_store"
  bm_cancellation_registry :: "('w, cancellation_registry) cell option"
  bm_result_store :: "'w process_result_store option"
  bm_error_handler :: "(background_failure \<Rightarrow> 'w \<Rightarrow> 'w) option"

definition background_manager_new :: "'w process_store \<Rightarrow> 'w background_manager" where
  "background_manager_new store = \<lparr>bm_store = store, bm_cancellation_registry = None,
     bm_result_store = None, bm_error_handler = None\<rparr>"

record 'w process_services =
  sv_process_store :: "'w process_store"
  sv_result_store :: "'w process_result_store"
  sv_cancellation_registry :: "('w, cancellation_registry) cell"

definition services_host :: "'w process_services \<Rightarrow> 'w process_host" where
  "services_host s = (process_host_new (sv_process_store s))
     \<lparr>ph_cancellation_registry := Some (sv_cancellation_registry s),
      ph_result_store := Some (sv_result_store s)\<rparr>"

definition services_background_manager :: "'w process_services \<Rightarrow> 'w background_manager" where
  "services_background_manager s = (background_manager_new (sv_process_store s))
     \<lparr>bm_cancellation_registry := Some (sv_cancellation_registry s),
      bm_result_store := Some (sv_result_store s)\<rparr>"

text \<open>
  The request: without a registry the token is a default one that nobody else holds (\<open>None\<close>).
\<close>

definition execution_request_of ::
    "process_record \<Rightarrow> json \<Rightarrow> cancellation_token option \<Rightarrow> execution_request" where
  "execution_request_of r input token = \<lparr>er_process_id = pr_process_id r,
     er_invocation_id = pr_invocation_id r, er_scope = pr_scope r,
     er_extension_id = pr_extension_id r, er_capability_id = pr_capability_id r,
     er_runtime = pr_runtime r, er_estimate = pr_estimated_resources r, er_mounts = pr_mounts r,
     er_resource_reservation = map_option (\<lambda>i. \<lparr>rv_id = i, rv_scope = pr_scope r,
       rv_estimate = pr_estimated_resources r\<rparr>) (pr_resource_reservation_id r),
     er_input = input, er_cancellation = token\<rparr>"

datatype task_stage =
    Registering process_record json
  | Executing execution_request
  | Probing execution_outcome
  | Persisting execution_outcome
  | Promoting execution_outcome
  | Leaving
  | Finished

definition report ::
    "'w background_manager \<Rightarrow> resource_scope \<Rightarrow> process_id \<Rightarrow> background_failure_stage
     \<Rightarrow> process_error \<Rightarrow> 'w \<Rightarrow> 'w" where
  "report m scope pid at_stage error w = (case bm_error_handler m of
     Some handler \<Rightarrow> handler \<lparr>bf_scope = scope, bf_process_id = pid, bf_stage = at_stage,
       bf_error = error\<rparr> w
   | None \<Rightarrow> w)"

definition register_token ::
    "'w background_manager \<Rightarrow> process_record \<Rightarrow> 'w \<Rightarrow> cancellation_token option \<times> 'w" where
  "register_token m r w = (case bm_cancellation_registry m of
     Some cell \<Rightarrow> apfst Some (on_cell cell (registry_register (pr_scope r) (pr_process_id r)) w)
   | None \<Rightarrow> (None, w))"

text \<open>The status probe after the execution.\<close>

definition probe_status ::
    "'w background_manager \<Rightarrow> resource_scope \<Rightarrow> process_id \<Rightarrow> 'w \<Rightarrow> bool \<times> 'w" where
  "probe_status m scope pid w = (case prs_get (bm_store m) scope pid w of
     (Inr (Some record), w) \<Rightarrow> (pr_status record = ProcRunning, w)
   | (Inr None, w) \<Rightarrow> (False, w)
   | (Inl error, w) \<Rightarrow> (False, report m scope pid StoreLookup error w))"

text \<open>Both panics and errors fail the process; a panic has a kind of its own.\<close>

definition failure_kind_of :: "execution_outcome \<Rightarrow> string" where
  "failure_kind_of out = (case out of ExecErr k \<Rightarrow> k | _ \<Rightarrow> ''runtime_panic'')"

text \<open>Whether the result is persisted.\<close>

definition persist_result ::
    "'w background_manager \<Rightarrow> resource_scope \<Rightarrow> process_id \<Rightarrow> execution_outcome \<Rightarrow> 'w \<Rightarrow> bool \<times> 'w" where
  "persist_result m scope pid out w = (case bm_result_store m of
     None \<Rightarrow> (True, w)
   | Some results \<Rightarrow>
       (case out of
          ExecOk output \<Rightarrow> (case prr_complete results scope pid output w of
             (Inr _, w) \<Rightarrow> (True, w)
           | (Inl error, w) \<Rightarrow> (False, report m scope pid ResultStoreComplete error w))
        | _ \<Rightarrow> (case prr_fail results scope pid (failure_kind_of out) w of
             (Inr _, w) \<Rightarrow> (True, w)
           | (Inl error, w) \<Rightarrow> (False, report m scope pid ResultStoreFail error w))))"

definition promote_status ::
    "'w background_manager \<Rightarrow> resource_scope \<Rightarrow> process_id \<Rightarrow> execution_outcome \<Rightarrow> 'w \<Rightarrow> 'w" where
  "promote_status m scope pid out w = (case out of
     ExecOk _ \<Rightarrow> (case prs_complete (bm_store m) scope pid w of
        (Inr _, w) \<Rightarrow> w | (Inl error, w) \<Rightarrow> report m scope pid StoreComplete error w)
   | _ \<Rightarrow> (case prs_fail (bm_store m) scope pid (failure_kind_of out) w of
        (Inr _, w) \<Rightarrow> w | (Inl error, w) \<Rightarrow> report m scope pid StoreFail error w))"

definition unregister_token ::
    "'w background_manager \<Rightarrow> resource_scope \<Rightarrow> process_id \<Rightarrow> 'w \<Rightarrow> 'w" where
  "unregister_token m scope pid w = (case bm_cancellation_registry m of
     Some cell \<Rightarrow> cl_set cell (registry_unregister scope pid (cl_get cell w)) w
   | None \<Rightarrow> w)"

fun task_step ::
    "'w background_manager \<Rightarrow> execution_outcome \<Rightarrow> resource_scope \<Rightarrow> process_id \<Rightarrow> task_stage \<Rightarrow> 'w
     \<Rightarrow> task_stage \<times> 'w" where
  "task_step m out scope pid (Registering record input) w =
     (case register_token m record w of (token, w) \<Rightarrow>
        (Executing (execution_request_of record input token), w))"
| "task_step m out scope pid (Executing request) w = (Probing out, w)"
| "task_step m out scope pid (Probing result) w =
     (case probe_status m scope pid w of (still_running, w) \<Rightarrow>
        (if still_running then Persisting result else Leaving, w))"
| "task_step m out scope pid (Persisting result) w =
     (case persist_result m scope pid result w of (persisted, w) \<Rightarrow>
        (if persisted then Promoting result else Leaving, w))"
| "task_step m out scope pid (Promoting result) w = (Leaving, promote_status m scope pid result w)"
| "task_step m out scope pid Leaving w = (Finished, unregister_token m scope pid w)"
| "task_step m out scope pid Finished w = (Finished, w)"

text \<open>The part of \<open>spawn\<close> before the task is detached: the record it returns and the task's stage.\<close>

definition spawn_record ::
    "'w background_manager \<Rightarrow> process_start
     \<Rightarrow> ('w, process_error, process_record \<times> task_stage) operation" where
  "spawn_record m t = bind_op (prs_start (bm_store m) t) (\<lambda>record.
     return_op (record, Registering record (ps_input t)))"

subsection \<open>A kill in stages\<close>

text \<open>The answer of a call of \<open>host_kill\<close> that has side effects to record first.\<close>

datatype kill_stage =
    KillTransition
  | KillRecheck process_error
  | KillCancel process_record "(process_error, process_record) result"
  | KillRecord process_record "(process_error, process_record) result"
  | KillDone "(process_error, process_record) result"

fun kill_step ::
    "'w process_host \<Rightarrow> resource_scope \<Rightarrow> process_id \<Rightarrow> kill_stage \<Rightarrow> 'w \<Rightarrow> kill_stage \<times> 'w" where
  "kill_step h scope pid KillTransition w =
     (case prs_kill (ph_store h) scope pid w of
        (Inr record, w) \<Rightarrow> (KillCancel record (Inr record), w)
      | (Inl error, w) \<Rightarrow> (KillRecheck error, w))"
| "kill_step h scope pid (KillRecheck error) w =
     (case prs_get (ph_store h) scope pid w of (found, w) \<Rightarrow>
        (case found_killed found of
           Some record \<Rightarrow>
             (KillCancel record (if is_invalid_transition error then Inr record else Inl error), w)
         | None \<Rightarrow> (KillDone (Inl error), w)))"
| "kill_step h scope pid (KillCancel record reply) w =
     (KillRecord record reply, cancel_if_registered h record w)"
| "kill_step h scope pid (KillRecord record reply) w =
     (case record_kill_result h record w of
        (Inr _, w) \<Rightarrow> (KillDone reply, w)
      | (Inl e, w) \<Rightarrow> (KillDone (Inl e), w))"
| "kill_step h scope pid (KillDone reply) w = (KillDone reply, w)"

text \<open>Run without interruption, the stages are the call.\<close>

lemma host_kill_stages:
  "((\<lambda>(st, w). kill_step h scope pid st w) ^^ 4) (KillTransition, w) =
     (case host_kill h scope pid w of (reply, w') \<Rightarrow> (KillDone reply, w'))"
  by (auto simp: eval_nat_numeral host_kill_def record_kill_side_effects_def bind_op_def return_op_def
      fail_op_def split: prod.splits sum.splits option.splits)

end
