(* ===== verification/ProcessSystem.thy ===== *)
theory ProcessSystem
  imports ProcessSupervisor
begin

section \<open>Supervised processes over time\<close>

text \<open>
  The in-memory process services (\<open>ProcessServices::in_memory\<close>) with the tasks and kill calls that
  are under way, as a step relation; what holds of every reachable state, by rule induction.
\<close>

datatype agent =
    BackgroundTask resource_scope process_id task_stage
  | KillCall resource_scope process_id kill_stage

record process_system =
  sy_processes :: process_map
  sy_results :: result_map
  sy_registry :: cancellation_registry
  sy_failures :: "background_failure list"
  sy_agents :: "agent list"

definition sy_on_processes :: "(process_map \<Rightarrow> 'r \<times> process_map) \<Rightarrow> process_system \<Rightarrow> 'r \<times> process_system" where
  "sy_on_processes f w = (case f (sy_processes w) of (r, s) \<Rightarrow> (r, w\<lparr>sy_processes := s\<rparr>))"

definition sy_on_results :: "(result_map \<Rightarrow> 'r \<times> result_map) \<Rightarrow> process_system \<Rightarrow> 'r \<times> process_system" where
  "sy_on_results f w = (case f (sy_results w) of (r, s) \<Rightarrow> (r, w\<lparr>sy_results := s\<rparr>))"

definition system_processes :: "process_system process_store" where
  "system_processes = \<lparr>prs_start = (\<lambda>t. sy_on_processes (process_start_record t)),
     prs_complete = (\<lambda>s i. sy_on_processes (process_complete s i)),
     prs_fail = (\<lambda>s i k. sy_on_processes (process_fail s i k)),
     prs_kill = (\<lambda>s i. sy_on_processes (process_kill s i)),
     prs_get = (\<lambda>s i. sy_on_processes (process_get s i)),
     prs_records_for_scope = (\<lambda>s. sy_on_processes (process_records_for_scope s))\<rparr>"

definition system_results :: "process_system process_result_store" where
  "system_results = \<lparr>prr_complete = (\<lambda>s i out. sy_on_results (result_complete s i out)),
     prr_fail = (\<lambda>s i k. sy_on_results (result_fail s i k)),
     prr_kill = (\<lambda>s i. sy_on_results (result_kill s i)),
     prr_get = (\<lambda>s i. sy_on_results (result_get s i))\<rparr>"

definition system_registry :: "(process_system, cancellation_registry) cell" where
  "system_registry = \<lparr>cl_get = sy_registry, cl_set = (\<lambda>m. sy_registry_update (\<lambda>_. m))\<rparr>"

definition system_services :: "process_system process_services" where
  "system_services = \<lparr>sv_process_store = system_processes, sv_result_store = system_results,
     sv_cancellation_registry = system_registry\<rparr>"

definition system_host :: "process_system process_host" where
  "system_host = services_host system_services"

text \<open>The manager, with an error handler that keeps what is reported to it.\<close>

definition system_manager :: "process_system background_manager" where
  "system_manager = (services_background_manager system_services)
     \<lparr>bm_error_handler := Some (\<lambda>f w. w\<lparr>sy_failures := sy_failures w @ [f]\<rparr>)\<rparr>"

definition empty_system :: process_system where
  "empty_system = \<lparr>sy_processes = [], sy_results = [], sy_registry = registry_empty,
     sy_failures = [], sy_agents = []\<rparr>"

fun agent_busy :: "agent \<Rightarrow> bool" where
  "agent_busy (BackgroundTask _ _ Finished) \<longleftrightarrow> False"
| "agent_busy (KillCall _ _ (KillDone _)) \<longleftrightarrow> False"
| "agent_busy _ \<longleftrightarrow> True"

fun agent_act :: "execution_outcome \<Rightarrow> agent \<Rightarrow> process_system \<Rightarrow> agent \<times> process_system" where
  "agent_act out (BackgroundTask scope pid st) w =
     apfst (BackgroundTask scope pid) (task_step system_manager out scope pid st w)"
| "agent_act out (KillCall scope pid st) w =
     apfst (KillCall scope pid) (kill_step system_host scope pid st w)"

text \<open>The step of agent \<open>i\<close>, as a function.\<close>

definition step_agent :: "execution_outcome \<Rightarrow> nat \<Rightarrow> process_system \<Rightarrow> process_system" where
  "step_agent out i w = (case agent_act out (sy_agents w ! i) w of
     (a, w) \<Rightarrow> w\<lparr>sy_agents := (sy_agents w)[i := a]\<rparr>)"

inductive agent_step :: "process_system \<Rightarrow> process_system \<Rightarrow> bool" where
  act: "i < length (sy_agents w) \<Longrightarrow> agent_busy (sy_agents w ! i) \<Longrightarrow>
     agent_step w (step_agent out i w)"

text \<open>The requests: a spawn makes its first store call and leaves an agent, a kill call begins.\<close>

definition request_spawn :: "process_start \<Rightarrow> process_system \<Rightarrow> process_system" where
  "request_spawn t w = (case spawn_record system_manager t w of
     (Inr (record, st), w) \<Rightarrow> w\<lparr>sy_agents := sy_agents w @
        [BackgroundTask (pr_scope record) (pr_process_id record) st]\<rparr>
   | (Inl _, w) \<Rightarrow> w)"

definition request_kill :: "resource_scope \<Rightarrow> process_id \<Rightarrow> process_system \<Rightarrow> process_system" where
  "request_kill scope pid w = w\<lparr>sy_agents := sy_agents w @ [KillCall scope pid KillTransition]\<rparr>"

inductive system_step :: "process_system \<Rightarrow> process_system \<Rightarrow> bool" where
  spawn: "system_step w (request_spawn t w)"
| kill: "system_step w (request_kill scope pid w)"
| agent: "agent_step w w' \<Longrightarrow> system_step w w'"

inductive reachable :: "process_system \<Rightarrow> bool" where
  empty: "reachable empty_system"
| step: "reachable w \<Longrightarrow> system_step w w' \<Longrightarrow> reachable w'"

inductive_cases agent_stepE: "agent_step w w'"

subsection \<open>The services on the system\<close>

abbreviation sy_records :: "process_system \<Rightarrow> process_key \<rightharpoonup> process_record" where
  "sy_records w \<equiv> \<lambda>k. hm_get k (sy_processes w)"

abbreviation sy_outcomes :: "process_system \<Rightarrow> process_key \<rightharpoonup> process_result_record" where
  "sy_outcomes w \<equiv> \<lambda>k. hm_get k (sy_results w)"

abbreviation sy_tokens :: "process_system \<Rightarrow> process_key \<rightharpoonup> cancellation_token" where
  "sy_tokens w \<equiv> \<lambda>k. hm_get k (cr_tokens (sy_registry w))"

lemma system_process_sel:
  "prs_start system_processes t = sy_on_processes (process_start_record t)"
  "prs_get system_processes s i = sy_on_processes (process_get s i)"
  "prs_end system_processes c s i =
     sy_on_processes (process_update_status s i (ending_status c) (ending_error c))"
  by (simp_all add: system_processes_def)
    (cases c; simp add: process_complete_def process_fail_def process_kill_def)

lemma sy_on_processes_simps [simp]:
  "fst (sy_on_processes f w) = fst (f (sy_processes w))"
  "sy_processes (snd (sy_on_processes f w)) = snd (f (sy_processes w))"
  by (simp_all add: sy_on_processes_def split: prod.split)

lemma sy_on_results_simps [simp]:
  "fst (sy_on_results f w) = fst (f (sy_results w))"
  "sy_results (snd (sy_on_results f w)) = snd (f (sy_results w))"
  by (simp_all add: sy_on_results_def split: prod.split)

interpretation sys: process_contract system_processes sy_records
  by (unfold_locales; unfold system_process_sel sy_on_processes_simps)
    (auto simp: process_store_defs fun_eq_iff split: option.splits)

interpretation sys_results: result_contract system_results sy_outcomes
  by unfold_locales (auto simp: system_results_def result_store_defs Let_def fun_eq_iff)

subsection \<open>The steps computed\<close>

definition outcome_ending :: "execution_outcome \<Rightarrow> process_ending" where
  "outcome_ending out = (case out of ExecOk _ \<Rightarrow> EndComplete | _ \<Rightarrow> EndFail (failure_kind_of out))"

definition outcome_result ::
    "resource_scope \<Rightarrow> process_id \<Rightarrow> execution_outcome \<Rightarrow> process_result_record" where
  "outcome_result s i out = (case out of
     ExecOk v \<Rightarrow> completed_result s i v | _ \<Rightarrow> failed_result s i (failure_kind_of out))"

definition is_running :: "process_record option \<Rightarrow> bool" where
  "is_running r \<longleftrightarrow> (\<exists>x. r = Some x \<and> pr_status x = ProcRunning)"

lemma is_running_simps [simp]:
  "\<not> is_running None" "is_running (Some r) \<longleftrightarrow> pr_status r = ProcRunning"
  by (simp_all add: is_running_def)

lemmas system_service_defs = system_manager_def system_host_def services_host_def
  services_background_manager_def system_services_def background_manager_new_def process_host_new_def

lemma system_sel [simp]:
  "bm_store system_manager = system_processes" "ph_store system_host = system_processes"
  "bm_result_store system_manager = Some system_results"
  "ph_result_store system_host = Some system_results"
  "bm_cancellation_registry system_manager = Some system_registry"
  "ph_cancellation_registry system_host = Some system_registry"
  by (simp_all add: system_service_defs)

text \<open>The views of the state after each stage of a task.\<close>

abbreviation agent_views :: "process_system \<Rightarrow> (process_key \<rightharpoonup> process_record)
    \<times> (process_key \<rightharpoonup> process_result_record) \<times> (process_key \<rightharpoonup> cancellation_token) \<times> agent list" where
  "agent_views w \<equiv> (sy_records w, sy_outcomes w, sy_tokens w, sy_agents w)"

lemma sy_update_views [simp]:
  "sy_results (snd (sy_on_processes f w)) = sy_results w"
  "sy_registry (snd (sy_on_processes f w)) = sy_registry w"
  "sy_agents (snd (sy_on_processes f w)) = sy_agents w"
  "sy_processes (snd (sy_on_results g w)) = sy_processes w"
  "sy_registry (snd (sy_on_results g w)) = sy_registry w"
  "sy_agents (snd (sy_on_results g w)) = sy_agents w"
  by (simp_all add: sy_on_processes_def sy_on_results_def split: prod.split)

lemma report_views [simp]:
  "sy_processes (report system_manager s i st e w) = sy_processes w"
  "sy_results (report system_manager s i st e w) = sy_results w"
  "sy_registry (report system_manager s i st e w) = sy_registry w"
  "sy_agents (report system_manager s i st e w) = sy_agents w"
  by (simp_all add: report_def system_service_defs)

lemma task_register:
  "case task_step system_manager out s i (Registering r v) w of (st, w') \<Rightarrow>
     (\<exists>q. st = Executing q) \<and> (\<exists>token. agent_views w' =
       (sy_records w, sy_outcomes w, (sy_tokens w)(record_key r \<mapsto> token), sy_agents w))"
  by (simp add: register_token_def on_cell_def system_registry_def registry_register_def
      token_new_def fun_eq_iff)

lemma task_probe:
  "task_step system_manager out s i (Probing o') w =
     (if is_running (sy_records w (process_key_new s i)) then Persisting o' else Leaving, w)"
  by (auto simp: probe_status_def system_process_sel(2) process_get_def sy_on_processes_def
      split: option.split)

lemma task_persist:
  "case task_step system_manager out s i (Persisting o') w of (st, w') \<Rightarrow> st = Promoting o'
     \<and> agent_views w' = (sy_records w,
         (sy_outcomes w)(process_key_new s i \<mapsto> outcome_result s i o'), sy_tokens w, sy_agents w)"
  by (cases o') (auto simp: persist_result_def system_results_def sy_on_results_def result_complete_def
      result_fail_def store_result_def outcome_result_def completed_result_def failed_result_def
      Let_def fun_eq_iff)

lemma promote_eq:
  "promote_status system_manager s i o' w =
     (case prs_end system_processes (outcome_ending o') s i w of
        (Inr _, w) \<Rightarrow> w
      | (Inl e, w) \<Rightarrow> report system_manager s i
          (case o' of ExecOk _ \<Rightarrow> StoreComplete | _ \<Rightarrow> StoreFail) e w)"
  by (cases o') (auto simp: promote_status_def outcome_ending_def split: prod.split sum.split)

lemma end_views:
  "agent_views (snd (prs_end system_processes c s i w)) =
     (if is_running (sy_records w (process_key_new s i))
      then ((sy_records w)(process_key_new s i \<mapsto> ended c (the (sy_records w (process_key_new s i)))),
        sy_outcomes w, sy_tokens w, sy_agents w)
      else agent_views w)"
  using sys.end_state [of c s i w] by (auto simp: system_process_sel split: option.splits)

lemma task_promote:
  "case task_step system_manager out s i (Promoting o') w of (st, w') \<Rightarrow> st = Leaving
     \<and> agent_views w' = agent_views (snd (prs_end system_processes (outcome_ending o') s i w))"
  by (simp add: promote_eq split: prod.split sum.split)

lemma task_leave:
  "case task_step system_manager out s i Leaving w of (st, w') \<Rightarrow> st = Finished
     \<and> agent_views w' =
         (sy_records w, sy_outcomes w, (sy_tokens w)(process_key_new s i := None), sy_agents w)"
  by (simp add: unregister_token_def system_registry_def registry_unregister_def fun_eq_iff)

text \<open>And after each stage of a kill.\<close>

lemma kill_transition:
  "case kill_step system_host s i KillTransition w of (st, w') \<Rightarrow>
     st = (case fst (prs_end system_processes EndKill s i w) of
         Inr r \<Rightarrow> KillCancel r (Inr r) | Inl e \<Rightarrow> KillRecheck e)
     \<and> agent_views w' = agent_views (snd (prs_end system_processes EndKill s i w))"
  by (auto split: prod.splits sum.splits)

lemma kill_recheck:
  "kill_step system_host s i (KillRecheck e) w =
     (case found_killed (Inr (sy_records w (process_key_new s i))) of
        Some r \<Rightarrow> KillCancel r (if is_invalid_transition e then Inr r else Inl e)
      | None \<Rightarrow> KillDone (Inl e), w)"
  by (simp add: system_process_sel(2) process_get_def sy_on_processes_def split: option.split)

lemma kill_cancel:
  "case kill_step system_host s i (KillCancel r reply) w of (st, w') \<Rightarrow> st = KillRecord r reply
     \<and> agent_views w' =
         (sy_records w, sy_outcomes w, (sy_tokens w)(record_key r := None), sy_agents w)"
  by (auto simp: cancel_if_registered_def on_cell_def system_registry_def registry_cancel_def
      token_cancel_def fun_eq_iff Let_def split: option.split)

lemma kill_record:
  "case kill_step system_host s i (KillRecord r reply) w of (st, w') \<Rightarrow> st = KillDone reply
     \<and> agent_views w' = (sy_records w, (sy_outcomes w)(record_key r \<mapsto>
         kill_result (pr_scope r) (pr_process_id r)), sy_tokens w, sy_agents w)"
  by (simp add: record_kill_result_def bind_op_def return_op_def system_results_def sy_on_results_def
      result_kill_def store_result_def kill_result_def Let_def fun_eq_iff)

end
