(* ===== verification/ProcessSupervision.thy ===== *)
theory ProcessSupervision
  imports ProcessSystem
begin

section \<open>What supervision guarantees\<close>

text \<open>
  The invariant of the supervised system: how records, results, tokens and the stages of the
  tasks and kill calls agree, and the properties that follow from it.
\<close>

subsection \<open>The invariant\<close>

fun task_key :: "agent \<Rightarrow> process_key option" where
  "task_key (BackgroundTask s i _) = Some (process_key_new s i)"
| "task_key (KillCall _ _ _) = None"

fun kill_pending :: "process_key \<Rightarrow> agent \<Rightarrow> bool" where
  "kill_pending k (KillCall _ _ (KillCancel r _)) \<longleftrightarrow> record_key r = k"
| "kill_pending k (KillCall _ _ (KillRecord r _)) \<longleftrightarrow> record_key r = k"
| "kill_pending k _ \<longleftrightarrow> False"

fun token_holder :: "process_key \<Rightarrow> agent \<Rightarrow> bool" where
  "token_holder k (BackgroundTask s i st) \<longleftrightarrow> process_key_new s i = k \<and> st \<noteq> Finished"
| "token_holder k (KillCall _ _ _) \<longleftrightarrow> False"

definition alive :: "process_record \<Rightarrow> bool" where
  "alive r \<longleftrightarrow> pr_status r = ProcRunning \<or> pr_status r = ProcKilled"

fun task_ok :: "process_record \<Rightarrow> process_result_record option \<Rightarrow> task_stage \<Rightarrow> bool" where
  "task_ok r out (Registering r' v) \<longleftrightarrow> alive r \<and> record_key r' = record_key r"
| "task_ok r out (Promoting o') \<longleftrightarrow> alive r \<and>
     (pr_status r = ProcRunning \<longrightarrow> out = Some (outcome_result (pr_scope r) (pr_process_id r) o'))"
| "task_ok r out Leaving \<longleftrightarrow> pr_status r \<noteq> ProcRunning"
| "task_ok r out Finished \<longleftrightarrow> pr_status r \<noteq> ProcRunning"
| "task_ok r out _ \<longleftrightarrow> alive r"

fun agent_ok :: "(process_key \<rightharpoonup> process_record) \<Rightarrow> (process_key \<rightharpoonup> process_result_record)
    \<Rightarrow> agent \<Rightarrow> bool" where
  "agent_ok recs outs (BackgroundTask s i st) \<longleftrightarrow> (\<exists>r. recs (process_key_new s i) = Some r
     \<and> pr_scope r = s \<and> pr_process_id r = i \<and> task_ok r (outs (process_key_new s i)) st)"
| "agent_ok recs outs (KillCall s i st) \<longleftrightarrow> (\<forall>k. kill_pending k (KillCall s i st) \<longrightarrow>
     (\<exists>r. recs k = Some r \<and> pr_status r = ProcKilled))"

definition result_ok :: "process_record \<Rightarrow> process_result_record option \<Rightarrow> bool \<Rightarrow> bool" where
  "result_ok r out pending \<longleftrightarrow> (case pr_status r of
     ProcRunning \<Rightarrow> True
   | ProcCompleted \<Rightarrow> \<exists>v. out = Some (completed_result (pr_scope r) (pr_process_id r) v)
   | ProcFailed \<Rightarrow> \<exists>e. pr_error_kind r = Some e
       \<and> out = Some (failed_result (pr_scope r) (pr_process_id r) e)
   | ProcKilled \<Rightarrow> out \<noteq> None \<or> pending)"

definition some_agent :: "(agent \<Rightarrow> bool) \<Rightarrow> agent list \<Rightarrow> bool" where
  "some_agent p ag \<longleftrightarrow> (\<exists>j < length ag. p (ag ! j))"

definition system_ok :: "(process_key \<rightharpoonup> process_record) \<Rightarrow> (process_key \<rightharpoonup> process_result_record)
    \<Rightarrow> (process_key \<rightharpoonup> cancellation_token) \<Rightarrow> agent list \<Rightarrow> bool" where
  "system_ok recs outs tok ag \<longleftrightarrow>
     (\<forall>j < length ag. agent_ok recs outs (ag ! j))
   \<and> (\<forall>j < length ag. \<forall>l < length ag. task_key (ag ! j) = task_key (ag ! l) \<longrightarrow>
        task_key (ag ! j) \<noteq> None \<longrightarrow> j = l)
   \<and> (\<forall>k r. recs k = Some r \<longrightarrow> k = record_key r \<and> some_agent (\<lambda>a. task_key a = Some k) ag
        \<and> result_ok r (outs k) (some_agent (kill_pending k) ag))
   \<and> (\<forall>k. tok k \<noteq> None \<longrightarrow> some_agent (token_holder k) ag)"

lemma system_okI:
  assumes "\<And>j. j < length ag \<Longrightarrow> agent_ok recs outs (ag ! j)"
    and "\<And>j l. j < length ag \<Longrightarrow> l < length ag \<Longrightarrow> task_key (ag ! j) = task_key (ag ! l) \<Longrightarrow>
      task_key (ag ! j) \<noteq> None \<Longrightarrow> j = l"
    and "\<And>k r. recs k = Some r \<Longrightarrow> k = record_key r \<and> some_agent (\<lambda>a. task_key a = Some k) ag
        \<and> result_ok r (outs k) (some_agent (kill_pending k) ag)"
    and "\<And>k. tok k \<noteq> None \<Longrightarrow> some_agent (token_holder k) ag"
  shows "system_ok recs outs tok ag"
  unfolding system_ok_def using assms by blast

lemma system_ok_agent: "system_ok recs outs tok ag \<Longrightarrow> j < length ag \<Longrightarrow> agent_ok recs outs (ag ! j)"
  by (simp add: system_ok_def)

lemma system_ok_unique:
  "system_ok recs outs tok ag \<Longrightarrow> j < length ag \<Longrightarrow> l < length ag \<Longrightarrow>
     task_key (ag ! j) = task_key (ag ! l) \<Longrightarrow> task_key (ag ! j) \<noteq> None \<Longrightarrow> j = l"
  by (simp add: system_ok_def)

lemma system_ok_record:
  assumes "system_ok recs outs tok ag" and "recs k = Some r"
  shows "k = record_key r" and "some_agent (\<lambda>a. task_key a = Some k) ag"
    and "result_ok r (outs k) (some_agent (kill_pending k) ag)"
proof -
  have "\<forall>k r. recs k = Some r \<longrightarrow> k = record_key r \<and> some_agent (\<lambda>a. task_key a = Some k) ag
      \<and> result_ok r (outs k) (some_agent (kill_pending k) ag)"
    using assms(1) unfolding system_ok_def by (elim conjE)
  note facts = this [rule_format, OF assms(2)]
  show "k = record_key r" "some_agent (\<lambda>a. task_key a = Some k) ag"
    "result_ok r (outs k) (some_agent (kill_pending k) ag)"
    by (rule facts [THEN conjunct1], rule facts [THEN conjunct2, THEN conjunct1],
      rule facts [THEN conjunct2, THEN conjunct2])
qed

lemma system_ok_token:
  assumes "system_ok recs outs tok ag" and "tok k \<noteq> None"
  shows "some_agent (token_holder k) ag"
proof -
  have "\<forall>k. tok k \<noteq> None \<longrightarrow> some_agent (token_holder k) ag"
    using assms(1) unfolding system_ok_def by (elim conjE)
  then show ?thesis using assms(2) by simp
qed

lemma some_agent_iff: "some_agent p ag \<longleftrightarrow> (\<exists>a \<in> set ag. p a)"
  unfolding some_agent_def by (metis in_set_conv_nth)

lemma some_agent_update:
  assumes "i < length ag"
  shows "some_agent p (ag[i := a]) \<longleftrightarrow> p a \<or> (\<exists>j < length ag. j \<noteq> i \<and> p (ag ! j))"
proof -
  have "ag[i := a] ! j = (if j = i then a else ag ! j)" if "j < length ag" for j
    using that by (cases "j = i") simp_all
  then show ?thesis using assms unfolding some_agent_def by (metis length_list_update)
qed

lemma some_agent_mono:
  assumes "some_agent p ag" and "i < length ag" and "p (ag ! i) \<Longrightarrow> p a"
  shows "some_agent p (ag[i := a])"
proof -
  obtain j where j: "j < length ag" "p (ag ! j)" using assms(1) by (auto simp: some_agent_def)
  show ?thesis
  proof (cases "j = i")
    case True
    then have "p a" using assms(3) j(2) by simp
    then show ?thesis by (simp add: some_agent_update [OF assms(2)])
  next
    case False
    then show ?thesis using j unfolding some_agent_update [OF assms(2)] by blast
  qed
qed

lemma some_agent_append [simp]: "some_agent p (ag @ [a]) \<longleftrightarrow> some_agent p ag \<or> p a"
  by (auto simp: some_agent_iff)

lemma result_ok_mono: "result_ok r out pending \<Longrightarrow> (pending \<Longrightarrow> pending') \<Longrightarrow> result_ok r out pending'"
  by (auto simp: result_ok_def split: process_status.splits)

text \<open>What the changes of records and results do to the other agents.\<close>

lemma agent_ok_outs:
  assumes "agent_ok recs outs b" and "task_key b \<noteq> Some k \<or> \<not> is_running (recs k)"
  shows "agent_ok recs (outs(k \<mapsto> x)) b"
proof (cases b)
  case (BackgroundTask s i st)
  then show ?thesis using assms by (cases st) (auto simp: is_running_def)
qed (use assms in simp)

lemma agent_ok_ended:
  assumes "agent_ok recs outs b" and r: "recs k = Some r" "pr_status r = ProcRunning"
    and "task_key b \<noteq> Some k \<or> c = EndKill"
  shows "agent_ok (recs(k \<mapsto> ended c r)) outs b"
proof (cases b)
  case (BackgroundTask s i st)
  then show ?thesis using assms by (cases st) (auto simp: alive_def)
next
  case (KillCall s i st)
  then show ?thesis using assms by (cases st) auto
qed

lemma agent_ok_spawned:
  assumes "agent_ok recs outs b" and "recs k = None"
  shows "agent_ok (recs(k \<mapsto> r)) outs b"
proof (cases b)
  case (BackgroundTask s i st)
  then show ?thesis using assms by auto
next
  case (KillCall s i st)
  then show ?thesis using assms by (cases st) auto
qed

text \<open>A step of one agent that keeps its identity.\<close>

lemma system_ok_step:
  assumes inv: "system_ok recs outs tok ag" and i: "i < length ag"
    and key: "task_key a = task_key (ag ! i)"
    and self: "agent_ok recs' outs' a"
    and others: "\<And>j. j < length ag \<Longrightarrow> j \<noteq> i \<Longrightarrow> agent_ok recs' outs' (ag ! j)"
    and records: "\<And>k r. recs' k = Some r \<Longrightarrow> \<exists>r0. recs k = Some r0 \<and> record_key r = record_key r0"
    and results: "\<And>k r. recs' k = Some r \<Longrightarrow> result_ok r (outs' k) (some_agent (kill_pending k) (ag[i := a]))"
    and tokens: "\<And>k. tok' k \<noteq> None \<Longrightarrow> some_agent (token_holder k) (ag[i := a])"
  shows "system_ok recs' outs' tok' (ag[i := a])"
proof (rule system_okI)
  have keys: "task_key (ag[i := a] ! j) = task_key (ag ! j)" if "j < length ag" for j
    using that key by (cases "j = i") simp_all
  show "agent_ok recs' outs' (ag[i := a] ! j)" if "j < length (ag[i := a])" for j
    using that self others by (cases "j = i") simp_all
  show "j = l" if "j < length (ag[i := a])" "l < length (ag[i := a])"
      "task_key (ag[i := a] ! j) = task_key (ag[i := a] ! l)" "task_key (ag[i := a] ! j) \<noteq> None" for j l
    using system_ok_unique [OF inv, of j l] that keys by simp
  show "k = record_key r \<and> some_agent (\<lambda>a. task_key a = Some k) (ag[i := a])
      \<and> result_ok r (outs' k) (some_agent (kill_pending k) (ag[i := a]))" if r: "recs' k = Some r" for k r
  proof -
    obtain r0 where "recs k = Some r0" "record_key r = record_key r0" using records [OF r] by blast
    then show ?thesis
      using system_ok_record(1,2) [OF inv, of k r0] results [OF r]
        some_agent_mono [of "\<lambda>a. task_key a = Some k" ag i a] i key by simp
  qed
qed (rule tokens)

text \<open>A step that only moves the agent on.\<close>

lemma system_ok_quiet:
  assumes inv: "system_ok recs outs tok ag" and i: "i < length ag"
    and key: "task_key a = task_key (ag ! i)" and self: "agent_ok recs outs a"
    and pending: "\<And>k. kill_pending k (ag ! i) \<Longrightarrow> kill_pending k a"
    and tokens: "\<And>k. tok' k \<noteq> None \<Longrightarrow> some_agent (token_holder k) (ag[i := a])"
  shows "system_ok recs outs tok' (ag[i := a])"
  using inv i key self
proof (rule system_ok_step)
  show "agent_ok recs outs (ag ! j)" if "j < length ag" for j
    using system_ok_agent [OF inv that] .
  show "result_ok r (outs k) (some_agent (kill_pending k) (ag[i := a]))" if "recs k = Some r" for k r
    using system_ok_record(3) [OF inv that] pending i by (blast intro: result_ok_mono some_agent_mono)
qed (use tokens in auto)

subsection \<open>Every stage keeps it\<close>

abbreviation sys_inv :: "process_system \<Rightarrow> bool" where
  "sys_inv w \<equiv> system_ok (sy_records w) (sy_outcomes w) (sy_tokens w) (sy_agents w)"

lemma step_agent_inv:
  assumes "case agent_act out (sy_agents w ! n) w of (a, w') \<Rightarrow> a = b
      \<and> agent_views w' = (recs, outs, tok, sy_agents w)"
    and "system_ok recs outs tok ((sy_agents w)[n := b])"
  shows "sys_inv (step_agent out n w)"
  using assms by (simp add: step_agent_def split: prod.splits)

lemma tokens_kept:
  assumes "system_ok recs outs tok ag" and "n < length ag" and "tok k \<noteq> None"
    and "token_holder k (ag ! n) \<Longrightarrow> token_holder k a"
  shows "some_agent (token_holder k) (ag[n := a])"
  using some_agent_mono [OF system_ok_token [OF assms(1,3)] assms(2)] assms(4) by blast

text \<open>A result written for a process that runs or was killed.\<close>

lemma system_ok_result:
  assumes inv: "system_ok recs outs tok ag" and n: "n < length ag"
    and key: "task_key a = task_key (ag ! n)" and r: "recs k = Some r" "alive r"
    and self: "agent_ok recs (outs(k \<mapsto> x)) a"
    and sole: "task_key (ag ! n) = Some k \<or> \<not> is_running (recs k)"
    and pending: "\<And>l. l \<noteq> k \<Longrightarrow> kill_pending l (ag ! n) \<Longrightarrow> kill_pending l a"
    and holds: "\<And>l. token_holder l (ag ! n) \<Longrightarrow> token_holder l a"
  shows "system_ok recs (outs(k \<mapsto> x)) tok (ag[n := a])"
  using inv n key self
proof (rule system_ok_step)
  show "agent_ok recs (outs(k \<mapsto> x)) (ag ! j)" if "j < length ag" "j \<noteq> n" for j
    using system_ok_agent [OF inv that(1)] system_ok_unique [OF inv that(1) n] that(2) sole
    by (intro agent_ok_outs) auto
  show "result_ok s ((outs(k \<mapsto> x)) l) (some_agent (kill_pending l) (ag[n := a]))"
    if s: "recs l = Some s" for l s
  proof (cases "l = k")
    case True
    then show ?thesis using s r by (auto simp: result_ok_def alive_def split: process_status.split)
  next
    case False
    then show ?thesis
      using system_ok_record(3) [OF inv s] some_agent_mono [of "kill_pending l" ag n a] n pending
      by (auto intro: result_ok_mono)
  qed
  show "some_agent (token_holder l) (ag[n := a])" if "tok l \<noteq> None" for l
    using inv n that holds by (rule tokens_kept)
qed auto

text \<open>A running process that ends.\<close>

lemma system_ok_end:
  assumes inv: "system_ok recs outs tok ag" and n: "n < length ag"
    and key: "task_key a = task_key (ag ! n)" and r: "recs k = Some r" "pr_status r = ProcRunning"
    and self: "agent_ok (recs(k \<mapsto> ended c r)) outs a"
    and sole: "task_key (ag ! n) = Some k \<or> c = EndKill"
    and res: "result_ok (ended c r) (outs k) (kill_pending k a)"
    and pending: "\<And>l. \<not> kill_pending l (ag ! n)"
    and holds: "\<And>l. token_holder l (ag ! n) \<Longrightarrow> token_holder l a"
  shows "system_ok (recs(k \<mapsto> ended c r)) outs tok (ag[n := a])"
  using inv n key self
proof (rule system_ok_step)
  show "agent_ok (recs(k \<mapsto> ended c r)) outs (ag ! j)" if "j < length ag" "j \<noteq> n" for j
  proof -
    have "task_key (ag ! j) \<noteq> Some k \<or> c = EndKill"
      using system_ok_unique [OF inv that(1) n] that(2) sole by auto
    then show ?thesis by (rule agent_ok_ended [OF system_ok_agent [OF inv that(1)] r(1,2)])
  qed
  show "\<exists>r0. recs l = Some r0 \<and> record_key s = record_key r0"
    if "(recs(k \<mapsto> ended c r)) l = Some s" for l s
    using that r by (auto split: if_splits)
  show "result_ok s (outs l) (some_agent (kill_pending l) (ag[n := a]))"
    if s: "(recs(k \<mapsto> ended c r)) l = Some s" for l s
  proof (cases "l = k")
    case True
    then show ?thesis using s res n by (auto intro: result_ok_mono simp: some_agent_update)
  next
    case False
    then show ?thesis
      using system_ok_record(3) [OF inv, of l s] some_agent_mono [of "kill_pending l" ag n a] n pending s
      by (auto intro: result_ok_mono)
  qed
  show "some_agent (token_holder l) (ag[n := a])" if "tok l \<noteq> None" for l
    using inv n that holds by (rule tokens_kept)
qed

lemma task_stage_inv:
  assumes inv: "sys_inv w" and n: "n < length (sy_agents w)"
    and a: "sy_agents w ! n = BackgroundTask s i st"
  shows "sys_inv (step_agent out n w)"
proof -
  let ?k = "process_key_new s i"
  obtain r where r: "sy_records w ?k = Some r" "pr_scope r = s" "pr_process_id r = i"
    and ok: "task_ok r (sy_outcomes w ?k) st"
    using system_ok_agent [OF inv n] unfolding a by auto
  note quiet = system_ok_quiet [OF inv n, unfolded a]
  note kept = tokens_kept [OF inv n, unfolded a]
  show ?thesis
  proof (cases st)
    case (Registering r' v)
    obtain q token where act: "case agent_act out (sy_agents w ! n) w of (b, w') \<Rightarrow>
        b = BackgroundTask s i (Executing q) \<and> agent_views w' =
          (sy_records w, sy_outcomes w, (sy_tokens w)(?k \<mapsto> token), sy_agents w)"
      using task_register [where out = out and s = s and i = i and r = r' and v = v and w = w] ok r unfolding a Registering
      by (auto split: prod.splits)
    show ?thesis
    proof (rule step_agent_inv [OF act], rule quiet)
      show "some_agent (token_holder l) ((sy_agents w)[n := BackgroundTask s i (Executing q)])"
        if "((sy_tokens w)(?k \<mapsto> token)) l \<noteq> None" for l
        using that n kept [of l "BackgroundTask s i (Executing q)"] by (cases "l = ?k") (auto simp: some_agent_update)
    qed (use r ok Registering in simp_all)
  next
    case (Executing q)
    have act: "case agent_act out (sy_agents w ! n) w of (b, w') \<Rightarrow>
        b = BackgroundTask s i (Probing out) \<and> agent_views w' = agent_views w"
      unfolding a Executing by simp
    show ?thesis
      by (rule step_agent_inv [OF act], rule quiet) (use r ok Executing kept in simp_all)
  next
    case (Probing o')
    let ?b = "BackgroundTask s i (if is_running (sy_records w ?k) then Persisting o' else Leaving)"
    have act: "case agent_act out (sy_agents w ! n) w of (b, w') \<Rightarrow>
        b = ?b \<and> agent_views w' = agent_views w"
      unfolding a Probing agent_act.simps task_probe by simp
    show ?thesis
      by (rule step_agent_inv [OF act], rule quiet) (use r ok Probing kept in simp_all)
  next
    case (Persisting o')
    have act: "case agent_act out (sy_agents w ! n) w of (b, w') \<Rightarrow>
        b = BackgroundTask s i (Promoting o') \<and> agent_views w' = (sy_records w,
          (sy_outcomes w)(?k \<mapsto> outcome_result s i o'), sy_tokens w, sy_agents w)"
      using task_persist [where out = out and s = s and i = i and o' = o' and w = w] unfolding a Persisting 
      by (cases "task_step system_manager out s i (Persisting o') w") (simp del: task_step.simps)
    show ?thesis
      by (rule step_agent_inv [OF act], rule system_ok_result [OF inv n, where r = r])
        (use r ok Persisting a in simp_all)
  next
    case (Promoting o')
    have act: "case agent_act out (sy_agents w ! n) w of (b, w') \<Rightarrow>
        b = BackgroundTask s i Leaving
        \<and> agent_views w' = agent_views (snd (prs_end system_processes (outcome_ending o') s i w))"
      using task_promote [where out = out and s = s and i = i and o' = o' and w = w] unfolding a Promoting 
      by (cases "task_step system_manager out s i (Promoting o') w") (simp del: task_step.simps)
    show ?thesis
    proof (cases "pr_status r = ProcRunning")
      case True
      have views: "agent_views (snd (prs_end system_processes (outcome_ending o') s i w)) =
          ((sy_records w)(?k \<mapsto> ended (outcome_ending o') r), sy_outcomes w, sy_tokens w, sy_agents w)"
        using True r unfolding end_views by simp
      have "result_ok (ended (outcome_ending o') r) (sy_outcomes w ?k) False"
        using ok True unfolding Promoting
        by (cases o') (auto simp: result_ok_def outcome_ending_def outcome_result_def)
      then show ?thesis
        by (intro step_agent_inv [OF act [unfolded views]] system_ok_end [OF inv n])
          (use r ok Promoting a True in simp_all)
    next
      case False
      have views: "agent_views (snd (prs_end system_processes (outcome_ending o') s i w)) =
          agent_views w"
        using False r unfolding end_views by simp
      show ?thesis
        by (rule step_agent_inv [OF act [unfolded views]], rule quiet)
          (use r ok Promoting False kept in simp_all)
    qed
  next
    case Leaving
    have act: "case agent_act out (sy_agents w ! n) w of (b, w') \<Rightarrow>
        b = BackgroundTask s i Finished \<and> agent_views w' =
          (sy_records w, sy_outcomes w, (sy_tokens w)(?k := None), sy_agents w)"
      using task_leave [where out = out and s = s and i = i and w = w] unfolding a Leaving 
      by (cases "task_step system_manager out s i Leaving w") (simp del: task_step.simps)
    show ?thesis
      by (rule step_agent_inv [OF act], rule quiet)
        (use r ok Leaving kept in \<open>auto split: if_splits\<close>)
  next
    case Finished
    have act: "case agent_act out (sy_agents w ! n) w of (b, w') \<Rightarrow>
        b = BackgroundTask s i Finished \<and> agent_views w' = agent_views w"
      unfolding a Finished by simp
    show ?thesis
      by (rule step_agent_inv [OF act], rule quiet) (use r ok Finished kept in simp_all)
  qed
qed

lemma kill_pending_key:
  assumes "agent_ok recs outs (KillCall s i st)" and "kill_pending k (KillCall s i st)"
  obtains r where "recs k = Some r" "pr_status r = ProcKilled"
  using assms by auto

lemma kill_stage_inv:
  assumes inv: "sys_inv w" and n: "n < length (sy_agents w)"
    and a: "sy_agents w ! n = KillCall s i st"
  shows "sys_inv (step_agent out n w)"
proof -
  let ?k = "process_key_new s i"
  note ok = system_ok_agent [OF inv n, unfolded a]
  note quiet = system_ok_quiet [OF inv n, unfolded a]
  note kept = tokens_kept [OF inv n, unfolded a]
  show ?thesis
  proof (cases st)
    case KillTransition
    have act: "case agent_act out (sy_agents w ! n) w of (b, w') \<Rightarrow>
        b = KillCall s i (case fst (prs_end system_processes EndKill s i w) of
          Inr r \<Rightarrow> KillCancel r (Inr r) | Inl e \<Rightarrow> KillRecheck e)
        \<and> agent_views w' = agent_views (snd (prs_end system_processes EndKill s i w))"
      using kill_transition [where s = s and i = i and w = w] unfolding a KillTransition
      by (cases "kill_step system_host s i KillTransition w") (simp del: kill_step.simps)
    show ?thesis
    proof (cases "is_running (sy_records w ?k)")
      case True
      then obtain r where r: "sy_records w ?k = Some r" "pr_status r = ProcRunning"
        by (auto simp: is_running_def)
      have key: "record_key r = ?k" using system_ok_record(1) [OF inv r(1)] by simp
      have reply: "fst (prs_end system_processes EndKill s i w) = Inr (ended EndKill r)"
        using sys.end_reply [of EndKill s i w] r by simp
      have views: "agent_views (snd (prs_end system_processes EndKill s i w)) =
          ((sy_records w)(?k \<mapsto> ended EndKill r), sy_outcomes w, sy_tokens w, sy_agents w)"
        using True r unfolding end_views by simp
      show ?thesis
        by (rule step_agent_inv [OF act [unfolded views reply]], rule system_ok_end [OF inv n])
          (use r key KillTransition a in \<open>simp_all add: result_ok_def\<close>)
    next
      case False
      have views: "agent_views (snd (prs_end system_processes EndKill s i w)) = agent_views w"
        using False unfolding end_views by simp
      obtain e where reply: "fst (prs_end system_processes EndKill s i w) = Inl e"
        using sys.end_reply [of EndKill s i w] False by (auto split: option.splits)
      show ?thesis
        by (rule step_agent_inv [OF act [unfolded views reply]], rule quiet)
          (use KillTransition kept in simp_all)
    qed
  next
    case (KillRecheck e)
    let ?b = "KillCall s i (case found_killed (Inr (sy_records w ?k)) of
        Some r \<Rightarrow> KillCancel r (if is_invalid_transition e then Inr r else Inl e)
      | None \<Rightarrow> KillDone (Inl e))"
    have act: "case agent_act out (sy_agents w ! n) w of (b, w') \<Rightarrow>
        b = ?b \<and> agent_views w' = agent_views w"
      unfolding a KillRecheck agent_act.simps kill_recheck by simp
    have found: "sy_records w ?k = Some r \<and> pr_status r = ProcKilled \<and> record_key r = ?k"
      if "found_killed (Inr (sy_records w ?k)) = Some r" for r
      using that system_ok_record(1) [OF inv, of ?k r]
      by (auto simp: found_killed_def split: option.splits if_splits)
    show ?thesis
      by (rule step_agent_inv [OF act], rule quiet)
        (use KillRecheck kept found in \<open>auto split: option.splits\<close>)
  next
    case (KillCancel r reply)
    have act: "case agent_act out (sy_agents w ! n) w of (b, w') \<Rightarrow>
        b = KillCall s i (KillRecord r reply) \<and> agent_views w' =
          (sy_records w, sy_outcomes w, (sy_tokens w)(record_key r := None), sy_agents w)"
      using kill_cancel [where s = s and i = i and w = w and r = r and reply = reply]
      unfolding a KillCancel
      by (cases "kill_step system_host s i (KillCancel r reply) w") (simp del: kill_step.simps)
    show ?thesis
      by (rule step_agent_inv [OF act], rule quiet)
        (use ok KillCancel kept in \<open>auto split: if_splits\<close>)
  next
    case (KillRecord r reply)
    have act: "case agent_act out (sy_agents w ! n) w of (b, w') \<Rightarrow>
        b = KillCall s i (KillDone reply) \<and> agent_views w' = (sy_records w, (sy_outcomes w)
          (record_key r \<mapsto> kill_result (pr_scope r) (pr_process_id r)), sy_tokens w, sy_agents w)"
      using kill_record [where s = s and i = i and w = w and r = r and reply = reply]
      unfolding a KillRecord
      by (cases "kill_step system_host s i (KillRecord r reply) w") (simp del: kill_step.simps)
    obtain p where p: "sy_records w (record_key r) = Some p" "pr_status p = ProcKilled"
      using ok KillRecord by auto
    show ?thesis
      by (rule step_agent_inv [OF act], rule system_ok_result [OF inv n, where r = p])
        (use p KillRecord a in \<open>simp_all add: alive_def\<close>)
  next
    case (KillDone reply)
    have act: "case agent_act out (sy_agents w ! n) w of (b, w') \<Rightarrow>
        b = KillCall s i (KillDone reply) \<and> agent_views w' = agent_views w"
      unfolding a KillDone by simp
    show ?thesis
      by (rule step_agent_inv [OF act], rule quiet) (use KillDone kept in simp_all)
  qed
qed

lemma system_ok_append:
  assumes inv: "system_ok recs outs tok ag" and key: "task_key a = None" and a: "agent_ok recs outs a"
  shows "system_ok recs outs tok (ag @ [a])"
proof (rule system_okI)
  show "j = l" if "j < length (ag @ [a])" "l < length (ag @ [a])"
      "task_key ((ag @ [a]) ! j) = task_key ((ag @ [a]) ! l)" "task_key ((ag @ [a]) ! j) \<noteq> None" for j l
    using that key system_ok_unique [OF inv, of j l] by (auto simp: nth_append split: if_splits)
  show "k = record_key r \<and> some_agent (\<lambda>a. task_key a = Some k) (ag @ [a])
      \<and> result_ok r (outs k) (some_agent (kill_pending k) (ag @ [a]))" if "recs k = Some r" for k r
    using system_ok_record [OF inv that] by (auto intro: result_ok_mono)
qed (use inv a system_ok_agent [OF inv] system_ok_token [OF inv] in
  \<open>auto simp: nth_append less_Suc_eq\<close>)

lemma request_kill_inv: "sys_inv w \<Longrightarrow> sys_inv (request_kill s i w)"
  by (simp add: request_kill_def system_ok_append)

lemma system_ok_spawned:
  assumes inv: "system_ok recs outs tok ag" and fresh: "recs k = None"
    and r: "k = record_key r" "pr_status r = ProcRunning" "task_key a = Some k"
    and a: "agent_ok (recs(k \<mapsto> r)) outs a"
  shows "system_ok (recs(k \<mapsto> r)) outs tok (ag @ [a])"
proof (rule system_okI)
  have no_task: "task_key (ag ! j) \<noteq> Some k" if "j < length ag" for j
    using system_ok_agent [OF inv that] fresh by (cases "ag ! j") auto
  show "agent_ok (recs(k \<mapsto> r)) outs ((ag @ [a]) ! j)" if "j < length (ag @ [a])" for j
    using that a agent_ok_spawned [OF system_ok_agent [OF inv] fresh]
    by (cases "j < length ag") (simp_all add: nth_append less_Suc_eq)
  show "j = l" if "j < length (ag @ [a])" "l < length (ag @ [a])"
      "task_key ((ag @ [a]) ! j) = task_key ((ag @ [a]) ! l)" "task_key ((ag @ [a]) ! j) \<noteq> None" for j l
    using that no_task [of j] no_task [of l] r(3) system_ok_unique [OF inv, of j l]
    by (cases "j < length ag"; cases "l < length ag") (simp_all add: nth_append less_Suc_eq)
  show "l = record_key s \<and> some_agent (\<lambda>a. task_key a = Some l) (ag @ [a])
      \<and> result_ok s (outs l) (some_agent (kill_pending l) (ag @ [a]))"
    if s: "(recs(k \<mapsto> r)) l = Some s" for l s
  proof (cases "l = k")
    case True
    then show ?thesis using s r by (auto simp: result_ok_def)
  next
    case False
    then have old: "recs l = Some s" using s by simp
    then show ?thesis
      using system_ok_record(1,2) [OF inv old] result_ok_mono [OF system_ok_record(3) [OF inv old]]
      by simp
  qed
qed (use system_ok_token [OF inv] in auto)

lemma request_spawn_inv:
  assumes inv: "sys_inv w"
  shows "sys_inv (request_spawn t w)"
proof -
  obtain x w' where start: "prs_start system_processes t w = (x, w')" by fastforce
  have same: "sy_results w' = sy_results w" "sy_registry w' = sy_registry w" "sy_agents w' = sy_agents w"
    using start sy_update_views(1-3) [of "process_start_record t" w] unfolding system_process_sel
    by simp_all
  note reply = sys.start_reply [of t w] sys.start_state [of t w]
  show ?thesis
  proof (cases "sy_records w (start_key t)")
    case None
    have "sys_inv (w'\<lparr>sy_agents := sy_agents w @ [BackgroundTask (ps_scope t) (ps_process_id t)
        (Registering (running_record t) (ps_input t))]\<rparr>)"
      using system_ok_spawned [OF inv None, where r = "running_record t" and a =
          "BackgroundTask (ps_scope t) (ps_process_id t) (Registering (running_record t) (ps_input t))"]
        reply start None same by (simp add: alive_def)
    then show ?thesis
      using reply start None same
      by (simp add: request_spawn_def spawn_record_def bind_op_def return_op_def)
  next
    case (Some r)
    then show ?thesis
      using reply start same inv by (simp add: request_spawn_def spawn_record_def bind_op_def)
  qed
qed

lemma agent_step_inv: "agent_step w w' \<Longrightarrow> sys_inv w \<Longrightarrow> sys_inv w'"
proof (induction rule: agent_step.induct)
  case (act n w out)
  then show ?case
    using task_stage_inv kill_stage_inv by (cases "sy_agents w ! n") blast+
qed

lemma reachable_inv: "reachable w \<Longrightarrow> sys_inv w"
proof (induction rule: reachable.induct)
  case empty
  then show ?case
    by (simp add: system_ok_def empty_system_def registry_empty_def)
next
  case (step w w')
  from step.hyps(2) step.IH show ?case
    by (induction rule: system_step.induct) (auto intro: request_spawn_inv request_kill_inv agent_step_inv)
qed

subsection \<open>Progress\<close>

fun agent_rank :: "agent \<Rightarrow> nat" where
  "agent_rank (BackgroundTask _ _ st) = (case st of Registering _ _ \<Rightarrow> 6 | Executing _ \<Rightarrow> 5
     | Probing _ \<Rightarrow> 4 | Persisting _ \<Rightarrow> 3 | Promoting _ \<Rightarrow> 2 | Leaving \<Rightarrow> 1 | Finished \<Rightarrow> 0)"
| "agent_rank (KillCall _ _ st) = (case st of KillTransition \<Rightarrow> 4 | KillRecheck _ \<Rightarrow> 3
     | KillCancel _ _ \<Rightarrow> 2 | KillRecord _ _ \<Rightarrow> 1 | KillDone _ \<Rightarrow> 0)"

definition system_work :: "process_system \<Rightarrow> nat" where
  "system_work w = sum_list (map agent_rank (sy_agents w))"

lemma end_frame:
  "sy_outcomes (snd (prs_end system_processes c s i w)) = sy_outcomes w"
  "sy_agents (snd (prs_end system_processes c s i w)) = sy_agents w"
  using end_views [of c s i w] by (auto split: if_splits)

lemma agent_act_records:
  "sy_agents (snd (agent_act out a w)) = sy_agents w
   \<and> (sy_outcomes (snd (agent_act out a w)) = sy_outcomes w
        \<or> (\<exists>k x. sy_outcomes (snd (agent_act out a w)) = (sy_outcomes w)(k \<mapsto> x)))
   \<and> (\<exists>c s i. sy_records (snd (agent_act out a w)) \<in>
        {sy_records w, sy_records (snd (prs_end system_processes c s i w))})"
proof (cases a)
  case (BackgroundTask s i st)
  show ?thesis
  proof (cases st)
    case (Registering r v)
    then show ?thesis using task_register [where out = out and s = s and i = i and r = r and v = v and w = w]
      by (auto simp: BackgroundTask simp del: task_step.simps split: prod.splits)
  next
    case (Executing q)
    then show ?thesis by (simp add: BackgroundTask)
  next
    case (Probing o')
    then show ?thesis by (simp add: BackgroundTask task_probe del: task_step.simps)
  next
    case (Persisting o')
    then show ?thesis using task_persist [where out = out and s = s and i = i and o' = o' and w = w]
      by (auto simp: BackgroundTask simp del: task_step.simps split: prod.splits)
  next
    case (Promoting o')
    then show ?thesis
      using task_promote [where out = out and s = s and i = i and o' = o' and w = w]
        end_frame [of "outcome_ending o'" s i w]
      by (auto simp: BackgroundTask simp del: task_step.simps split: prod.splits)
  next
    case Leaving
    then show ?thesis using task_leave [where out = out and s = s and i = i and w = w]
      by (auto simp: BackgroundTask simp del: task_step.simps split: prod.splits)
  next
    case Finished
    then show ?thesis by (simp add: BackgroundTask)
  qed
next
  case (KillCall s i st)
  show ?thesis
  proof (cases st)
    case KillTransition
    then show ?thesis using kill_transition [where s = s and i = i and w = w] end_frame [of EndKill s i w]
      by (auto simp: KillCall simp del: kill_step.simps prs_end.simps split: prod.splits)
  next
    case (KillRecheck e)
    then show ?thesis by (simp add: KillCall kill_recheck del: kill_step.simps)
  next
    case (KillCancel r reply)
    then show ?thesis
      using kill_cancel [where s = s and i = i and w = w and r = r and reply = reply]
      by (auto simp: KillCall simp del: kill_step.simps split: prod.splits)
  next
    case (KillRecord r reply)
    then show ?thesis
      using kill_record [where s = s and i = i and w = w and r = r and reply = reply]
      by (auto simp: KillCall simp del: kill_step.simps split: prod.splits)
  next
    case (KillDone reply)
    then show ?thesis by (simp add: KillCall)
  qed
qed

lemma agent_act_rank: "agent_busy a \<Longrightarrow> agent_rank (fst (agent_act out a w)) < agent_rank a"
proof (cases a)
  case (BackgroundTask s i st)
  then show "agent_busy a \<Longrightarrow> ?thesis"
    by (cases st) (auto split: prod.splits)
next
  case (KillCall s i st)
  then show "agent_busy a \<Longrightarrow> ?thesis"
    by (cases st) (auto split: prod.splits sum.splits option.splits)
qed

lemma agent_step_work: "agent_step w w' \<Longrightarrow> system_work w' < system_work w"
proof (induction rule: agent_step.induct)
  case (act n w out)
  have "sy_agents (step_agent out n w) = (sy_agents w)[n := fst (agent_act out (sy_agents w ! n) w)]"
    using agent_act_records [of out "sy_agents w ! n" w]
    by (cases "agent_act out (sy_agents w ! n) w") (simp add: step_agent_def)
  moreover have "agent_rank (fst (agent_act out (sy_agents w ! n) w)) < agent_rank (sy_agents w ! n)"
    using act by (intro agent_act_rank)
  moreover have "agent_rank (sy_agents w ! n) \<le> sum_list (map agent_rank (sy_agents w))"
    using act elem_le_sum_list [of n "map agent_rank (sy_agents w)"] by simp
  ultimately show ?case
    using act by (simp add: system_work_def map_update sum_list_update)
qed


subsection \<open>Results\<close>


lemma terminal_status_cases:
  assumes "reachable w" and "sy_records w k = Some r" and "sy_outcomes w k = None"
    and "pr_status r \<noteq> ProcRunning"
  shows "pr_status r = ProcKilled"
  using system_ok_record(3) [OF reachable_inv [OF assms(1)] assms(2)] assms(3,4)
  by (auto simp: result_ok_def split: process_status.splits)

text \<open>Lookups on the system.\<close>

lemma system_host_result: "host_result system_host s i w = (Inr (sy_outcomes w (process_key_new s i)), w)"
  by (simp add: host_result_def host_result_store_def system_results_def result_get_def sy_on_results_def)

lemma system_must_get:
  "must_get system_host s i w = (case sy_records w (process_key_new s i) of
     None \<Rightarrow> Inl (UnknownProcess i) | Some r \<Rightarrow> Inr r, w)"
  by (simp add: must_get_def bind_op_def system_process_sel process_get_def sy_on_processes_def
      op_defs split: option.split)

text \<open>A terminal record never changes, and a result never goes away.\<close>

definition settled_in :: "process_key \<Rightarrow> process_record \<Rightarrow> process_system \<Rightarrow> bool" where
  "settled_in k r w \<longleftrightarrow> sy_records w k = Some r \<and> pr_status r \<noteq> ProcRunning"

lemma step_agent_sel:
  "sy_processes (step_agent out n w) = sy_processes (snd (agent_act out (sy_agents w ! n) w))"
  "sy_results (step_agent out n w) = sy_results (snd (agent_act out (sy_agents w ! n) w))"
  by (simp_all add: step_agent_def split: prod.split)

lemma spawn_sel:
  "sy_processes (request_spawn t w) = sy_processes (snd (prs_start system_processes t w))"
  "sy_results (request_spawn t w) = sy_results w"
  by (simp_all add: request_spawn_def spawn_record_def bind_op_def return_op_def system_process_sel
      sy_on_processes_def split: prod.split sum.split)

lemma settled_step: "system_step w w' \<Longrightarrow> settled_in k r w \<Longrightarrow> settled_in k r w'"
proof (induction rule: system_step.induct)
  case (spawn w t)
  then show ?case using fun_cong [OF sys.start_state [of t w], of k] by (auto simp: settled_in_def spawn_sel)
next
  case (kill w s i)
  then show ?case by (simp add: settled_in_def request_kill_def)
next
  case (agent w w')
  from agent.hyps agent.prems show ?case
  proof (induction rule: agent_step.induct)
    case (act n w out)
    obtain c s i where "sy_records (step_agent out n w) \<in>
        {sy_records w, sy_records (snd (prs_end system_processes c s i w))}"
      using agent_act_records [of out "sy_agents w ! n" w] unfolding step_agent_sel by blast
    moreover have "sy_records (snd (prs_end system_processes c s i w)) k = Some r"
      using act.prems fun_cong [OF sys.end_state [of c s i w], of k] by (auto simp: settled_in_def split: option.splits)
    ultimately show ?case
      using act.prems by (auto simp: settled_in_def dest: fun_cong [where x = k])
  qed
qed

lemma outcome_step: "system_step w w' \<Longrightarrow> sy_outcomes w k \<noteq> None \<Longrightarrow> sy_outcomes w' k \<noteq> None"
proof (induction rule: system_step.induct)
  case (spawn w t)
  then show ?case by (simp add: spawn_sel)
next
  case (kill w s i)
  then show ?case by (simp add: request_kill_def)
next
  case (agent w w')
  from agent.hyps agent.prems show ?case
  proof (induction rule: agent_step.induct)
    case (act n w out)
    have "sy_outcomes (step_agent out n w) = sy_outcomes w
        \<or> (\<exists>l x. sy_outcomes (step_agent out n w) = (sy_outcomes w)(l \<mapsto> x))"
      using agent_act_records [of out "sy_agents w ! n" w] unfolding step_agent_sel by blast
    then show ?case using act.prems by (auto dest: fun_cong [where x = k])
  qed
qed

lemma known_step: "system_step w w' \<Longrightarrow> sy_records w k \<noteq> None \<Longrightarrow> sy_records w' k \<noteq> None"
proof (induction rule: system_step.induct)
  case (spawn w t)
  then show ?case using fun_cong [OF sys.start_state [of t w], of k] by (auto simp: spawn_sel)
next
  case (kill w s i)
  then show ?case by (simp add: request_kill_def)
next
  case (agent w w')
  from agent.hyps agent.prems show ?case
  proof (induction rule: agent_step.induct)
    case (act n w out)
    obtain c s i where "sy_records (step_agent out n w) \<in>
        {sy_records w, sy_records (snd (prs_end system_processes c s i w))}"
      using agent_act_records [of out "sy_agents w ! n" w] unfolding step_agent_sel by blast
    moreover have "sy_records (snd (prs_end system_processes c s i w)) k \<noteq> None"
      using act.prems fun_cong [OF sys.end_state [of c s i w], of k] by (auto split: option.splits)
    ultimately show ?case using act.prems by (auto dest: fun_cong [where x = k])
  qed
qed

lemma step_star_keeps:
  assumes "system_step\<^sup>*\<^sup>* w w'" and "\<And>v v'. system_step v v' \<Longrightarrow> P v \<Longrightarrow> P v'" and "P w"
  shows "P w'"
  using assms by (induction rule: rtranclp_induct) auto

text \<open>Others may take any steps during a wait.\<close>

definition advances :: "(process_system \<Rightarrow> process_system) \<Rightarrow> bool" where
  "advances f \<longleftrightarrow> (\<forall>w. system_step\<^sup>*\<^sup>* w (f w))"

definition waits_advance ::
    "((process_system \<Rightarrow> process_system) \<times> (process_system \<Rightarrow> process_system)) list \<Rightarrow> bool" where
  "waits_advance waits \<longleftrightarrow> (\<forall>(f, g) \<in> set waits. advances f \<and> advances g)"

lemma advances_keeps:
  assumes "advances f" and "\<And>v v'. system_step v v' \<Longrightarrow> P v \<Longrightarrow> P v'" and "P w"
  shows "P (f w)"
  using assms(1) step_star_keeps [of w "f w" P] assms(2,3) unfolding advances_def by blast

lemma settled_advances: "advances f \<Longrightarrow> settled_in k r w \<Longrightarrow> settled_in k r (f w)"
  by (rule advances_keeps [of f "settled_in k r"]) (auto intro: settled_step)

lemma await_result_loop_sound:
  assumes "waits_advance waits" and "reachable w"
    and "sy_records w (process_key_new s i) \<noteq> None"
    and "seen \<Longrightarrow> \<exists>r. settled_in (process_key_new s i) r w"
    and "await_result system_host s i seen waits w = Some (reply, w')"
  shows "case reply of
      Inr res \<Rightarrow> sy_outcomes w' (process_key_new s i) = Some res
    | Inl e \<Rightarrow> e = ProcessResultUnavailable i
        \<and> (\<exists>r. sy_records w' (process_key_new s i) = Some r \<and> pr_status r = ProcKilled)"
  using assms
proof (induction waits arbitrary: w seen)
  case Nil
  then show ?case by simp
next
  case (Cons fg waits)
  let ?k = "process_key_new s i"
  obtain f g where fg: "fg = (f, g)" by fastforce
  have f: "advances f" and g: "advances g" and waits: "waits_advance waits"
    using Cons.prems(1) by (auto simp: waits_advance_def fg)
  show ?case
  proof (cases "sy_outcomes w ?k")
    case (Some res)
    then show ?thesis using Cons.prems(5) by (auto simp: fg system_host_result)
  next
    case None
    have reach: "reachable (f w)" "reachable (g (f w))"
      using advances_keeps [OF f, of reachable] advances_keeps [OF g, of reachable] Cons.prems(2)
      by (blast intro: reachable.step)+
    have known: "sy_records (f w) ?k \<noteq> None" "sy_records (g (f w)) ?k \<noteq> None"
      using advances_keeps [OF f, of "\<lambda>w. sy_records w ?k \<noteq> None"]
        advances_keeps [OF g, of "\<lambda>w. sy_records w ?k \<noteq> None"] known_step Cons.prems(3) by blast+
    then obtain r where r: "sy_records (f w) ?k = Some r" by blast
    show ?thesis
    proof (cases "process_is_terminal (pr_status r)")
      case False
      then have "await_result system_host s i False waits (g (f w)) = Some (reply, w')"
        using Cons.prems(5) None r by (simp add: fg system_host_result system_must_get)
      then show ?thesis by (rule Cons.IH [OF waits reach(2) known(2), rotated]) simp
    next
      case terminal: True
      then have settled: "settled_in ?k r (f w)" using r by (simp add: settled_in_def process_is_terminal_def)
      show ?thesis
      proof (cases seen)
        case False
        then have "await_result system_host s i True waits (g (f w)) = Some (reply, w')"
          using Cons.prems(5) None r terminal by (simp add: fg system_host_result system_must_get)
        moreover have "settled_in ?k r (g (f w))"
          by (rule settled_advances [OF g settled])
        ultimately show ?thesis using Cons.IH [OF waits reach(2) known(2), of True] by blast
      next
        case True
        then obtain r0 where r0: "settled_in ?k r0 w" using Cons.prems(4) by blast
        then have "settled_in ?k r0 (f w)"
          by (rule settled_advances [OF f])
        then have "r0 = r" using r by (simp add: settled_in_def)
        then have "pr_status r = ProcKilled"
          using terminal_status_cases [OF Cons.prems(2)] r0 None by (auto simp: settled_in_def)
        moreover have "reply = Inl (ProcessResultUnavailable i)" "w' = f w"
          using Cons.prems(5) None r terminal True by (simp_all add: fg system_host_result system_must_get)
        ultimately show ?thesis using r by simp
      qed
    qed
  qed
qed

text \<open>
  C26: awaiting a result is sound while everything else goes on: for a process that exists,
  whatever steps tasks, kills and spawns take between its lookups, \<open>await_result\<close> answers with the
  result record that is stored at that moment, or, for a process that was killed, that the result
  is unavailable; a completed or failed process is never reported without its result.
\<close>

theorem await_result_sound:
  assumes "reachable w" and "sy_records w (process_key_new s i) \<noteq> None" and "waits_advance waits"
    and "await_result system_host s i False waits w = Some (reply, w')"
  shows "case reply of
      Inr res \<Rightarrow> sy_outcomes w' (process_key_new s i) = Some res
    | Inl e \<Rightarrow> e = ProcessResultUnavailable i
        \<and> (\<exists>r. sy_records w' (process_key_new s i) = Some r \<and> pr_status r = ProcKilled)"
  by (rule await_result_loop_sound [OF assms(3,1,2) _ assms(4)]) simp

text \<open>
  C25: no process is lost: once no task or kill call is under way any more, every process
  that was ever started is terminal, its result is stored and answers the next poll, and no
  cancellation token is left in the registry.
\<close>

theorem idle_system_settled:
  assumes "reachable w" and "\<not> some_agent agent_busy (sy_agents w)"
  shows "(\<forall>k. sy_tokens w k = None)
    \<and> (case sy_records w (process_key_new s i) of
         None \<Rightarrow> True
       | Some r \<Rightarrow> process_is_terminal (pr_status r)
           \<and> (\<exists>res. await_result system_host s i seen (wait # waits) w = Some (Inr res, w)))"
proof -
  note inv = reachable_inv [OF assms(1)]
  have holder: "token_holder k a \<Longrightarrow> agent_busy a" for k a
    by (cases a rule: agent_busy.cases) auto
  have pending: "kill_pending k a \<Longrightarrow> agent_busy a" for k a
    by (cases "(k, a)" rule: kill_pending.cases) auto
  have "sy_tokens w k = None" for k
    using system_ok_token [OF inv, of k] assms(2) holder unfolding some_agent_def by blast
  moreover have "process_is_terminal (pr_status r) \<and> sy_outcomes w k \<noteq> None"
    if r: "sy_records w k = Some r" for k r
  proof -
    obtain j where j: "j < length (sy_agents w)" "task_key (sy_agents w ! j) = Some k"
      using system_ok_record(2) [OF inv r] by (auto simp: some_agent_def)
    have "\<not> agent_busy (sy_agents w ! j)" using assms(2) j(1) by (auto simp: some_agent_def)
    then have "pr_status r \<noteq> ProcRunning"
      using system_ok_agent [OF inv j(1)] j(2) r
      by (cases "sy_agents w ! j") (auto elim: agent_busy.elims)
    moreover have "\<not> some_agent (kill_pending k) (sy_agents w)"
      using assms(2) pending unfolding some_agent_def by blast
    ultimately show ?thesis
      using system_ok_record(3) [OF inv r]
      by (auto simp: result_ok_def process_is_terminal_def split: process_status.splits)
  qed
  moreover have "\<exists>res. await_result system_host s i seen (wait # waits) w = Some (Inr res, w)"
    if "sy_outcomes w (process_key_new s i) \<noteq> None"
    using that by (cases wait) (auto simp: system_host_result)
  ultimately show ?thesis by (simp split: option.split)
qed

subsection \<open>Schedules\<close>

text \<open>Concrete runs: which agent steps next, and the outcome of its executor if it is its end.\<close>

fun run_agents :: "(execution_outcome \<times> nat) list \<Rightarrow> process_system \<Rightarrow> process_system" where
  "run_agents [] w = w"
| "run_agents ((out, n) # ns) w =
     (if n < length (sy_agents w) \<and> agent_busy (sy_agents w ! n)
      then run_agents ns (step_agent out n w) else w)"

lemma run_agents_reachable: "reachable w \<Longrightarrow> reachable (run_agents ns w)"
  by (induction ns w rule: run_agents.induct)
    (auto intro: reachable.step system_step.agent agent_step.act)

lemma requests_reachable:
  "reachable w \<Longrightarrow> reachable (request_spawn t w)" "reachable w \<Longrightarrow> reachable (request_kill s i w)"
  by (auto intro: reachable.step system_step.intros)

definition sample_process :: process_start where
  "sample_process = \<lparr>ps_process_id = 3, ps_parent_process_id = None, ps_invocation_id = 9,
     ps_scope = Resources.sample_scope, ps_extension_id = ''e'', ps_capability_id = ''e.run'',
     ps_runtime = Wasm, ps_grants = \<lparr>cs_grants = []\<rparr>, ps_mounts = \<lparr>mv_mounts = []\<rparr>,
     ps_estimated_resources = Resources.sample_estimate, ps_resource_reservation_id = None,
     ps_input = JNull\<rparr>"

abbreviation sample_key :: process_key where
  "sample_key \<equiv> process_key_new Resources.sample_scope 3"

text \<open>The executor is done and its task has seen the process running; then a whole kill happens.\<close>

definition probed_then_killed :: process_system where
  "probed_then_killed = run_agents (replicate 3 (ExecOk JNull, 1))
     (request_kill Resources.sample_scope 3
       (run_agents (replicate 3 (ExecOk JNull, 0)) (request_spawn sample_process empty_system)))"

lemma probed_then_killed_reachable: "reachable probed_then_killed"
  unfolding probed_then_killed_def
  by (intro run_agents_reachable requests_reachable reachable.empty)

text \<open>
  The guard of the task (\<open>still_running\<close>) does not protect the record of a kill: if the process
  is killed after the guard looked and before the result is written, the killed process ends with
  the result of a completed one.
\<close>

theorem late_result_overwrites_kill:
  "\<exists>w r res. reachable w \<and> \<not> some_agent agent_busy (sy_agents w)
     \<and> sy_records w sample_key = Some r \<and> pr_status r = ProcKilled
     \<and> sy_outcomes w sample_key = Some res \<and> po_status res = ProcCompleted"
proof -
  let ?w = "run_agents (replicate 3 (ExecOk JNull, 0)) probed_then_killed"
  have "list_all (\<lambda>a. \<not> agent_busy a) (sy_agents ?w)
      \<and> map_option pr_status (hm_get sample_key (sy_processes ?w)) = Some ProcKilled
      \<and> map_option po_status (hm_get sample_key (sy_results ?w)) = Some ProcCompleted"
    by code_simp
  then show ?thesis
    using run_agents_reachable [OF probed_then_killed_reachable]
    by (auto simp: some_agent_iff list_all_iff)
qed

text \<open>
  A kill between the start of a process and the registration of its token cancels nothing: the
  executor of the killed process then runs with a token that is registered and not cancelled.
\<close>

definition early_kill :: process_system where
  "early_kill = run_agents [(ExecPanic, 0)] (run_agents (replicate 3 (ExecPanic, 1))
     (request_kill Resources.sample_scope 3 (request_spawn sample_process empty_system)))"

definition runs_uncancelled :: "resource_scope \<Rightarrow> process_id \<Rightarrow> process_system \<Rightarrow> agent \<Rightarrow> bool" where
  "runs_uncancelled scope pid w a = (case a of
     BackgroundTask s i (Executing q) \<Rightarrow> s = scope \<and> i = pid
       \<and> (case er_cancellation q of Some token \<Rightarrow> \<not> token_is_cancelled token (sy_registry w)
          | None \<Rightarrow> False)
   | _ \<Rightarrow> False)"

theorem kill_before_registration_not_delivered:
  "\<exists>w r. reachable w \<and> sy_records w sample_key = Some r \<and> pr_status r = ProcKilled
     \<and> \<not> some_agent (kill_pending sample_key) (sy_agents w)
     \<and> some_agent (runs_uncancelled Resources.sample_scope 3 w) (sy_agents w)"
proof -
  have "reachable early_kill"
    unfolding early_kill_def by (intro run_agents_reachable requests_reachable reachable.empty)
  moreover have "map_option pr_status (hm_get sample_key (sy_processes early_kill)) = Some ProcKilled"
    "list_all (\<lambda>a. \<not> kill_pending sample_key a) (sy_agents early_kill)"
    "list_ex (runs_uncancelled Resources.sample_scope 3 early_kill) (sy_agents early_kill)"
    by code_simp+
  ultimately show ?thesis
    by (auto simp: some_agent_iff list_all_iff list_ex_iff)
qed

definition completed_system :: process_system where
  "completed_system =
     run_agents (replicate 6 (ExecOk JNull, 0)) (request_spawn sample_process empty_system)"

lemma completed_system_reachable: "reachable completed_system"
  unfolding completed_system_def
  by (intro run_agents_reachable requests_reachable reachable.empty)

lemma completed_system_status:
  "map_option pr_status (hm_get sample_key (sy_processes completed_system)) = Some ProcCompleted"
  by code_simp


theorem idle_system_settled_witness:
  "\<exists>res. await_result system_host Resources.sample_scope 3 False [(id, id)] completed_system =
     Some (Inr res, completed_system)"
proof -
  have "list_all (\<lambda>a. \<not> agent_busy a) (sy_agents completed_system)" by code_simp
  then have "\<not> some_agent agent_busy (sy_agents completed_system)"
    by (auto simp: some_agent_iff list_all_iff)
  then show ?thesis
    using idle_system_settled [OF completed_system_reachable, of Resources.sample_scope 3 False "(id, id)" "[]"]
      completed_system_status
    by auto
qed

definition half_killed :: process_system where
  "half_killed = run_agents [(ExecPanic, 1)]
     (request_kill Resources.sample_scope 3 (request_spawn sample_process empty_system))"

lemma advances_id: "advances id"
  by (simp add: advances_def)

theorem await_result_sound_witness:
  "\<exists>w' r. await_result system_host Resources.sample_scope 3 False [(id, id), (id, id)] half_killed =
       Some (Inl (ProcessResultUnavailable 3), w')
     \<and> sy_records w' sample_key = Some r \<and> pr_status r = ProcKilled"
proof -
  have reach: "reachable half_killed"
    unfolding half_killed_def by (intro run_agents_reachable requests_reachable reachable.empty)
  have known: "map_option pr_status (hm_get sample_key (sy_processes half_killed)) = Some ProcKilled"
    "hm_get sample_key (sy_results half_killed) = None"
    by code_simp+
  then have await: "await_result system_host Resources.sample_scope 3 False [(id, id), (id, id)] half_killed =
      Some (Inl (ProcessResultUnavailable 3), half_killed)"
    by (auto simp: system_host_result system_must_get process_is_terminal_def)
  have "waits_advance [(id, id), (id, id)]" by (simp add: waits_advance_def advances_id)
  then show ?thesis
    using await_result_sound [OF reach _ _ await] known(1) await by auto
qed

end
