(* ===== verification/NetAddresses.thy ===== *)
theory NetAddresses
  imports Prelude
begin

section \<open>Internet addresses\<close>

text \<open>
  \<open>std::net::IpAddr\<close> with the parser of its \<open>FromStr\<close>, and the address classification of
  \<open>crates/ironclaw_network/src/lib.rs\<close>: \<open>is_private_or_loopback_ip\<close> and its helpers, which test
  octets and segments. The classification is proved equal to membership in a table of CIDR
  blocks over the 128-bit view of an address.
\<close>

subsection \<open>Addresses\<close>

datatype ip_addr = V4 "32 word" | V6 "128 word"

definition octet4 :: "nat \<Rightarrow> 32 word \<Rightarrow> nat" where
  "octet4 i ip = unat ip div 256 ^ (3 - i) mod 256"

definition segment6 :: "nat \<Rightarrow> 128 word \<Rightarrow> nat" where
  "segment6 i ip = unat ip div 65536 ^ (7 - i) mod 65536"

text \<open>\<open>Ipv6Addr::to_ipv4_mapped\<close>: the addresses ::ffff:a.b.c.d.\<close>

definition to_ipv4_mapped :: "128 word \<Rightarrow> 32 word option" where
  "to_ipv4_mapped ip =
     (if unat ip div 2 ^ 32 = 65535 then Some (of_nat (unat ip mod 2 ^ 32)) else None)"

subsection \<open>Parsing\<close>

text \<open>
  A parser takes the remaining bytes and returns its value with the bytes after it; \<open>None\<close>
  leaves the input where it was (\<open>read_atomically\<close>).
\<close>

type_synonym 'a parser = "string \<Rightarrow> ('a \<times> string) option"

definition to_digit :: "nat \<Rightarrow> char \<Rightarrow> nat option" where
  "to_digit radix c =
     (let b = byte_of c;
          d = (if 48 \<le> b \<and> b \<le> 57 then b - 48
               else if 97 \<le> b \<and> b \<le> 122 then b - 87
               else if 65 \<le> b \<and> b \<le> 90 then b - 55 else radix)
      in if d < radix then Some d else None)"

definition digits_value :: "nat \<Rightarrow> string \<Rightarrow> nat" where
  "digits_value radix ds = foldl (\<lambda>n c. n * radix + the (to_digit radix c)) 0 ds"

definition read_number :: "nat \<Rightarrow> nat \<Rightarrow> bool \<Rightarrow> nat \<Rightarrow> nat parser" where
  "read_number radix max_digits allow_zero_prefix bound s =
     (let ds = takeWhile (\<lambda>c. to_digit radix c \<noteq> None) s
      in if ds = [] \<or> max_digits < length ds then None
         else if \<not> allow_zero_prefix \<and> hd ds = CHR ''0'' \<and> 1 < length ds then None
         else if bound \<le> digits_value radix ds then None
         else Some (digits_value radix ds, drop (length ds) s))"

definition read_char :: "char \<Rightarrow> unit parser" where
  "read_char c s = (case s of [] \<Rightarrow> None | x # s' \<Rightarrow> if x = c then Some ((), s') else None)"

text \<open>\<open>read_separator\<close>: the separator comes before every item but the first.\<close>

definition read_separator :: "char \<Rightarrow> bool \<Rightarrow> 'a parser \<Rightarrow> 'a parser" where
  "read_separator c first p s =
     (if first then p s else (case read_char c s of None \<Rightarrow> None | Some (_, s') \<Rightarrow> p s'))"

fun read_octets :: "nat \<Rightarrow> bool \<Rightarrow> nat list parser" where
  "read_octets 0 first s = Some ([], s)"
| "read_octets (Suc k) first s =
     (case read_separator (CHR ''.'') first (read_number 10 3 False 256) s of
        None \<Rightarrow> None
      | Some (n, s') \<Rightarrow>
          (case read_octets k False s' of
             None \<Rightarrow> None
           | Some (ns, s'') \<Rightarrow> Some (n # ns, s'')))"

definition read_ipv4_addr :: "nat list parser" where
  "read_ipv4_addr = read_octets 4 True"

text \<open>
  \<open>read_groups\<close> with \<open>k\<close> slots left: the groups read, whether the last two were written as an
  IPv4 address, and the bytes left.
\<close>

fun read_groups :: "nat \<Rightarrow> bool \<Rightarrow> string \<Rightarrow> nat list \<times> bool \<times> string" where
  "read_groups 0 first s = ([], False, s)"
| "read_groups (Suc k) first s =
     (case (if k = 0 then None else read_separator (CHR '':'') first read_ipv4_addr s) of
        Some (os, s') \<Rightarrow> ([os ! 0 * 256 + os ! 1, os ! 2 * 256 + os ! 3], True, s')
      | None \<Rightarrow>
          (case read_separator (CHR '':'') first (read_number 16 4 True 65536) s of
             None \<Rightarrow> ([], False, s)
           | Some (g, s') \<Rightarrow>
               (case read_groups k False s' of (gs, v4, s'') \<Rightarrow> (g # gs, v4, s''))))"

definition read_ipv6_addr :: "nat list parser" where
  "read_ipv6_addr s =
     (case read_groups 8 True s of (head, head_ipv4, s1) \<Rightarrow>
        if length head = 8 then Some (head, s1)
        else if head_ipv4 then None
        else (case read_char (CHR '':'') s1 of
            None \<Rightarrow> None
          | Some (_, s2) \<Rightarrow>
              (case read_char (CHR '':'') s2 of
                 None \<Rightarrow> None
               | Some (_, s3) \<Rightarrow>
                   (case read_groups (8 - (length head + 1)) True s3 of (tail, _, s4) \<Rightarrow>
                      Some (head @ replicate (8 - length head - length tail) 0 @ tail, s4)))))"

definition from_digits :: "nat \<Rightarrow> nat list \<Rightarrow> nat" where
  "from_digits base ds = foldl (\<lambda>n d. n * base + d) 0 ds"

definition parse_ip :: "string \<Rightarrow> ip_addr option" where
  "parse_ip s =
     (case read_ipv4_addr s of
        Some (os, rest) \<Rightarrow> if rest = [] then Some (V4 (of_nat (from_digits 256 os))) else None
      | None \<Rightarrow>
          (case read_ipv6_addr s of
             Some (gs, rest) \<Rightarrow>
               if rest = [] then Some (V6 (of_nat (from_digits 65536 gs))) else None
           | None \<Rightarrow> None))"

subsection \<open>Classification\<close>

definition is_carrier_grade_nat_v4 :: "32 word \<Rightarrow> bool" where
  "is_carrier_grade_nat_v4 ip \<longleftrightarrow> octet4 0 ip = 100 \<and> 64 \<le> octet4 1 ip \<and> octet4 1 ip \<le> 127"

definition is_documentation_v6 :: "128 word \<Rightarrow> bool" where
  "is_documentation_v6 ip \<longleftrightarrow> segment6 0 ip = 0x2001 \<and> segment6 1 ip = 0x0db8"

text \<open>The methods of \<open>Ipv4Addr\<close> and \<open>Ipv6Addr\<close> that the classification calls.\<close>

definition v4_is_private :: "32 word \<Rightarrow> bool" where
  "v4_is_private ip \<longleftrightarrow> octet4 0 ip = 10
     \<or> octet4 0 ip = 172 \<and> 16 \<le> octet4 1 ip \<and> octet4 1 ip \<le> 31
     \<or> octet4 0 ip = 192 \<and> octet4 1 ip = 168"

definition v4_is_loopback :: "32 word \<Rightarrow> bool" where
  "v4_is_loopback ip \<longleftrightarrow> octet4 0 ip = 127"

definition v4_is_link_local :: "32 word \<Rightarrow> bool" where
  "v4_is_link_local ip \<longleftrightarrow> octet4 0 ip = 169 \<and> octet4 1 ip = 254"

definition v4_is_broadcast :: "32 word \<Rightarrow> bool" where
  "v4_is_broadcast ip \<longleftrightarrow> ip = - 1"

definition v4_is_documentation :: "32 word \<Rightarrow> bool" where
  "v4_is_documentation ip \<longleftrightarrow>
     octet4 0 ip = 192 \<and> octet4 1 ip = 0 \<and> octet4 2 ip = 2
     \<or> octet4 0 ip = 198 \<and> octet4 1 ip = 51 \<and> octet4 2 ip = 100
     \<or> octet4 0 ip = 203 \<and> octet4 1 ip = 0 \<and> octet4 2 ip = 113"

definition v4_is_multicast :: "32 word \<Rightarrow> bool" where
  "v4_is_multicast ip \<longleftrightarrow> 224 \<le> octet4 0 ip \<and> octet4 0 ip \<le> 239"

definition v6_is_unique_local :: "128 word \<Rightarrow> bool" where
  "v6_is_unique_local ip \<longleftrightarrow> and (segment6 0 ip) 0xfe00 = 0xfc00"

definition v6_is_unicast_link_local :: "128 word \<Rightarrow> bool" where
  "v6_is_unicast_link_local ip \<longleftrightarrow> and (segment6 0 ip) 0xffc0 = 0xfe80"

definition v6_is_multicast :: "128 word \<Rightarrow> bool" where
  "v6_is_multicast ip \<longleftrightarrow> segment6 0 ip div 256 = 0xff"

definition host_local_v4 :: "32 word \<Rightarrow> bool" where
  "host_local_v4 ip \<longleftrightarrow> v4_is_private ip \<or> v4_is_loopback ip \<or> v4_is_link_local ip
     \<or> v4_is_broadcast ip \<or> v4_is_documentation ip \<or> v4_is_multicast ip
     \<or> octet4 0 ip = 0 \<or> is_carrier_grade_nat_v4 ip"

fun is_private_or_loopback_ip :: "ip_addr \<Rightarrow> bool" where
  "is_private_or_loopback_ip (V4 ip) = host_local_v4 ip"
| "is_private_or_loopback_ip (V6 ip) =
     (case to_ipv4_mapped ip of
        Some mapped \<Rightarrow> host_local_v4 mapped
      | None \<Rightarrow> ip = 1 \<or> ip = 0 \<or> v6_is_unique_local ip \<or> v6_is_unicast_link_local ip
          \<or> v6_is_multicast ip \<or> is_documentation_v6 ip)"

subsection \<open>The reference: special-purpose blocks\<close>

text \<open>
  Every address has a 128-bit view, an IPv4 address its mapped one. A block \<open>(base, len)\<close>
  holds the addresses whose first \<open>len\<close> bits are those of \<open>base\<close>.
\<close>

fun wide :: "ip_addr \<Rightarrow> nat" where
  "wide (V4 ip) = 0xffff * 2 ^ 32 + unat ip"
| "wide (V6 ip) = unat ip"

definition in_block :: "nat \<times> nat \<Rightarrow> nat \<Rightarrow> bool" where
  "in_block b a \<longleftrightarrow> a div 2 ^ (128 - snd b) = fst b div 2 ^ (128 - snd b)"

text \<open>The IPv4 block \<open>a.b.c.d/len\<close> as a block of mapped addresses.\<close>

definition block4 :: "nat list \<Rightarrow> nat \<Rightarrow> nat \<times> nat" where
  "block4 os len = (0xffff * 2 ^ 32 + from_digits 256 os, 96 + len)"

definition block6 :: "nat list \<Rightarrow> nat \<Rightarrow> nat \<times> nat" where
  "block6 gs len = (from_digits 65536 gs, len)"

definition host_local_blocks :: "(nat \<times> nat) list" where
  "host_local_blocks = [
     block4 [0, 0, 0, 0] 8, block4 [10, 0, 0, 0] 8, block4 [100, 64, 0, 0] 10,
     block4 [127, 0, 0, 0] 8, block4 [169, 254, 0, 0] 16, block4 [172, 16, 0, 0] 12,
     block4 [192, 0, 2, 0] 24, block4 [192, 168, 0, 0] 16, block4 [198, 51, 100, 0] 24,
     block4 [203, 0, 113, 0] 24, block4 [224, 0, 0, 0] 4, block4 [255, 255, 255, 255] 32,
     block6 [0, 0, 0, 0, 0, 0, 0, 0] 128, block6 [0, 0, 0, 0, 0, 0, 0, 1] 128,
     block6 [0xfc00, 0, 0, 0, 0, 0, 0, 0] 7, block6 [0xfe80, 0, 0, 0, 0, 0, 0, 0] 10,
     block6 [0xff00, 0, 0, 0, 0, 0, 0, 0] 8, block6 [0x2001, 0xdb8, 0, 0, 0, 0, 0, 0] 32]"

definition host_local :: "ip_addr \<Rightarrow> bool" where
  "host_local ip \<longleftrightarrow> list_ex (\<lambda>b. in_block b (wide ip)) host_local_blocks"

subsection \<open>The classification is the table\<close>

lemma unat4_lt: "unat (ip :: 32 word) < 4294967296"
  using unsigned_less [of ip, where ?'a = nat] by simp

lemma unat6_lt: "unat (ip :: 128 word) < 2 ^ 128"
  using unsigned_less [of ip, where ?'a = nat] by simp

lemma eq_iff_div_mod: "x = k \<longleftrightarrow> x div m = k div m \<and> x mod m = k mod m"
  for x k m :: nat
  by (metis mult_div_mod_eq)

lemma v4_prefixes:
  "unat ip div 16777216 = octet4 0 ip"
  "unat ip div 65536 = k \<longleftrightarrow> octet4 0 ip = k div 256 \<and> octet4 1 ip = k mod 256"
  "unat ip div 256 = k \<longleftrightarrow>
     octet4 0 ip = k div 65536 \<and> octet4 1 ip = k div 256 mod 256 \<and> octet4 2 ip = k mod 256"
  "unat ip div 1048576 = k \<longleftrightarrow> octet4 0 ip = k div 16 \<and> octet4 1 ip div 16 = k mod 16"
  "unat ip div 4194304 = k \<longleftrightarrow> octet4 0 ip = k div 4 \<and> octet4 1 ip div 64 = k mod 4"
  "unat ip div 268435456 = octet4 0 ip div 16"
proof -
  have top: "unat ip div 16777216 mod 256 = unat ip div 16777216"
    using unat4_lt [of ip] by (intro mod_less) (simp add: less_mult_imp_div_less)
  show first: "unat ip div 16777216 = octet4 0 ip" using top by (simp add: octet4_def)
  have two: "unat ip div 65536 = k \<longleftrightarrow> octet4 0 ip = k div 256 \<and> octet4 1 ip = k mod 256" for k
    using top by (subst eq_iff_div_mod [where m = 256]) (simp add: octet4_def flip: div_mult2_eq)
  show "unat ip div 65536 = k \<longleftrightarrow> octet4 0 ip = k div 256 \<and> octet4 1 ip = k mod 256" by (rule two)
  have "unat ip div 256 = k \<longleftrightarrow> unat ip div 65536 = k div 256 \<and> octet4 2 ip = k mod 256"
    by (subst eq_iff_div_mod [where m = 256]) (simp add: octet4_def flip: div_mult2_eq)
  then show "unat ip div 256 = k \<longleftrightarrow>
     octet4 0 ip = k div 65536 \<and> octet4 1 ip = k div 256 mod 256 \<and> octet4 2 ip = k mod 256"
    by (simp add: two flip: div_mult2_eq)
  have nested: "k mod 256 div 16 = k div 16 mod 16" "k mod 256 div 64 = k div 64 mod 4" for k :: nat
    by (simp add: mod_mult2_eq [of k 16 16, simplified])
      (simp add: mod_mult2_eq [of k 64 4, simplified])
  show "unat ip div 1048576 = k \<longleftrightarrow> octet4 0 ip = k div 16 \<and> octet4 1 ip div 16 = k mod 16"
    using top
    by (subst eq_iff_div_mod [where m = 16]) (simp add: octet4_def nested flip: div_mult2_eq)
  show "unat ip div 4194304 = k \<longleftrightarrow> octet4 0 ip = k div 4 \<and> octet4 1 ip div 64 = k mod 4"
    using top
    by (subst eq_iff_div_mod [where m = 4]) (simp add: octet4_def nested flip: div_mult2_eq)
  show "unat ip div 268435456 = octet4 0 ip div 16"
    by (simp flip: first div_mult2_eq)
qed

lemma in_block4:
  assumes "len \<le> 32"
  shows "in_block (block4 os len) (wide (V4 ip)) \<longleftrightarrow>
    unat ip div 2 ^ (32 - len) = from_digits 256 os div 2 ^ (32 - len)"
proof -
  have "(0xffff * 2 ^ 32 + n) div 2 ^ (32 - len) = 0xffff * 2 ^ len + n div 2 ^ (32 - len)" for n :: nat
  proof -
    have "(2 :: nat) ^ 32 = 2 ^ (32 - len) * 2 ^ len"
      using assms by (simp flip: power_add)
    then have "0xffff * 2 ^ 32 + n = n + 2 ^ (32 - len) * (0xffff * 2 ^ len)"
      by (simp only: mult_ac add.commute)
    then show ?thesis by (simp only: div_mult_self2 [of "2 ^ (32 - len)" n] add.commute) simp
  qed
  then show ?thesis by (simp add: in_block_def block4_def)
qed

lemma in_block6:
  assumes "len \<le> 80" "0 < from_digits 65536 gs div 2 ^ (128 - len)"
  shows "\<not> in_block (block6 gs len) (wide (V4 ip))"
proof -
  have "wide (V4 ip) < 2 ^ 48" using unat4_lt [of ip] by simp
  also have "(2 :: nat) ^ 48 \<le> 2 ^ (128 - len)" using assms(1) by (intro power_increasing) simp_all
  finally show ?thesis using assms(2) by (simp add: in_block_def block6_def)
qed

declare wide.simps [simp del]

lemma v4_blocks:
  "in_block (block4 [0, 0, 0, 0] 8) (wide (V4 ip)) \<longleftrightarrow> octet4 0 ip = 0"
  "in_block (block4 [10, 0, 0, 0] 8) (wide (V4 ip)) \<longleftrightarrow> octet4 0 ip = 10"
  "in_block (block4 [100, 64, 0, 0] 10) (wide (V4 ip)) \<longleftrightarrow> is_carrier_grade_nat_v4 ip"
  "in_block (block4 [127, 0, 0, 0] 8) (wide (V4 ip)) \<longleftrightarrow> octet4 0 ip = 127"
  "in_block (block4 [169, 254, 0, 0] 16) (wide (V4 ip)) \<longleftrightarrow> v4_is_link_local ip"
  "in_block (block4 [172, 16, 0, 0] 12) (wide (V4 ip)) \<longleftrightarrow>
     octet4 0 ip = 172 \<and> 16 \<le> octet4 1 ip \<and> octet4 1 ip \<le> 31"
  "in_block (block4 [192, 0, 2, 0] 24) (wide (V4 ip)) \<longleftrightarrow>
     octet4 0 ip = 192 \<and> octet4 1 ip = 0 \<and> octet4 2 ip = 2"
  "in_block (block4 [192, 168, 0, 0] 16) (wide (V4 ip)) \<longleftrightarrow> octet4 0 ip = 192 \<and> octet4 1 ip = 168"
  "in_block (block4 [198, 51, 100, 0] 24) (wide (V4 ip)) \<longleftrightarrow>
     octet4 0 ip = 198 \<and> octet4 1 ip = 51 \<and> octet4 2 ip = 100"
  "in_block (block4 [203, 0, 113, 0] 24) (wide (V4 ip)) \<longleftrightarrow>
     octet4 0 ip = 203 \<and> octet4 1 ip = 0 \<and> octet4 2 ip = 113"
  "in_block (block4 [224, 0, 0, 0] 4) (wide (V4 ip)) \<longleftrightarrow> v4_is_multicast ip"
  by (simp_all add: in_block4 v4_prefixes is_carrier_grade_nat_v4_def v4_is_link_local_def
      v4_is_multicast_def from_digits_def) linarith+

lemma v4_broadcast_block:
  "in_block (block4 [255, 255, 255, 255] 32) (wide (V4 ip)) \<longleftrightarrow> v4_is_broadcast ip"
  by (simp add: in_block4 from_digits_def v4_is_broadcast_def word_unat_eq_iff unat_max_word)

lemma v6_blocks_of_v4:
  "\<not> in_block (block6 [0xfc00, 0, 0, 0, 0, 0, 0, 0] 7) (wide (V4 ip))"
  "\<not> in_block (block6 [0xfe80, 0, 0, 0, 0, 0, 0, 0] 10) (wide (V4 ip))"
  "\<not> in_block (block6 [0xff00, 0, 0, 0, 0, 0, 0, 0] 8) (wide (V4 ip))"
  "\<not> in_block (block6 [0x2001, 0xdb8, 0, 0, 0, 0, 0, 0] 32) (wide (V4 ip))"
  "\<not> in_block (block6 [0, 0, 0, 0, 0, 0, 0, 0] 128) (wide (V4 ip))"
  "\<not> in_block (block6 [0, 0, 0, 0, 0, 0, 0, 1] 128) (wide (V4 ip))"
  by ((rule in_block6; simp add: from_digits_def),
      (rule in_block6; simp add: from_digits_def),
      (rule in_block6; simp add: from_digits_def),
      (rule in_block6; simp add: from_digits_def),
      simp_all add: in_block_def block6_def from_digits_def wide.simps)

lemma host_local_v4_table: "host_local (V4 ip) \<longleftrightarrow> host_local_v4 ip"
  unfolding host_local_def host_local_blocks_def host_local_v4_def v4_is_private_def
    v4_is_loopback_def v4_is_documentation_def list_ex_Cons_iff list_ex_Nil_iff v4_blocks v4_broadcast_block
  using v6_blocks_of_v4 [of ip] by blast

lemma block4_mapped:
  assumes "in_block (block4 os len) a" "len \<le> 32" "from_digits 256 os < 2 ^ 32"
  shows "a div 2 ^ 32 = 0xffff"
proof -
  have "b div 2 ^ 32 = b div 2 ^ (32 - len) div 2 ^ len" for b :: nat
    using assms(2) by (simp flip: div_mult2_eq power_add)
  moreover have "a div 2 ^ (32 - len) = (0xffff * 2 ^ 32 + from_digits 256 os) div 2 ^ (32 - len)"
    using assms(1) by (simp add: in_block_def block4_def)
  ultimately have "a div 2 ^ 32 = (0xffff * 2 ^ 32 + from_digits 256 os) div 2 ^ 32" by simp
  also have "\<dots> = 0xffff" using assms(3) by simp
  finally show ?thesis .
qed

lemma and_high_mask: "and x (push_bit n (mask m)) = push_bit n (take_bit m (drop_bit n x))"
  for x :: nat
  by (rule bit_eqI) (auto simp: bit_simps)

lemma segment_masks:
  fixes x :: nat
  assumes "x < 65536"
  shows "and x 0xfe00 = 0xfc00 \<longleftrightarrow> x div 512 = 126" "and x 0xffc0 = 0xfe80 \<longleftrightarrow> x div 64 = 1018"
proof -
  have "x div 512 < 128" "x div 64 < 1024" using assms by (simp_all add: less_mult_imp_div_less)
  moreover have "and x 0xfe00 = 512 * (x div 512 mod 128)" "and x 0xffc0 = 64 * (x div 64 mod 1024)"
    using and_high_mask [of x 9 7] and_high_mask [of x 6 10]
    by (simp_all add: push_bit_eq_mult take_bit_eq_mod drop_bit_eq_div mask_eq_exp_minus_1 mult.commute)
  ultimately show "and x 0xfe00 = 0xfc00 \<longleftrightarrow> x div 512 = 126"
    "and x 0xffc0 = 0xfe80 \<longleftrightarrow> x div 64 = 1018"
    by simp_all
qed

lemma v6_segment0: "segment6 0 ip = unat ip div 2 ^ 112" "segment6 0 ip < 65536"
proof -
  have "unat ip div 2 ^ 112 < 65536"
    using unat6_lt [of ip] by (intro less_mult_imp_div_less) simp
  then show "segment6 0 ip = unat ip div 2 ^ 112" by (simp add: segment6_def)
  show "segment6 0 ip < 65536" by (simp add: segment6_def)
qed

lemma v6_blocks:
  "in_block (block6 [0, 0, 0, 0, 0, 0, 0, 0] 128) (wide (V6 ip)) \<longleftrightarrow> ip = 0"
  "in_block (block6 [0, 0, 0, 0, 0, 0, 0, 1] 128) (wide (V6 ip)) \<longleftrightarrow> ip = 1"
  "in_block (block6 [0xfc00, 0, 0, 0, 0, 0, 0, 0] 7) (wide (V6 ip)) \<longleftrightarrow> v6_is_unique_local ip"
  "in_block (block6 [0xfe80, 0, 0, 0, 0, 0, 0, 0] 10) (wide (V6 ip)) \<longleftrightarrow> v6_is_unicast_link_local ip"
  "in_block (block6 [0xff00, 0, 0, 0, 0, 0, 0, 0] 8) (wide (V6 ip)) \<longleftrightarrow> v6_is_multicast ip"
  "in_block (block6 [0x2001, 0xdb8, 0, 0, 0, 0, 0, 0] 32) (wide (V6 ip)) \<longleftrightarrow> is_documentation_v6 ip"
proof -
  note defs = in_block_def block6_def from_digits_def wide.simps
  show "in_block (block6 [0, 0, 0, 0, 0, 0, 0, 0] 128) (wide (V6 ip)) \<longleftrightarrow> ip = 0"
    "in_block (block6 [0, 0, 0, 0, 0, 0, 0, 1] 128) (wide (V6 ip)) \<longleftrightarrow> ip = 1"
    by (simp_all add: defs word_unat_eq_iff)
  have seg: "unat ip div 2 ^ 121 = segment6 0 ip div 512" "unat ip div 2 ^ 118 = segment6 0 ip div 64"
    "unat ip div 2 ^ 120 = segment6 0 ip div 256"
    by (simp_all add: v6_segment0 flip: div_mult2_eq)
  show "in_block (block6 [0xfc00, 0, 0, 0, 0, 0, 0, 0] 7) (wide (V6 ip)) \<longleftrightarrow> v6_is_unique_local ip"
    "in_block (block6 [0xfe80, 0, 0, 0, 0, 0, 0, 0] 10) (wide (V6 ip)) \<longleftrightarrow> v6_is_unicast_link_local ip"
    "in_block (block6 [0xff00, 0, 0, 0, 0, 0, 0, 0] 8) (wide (V6 ip)) \<longleftrightarrow> v6_is_multicast ip"
    using seg v6_segment0(2) [of ip]
    by (simp_all add: defs v6_is_unique_local_def v6_is_unicast_link_local_def v6_is_multicast_def
        segment_masks)
  have seg1: "segment6 1 ip = unat ip div 2 ^ 96 mod 65536" by (simp add: segment6_def)
  have "unat ip div 2 ^ 96 = k \<longleftrightarrow> segment6 0 ip = k div 65536 \<and> segment6 1 ip = k mod 65536" for k
    by (subst eq_iff_div_mod [where m = 65536]) (simp add: v6_segment0(1) seg1 del: One_nat_def flip: div_mult2_eq)
  then show "in_block (block6 [0x2001, 0xdb8, 0, 0, 0, 0, 0, 0] 32) (wide (V6 ip))
      \<longleftrightarrow> is_documentation_v6 ip"
    by (simp add: defs is_documentation_v6_def)
qed

lemma wide_mapped: "to_ipv4_mapped ip = Some m \<Longrightarrow> wide (V6 ip) = wide (V4 m)"
proof -
  assume "to_ipv4_mapped ip = Some m"
  then have "unat ip div 2 ^ 32 = 65535" and m: "m = of_nat (unat ip mod 2 ^ 32)"
    by (auto simp: to_ipv4_mapped_def split: if_splits)
  moreover have "unat m = unat ip mod 2 ^ 32"
    unfolding m by (simp add: unat_of_nat)
  ultimately show ?thesis
    unfolding wide.simps by (metis div_mult_mod_eq)
qed

lemma v4_blocks_unmapped:
  assumes "to_ipv4_mapped ip = None" "from_digits 256 os < 2 ^ 32" "len \<le> 32"
  shows "\<not> in_block (block4 os len) (wide (V6 ip))"
  using block4_mapped [OF _ assms(3,2)] assms(1)
  by (auto simp: to_ipv4_mapped_def wide.simps split: if_splits)

lemma host_local_iff: "host_local ip = is_private_or_loopback_ip ip"
proof (cases ip)
  case (V4 w)
  then show ?thesis by (simp add: host_local_v4_table)
next
  case (V6 w)
  show ?thesis
  proof (cases "to_ipv4_mapped w")
    case None
    note no4 = v4_blocks_unmapped [OF None]
    show ?thesis
      unfolding V6 host_local_def host_local_blocks_def list_ex_Cons_iff list_ex_Nil_iff v6_blocks
      by (simp add: None no4 from_digits_def disj_ac)
  next
    case (Some m)
    then show ?thesis
      using host_local_v4_table [of m] by (simp add: V6 host_local_def wide_mapped)
  qed
qed

end
