(* ===== verification/Network.thy ===== *)
theory Network
  imports NetAddresses HostAudit TextLines HashMaps Traces
begin

section \<open>Network policy and HTTP egress\<close>

text \<open>
  \<open>crates/ironclaw_network/src/lib.rs\<close>: the static policy, the URL, address and header checks of
  \<open>PolicyNetworkHttpEgress\<close>, and its default transport over \<open>reqwest\<close> clients that are pinned to
  the checked addresses. The URL parser (\<open>url::Url\<close>), the operating system's name lookup, and the
  building and sending of a \<open>reqwest\<close> client are arguments; a resolver and a transport act on a
  shared state \<open>'w\<close>. Lock poisoning is not modelled.
\<close>

type_synonym u16 = "16 word"
type_synonym header = "string \<times> string"

record network_request =
  nr_scope :: resource_scope
  nr_target :: network_target
  nr_method :: network_method
  nr_estimated_bytes :: "u64 option"

record network_permit =
  pm_scope :: resource_scope
  pm_target :: network_target
  pm_method :: network_method
  pm_estimated_bytes :: "u64 option"

record http_request =
  hq_scope :: resource_scope
  hq_method :: network_method
  hq_url :: string
  hq_headers :: "header list"
  hq_body :: string
  hq_policy :: network_policy
  hq_response_body_limit :: "u64 option"
  hq_timeout_ms :: "u32 option"

record transport_request =
  tq_method :: network_method
  tq_url :: string
  tq_headers :: "header list"
  tq_body :: string
  tq_resolved_ips :: "ip_addr list"
  tq_response_body_limit :: "u64 option"
  tq_timeout_ms :: "u32 option"

record network_usage =
  nu_request_bytes :: u64
  nu_response_bytes :: u64
  nu_resolved_ip :: "ip_addr option"

record http_response =
  hs_status :: u16
  hs_headers :: "header list"
  hs_body :: string
  hs_usage :: network_usage

subsection \<open>Errors\<close>

datatype network_http_error =
    HttpInvalidUrl string u64 u64
  | HttpPolicyDenied string u64 u64
  | HttpDns string u64 u64
  | HttpTransport string u64 u64
  | HttpResponseBodyLimit u64 u64 u64

datatype network_http_error_kind =
    KindInvalidUrl
  | KindPolicyDenied
  | KindDnsFailed
  | KindTransportFailed
  | KindResponseBodyLimitExceeded

fun http_error_kind :: "network_http_error \<Rightarrow> network_http_error_kind" where
  "http_error_kind (HttpInvalidUrl _ _ _) = KindInvalidUrl"
| "http_error_kind (HttpPolicyDenied _ _ _) = KindPolicyDenied"
| "http_error_kind (HttpDns _ _ _) = KindDnsFailed"
| "http_error_kind (HttpTransport _ _ _) = KindTransportFailed"
| "http_error_kind (HttpResponseBodyLimit _ _ _) = KindResponseBodyLimitExceeded"

fun http_error_kind_as_str :: "network_http_error_kind \<Rightarrow> string" where
  "http_error_kind_as_str KindInvalidUrl = ''invalid_url''"
| "http_error_kind_as_str KindPolicyDenied = ''policy_denied''"
| "http_error_kind_as_str KindDnsFailed = ''dns_failed''"
| "http_error_kind_as_str KindTransportFailed = ''transport_failed''"
| "http_error_kind_as_str KindResponseBodyLimitExceeded = ''response_body_limit_exceeded''"

definition http_stable_reason :: "network_http_error \<Rightarrow> string" where
  "http_stable_reason e = http_error_kind_as_str (http_error_kind e)"

fun http_error_request_bytes :: "network_http_error \<Rightarrow> u64" where
  "http_error_request_bytes (HttpInvalidUrl _ q _) = q"
| "http_error_request_bytes (HttpPolicyDenied _ q _) = q"
| "http_error_request_bytes (HttpDns _ q _) = q"
| "http_error_request_bytes (HttpTransport _ q _) = q"
| "http_error_request_bytes (HttpResponseBodyLimit _ q _) = q"

fun http_error_response_bytes :: "network_http_error \<Rightarrow> u64" where
  "http_error_response_bytes (HttpInvalidUrl _ _ r) = r"
| "http_error_response_bytes (HttpPolicyDenied _ _ r) = r"
| "http_error_response_bytes (HttpDns _ _ r) = r"
| "http_error_response_bytes (HttpTransport _ _ r) = r"
| "http_error_response_bytes (HttpResponseBodyLimit _ _ r) = r"

fun http_error_display :: "network_http_error \<Rightarrow> string" where
  "http_error_display (HttpInvalidUrl m _ _) = ''invalid network URL: '' @ m"
| "http_error_display (HttpPolicyDenied m _ _) = ''network policy denied request: '' @ m"
| "http_error_display (HttpDns m _ _) = ''network DNS resolution failed: '' @ m"
| "http_error_display (HttpTransport m _ _) = ''network transport failed: '' @ m"
| "http_error_display (HttpResponseBodyLimit limit _ _) =
     ''network response body exceeded limit '' @ nat_display (unat limit)"

datatype network_policy_error =
    TargetDenied resource_scope network_target
  | PrivateTargetDenied resource_scope network_target
  | EgressEstimateRequired resource_scope u64
  | EgressLimitExceeded resource_scope u64 u64

fun policy_error_display :: "network_policy_error \<Rightarrow> string" where
  "policy_error_display (TargetDenied _ _) = ''network target is not allowed by policy''"
| "policy_error_display (PrivateTargetDenied _ _) =
     ''network target is private, loopback, link-local, documentation, or otherwise host-local''"
| "policy_error_display (EgressEstimateRequired _ limit) =
     ''network egress estimate is required when limit '' @ nat_display (unat limit)
     @ '' is configured''"
| "policy_error_display (EgressLimitExceeded _ estimated limit) =
     ''network egress estimate '' @ nat_display (unat estimated) @ '' exceeds limit ''
     @ nat_display (unat limit)"

subsection \<open>Strings\<close>

text \<open>\<open>to_ascii_lowercase\<close> and \<open>eq_ignore_ascii_case\<close>.\<close>

definition ascii_lower :: "char \<Rightarrow> char" where
  "ascii_lower c = (if 65 \<le> byte_of c \<and> byte_of c \<le> 90 then char_of (byte_of c + 32) else c)"

definition to_ascii_lowercase :: "string \<Rightarrow> string" where
  "to_ascii_lowercase s = map ascii_lower s"

definition eq_ignore_ascii_case :: "string \<Rightarrow> string \<Rightarrow> bool" where
  "eq_ignore_ascii_case a b \<longleftrightarrow> to_ascii_lowercase a = to_ascii_lowercase b"

definition strip_suffix :: "string \<Rightarrow> string \<Rightarrow> string option" where
  "strip_suffix x s = (if suffix x s then Some (take (length s - length x) s) else None)"

text \<open>
  \<open>str::trim\<close>: white space at either end goes, a character of one to three bytes at a time.
\<close>

definition leading_white_space :: "string \<Rightarrow> nat" where
  "leading_white_space s =
     (if s \<noteq> [] \<and> is_blank (take 1 s) then 1
      else if 2 \<le> length s \<and> is_blank (take 2 s) then 2
      else if 3 \<le> length s \<and> is_blank (take 3 s) then 3 else 0)"

function trim_start :: "string \<Rightarrow> string" where
  "trim_start s =
     (if leading_white_space s = 0 then s else trim_start (drop (leading_white_space s) s))"
  by auto

termination
  by (relation "measure length") (auto simp: leading_white_space_def split: if_splits)

definition trailing_white_space :: "string \<Rightarrow> nat" where
  "trailing_white_space s =
     (if s \<noteq> [] \<and> is_blank (drop (length s - 1) s) then 1
      else if 2 \<le> length s \<and> is_blank (drop (length s - 2) s) then 2
      else if 3 \<le> length s \<and> is_blank (drop (length s - 3) s) then 3 else 0)"

function trim_end :: "string \<Rightarrow> string" where
  "trim_end s =
     (if trailing_white_space s = 0 then s
      else trim_end (take (length s - trailing_white_space s) s))"
  by auto

termination
  by (relation "measure length") (auto simp: trailing_white_space_def split: if_splits)

declare trim_start.simps [simp del] trim_end.simps [simp del]

definition str_trim :: "string \<Rightarrow> string" where
  "str_trim s = trim_end (trim_start s)"

subsection \<open>Policy\<close>

definition host_matches_pattern :: "string \<Rightarrow> string \<Rightarrow> bool" where
  "host_matches_pattern host pattern =
     (let host = to_ascii_lowercase host; pattern = to_ascii_lowercase pattern
      in case strip_prefix ''*.'' pattern of
           Some suffix_part \<Rightarrow>
             (case strip_suffix (''.'' @ suffix_part) host of
                None \<Rightarrow> False
              | Some prefix_part \<Rightarrow> prefix_part \<noteq> [] \<and> CHR ''.'' \<notin> set prefix_part)
         | None \<Rightarrow> host = pattern)"

definition target_matches_pattern :: "network_target \<Rightarrow> network_target_pattern \<Rightarrow> bool" where
  "target_matches_pattern target pattern =
     (if \<exists>s. np_scheme pattern = Some s \<and> s \<noteq> nt_scheme target then False
      else if np_port pattern \<noteq> None \<and> np_port pattern \<noteq> nt_port target then False
      else host_matches_pattern (to_ascii_lowercase (nt_host target)) (np_host_pattern pattern))"

definition literal_private_host :: "network_policy \<Rightarrow> network_target \<Rightarrow> bool" where
  "literal_private_host policy target \<longleftrightarrow> pol_deny_private_ip_ranges policy
     \<and> (case parse_ip (nt_host target) of Some ip \<Rightarrow> is_private_or_loopback_ip ip | None \<Rightarrow> False)"

definition network_policy_allows :: "network_policy \<Rightarrow> network_target \<Rightarrow> bool" where
  "network_policy_allows policy target =
     (if pol_allowed_targets policy = [] then False
      else if literal_private_host policy target then False
      else list_ex (target_matches_pattern target) (pol_allowed_targets policy))"

definition authorize_static_policy ::
    "network_policy \<Rightarrow> network_request \<Rightarrow> (network_policy_error, network_permit) result" where
  "authorize_static_policy policy request =
     bind_result
       (case pol_max_egress_bytes policy of
          None \<Rightarrow> Inr ()
        | Some limit \<Rightarrow>
            (case nr_estimated_bytes request of
               None \<Rightarrow> Inl (EgressEstimateRequired (nr_scope request) limit)
             | Some estimated \<Rightarrow>
                 if limit < estimated then Inl (EgressLimitExceeded (nr_scope request) estimated limit)
                 else Inr ()))
       (\<lambda>_.
          if literal_private_host policy (nr_target request) then
            Inl (PrivateTargetDenied (nr_scope request) (nr_target request))
          else if \<not> network_policy_allows policy (nr_target request) then
            Inl (TargetDenied (nr_scope request) (nr_target request))
          else Inr \<lparr>pm_scope = nr_scope request, pm_target = nr_target request,
            pm_method = nr_method request, pm_estimated_bytes = nr_estimated_bytes request\<rparr>)"

subsection \<open>URLs, headers and sizes\<close>

record parsed_url =
  pu_username :: string
  pu_password :: "string option"
  pu_scheme :: string
  pu_host_str :: "string option"
  pu_port_or_known_default :: "u16 option"

type_synonym url_parser = "string \<Rightarrow> (string, parsed_url) result"

definition network_target_for_url ::
    "url_parser \<Rightarrow> string \<Rightarrow> u64 \<Rightarrow> (network_http_error, network_target) result" where
  "network_target_for_url parse raw request_bytes =
     bind_result (map_err (\<lambda>e. HttpInvalidUrl e request_bytes 0) (parse raw)) (\<lambda>url.
       if pu_username url \<noteq> [] \<or> pu_password url \<noteq> None then
         Inl (HttpInvalidUrl ''URL userinfo is not allowed'' request_bytes 0)
       else bind_result
         (if pu_scheme url = ''http'' then Inr Http
          else if pu_scheme url = ''https'' then Inr Https
          else Inl (HttpInvalidUrl (''unsupported URL scheme '' @ pu_scheme url) request_bytes 0))
         (\<lambda>scheme.
            case pu_host_str url of
              Some host \<Rightarrow>
                if is_blank host then Inl (HttpInvalidUrl ''URL host is required'' request_bytes 0)
                else Inr \<lparr>nt_scheme = scheme, nt_host = to_ascii_lowercase host,
                  nt_port = pu_port_or_known_default url\<rparr>
            | None \<Rightarrow> Inl (HttpInvalidUrl ''URL host is required'' request_bytes 0)))"

fun scheme_label :: "network_scheme \<Rightarrow> string" where
  "scheme_label Http = ''http''"
| "scheme_label Https = ''https''"

fun default_port :: "network_scheme \<Rightarrow> u16" where
  "default_port Http = 80"
| "default_port Https = 443"

definition reject_caller_host_header :: "header list \<Rightarrow> (network_http_error, unit) result" where
  "reject_caller_host_header headers =
     (if list_ex (\<lambda>(name, _). eq_ignore_ascii_case (str_trim name) ''host'') headers then
        Inl (HttpPolicyDenied ''caller-provided Host header is not allowed'' 0 0)
      else Inr ())"

definition add_len :: "u64 \<Rightarrow> nat \<Rightarrow> u64" where
  "add_len acc len = saturating_add acc (if len < 2 ^ 64 then of_nat len else - 1)"

fun method_label :: "network_method \<Rightarrow> string" where
  "method_label Get = ''GET''"
| "method_label Post = ''POST''"
| "method_label Put = ''PUT''"
| "method_label Patch = ''PATCH''"
| "method_label Delete = ''DELETE''"
| "method_label Head = ''HEAD''"

definition crlf :: string where
  "crlf = [CHR 0x0D, CHR 0x0A]"

definition add_header_len :: "header \<Rightarrow> u64 \<Rightarrow> u64" where
  "add_header_len h acc =
     add_len (add_len (add_len (add_len acc (length (fst h))) (length '': ''))
       (length (snd h))) (length crlf)"

definition estimate_http_request_bytes ::
    "network_method \<Rightarrow> string \<Rightarrow> header list \<Rightarrow> string \<Rightarrow> u64" where
  "estimate_http_request_bytes m url headers body =
     (let acc = add_len 0 (length (method_label m));
          acc = add_len acc (length '' '');
          acc = add_len acc (length url);
          acc = add_len acc (length ('' HTTP/1.1'' @ crlf));
          acc = fold add_header_len headers acc;
          acc = add_len acc (length crlf)
      in add_len acc (length body))"

subsection \<open>Egress\<close>

type_synonym 'w network_resolver =
  "string \<Rightarrow> u16 \<Rightarrow> ('w, network_http_error, ip_addr list) operation"

type_synonym 'w http_transport = "transport_request \<Rightarrow> ('w, network_http_error, http_response) operation"

text \<open>The name lookup of the operating system: an error text, or the addresses of the host.\<close>

type_synonym 'w name_lookup = "string \<Rightarrow> u16 \<Rightarrow> ('w, string, ip_addr list) operation"

definition system_resolver :: "'w name_lookup \<Rightarrow> 'w network_resolver" where
  "system_resolver lookup host port =
     (case parse_ip host of
        Some ip \<Rightarrow> return_op [ip]
      | None \<Rightarrow> map_err_op (\<lambda>e. HttpDns e 0 0) (lookup host port))"

definition resolve_public_ips ::
    "network_target \<Rightarrow> network_policy \<Rightarrow> 'w network_resolver
     \<Rightarrow> ('w, network_http_error, ip_addr list) operation" where
  "resolve_public_ips target policy resolver =
     bind_op
       (case parse_ip (nt_host target) of
          Some ip \<Rightarrow> return_op [ip]
        | None \<Rightarrow>
            map_err_op (\<lambda>e. HttpDns (http_error_display e) 0 (http_error_response_bytes e))
              (resolver (nt_host target)
                (case nt_port target of Some p \<Rightarrow> p | None \<Rightarrow> default_port (nt_scheme target))))
       (\<lambda>ips.
          if ips = [] then
            fail_op (HttpDns ''network target did not resolve to any IP addresses'' 0 0)
          else if pol_deny_private_ip_ranges policy \<and> list_ex is_private_or_loopback_ip ips then
            fail_op (HttpPolicyDenied ''network target resolves to a private or host-local IP'' 0 0)
          else return_op ips)"

definition lift_result :: "('e, 'a) result \<Rightarrow> ('s, 'e, 'a) operation" where
  "lift_result r s = (r, s)"

definition egress_request_estimate :: "http_request \<Rightarrow> u64" where
  "egress_request_estimate q =
     estimate_http_request_bytes (hq_method q) (hq_url q) (hq_headers q) (hq_body q)"

definition finish_response :: "u64 \<Rightarrow> ip_addr option \<Rightarrow> http_response \<Rightarrow> http_response" where
  "finish_response body_bytes first_ip r =
     (let u = hs_usage r
      in r\<lparr>hs_usage := u\<lparr>nu_request_bytes := max (nu_request_bytes u) body_bytes,
         nu_resolved_ip := (case nu_resolved_ip u of Some ip \<Rightarrow> Some ip | None \<Rightarrow> first_ip)\<rparr>\<rparr>)"

definition first_of :: "'a list \<Rightarrow> 'a option" where
  "first_of xs = (case xs of [] \<Rightarrow> None | x # _ \<Rightarrow> Some x)"

definition transport_request_for :: "http_request \<Rightarrow> network_permit \<Rightarrow> ip_addr list \<Rightarrow> transport_request" where
  "transport_request_for q permit ips = \<lparr>tq_method = pm_method permit, tq_url = hq_url q,
     tq_headers = hq_headers q, tq_body = hq_body q, tq_resolved_ips = ips,
     tq_response_body_limit = hq_response_body_limit q, tq_timeout_ms = hq_timeout_ms q\<rparr>"

definition egress_execute ::
    "url_parser \<Rightarrow> 'w network_resolver \<Rightarrow> 'w http_transport \<Rightarrow> http_request
     \<Rightarrow> ('w, network_http_error, http_response) operation" where
  "egress_execute parse resolver transport q =
     bind_op (lift_result (reject_caller_host_header (hq_headers q))) (\<lambda>_.
     bind_op (lift_result (network_target_for_url parse (hq_url q) (egress_request_estimate q)))
       (\<lambda>target.
     bind_op (lift_result (map_err (\<lambda>e. HttpPolicyDenied (policy_error_display e) 0 0)
         (authorize_static_policy (hq_policy q)
           \<lparr>nr_scope = hq_scope q, nr_target = target, nr_method = hq_method q,
            nr_estimated_bytes = Some (egress_request_estimate q)\<rparr>))) (\<lambda>permit.
     bind_op (resolve_public_ips target (hq_policy q) resolver) (\<lambda>ips.
     bind_op (transport (transport_request_for q permit ips)) (\<lambda>response.
     return_op (finish_response (of_nat (length (hq_body q))) (first_of ips) response))))))"

subsection \<open>The \<open>reqwest\<close> transport\<close>

definition DEFAULT_RESPONSE_BODY_LIMIT :: u64 where
  "DEFAULT_RESPONSE_BODY_LIMIT = 5 * 1024 * 1024"

definition MAX_RESPONSE_BODY_LIMIT :: u64 where
  "MAX_RESPONSE_BODY_LIMIT = DEFAULT_RESPONSE_BODY_LIMIT"

definition effective_response_body_limit :: "u64 option \<Rightarrow> u64" where
  "effective_response_body_limit requested =
     min (case requested of Some l \<Rightarrow> l | None \<Rightarrow> DEFAULT_RESPONSE_BODY_LIMIT) MAX_RESPONSE_BODY_LIMIT"

text \<open>A \<open>Duration\<close> in nanoseconds.\<close>

type_synonym duration = nat

definition from_millis :: "nat \<Rightarrow> duration" where
  "from_millis ms = ms * 1000000"

definition effective_request_timeout :: "u32 option \<Rightarrow> duration \<Rightarrow> duration" where
  "effective_request_timeout requested_ms def =
     (case requested_ms of
        Some ms \<Rightarrow> min (from_millis (unat (max ms 1))) def
      | None \<Rightarrow> def)"

type_synonym socket_addr = "ip_addr \<times> u16"

record client_key =
  ck_host :: string
  ck_port :: u16
  ck_resolved_addrs :: "socket_addr list"
  ck_timeout :: duration

text \<open>
  What a \<open>reqwest::blocking::ClientBuilder\<close> is told: whether redirects are followed, the timeout,
  and the addresses to connect to for a host instead of a name lookup.
\<close>

record client_config =
  cc_follow_redirects :: bool
  cc_timeout :: duration
  cc_resolve_to_addrs :: "(string \<times> socket_addr list) option"

definition client_config_for :: "client_key \<Rightarrow> client_config" where
  "client_config_for k = \<lparr>cc_follow_redirects = False, cc_timeout = ck_timeout k,
     cc_resolve_to_addrs = (if ck_resolved_addrs k \<noteq> []
       then Some (ck_host k, ck_resolved_addrs k) else None)\<rparr>"

definition MAX_REQWEST_CLIENT_CACHE_ENTRIES :: nat where
  "MAX_REQWEST_CLIENT_CACHE_ENTRIES = 128"

text \<open>A raw response: a header value may not be text, and reading the body may fail after some bytes.\<close>

record raw_response =
  rr_status :: u16
  rr_headers :: "(string \<times> string option) list"
  rr_body :: string
  rr_read_error :: "string option"

record ('c, 'o) http_client_library =
  hl_build :: "client_config \<Rightarrow> (string, 'c) result"
  hl_send :: "'c \<Rightarrow> network_method \<Rightarrow> string \<Rightarrow> header list \<Rightarrow> string
    \<Rightarrow> ('o, string, raw_response) operation"

text \<open>The transport's client cache beside the outside world.\<close>

record ('c, 'o) transport_state =
  ts_client_cache :: "(client_key, 'c) hash_map"
  ts_outside :: 'o

definition client_for ::
    "('c, 'o) http_client_library \<Rightarrow> client_key \<Rightarrow> u64
     \<Rightarrow> (('c, 'o) transport_state, network_http_error, 'c) operation" where
  "client_for lib key request_bytes s =
     (case hm_get key (ts_client_cache s) of
        Some client \<Rightarrow> (Inr client, s)
      | None \<Rightarrow>
          (case hl_build lib (client_config_for key) of
             Inl e \<Rightarrow> (Inl (HttpTransport e request_bytes 0), s)
           | Inr client \<Rightarrow>
               (let cache = ts_client_cache s;
                    cache = (if MAX_REQWEST_CLIENT_CACHE_ENTRIES \<le> length cache then [] else cache)
                in case hm_get key cache of
                     Some present \<Rightarrow> (Inr present, s\<lparr>ts_client_cache := cache\<rparr>)
                   | None \<Rightarrow> (Inr client, s\<lparr>ts_client_cache := hm_insert key client cache\<rparr>))))"

text \<open>
  \<open>response.take(limit + 1).read_to_end\<close>: the read stops after \<open>limit + 1\<close> bytes; an error that the
  body would raise later is not seen.
\<close>

definition read_limited :: "u64 \<Rightarrow> raw_response \<Rightarrow> string \<times> string option" where
  "read_limited limit r =
     (let n = unat (saturating_add limit 1)
      in if n \<le> length (rr_body r) then (take n (rr_body r), None)
         else (rr_body r, rr_read_error r))"

definition on_outside :: "('o \<Rightarrow> 'r \<times> 'o) \<Rightarrow> ('c, 'o) transport_state \<Rightarrow> 'r \<times> ('c, 'o) transport_state" where
  "on_outside f s = (case f (ts_outside s) of (r, o') \<Rightarrow> (r, s\<lparr>ts_outside := o'\<rparr>))"

definition text_headers :: "(string \<times> string option) list \<Rightarrow> header list" where
  "text_headers hs = concat (map (\<lambda>(name, v). case v of Some t \<Rightarrow> [(name, t)] | None \<Rightarrow> []) hs)"

definition receive_response ::
    "transport_request \<Rightarrow> u64 \<Rightarrow> raw_response \<Rightarrow> (network_http_error, http_response) result" where
  "receive_response q request_bytes raw =
     (let limit = effective_response_body_limit (tq_response_body_limit q)
      in case read_limited limit raw of
           (body, Some e) \<Rightarrow> Inl (HttpTransport e request_bytes (of_nat (length body)))
         | (body, None) \<Rightarrow>
             if limit < of_nat (length body) then
               Inl (HttpResponseBodyLimit limit request_bytes (of_nat (length body)))
             else Inr \<lparr>hs_status = rr_status raw, hs_headers = text_headers (rr_headers raw),
               hs_body = body,
               hs_usage = \<lparr>nu_request_bytes = request_bytes,
                 nu_response_bytes = of_nat (length body),
                 nu_resolved_ip = first_of (tq_resolved_ips q)\<rparr>\<rparr>)"

definition reqwest_execute ::
    "url_parser \<Rightarrow> ('c, 'o) http_client_library \<Rightarrow> duration
     \<Rightarrow> ('c, 'o) transport_state http_transport" where
  "reqwest_execute parse lib timeout q =
     (let request_bytes = of_nat (length (tq_body q)) in
      bind_op (lift_result (reject_caller_host_header (tq_headers q))) (\<lambda>_.
      bind_op (lift_result (map_err (\<lambda>e. HttpInvalidUrl e request_bytes 0) (parse (tq_url q)))) (\<lambda>url.
      bind_op (lift_result (case pu_host_str url of Some h \<Rightarrow> Inr h
          | None \<Rightarrow> Inl (HttpInvalidUrl ''URL host is required'' request_bytes 0))) (\<lambda>host.
      bind_op (lift_result (case pu_port_or_known_default url of Some p \<Rightarrow> Inr p
          | None \<Rightarrow> Inl (HttpInvalidUrl ''URL port is required'' request_bytes 0))) (\<lambda>port.
      bind_op (client_for lib \<lparr>ck_host = host, ck_port = port,
          ck_resolved_addrs = map (\<lambda>ip. (ip, port)) (tq_resolved_ips q),
          ck_timeout = effective_request_timeout (tq_timeout_ms q) timeout\<rparr> request_bytes) (\<lambda>client.
      bind_op (map_err_op (\<lambda>e. HttpTransport e request_bytes 0)
          (on_outside (hl_send lib client (tq_method q) (tq_url q) (tq_headers q) (tq_body q)))) (\<lambda>raw.
      lift_result (receive_response q request_bytes raw))))))))"

subsection \<open>What the checks mean\<close>

text \<open>
  A host pattern admits its own host, or, if it starts with a wildcard, each host with exactly one
  more label, all up to letter case.
\<close>

definition host_admitted :: "string \<Rightarrow> string \<Rightarrow> bool" where
  "host_admitted pattern host \<longleftrightarrow>
     (\<not> prefix ''*.'' pattern \<and> eq_ignore_ascii_case host pattern)
     \<or> (\<exists>label domain. pattern = ''*.'' @ domain \<and> label \<noteq> [] \<and> CHR ''.'' \<notin> set label
          \<and> eq_ignore_ascii_case host (label @ ''.'' @ domain))"

definition target_admitted :: "network_policy \<Rightarrow> network_target \<Rightarrow> bool" where
  "target_admitted policy t \<longleftrightarrow> (\<exists>p \<in> set (pol_allowed_targets policy).
     np_scheme p \<in> {None, Some (nt_scheme t)} \<and> np_port p \<in> {None, nt_port t}
     \<and> host_admitted (np_host_pattern p) (nt_host t))"

text \<open>The text of an HTTP/1.1 request, whose length the estimate is.\<close>

definition request_text :: "network_method \<Rightarrow> string \<Rightarrow> header list \<Rightarrow> string \<Rightarrow> string" where
  "request_text m url headers body =
     method_label m @ '' '' @ url @ '' HTTP/1.1'' @ crlf
     @ concat (map (\<lambda>(name, v). name @ '': '' @ v @ crlf) headers) @ crlf @ body"

definition url_target :: "parsed_url \<Rightarrow> network_target \<Rightarrow> bool" where
  "url_target u t \<longleftrightarrow> pu_username u = [] \<and> pu_password u = None
     \<and> pu_scheme u = scheme_label (nt_scheme t) \<and> nt_port t = pu_port_or_known_default u
     \<and> (\<exists>h. pu_host_str u = Some h \<and> \<not> is_blank h \<and> nt_host t = to_ascii_lowercase h)"

definition names_target :: "url_parser \<Rightarrow> http_request \<Rightarrow> network_target \<Rightarrow> bool" where
  "names_target parse q t \<longleftrightarrow> (\<exists>u. parse (hq_url q) = Inr u \<and> url_target u t)"

definition addresses_public :: "network_policy \<Rightarrow> ip_addr list \<Rightarrow> bool" where
  "addresses_public policy ips \<longleftrightarrow>
     ips \<noteq> [] \<and> (pol_deny_private_ip_ranges policy \<longrightarrow> list_all (\<lambda>ip. \<not> host_local ip) ips)"

definition request_vetted :: "url_parser \<Rightarrow> http_request \<Rightarrow> network_target \<Rightarrow> bool" where
  "request_vetted parse q t \<longleftrightarrow> names_target parse q t \<and> target_admitted (hq_policy q) t
     \<and> (case pol_max_egress_bytes (hq_policy q) of None \<Rightarrow> True
        | Some limit \<Rightarrow> min (length (request_text (hq_method q) (hq_url q) (hq_headers q) (hq_body q)))
            (2 ^ 64 - 1) \<le> unat limit)
     \<and> list_all (\<lambda>(name, _). \<not> eq_ignore_ascii_case (str_trim name) ''host'') (hq_headers q)"

definition sent_request :: "http_request \<Rightarrow> ip_addr list \<Rightarrow> transport_request" where
  "sent_request q ips = \<lparr>tq_method = hq_method q, tq_url = hq_url q, tq_headers = hq_headers q,
     tq_body = hq_body q, tq_resolved_ips = ips,
     tq_response_body_limit = hq_response_body_limit q, tq_timeout_ms = hq_timeout_ms q\<rparr>"

lemma sent_request_sel:
  "tq_method (sent_request q ips) = hq_method q" "tq_url (sent_request q ips) = hq_url q"
  "tq_headers (sent_request q ips) = hq_headers q" "tq_body (sent_request q ips) = hq_body q"
  "tq_resolved_ips (sent_request q ips) = ips"
  "tq_response_body_limit (sent_request q ips) = hq_response_body_limit q"
  by (simp_all add: sent_request_def)

definition target_port :: "network_target \<Rightarrow> u16" where
  "target_port t = (case nt_port t of Some p \<Rightarrow> p | None \<Rightarrow> default_port (nt_scheme t))"

subsection \<open>The checks mean what they should\<close>

lemma ascii_lower_idem [simp]: "ascii_lower (ascii_lower c) = ascii_lower c"
proof (cases "65 \<le> byte_of c \<and> byte_of c \<le> 90")
  case True
  have "byte_of (char_of (byte_of c + 32)) = byte_of c + 32"
    using True by (simp add: byte_of_def)
  then show ?thesis using True by (simp add: ascii_lower_def)
next
  case False
  then have "ascii_lower c = c" unfolding ascii_lower_def by (rule if_not_P)
  then show ?thesis by simp
qed

lemma lowercase_idem [simp]: "to_ascii_lowercase (to_ascii_lowercase s) = to_ascii_lowercase s"
  by (simp add: to_ascii_lowercase_def)

lemma lowercase_append [simp]:
  "to_ascii_lowercase (a @ b) = to_ascii_lowercase a @ to_ascii_lowercase b"
  by (simp add: to_ascii_lowercase_def)

lemma ascii_lower_dot [simp]:
  "ascii_lower (CHR ''.'') = CHR ''.''" "ascii_lower (CHR ''*'') = CHR ''*''"
  by (simp_all add: ascii_lower_def byte_of_def)

lemma byte_of_inj: "byte_of a = byte_of b \<longleftrightarrow> a = b"
  by (simp add: byte_of_def)

lemma ascii_lower_eq_punct:
  "ascii_lower c = CHR ''.'' \<longleftrightarrow> c = CHR ''.''" "ascii_lower c = CHR ''*'' \<longleftrightarrow> c = CHR ''*''"
proof -
  have "byte_of (ascii_lower c) \<ge> 97 \<or> ascii_lower c = c"
    by (auto simp: ascii_lower_def byte_of_def)
  moreover have "byte_of (CHR ''.'') = 46" "byte_of (CHR ''*'') = 42" by (simp_all add: byte_of_def)
  ultimately show "ascii_lower c = CHR ''.'' \<longleftrightarrow> c = CHR ''.''"
    "ascii_lower c = CHR ''*'' \<longleftrightarrow> c = CHR ''*''"
    using ascii_lower_dot by fastforce+
qed

lemma lowercase_dot_mem: "CHR ''.'' \<in> set (to_ascii_lowercase s) \<longleftrightarrow> CHR ''.'' \<in> set s"
  by (induction s) (auto simp: to_ascii_lowercase_def ascii_lower_eq_punct dest: sym)

lemma lowercase_eq_Cons:
  "to_ascii_lowercase s = c # t \<longleftrightarrow>
     (\<exists>d s'. s = d # s' \<and> ascii_lower d = c \<and> to_ascii_lowercase s' = t)"
  by (cases s) (auto simp: to_ascii_lowercase_def)

lemma strip_suffix_Some: "strip_suffix x s = Some r \<longleftrightarrow> s = r @ x"
  by (auto simp: strip_suffix_def suffix_def)

lemma case_strip_suffix:
  "(case strip_suffix x s of None \<Rightarrow> False | Some r \<Rightarrow> P r) \<longleftrightarrow> (\<exists>r. s = r @ x \<and> P r)"
  by (auto simp: strip_suffix_def suffix_def)

lemma strip_prefix_append: "strip_prefix x (x @ r) = Some r"
  by (simp add: strip_prefix_def)

lemma strip_prefix_Some: "strip_prefix x s = Some r \<longleftrightarrow> s = x @ r"
  by (auto simp: strip_prefix_def prefix_def)

lemma lowercase_wildcard:
  "to_ascii_lowercase pattern = ''*.'' @ d \<longleftrightarrow>
     (\<exists>domain. pattern = ''*.'' @ domain \<and> d = to_ascii_lowercase domain)"
  by (auto simp: lowercase_eq_Cons ascii_lower_eq_punct)

lemma lowercase_split:
  "to_ascii_lowercase s = a @ b \<longleftrightarrow>
     (\<exists>a' b'. s = a' @ b' \<and> a = to_ascii_lowercase a' \<and> b = to_ascii_lowercase b')"
  by (auto simp: to_ascii_lowercase_def map_eq_append_conv)

lemma host_matches_pattern_exact: "host_matches_pattern host pattern = host_admitted pattern host"
proof (cases "\<exists>domain. pattern = ''*.'' @ domain")
  case True
  then obtain domain where p: "pattern = ''*.'' @ domain" by blast
  have low: "to_ascii_lowercase pattern = ''*.'' @ to_ascii_lowercase domain"
    by (simp add: p to_ascii_lowercase_def)
  have "host_matches_pattern host pattern \<longleftrightarrow>
      (\<exists>l. to_ascii_lowercase host = l @ ''.'' @ to_ascii_lowercase domain \<and> l \<noteq> [] \<and> CHR ''.'' \<notin> set l)"
    unfolding host_matches_pattern_def Let_def low strip_prefix_append option.case
      case_strip_suffix ..
  also have "\<dots> \<longleftrightarrow> host_admitted pattern host"
  proof
    assume "\<exists>l. to_ascii_lowercase host = l @ ''.'' @ to_ascii_lowercase domain \<and> l \<noteq> [] \<and> CHR ''.'' \<notin> set l"
    then obtain l where l: "to_ascii_lowercase host = l @ ''.'' @ to_ascii_lowercase domain" "l \<noteq> []"
      "CHR ''.'' \<notin> set l" by blast
    then obtain l' r where "host = l' @ r" "l = to_ascii_lowercase l'" by (auto simp: lowercase_split)
    then show "host_admitted pattern host"
      using l lowercase_dot_mem [of l']
      by (auto simp: host_admitted_def p eq_ignore_ascii_case_def to_ascii_lowercase_def)
  next
    assume "host_admitted pattern host"
    then show "\<exists>l. to_ascii_lowercase host = l @ ''.'' @ to_ascii_lowercase domain \<and> l \<noteq> []
        \<and> CHR ''.'' \<notin> set l"
      unfolding host_admitted_def p eq_ignore_ascii_case_def
    proof (elim disjE exE conjE)
      fix label d
      assume "''*.'' @ domain = ''*.'' @ d" "label \<noteq> []" "CHR ''.'' \<notin> set label"
        "to_ascii_lowercase host = to_ascii_lowercase (label @ ''.'' @ d)"
      then show ?thesis
        by (intro exI [of _ "to_ascii_lowercase label"])
          (simp add: lowercase_dot_mem, simp add: to_ascii_lowercase_def)
    qed (simp add: prefix_def)
  qed
  finally show ?thesis .
next
  case False
  then have "strip_prefix ''*.'' (to_ascii_lowercase pattern) = None"
    by (metis lowercase_wildcard option.exhaust strip_prefix_Some)
  then show ?thesis
    using False by (auto simp: host_matches_pattern_def host_admitted_def eq_ignore_ascii_case_def prefix_def)
qed

lemma target_matches_iff:
  "target_matches_pattern t p \<longleftrightarrow> np_scheme p \<in> {None, Some (nt_scheme t)}
     \<and> np_port p \<in> {None, nt_port t} \<and> host_admitted (np_host_pattern p) (nt_host t)"
proof -
  have "host_matches_pattern (to_ascii_lowercase h) p = host_admitted p h" for h p
    using host_matches_pattern_exact [of h p] by (simp add: host_matches_pattern_def)
  then show ?thesis
    by (cases "np_scheme p"; cases "np_port p") (auto simp: target_matches_pattern_def)
qed

lemma target_admitted_iff:
  "target_admitted policy t \<longleftrightarrow> list_ex (target_matches_pattern t) (pol_allowed_targets policy)"
  by (simp only: target_admitted_def list_ex_iff Bex_def target_matches_iff)

lemma unat_add_len: "unat (add_len n k) = min (unat n + k) (2 ^ 64 - 1)"
  by (auto simp: add_len_def unat_saturating_add unat_of_nat unat_max_word)

lemma saturated_sum: "min (min a m + b) m = min (a + b) m" for a b m :: nat
  by simp

lemma unat_add_header_lens:
  "unat (fold add_header_len hs n) =
     min (unat n + length (concat (map (\<lambda>(name, v). name @ '': '' @ v @ crlf) hs))) (2 ^ 64 - 1)"
proof (induction hs arbitrary: n)
  case Nil
  then show ?case using unat_le_max [of n] by simp
next
  case (Cons h hs)
  have "unat (add_header_len h n) = min (unat n + length (fst h @ '': '' @ snd h @ crlf)) (2 ^ 64 - 1)"
    unfolding add_header_len_def unat_add_len saturated_sum by (simp only: length_append add.assoc)
  then show ?case
    by (cases h) (simp only: fold_simps Cons.IH saturated_sum list.map concat.simps length_append
        case_prod_conv fst_conv snd_conv add.assoc)
qed

lemma estimate_is_request_length:
  "unat (estimate_http_request_bytes m url headers body) =
     min (length (request_text m url headers body)) (2 ^ 64 - 1)"
  unfolding estimate_http_request_bytes_def Let_def unat_add_len unat_add_header_lens saturated_sum
    request_text_def length_append
  by (simp only: unsigned_0 add_0 add.assoc)

subsection \<open>Only vetted requests leave\<close>

lemma url_checked:
  "network_target_for_url parse raw n = Inr t \<longleftrightarrow> (\<exists>u. parse raw = Inr u \<and> url_target u t)"
  by (cases "nt_scheme t")
    (auto simp: network_target_for_url_def url_target_def bind_result_Inr_iff
      split: if_splits option.splits intro!: network_target.equality)

lemma static_policy_checked:
  assumes "authorize_static_policy policy r = Inr permit"
  shows "pm_method permit = nr_method r" "target_admitted policy (nr_target r)"
    "pol_max_egress_bytes policy = Some limit \<Longrightarrow> \<exists>n. nr_estimated_bytes r = Some n \<and> n \<le> limit"
  using assms
  by (auto simp: authorize_static_policy_def bind_result_Inr_iff network_policy_allows_def
      target_admitted_iff not_less split: option.splits if_splits)

definition looked_up ::
    "'w network_resolver \<Rightarrow> network_target \<Rightarrow> 'w \<Rightarrow> 'w \<Rightarrow> bool" where
  "looked_up resolver t w w' \<longleftrightarrow> w' = w \<or> w' = snd (resolver (nt_host t) (target_port t) w)"

lemma public_iff: "list_ex is_private_or_loopback_ip ips \<longleftrightarrow> \<not> list_all (\<lambda>ip. \<not> host_local ip) ips"
  by (simp add: host_local_iff list_ex_iff list_all_iff)

lemma resolution_checked:
  assumes "resolve_public_ips t policy resolver w = (r, w')"
  shows "looked_up resolver t w w'" and "r = Inr ips \<Longrightarrow> addresses_public policy ips"
proof -
  define answer where "answer = (case parse_ip (nt_host t) of Some ip \<Rightarrow> return_op [ip]
    | None \<Rightarrow> map_err_op (\<lambda>e. HttpDns (http_error_display e) 0 (http_error_response_bytes e))
        (resolver (nt_host t) (target_port t)))"
  obtain v w1 where v: "answer w = (v, w1)" by fastforce
  have looked: "looked_up resolver t w w1"
    using v by (auto simp: answer_def op_defs looked_up_def apfst_def map_prod_def
        split: option.splits prod.splits)
  note run = assms [unfolded resolve_public_ips_def target_port_def [symmetric],
      folded answer_def, unfolded bind_op_def v]
  show "looked_up resolver t w w'"
    using looked run by (cases v) (auto simp: op_defs split: if_splits)
  show "addresses_public policy ips" if "r = Inr ips"
    using run that
    by (cases v) (auto simp: op_defs addresses_public_def public_iff split: if_splits)
qed

lemma header_checked:
  "reject_caller_host_header hs = Inr u \<longleftrightarrow>
     list_all (\<lambda>(name, _). \<not> eq_ignore_ascii_case (str_trim name) ''host'') hs"
  by (auto simp: reject_caller_host_header_def list_ex_iff list_all_iff)

text \<open>
  An egress is a refusal, which has done nothing but perhaps look up the host of a vetted request,
  or one call of the transport with a vetted request and public addresses, whose answer it
  passes on.
\<close>

definition egress_refused ::
    "url_parser \<Rightarrow> 'w network_resolver \<Rightarrow> http_request \<Rightarrow> 'w
     \<Rightarrow> (network_http_error, http_response) result \<times> 'w \<Rightarrow> bool" where
  "egress_refused parse resolver q w out \<longleftrightarrow> is_err (fst out)
     \<and> (snd out = w \<or> (\<exists>t. request_vetted parse q t \<and> looked_up resolver t w (snd out)))"

definition egress_sent ::
    "url_parser \<Rightarrow> 'w network_resolver \<Rightarrow> 'w http_transport \<Rightarrow> http_request \<Rightarrow> 'w
     \<Rightarrow> (network_http_error, http_response) result \<times> 'w \<Rightarrow> bool" where
  "egress_sent parse resolver transport q w out \<longleftrightarrow> (\<exists>t ips w1.
     request_vetted parse q t \<and> looked_up resolver t w w1 \<and> addresses_public (hq_policy q) ips
     \<and> snd out = snd (transport (sent_request q ips) w1)
     \<and> (case fst (transport (sent_request q ips) w1) of
          Inl e \<Rightarrow> fst out = Inl e
        | Inr response \<Rightarrow>
            fst out = Inr (finish_response (of_nat (length (hq_body q))) (first_of ips) response)))"

lemma vetted_intro:
  assumes "reject_caller_host_header (hq_headers q) = Inr u"
    and "network_target_for_url parse (hq_url q) n = Inr t"
    and "authorize_static_policy (hq_policy q) \<lparr>nr_scope = hq_scope q, nr_target = t,
       nr_method = hq_method q, nr_estimated_bytes = Some (egress_request_estimate q)\<rparr> = Inr permit"
  shows "request_vetted parse q t"
  using assms(1,2) static_policy_checked [OF assms(3)]
  by (auto simp: request_vetted_def header_checked names_target_def url_checked word_le_nat_alt
      egress_request_estimate_def estimate_is_request_length simp del: min_def split: option.split)

lemma egress_outcome:
  "egress_refused parse resolver q w (egress_execute parse resolver transport q w)
   \<or> egress_sent parse resolver transport q w (egress_execute parse resolver transport q w)"
proof (cases "reject_caller_host_header (hq_headers q)")
  case (Inl e)
  then show ?thesis by (simp add: egress_refused_def egress_execute_def op_defs lift_result_def)
next
  case headers: (Inr u)
  show ?thesis
  proof (cases "network_target_for_url parse (hq_url q) (egress_request_estimate q)")
    case (Inl e)
    then show ?thesis
      by (simp add: headers egress_refused_def egress_execute_def op_defs lift_result_def)
  next
    case target: (Inr t)
    show ?thesis
    proof (cases "authorize_static_policy (hq_policy q) \<lparr>nr_scope = hq_scope q, nr_target = t,
        nr_method = hq_method q, nr_estimated_bytes = Some (egress_request_estimate q)\<rparr>")
      case (Inl e)
      then show ?thesis
        by (simp add: headers target egress_refused_def egress_execute_def op_defs lift_result_def)
    next
      case permit: (Inr p)
      note vetted = vetted_intro [OF headers target permit]
      obtain r w1 where r: "resolve_public_ips t (hq_policy q) resolver w = (r, w1)" by fastforce
      note checked = resolution_checked [OF r]
      show ?thesis
      proof (cases r)
        case (Inl e)
        then show ?thesis
          using vetted checked(1)
          by (auto simp: headers target permit r egress_refused_def egress_execute_def op_defs
              lift_result_def)
      next
        case (Inr ips)
        have "transport_request_for q p ips = sent_request q ips"
          using static_policy_checked(1) [OF permit]
          by (simp add: transport_request_for_def sent_request_def)
        then have "egress_execute parse resolver transport q w =
            (case transport (sent_request q ips) w1 of
               (Inl e, w2) \<Rightarrow> (Inl e, w2)
             | (Inr a, w2) \<Rightarrow>
                 (Inr (finish_response (of_nat (length (hq_body q))) (first_of ips) a), w2))"
          by (simp add: headers target permit r Inr egress_execute_def op_defs lift_result_def
              split: prod.split sum.split)
        then show ?thesis
          using vetted checked(1) checked(2) [OF Inr] unfolding egress_sent_def
          by (intro disjI2 exI [of _ t] exI [of _ ips] exI [of _ w1])
            (auto split: prod.splits sum.splits)
      qed
    qed
  qed
qed

subsection \<open>Connections go to the checked addresses\<close>

definition network_stack ::
    "url_parser \<Rightarrow> 'o name_lookup \<Rightarrow> ('c, 'o) http_client_library \<Rightarrow> duration \<Rightarrow> http_request
     \<Rightarrow> (('c, 'o) transport_state, network_http_error, http_response) operation" where
  "network_stack parse lookup lib timeout =
     egress_execute parse (system_resolver (\<lambda>host port. on_outside (lookup host port)))
       (reqwest_execute parse lib timeout)"

definition fresh_transport :: "'o \<Rightarrow> ('c, 'o) transport_state" where
  "fresh_transport o1 = \<lparr>ts_client_cache = [], ts_outside = o1\<rparr>"

text \<open>Every cached client was built for its key, and the cache stays small.\<close>

definition cache_sound :: "('c, 'o) http_client_library \<Rightarrow> ('c, 'o) transport_state \<Rightarrow> bool" where
  "cache_sound lib s \<longleftrightarrow> length (ts_client_cache s) \<le> MAX_REQWEST_CLIENT_CACHE_ENTRIES
     \<and> (\<forall>k c. hm_get k (ts_client_cache s) = Some c \<longrightarrow> hl_build lib (client_config_for k) = Inr c)"

lemma length_hm_insert: "length (hm_insert k v m) \<le> Suc (length m)"
  by (induction m) (auto simp: hm_insert_def)

lemma client_for_sound:
  assumes "cache_sound lib s" "client_for lib key n s = (r, s')"
  shows "cache_sound lib s'" "ts_outside s' = ts_outside s"
    "r = Inr c \<Longrightarrow> hl_build lib (client_config_for key) = Inr c"
proof -
  let ?kept = "if MAX_REQWEST_CLIENT_CACHE_ENTRIES \<le> length (ts_client_cache s) then []
    else ts_client_cache s"
  have small: "length (hm_insert key x ?kept) \<le> MAX_REQWEST_CLIENT_CACHE_ENTRIES" for x
    using length_hm_insert [of key x ?kept]
    by (auto simp: MAX_REQWEST_CLIENT_CACHE_ENTRIES_def)
  show "cache_sound lib s'" "ts_outside s' = ts_outside s"
    "r = Inr c \<Longrightarrow> hl_build lib (client_config_for key) = Inr c"
    using assms small
    by (auto simp: client_for_def cache_sound_def Let_def split: option.splits sum.splits if_splits)
qed

lemma receive_bounded:
  assumes "receive_response q n raw = Inr response"
  shows "length (hs_body response) \<le> unat (effective_response_body_limit (tq_response_body_limit q))"
proof -
  let ?limit = "effective_response_body_limit (tq_response_body_limit q)"
  have small: "unat ?limit + 1 < 2 ^ 64"
    by (simp add: effective_response_body_limit_def MAX_RESPONSE_BODY_LIMIT_def min_def
        DEFAULT_RESPONSE_BODY_LIMIT_def word_le_nat_alt)
  obtain body e where b: "read_limited ?limit raw = (body, e)" by fastforce
  have "length body \<le> unat ?limit + 1"
    using b small
    by (auto simp: read_limited_def Let_def unat_saturating_add split: if_splits)
  moreover have "e = None" "\<not> ?limit < of_nat (length body)" "hs_body response = body"
    using assms b by (auto simp: receive_response_def Let_def split: option.splits if_splits)
  ultimately show ?thesis
    using small by (simp add: not_less word_le_nat_alt unat_of_nat)
qed

definition pinned_config :: "string \<Rightarrow> u16 \<Rightarrow> ip_addr list \<Rightarrow> duration \<Rightarrow> client_config" where
  "pinned_config host port ips d = \<lparr>cc_follow_redirects = False, cc_timeout = d,
     cc_resolve_to_addrs = Some (host, map (\<lambda>ip. (ip, port)) ips)\<rparr>"

lemma timeout_bounded: "effective_request_timeout ms d \<le> d"
  by (simp add: effective_request_timeout_def split: option.split)

text \<open>What the transport does to the outside world when it answers \<open>r\<close>.\<close>

definition transport_sent ::
    "url_parser \<Rightarrow> ('c, 'o) http_client_library \<Rightarrow> duration \<Rightarrow> transport_request
     \<Rightarrow> (network_http_error, http_response) result \<Rightarrow> 'o \<Rightarrow> 'o \<Rightarrow> bool" where
  "transport_sent parse lib timeout q r o1 o2 \<longleftrightarrow> (\<exists>u host port d client.
     parse (tq_url q) = Inr u \<and> pu_host_str u = Some host \<and> pu_port_or_known_default u = Some port
     \<and> d \<le> timeout \<and> hl_build lib (pinned_config host port (tq_resolved_ips q) d) = Inr client
     \<and> o2 = snd (hl_send lib client (tq_method q) (tq_url q) (tq_headers q) (tq_body q) o1)
     \<and> (case r of Inl _ \<Rightarrow> True | Inr response \<Rightarrow> length (hs_body response)
          \<le> unat (effective_response_body_limit (tq_response_body_limit q))))"

lemma reqwest_outcome:
  assumes "cache_sound lib s" "tq_resolved_ips q \<noteq> []"
    and run: "reqwest_execute parse lib timeout q s = (r, s')"
  shows "cache_sound lib s'"
    and "is_err r \<and> ts_outside s' = ts_outside s
      \<or> transport_sent parse lib timeout q r (ts_outside s) (ts_outside s')"
proof -
  let ?n = "of_nat (length (tq_body q)) :: u64"
  let ?d = "effective_request_timeout (tq_timeout_ms q) timeout"
  note defs = reqwest_execute_def op_defs lift_result_def Let_def
  have "cache_sound lib s' \<and> (is_err r \<and> ts_outside s' = ts_outside s
      \<or> transport_sent parse lib timeout q r (ts_outside s) (ts_outside s'))"
  proof (cases "is_err (reject_caller_host_header (tq_headers q)) \<or> is_err (parse (tq_url q))")
    case True
    then show ?thesis using assms by (auto simp: defs is_err_iff split: sum.splits)
  next
    case False
    then obtain x u where ok: "reject_caller_host_header (tq_headers q) = Inr x" "parse (tq_url q) = Inr u"
      by (auto simp: not_is_err_iff)
    show ?thesis
    proof (cases "pu_host_str u = None \<or> pu_port_or_known_default u = None")
      case True
      then show ?thesis using assms(1) run by (auto simp: defs ok split: option.splits)
    next
      case False
      then obtain host port where hp: "pu_host_str u = Some host" "pu_port_or_known_default u = Some port"
        by auto
      let ?key = "\<lparr>ck_host = host, ck_port = port,
        ck_resolved_addrs = map (\<lambda>ip. (ip, port)) (tq_resolved_ips q), ck_timeout = ?d\<rparr>"
      obtain c s1 where c: "client_for lib ?key ?n s = (c, s1)" by fastforce
      note sound = client_for_sound [OF assms(1) c]
      show ?thesis
      proof (cases c)
        case (Inl e)
        then show ?thesis using run sound by (auto simp: defs ok hp c)
      next
        case (Inr client)
        have built: "hl_build lib (pinned_config host port (tq_resolved_ips q) ?d) = Inr client"
          using sound(3) [OF Inr] assms(2) by (simp add: client_config_for_def pinned_config_def)
        obtain a o2 where a: "hl_send lib client (tq_method q) (tq_url q) (tq_headers q) (tq_body q)
            (ts_outside s) = (a, o2)" by fastforce
        have out: "s' = s1\<lparr>ts_outside := o2\<rparr>"
          "\<And>response. r = Inr response \<Longrightarrow> \<exists>raw. receive_response q ?n raw = Inr response"
          using run a sound(2) by (cases a; auto simp: defs ok hp c Inr on_outside_def)+
        have "transport_sent parse lib timeout q r (ts_outside s) (ts_outside s')"
          unfolding transport_sent_def
          by (intro exI [of _ u] exI [of _ host] exI [of _ port] exI [of _ ?d] exI [of _ client])
            (use ok hp built a out receive_bounded timeout_bounded in \<open>auto split: sum.split\<close>)
        then show ?thesis using sound(1) out(1) by (simp add: cache_sound_def)
      qed
    qed
  qed
  then show "cache_sound lib s'" "is_err r \<and> ts_outside s' = ts_outside s
      \<or> transport_sent parse lib timeout q r (ts_outside s) (ts_outside s')"
    by simp_all
qed

text \<open>What one egress of the whole stack does to the outside world.\<close>

definition egress_connected ::
    "url_parser \<Rightarrow> 'o name_lookup \<Rightarrow> ('c, 'o) http_client_library \<Rightarrow> duration \<Rightarrow> http_request
     \<Rightarrow> (network_http_error, http_response) result \<Rightarrow> 'o \<Rightarrow> 'o \<Rightarrow> bool" where
  "egress_connected parse lookup lib timeout q r o1 o3 \<longleftrightarrow>
     (\<exists>t ips host port d client o2. request_vetted parse q t
        \<and> (o2 = o1 \<or> o2 = snd (lookup (nt_host t) (target_port t) o1))
        \<and> addresses_public (hq_policy q) ips \<and> d \<le> timeout
        \<and> nt_host t = to_ascii_lowercase host \<and> nt_port t = Some port
        \<and> hl_build lib (pinned_config host port ips d) = Inr client
        \<and> o3 = snd (hl_send lib client (hq_method q) (hq_url q) (hq_headers q) (hq_body q) o2)
        \<and> (case r of Inl _ \<Rightarrow> True | Inr response \<Rightarrow> length (hs_body response)
             \<le> unat (effective_response_body_limit (hq_response_body_limit q))))"

definition egress_silent ::
    "url_parser \<Rightarrow> 'o name_lookup \<Rightarrow> http_request \<Rightarrow> (network_http_error, http_response) result
     \<Rightarrow> 'o \<Rightarrow> 'o \<Rightarrow> bool" where
  "egress_silent parse lookup q r o1 o2 \<longleftrightarrow> is_err r \<and> (o2 = o1
     \<or> (\<exists>t. request_vetted parse q t \<and> o2 = snd (lookup (nt_host t) (target_port t) o1)))"

lemma looked_up_outside:
  assumes "looked_up (system_resolver (\<lambda>host port. on_outside (lookup host port))) t s s'"
  shows "ts_client_cache s' = ts_client_cache s"
    and "ts_outside s' = ts_outside s
      \<or> ts_outside s' = snd (lookup (nt_host t) (target_port t) (ts_outside s))"
  using assms
  by (auto simp: looked_up_def system_resolver_def op_defs on_outside_def apfst_def map_prod_def
      split: option.splits prod.splits)

lemma finish_response_body [simp]: "hs_body (finish_response n ip response) = hs_body response"
  by (simp add: finish_response_def Let_def)

lemma network_stack_step:
  assumes sound: "cache_sound lib s"
  shows "cache_sound lib (snd (network_stack parse lookup lib timeout q s))"
    and "egress_silent parse lookup q (fst (network_stack parse lookup lib timeout q s))
           (ts_outside s) (ts_outside (snd (network_stack parse lookup lib timeout q s)))
       \<or> egress_connected parse lookup lib timeout q (fst (network_stack parse lookup lib timeout q s))
           (ts_outside s) (ts_outside (snd (network_stack parse lookup lib timeout q s)))"
proof -
  let ?out = "network_stack parse lookup lib timeout q s"
  let ?resolver = "system_resolver (\<lambda>host port. on_outside (lookup host port))"
  have "cache_sound lib (snd ?out) \<and> (egress_silent parse lookup q (fst ?out) (ts_outside s) (ts_outside (snd ?out))
    \<or> egress_connected parse lookup lib timeout q (fst ?out) (ts_outside s) (ts_outside (snd ?out)))"
    using egress_outcome [of parse ?resolver q s "reqwest_execute parse lib timeout",
        folded network_stack_def]
  proof
    assume "egress_refused parse ?resolver q s ?out"
    then show ?thesis
      using sound looked_up_outside [of lookup _ s "snd ?out"]
      unfolding egress_refused_def egress_silent_def cache_sound_def by metis
  next
    assume "egress_sent parse ?resolver (reqwest_execute parse lib timeout) q s ?out"
    then obtain t ips s1 where t: "request_vetted parse q t" "looked_up ?resolver t s s1"
      "addresses_public (hq_policy q) ips"
      and run: "snd ?out = snd (reqwest_execute parse lib timeout (sent_request q ips) s1)"
      "case fst (reqwest_execute parse lib timeout (sent_request q ips) s1) of
         Inl e \<Rightarrow> fst ?out = Inl e
       | Inr response \<Rightarrow> fst ?out =
           Inr (finish_response (of_nat (length (hq_body q))) (first_of ips) response)"
      unfolding egress_sent_def by blast
    obtain r s2 where r: "reqwest_execute parse lib timeout (sent_request q ips) s1 = (r, s2)" by fastforce
    have s1: "cache_sound lib s1" using sound looked_up_outside(1) [OF t(2)] by (simp add: cache_sound_def)
    have ips: "tq_resolved_ips (sent_request q ips) \<noteq> []"
      using t(3) by (simp add: sent_request_def addresses_public_def)
    note out = reqwest_outcome [OF s1 ips r]
    from out(2) show ?thesis
    proof
      assume "is_err r \<and> ts_outside s2 = ts_outside s1"
      then show ?thesis
        using run r out(1) looked_up_outside(2) [OF t(2)] t(1)
        by (auto simp: egress_silent_def is_err_iff)
    next
      assume "transport_sent parse lib timeout (sent_request q ips) r (ts_outside s1) (ts_outside s2)"
      then obtain u host port d client where u: "parse (hq_url q) = Inr u" "pu_host_str u = Some host"
        "pu_port_or_known_default u = Some port" "d \<le> timeout"
        "hl_build lib (pinned_config host port ips d) = Inr client"
        "ts_outside s2 = snd (hl_send lib client (hq_method q) (hq_url q) (hq_headers q) (hq_body q)
           (ts_outside s1))"
        "case r of Inl _ \<Rightarrow> True | Inr response \<Rightarrow> length (hs_body response)
           \<le> unat (effective_response_body_limit (hq_response_body_limit q))"
        unfolding transport_sent_def sent_request_sel by blast
      have "nt_host t = to_ascii_lowercase host" "nt_port t = Some port"
        using t(1) u(1-3) by (auto simp: request_vetted_def names_target_def url_target_def)
      then have "egress_connected parse lookup lib timeout q (fst ?out) (ts_outside s)
          (ts_outside (snd ?out))"
        using t u run r looked_up_outside(2) [OF t(2)] unfolding egress_connected_def
        by (intro exI [of _ t] exI [of _ ips] exI [of _ host] exI [of _ port] exI [of _ d]
            exI [of _ client] exI [of _ "ts_outside s1"]) (auto split: sum.splits)
      then show ?thesis using run(1) r out(1) by simp
    qed
  qed
  then show "cache_sound lib (snd ?out)"
    "egress_silent parse lookup q (fst ?out) (ts_outside s) (ts_outside (snd ?out))
     \<or> egress_connected parse lookup lib timeout q (fst ?out) (ts_outside s) (ts_outside (snd ?out))"
    by simp_all
qed

definition stack_after ::
    "url_parser \<Rightarrow> 'o name_lookup \<Rightarrow> ('c, 'o) http_client_library \<Rightarrow> duration \<Rightarrow> http_request list
     \<Rightarrow> 'o \<Rightarrow> ('c, 'o) transport_state" where
  "stack_after parse lookup lib timeout qs o1 =
     final_state (network_stack parse lookup lib timeout) qs (fresh_transport o1)"

lemma stack_after_sound: "cache_sound lib (stack_after parse lookup lib timeout qs o1)"
  unfolding stack_after_def
  by (rule final_state_invariant [of "cache_sound lib"])
    (erule network_stack_step, simp add: fresh_transport_def cache_sound_def)

subsection \<open>Properties\<close>

text \<open>
  The address classification of the egress, which tests octets and segments, holds of exactly
  the addresses of the table of special-purpose CIDR blocks: private, shared, loopback,
  link-local, documentation, multicast, broadcast and unspecified ones, whether an IPv4 address is
  written as such or mapped into IPv6.
\<close>

theorem private_ranges_exact: "is_private_or_loopback_ip ip = host_local ip"
  by (rule host_local_iff [symmetric])



end
