(* ===== verification/Handoffs.thy ===== *)
theory Handoffs
  imports HostAudit HashMaps Secrets Traces
begin

section \<open>Staged handoffs\<close>

text \<open>
  The in-memory stores of \<open>crates/ironclaw_host_runtime/src/obligations.rs\<close> through which the
  obligation handler hands a capability its network policy and its secret material:
  \<open>NetworkObligationPolicyStore\<close> and \<open>RuntimeSecretInjectionStore\<close>, whose entries expire.

  \<open>Instant::now()\<close> is an argument of each operation that reads the clock. The three scope keys of
  the source have the same fields and are one record here. A poisoned lock, the only cause of the
  store's error, is not modelled.
\<close>

subsection \<open>Keys\<close>

text \<open>An instant in nanoseconds; its seconds are a signed 64-bit number.\<close>

type_synonym instant = nat

definition instant_checked_add :: "instant \<Rightarrow> nat \<Rightarrow> instant option" where
  "instant_checked_add now d = (if now + d < 2 ^ 63 * 1000000000 then Some (now + d) else None)"

definition DEFAULT_RUNTIME_SECRET_INJECTION_TTL :: nat where
  "DEFAULT_RUNTIME_SECRET_INJECTION_TTL = 300 * 1000000000"

record handoff_key =
  hk_tenant_id :: string
  hk_user_id :: string
  hk_agent_id :: "string option"
  hk_project_id :: "string option"
  hk_mission_id :: "string option"
  hk_thread_id :: "string option"
  hk_invocation_id :: string
  hk_capability_id :: string

definition handoff_key_new :: "resource_scope \<Rightarrow> capability_id \<Rightarrow> handoff_key" where
  "handoff_key_new scope capability = \<lparr>hk_tenant_id = rs_tenant_id scope,
     hk_user_id = rs_user_id scope, hk_agent_id = rs_agent_id scope,
     hk_project_id = rs_project_id scope, hk_mission_id = rs_mission_id scope,
     hk_thread_id = rs_thread_id scope, hk_invocation_id = uuid_display (rs_invocation_id scope),
     hk_capability_id = capability\<rparr>"

record injection_key = handoff_key +
  ik_handle :: string

definition injection_key_new ::
    "resource_scope \<Rightarrow> capability_id \<Rightarrow> secret_handle \<Rightarrow> injection_key" where
  "injection_key_new scope capability handle = \<lparr>hk_tenant_id = rs_tenant_id scope,
     hk_user_id = rs_user_id scope, hk_agent_id = rs_agent_id scope,
     hk_project_id = rs_project_id scope, hk_mission_id = rs_mission_id scope,
     hk_thread_id = rs_thread_id scope, hk_invocation_id = uuid_display (rs_invocation_id scope),
     hk_capability_id = capability, ik_handle = handle\<rparr>"

definition matches_scope :: "injection_key \<Rightarrow> handoff_key \<Rightarrow> bool" where
  "matches_scope k scope \<longleftrightarrow> hk_tenant_id k = hk_tenant_id scope \<and> hk_user_id k = hk_user_id scope
     \<and> hk_agent_id k = hk_agent_id scope \<and> hk_project_id k = hk_project_id scope
     \<and> hk_mission_id k = hk_mission_id scope \<and> hk_thread_id k = hk_thread_id scope
     \<and> hk_invocation_id k = hk_invocation_id scope \<and> hk_capability_id k = hk_capability_id scope"

subsection \<open>The secret injection store\<close>

record injection_entry =
  ie_material :: secret_material
  ie_expires_at :: instant

type_synonym injection_map = "(injection_key, injection_entry) hash_map"

definition hm_retain :: "('k \<Rightarrow> 'v \<Rightarrow> bool) \<Rightarrow> ('k, 'v) hash_map \<Rightarrow> ('k, 'v) hash_map" where
  "hm_retain p m = filter (\<lambda>(k, v). p k v) m"

definition prune_expired_entries :: "instant \<Rightarrow> injection_map \<Rightarrow> nat \<times> injection_map" where
  "prune_expired_entries now m =
     (let m' = hm_retain (\<lambda>_ e. now < ie_expires_at e) m in (length m - length m', m'))"

definition injection_insert ::
    "nat \<Rightarrow> instant \<Rightarrow> resource_scope \<Rightarrow> capability_id \<Rightarrow> secret_handle \<Rightarrow> secret_material
     \<Rightarrow> injection_map \<Rightarrow> injection_map" where
  "injection_insert ttl now scope capability handle material m =
     (let expires_at = (case instant_checked_add now ttl of Some t \<Rightarrow> t | None \<Rightarrow> now)
      in hm_insert (injection_key_new scope capability handle)
           \<lparr>ie_material = material, ie_expires_at = expires_at\<rparr> (snd (prune_expired_entries now m)))"

definition injection_take ::
    "instant \<Rightarrow> resource_scope \<Rightarrow> capability_id \<Rightarrow> secret_handle \<Rightarrow> injection_map
     \<Rightarrow> secret_material option \<times> injection_map" where
  "injection_take now scope capability handle m =
     (let m = snd (prune_expired_entries now m); key = injection_key_new scope capability handle
      in (map_option ie_material (hm_get key m), hm_remove key m))"

definition prune_expired :: "instant \<Rightarrow> injection_map \<Rightarrow> nat \<times> injection_map" where
  "prune_expired now m = prune_expired_entries now m"

definition discard_for_capability ::
    "instant \<Rightarrow> resource_scope \<Rightarrow> capability_id \<Rightarrow> injection_map \<Rightarrow> injection_map" where
  "discard_for_capability now scope capability m =
     hm_retain (\<lambda>k _. \<not> matches_scope k (handoff_key_new scope capability))
       (snd (prune_expired_entries now m))"

definition has_for_capability ::
    "instant \<Rightarrow> resource_scope \<Rightarrow> capability_id \<Rightarrow> injection_map \<Rightarrow> bool \<times> injection_map" where
  "has_for_capability now scope capability m =
     (let m = snd (prune_expired_entries now m)
      in (list_ex (\<lambda>(k, _). matches_scope k (handoff_key_new scope capability)) m, m))"

subsection \<open>The network policy store\<close>

type_synonym policy_map = "(handoff_key, network_policy) hash_map"

definition policy_insert ::
    "resource_scope \<Rightarrow> capability_id \<Rightarrow> network_policy \<Rightarrow> policy_map \<Rightarrow> policy_map" where
  "policy_insert scope capability policy m = hm_insert (handoff_key_new scope capability) policy m"

definition policy_get :: "resource_scope \<Rightarrow> capability_id \<Rightarrow> policy_map \<Rightarrow> network_policy option" where
  "policy_get scope capability m = hm_get (handoff_key_new scope capability) m"

definition policy_take ::
    "resource_scope \<Rightarrow> capability_id \<Rightarrow> policy_map \<Rightarrow> network_policy option \<times> policy_map" where
  "policy_take scope capability m =
     (let key = handoff_key_new scope capability in (hm_get key m, hm_remove key m))"

definition policy_discard :: "resource_scope \<Rightarrow> capability_id \<Rightarrow> policy_map \<Rightarrow> policy_map" where
  "policy_discard scope capability m = snd (policy_take scope capability m)"

definition policy_contains :: "resource_scope \<Rightarrow> capability_id \<Rightarrow> policy_map \<Rightarrow> bool" where
  "policy_contains scope capability m \<longleftrightarrow> hm_get (handoff_key_new scope capability) m \<noteq> None"

subsection \<open>Keys are exact\<close>

lemma hex_digit_inj: "a < 16 \<Longrightarrow> b < 16 \<Longrightarrow> hex_digit a = hex_digit b \<Longrightarrow> a = b"
proof -
  assume ab: "a < 16" "b < 16" and eq: "hex_digit a = hex_digit b"
  have "of_char (hex_digit n) = (if n < 10 then 48 + n else 87 + n)" if "n < 16" for n :: nat
    using that by (simp add: hex_digit_def)
  then show "a = b" using ab arg_cong [OF eq, of "of_char :: char \<Rightarrow> nat"]
    by (simp split: if_splits)
qed

lemma uuid_digits_inj: "uuid_digits v = uuid_digits w \<Longrightarrow> v = w"
proof (rule bit_word_eqI)
  fix n
  assume eq: "uuid_digits v = uuid_digits w" and "n < LENGTH(128)"
  then have n: "n < 128" by simp
  let ?i = "31 - n div 4"
  let ?d = "\<lambda>w :: uuid. take_bit 4 (drop_bit (4 * (31 - ?i)) w)"
  have "uuid_digits v ! ?i = uuid_digits w ! ?i" by (simp add: eq)
  then have "hex_digit (unat (?d v)) = hex_digit (unat (?d w))"
    using nth_upt [of 0 ?i 32] by (simp add: uuid_digits_def)
  moreover have "unat (?d x) < 16" for x
    using take_bit_nat_less_exp [of 4] by (simp add: unsigned_take_bit_eq)
  ultimately have "unat (?d v) = unat (?d w)" using hex_digit_inj by blast
  then have d: "?d v = ?d w" by (simp add: word_unat_eq_iff)
  have "31 - ?i = n div 4" using n by (simp add: less_mult_imp_div_less)
  then have "bit x n = bit (?d x) (n mod 4)" for x :: uuid
    by (simp add: bit_simps)
  then show "bit v n = bit w n" using d by simp
qed

lemma uuid_display_inj [simp]: "uuid_display v = uuid_display w \<longleftrightarrow> v = w"
proof
  assume eq: "uuid_display v = uuid_display w"
  let ?v = "uuid_digits v" and ?w = "uuid_digits w"
  have glue: "drop n ?v = drop n ?w"
    if "take m (drop n ?v) = take m (drop n ?w)" "drop (m + n) ?v = drop (m + n) ?w" for m n
    using that by (metis append_take_drop_id drop_drop)
  have len: "length (uuid_digits x) = 32" for x by (simp add: uuid_digits_def)
  have "take 8 ?v = take 8 ?w" "take 4 (drop 8 ?v) = take 4 (drop 8 ?w)"
    "take 4 (drop 12 ?v) = take 4 (drop 12 ?w)" "take 4 (drop 16 ?v) = take 4 (drop 16 ?w)"
    "drop 20 ?v = drop 20 ?w"
    using eq by (simp_all add: uuid_display_def Let_def len)
  then have "drop 0 ?v = drop 0 ?w"
    using glue [of 4 16] glue [of 4 12] glue [of 4 8] glue [of 8 0] by simp
  then show "v = w" by (intro uuid_digits_inj) simp
qed simp

lemma handoff_key_eq [simp]:
  "handoff_key_new s c = handoff_key_new s' c' \<longleftrightarrow> s = s' \<and> c = c'"
  by (auto simp: handoff_key_new_def intro: resource_scope.equality)

lemma injection_key_eq [simp]:
  "injection_key_new s c h = injection_key_new s' c' h' \<longleftrightarrow> s = s' \<and> c = c' \<and> h = h'"
  by (auto simp: injection_key_new_def intro: resource_scope.equality)

lemma matches_scope_key [simp]:
  "matches_scope (injection_key_new s c h) (handoff_key_new s' c') \<longleftrightarrow> s = s' \<and> c = c'"
  by (auto simp: matches_scope_def injection_key_new_def handoff_key_new_def
      intro: resource_scope.equality)

lemma hm_keys_distinct_retain [simp]: "hm_keys_distinct m \<Longrightarrow> hm_keys_distinct (hm_retain p m)"
  by (induction m) (auto simp: hm_keys_distinct_def hm_retain_def)

lemma hm_get_retain:
  "hm_keys_distinct m \<Longrightarrow> hm_get k (hm_retain p m) =
     (case hm_get k m of None \<Rightarrow> None | Some v \<Rightarrow> if p k v then Some v else None)"
  by (induction m) (force simp: hm_keys_distinct_def hm_retain_def hm_get_def map_of_eq_None_iff)+

lemma hm_get_iff_mem: "hm_keys_distinct m \<Longrightarrow> hm_get k m = Some v \<longleftrightarrow> (k, v) \<in> set m"
  by (simp add: hm_keys_distinct_def hm_get_def)

subsection \<open>The specification of the injection store\<close>

text \<open>The store with its clock; time only goes forward.\<close>

record injection_state =
  in_clock :: instant
  in_map :: injection_map

datatype injection_command =
    AdvanceClock nat
  | InsertInjection resource_scope capability_id secret_handle secret_material
  | TakeInjection resource_scope capability_id secret_handle
  | PruneInjections
  | DiscardInjections resource_scope capability_id
  | HasInjections resource_scope capability_id

datatype injection_reply =
    InjectionDone
  | InjectionMaterial "secret_material option"
  | InjectionCount nat
  | InjectionFlag bool

fun injection_step ::
    "nat \<Rightarrow> injection_command \<Rightarrow> injection_state \<Rightarrow> injection_reply \<times> injection_state" where
  "injection_step ttl (AdvanceClock d) s = (InjectionDone, s\<lparr>in_clock := in_clock s + d\<rparr>)"
| "injection_step ttl (InsertInjection sc c h x) s =
     (InjectionDone, s\<lparr>in_map := injection_insert ttl (in_clock s) sc c h x (in_map s)\<rparr>)"
| "injection_step ttl (TakeInjection sc c h) s =
     (case injection_take (in_clock s) sc c h (in_map s) of
        (x, m) \<Rightarrow> (InjectionMaterial x, s\<lparr>in_map := m\<rparr>))"
| "injection_step ttl PruneInjections s =
     (case prune_expired (in_clock s) (in_map s) of (n, m) \<Rightarrow> (InjectionCount n, s\<lparr>in_map := m\<rparr>))"
| "injection_step ttl (DiscardInjections sc c) s =
     (InjectionDone, s\<lparr>in_map := discard_for_capability (in_clock s) sc c (in_map s)\<rparr>)"
| "injection_step ttl (HasInjections sc c) s =
     (case has_for_capability (in_clock s) sc c (in_map s) of
        (b, m) \<Rightarrow> (InjectionFlag b, s\<lparr>in_map := m\<rparr>))"

text \<open>
  The specification: a map that never prunes, whose entries count while they have not expired,
  and that gives an entry away once.
\<close>

record stash =
  vt_clock :: instant
  vt_entries :: "injection_key \<Rightarrow> injection_entry option"

definition stash_live :: "stash \<Rightarrow> injection_key \<Rightarrow> secret_material option" where
  "stash_live v k = (case vt_entries v k of
     Some e \<Rightarrow> if vt_clock v < ie_expires_at e then Some (ie_material e) else None | None \<Rightarrow> None)"

fun stash_step :: "nat \<Rightarrow> injection_command \<Rightarrow> stash \<Rightarrow> injection_reply \<times> stash" where
  "stash_step ttl (AdvanceClock d) v = (InjectionDone, v\<lparr>vt_clock := vt_clock v + d\<rparr>)"
| "stash_step ttl (InsertInjection sc c h x) v =
     (InjectionDone, v\<lparr>vt_entries := (vt_entries v)(injection_key_new sc c h \<mapsto>
        \<lparr>ie_material = x, ie_expires_at = (case instant_checked_add (vt_clock v) ttl of
           Some t \<Rightarrow> t | None \<Rightarrow> vt_clock v)\<rparr>)\<rparr>)"
| "stash_step ttl (TakeInjection sc c h) v =
     (InjectionMaterial (stash_live v (injection_key_new sc c h)),
      v\<lparr>vt_entries := (vt_entries v)(injection_key_new sc c h := None)\<rparr>)"
| "stash_step ttl PruneInjections v = (InjectionDone, v)"
| "stash_step ttl (DiscardInjections sc c) v =
     (InjectionDone, v\<lparr>vt_entries := (\<lambda>k. if matches_scope k (handoff_key_new sc c) then None
        else vt_entries v k)\<rparr>)"
| "stash_step ttl (HasInjections sc c) v =
     (InjectionFlag (\<exists>k. matches_scope k (handoff_key_new sc c) \<and> stash_live v k \<noteq> None), v)"

fun injection_reply_matches :: "injection_reply \<Rightarrow> injection_reply \<Rightarrow> bool" where
  "injection_reply_matches (InjectionCount _) q \<longleftrightarrow> q = InjectionDone"
| "injection_reply_matches r q \<longleftrightarrow> r = q"

definition stash_related :: "injection_state \<Rightarrow> stash \<Rightarrow> bool" where
  "stash_related s v \<longleftrightarrow> hm_keys_distinct (in_map s) \<and> vt_clock v = in_clock s
     \<and> (\<forall>k. hm_get k (in_map s) = vt_entries v k
          \<or> hm_get k (in_map s) = None \<and> stash_live v k = None)"

text \<open>After a pruning the map holds exactly the live entries.\<close>

definition live_entries :: "instant \<Rightarrow> (injection_key \<Rightarrow> injection_entry option) \<Rightarrow> injection_key
    \<Rightarrow> injection_entry option" where
  "live_entries now f k =
     (case f k of Some e \<Rightarrow> if now < ie_expires_at e then Some e else None | None \<Rightarrow> None)"

lemma pruned_live:
  assumes "stash_related s v"
  defines "m \<equiv> snd (prune_expired_entries (in_clock s) (in_map s))"
  shows "hm_keys_distinct m" "hm_get k m = live_entries (vt_clock v) (vt_entries v) k"
proof -
  have rel: "hm_keys_distinct (in_map s)" "vt_clock v = in_clock s"
    "hm_get k (in_map s) = vt_entries v k \<or> hm_get k (in_map s) = None \<and> stash_live v k = None"
    using assms(1) by (auto simp: stash_related_def)
  show "hm_keys_distinct m" using rel(1) by (simp add: m_def prune_expired_entries_def Let_def)
  show "hm_get k m = live_entries (vt_clock v) (vt_entries v) k"
    using rel
    by (auto simp: m_def prune_expired_entries_def Let_def hm_get_retain stash_live_def
        live_entries_def split: option.splits if_splits)
qed

lemma stash_live_iff: "stash_live v k = map_option ie_material (live_entries (vt_clock v) (vt_entries v) k)"
  by (simp add: stash_live_def live_entries_def split: option.split)

lemma stash_relatedI:
  assumes "hm_keys_distinct (in_map s)" "vt_clock v = in_clock s"
    and "\<And>k. hm_get k (in_map s) = live_entries (vt_clock v) (vt_entries v) k"
  shows "stash_related s v"
  using assms by (auto simp: stash_related_def stash_live_iff live_entries_def split: option.splits)

lemma insert_related:
  assumes "stash_related s v"
  shows "stash_related (snd (injection_step ttl (InsertInjection sc c h x) s))
    (snd (stash_step ttl (InsertInjection sc c h x) v))"
  using pruned_live [OF assms] assms
  by (auto simp: stash_related_def injection_insert_def Let_def stash_live_iff live_entries_def
      split: option.splits)

lemma take_related:
  assumes "stash_related s v"
  shows "stash_related (snd (injection_step ttl (TakeInjection sc c h) s))
      (snd (stash_step ttl (TakeInjection sc c h) v))"
    and "fst (injection_step ttl (TakeInjection sc c h) s) = fst (stash_step ttl (TakeInjection sc c h) v)"
  using pruned_live [OF assms] assms
  by (auto simp: stash_related_def injection_take_def Let_def stash_live_iff live_entries_def
      split: option.splits)

lemma discard_related:
  assumes "stash_related s v"
  shows "stash_related (snd (injection_step ttl (DiscardInjections sc c) s))
    (snd (stash_step ttl (DiscardInjections sc c) v))"
proof (rule stash_relatedI)
  show "vt_clock (snd (stash_step ttl (DiscardInjections sc c) v)) =
      in_clock (snd (injection_step ttl (DiscardInjections sc c) s))"
    using assms by (simp add: stash_related_def)
qed (use pruned_live [OF assms] in
    \<open>simp_all add: discard_for_capability_def hm_get_retain live_entries_def split: option.split\<close>)

lemma prune_related:
  "stash_related s v \<Longrightarrow> stash_related (s\<lparr>in_map := snd (prune_expired_entries (in_clock s) (in_map s))\<rparr>) v"
  using pruned_live [of s v] by (intro stash_relatedI) (simp_all add: stash_related_def)

lemma has_reply:
  assumes "stash_related s v"
  shows "fst (has_for_capability (in_clock s) sc c (in_map s)) \<longleftrightarrow>
    (\<exists>k. matches_scope k (handoff_key_new sc c) \<and> stash_live v k \<noteq> None)"
proof -
  let ?m = "snd (prune_expired_entries (in_clock s) (in_map s))"
  have "(k, e) \<in> set ?m \<longleftrightarrow> live_entries (vt_clock v) (vt_entries v) k = Some e" for k e
    using pruned_live [OF assms] hm_get_iff_mem [of ?m k e] by simp
  then show ?thesis
    by (auto simp: has_for_capability_def Let_def list_ex_iff stash_live_iff)
qed

interpretation injections: simulation "injection_step ttl" "stash_step ttl" "\<lambda>_. True" stash_related
  injection_reply_matches for ttl
proof (unfold_locales, goal_cases)
  case (1 s v c)
  then show ?case
  proof (cases c)
    case (AdvanceClock d)
    then show ?thesis using 1
      by (force simp: stash_related_def stash_live_def split: option.splits if_splits)
  next
    case PruneInjections
    then show ?thesis using prune_related [OF 1(1)]
      by (cases "prune_expired_entries (in_clock s) (in_map s)") (simp add: prune_expired_def)
  next
    case (HasInjections sc c)
    then show ?thesis using prune_related [OF 1(1)] by (simp add: has_for_capability_def Let_def)
  qed (use 1 in \<open>simp_all add: insert_related take_related discard_related
      del: injection_step.simps stash_step.simps\<close>)
next
  case (2 s v c)
  then show ?case
  proof (cases c)
    case (TakeInjection sc c h)
    then show ?thesis
      using take_related(2) [OF 2(1), of ttl sc c h] by (cases "fst (stash_step ttl (TakeInjection sc c h) v)")
        auto
  next
    case (HasInjections sc c)
    then show ?thesis using has_reply [OF 2(1), of sc c] by (auto split: prod.splits)
  qed (auto split: prod.splits)
qed

definition fresh_injections :: "instant \<Rightarrow> injection_state" where
  "fresh_injections now = \<lparr>in_clock = now, in_map = []\<rparr>"

definition empty_stash :: "instant \<Rightarrow> stash" where
  "empty_stash now = \<lparr>vt_clock = now, vt_entries = Map.empty\<rparr>"

text \<open>
  C35: Over any sequence of insertions, takings, prunings, discards and queries, at any times, the
  store of staged secrets answers like its specification: a secret is handed out at most once, only for
  the scope, capability and handle it was staged under, and only before it expires.
\<close>

theorem injection_store_refines_spec:
  "list_all2 (\<lambda>(c, r) (d, q). c = d \<and> injection_reply_matches r q)
     (history (injection_step ttl) cs (fresh_injections now))
     (history (stash_step ttl) cs (empty_stash now))"
  by (rule injections.histories_match)
    (simp_all add: stash_related_def fresh_injections_def empty_stash_def)

end
