(* ===== verification/Obligations.thy ===== *)
theory Obligations
  imports Handoffs HostPorts GovernorPort LeakDetector Approvals
begin

section \<open>The built-in obligation handler\<close>

text \<open>
  \<open>BuiltinObligationHandler\<close> of \<open>crates/ironclaw_host_runtime/src/obligations.rs\<close>: it prepares the
  obligations of a decision before a dispatch or a spawn, checks the output after a dispatch, and
  undoes the preparation. Its in-memory handoff stores are fields of the state; the audit sink, the
  secret store and the governor act on the rest of it, \<open>'o\<close>. The readings of the clock and the
  ids that are drawn are streams in the state. The JSON printer (\<open>serde_json\<close>) and the engines of
  the leak detector are arguments.
\<close>

subsection \<open>State\<close>

record 'o handoff_world =
  hf_policies :: policy_map
  hf_injections :: injection_map
  hf_clock :: "nat \<Rightarrow> instant"
  hf_timestamps :: "nat \<Rightarrow> timestamp"
  hf_uuids :: "nat \<Rightarrow> uuid"
  hf_rest :: 'o

type_synonym ('o, 'a) handler_op = "('o handoff_world, obligation_error, 'a) operation"

definition lift_rest :: "('o \<Rightarrow> 'r \<times> 'o) \<Rightarrow> 'o handoff_world \<Rightarrow> 'r \<times> 'o handoff_world" where
  "lift_rest f w = (case f (hf_rest w) of (r, x) \<Rightarrow> (r, w\<lparr>hf_rest := x\<rparr>))"

definition read_clock :: "'o handoff_world \<Rightarrow> instant \<times> 'o handoff_world" where
  "read_clock w = (hf_clock w 0, w\<lparr>hf_clock := (\<lambda>i. hf_clock w (Suc i))\<rparr>)"

definition draw_timestamp :: "'o handoff_world \<Rightarrow> timestamp \<times> 'o handoff_world" where
  "draw_timestamp w = (hf_timestamps w 0, w\<lparr>hf_timestamps := (\<lambda>i. hf_timestamps w (Suc i))\<rparr>)"

definition draw_uuid :: "'o handoff_world \<Rightarrow> uuid \<times> 'o handoff_world" where
  "draw_uuid w = (hf_uuids w 0, w\<lparr>hf_uuids := (\<lambda>i. hf_uuids w (Suc i))\<rparr>)"

record 'o builtin_handler =
  bh_audit_sink :: "'o audit_sink option"
  bh_network_policies :: bool
  bh_secret_store :: "'o secret_store option"
  bh_secret_injections :: "nat option"
  bh_resource_governor :: "'o governor_port option"
  bh_to_vec :: "json \<Rightarrow> (string, string) result"
  bh_regex :: regex_engine
  bh_search :: "string list \<Rightarrow> word_search option"

text \<open>
  The stores are shared: a handler only knows whether it has the policy store and, with its time to
  live, the injection store.
\<close>

definition builtin_handler_new ::
    "(json \<Rightarrow> (string, string) result) \<Rightarrow> regex_engine \<Rightarrow> (string list \<Rightarrow> word_search option)
     \<Rightarrow> 'o builtin_handler" where
  "builtin_handler_new to_vec regex search = \<lparr>bh_audit_sink = None, bh_network_policies = False,
     bh_secret_store = None, bh_secret_injections = None, bh_resource_governor = None,
     bh_to_vec = to_vec, bh_regex = regex, bh_search = search\<rparr>"

definition services_handler ::
    "(json \<Rightarrow> (string, string) result) \<Rightarrow> regex_engine \<Rightarrow> (string list \<Rightarrow> word_search option)
     \<Rightarrow> 'o audit_sink \<Rightarrow> 'o secret_store \<Rightarrow> 'o governor_port \<Rightarrow> 'o builtin_handler" where
  "services_handler to_vec regex search sink secrets gov =
     (builtin_handler_new to_vec regex search)\<lparr>bh_audit_sink := Some sink,
        bh_network_policies := True, bh_secret_store := Some secrets,
        bh_secret_injections := Some DEFAULT_RUNTIME_SECRET_INJECTION_TTL,
        bh_resource_governor := Some gov\<rparr>"

subsection \<open>The obligations of a request\<close>

definition network_obligation_failed :: obligation_error where
  "network_obligation_failed = ObligationFailedWith NetworkFailure"

definition secret_obligation_failed :: obligation_error where
  "secret_obligation_failed = ObligationFailedWith SecretFailure"

definition resource_obligation_failed :: obligation_error where
  "resource_obligation_failed = ObligationFailedWith ResourceFailure"

definition mount_obligation_failed :: obligation_error where
  "mount_obligation_failed = ObligationFailedWith MountFailure"

definition output_obligation_failed :: obligation_error where
  "output_obligation_failed = ObligationFailedWith OutputFailure"

definition audit_obligation_failed :: obligation_error where
  "audit_obligation_failed = ObligationFailedWith AuditFailure"

fun obligation_supported_before_dispatch :: "obligation_phase \<Rightarrow> obligation \<Rightarrow> bool" where
  "obligation_supported_before_dispatch phase (EnforceResourceCeiling _) \<longleftrightarrow> phase \<noteq> SpawnPhase"
| "obligation_supported_before_dispatch phase AuditAfter \<longleftrightarrow> phase \<noteq> SpawnPhase"
| "obligation_supported_before_dispatch phase RedactOutput \<longleftrightarrow> phase \<noteq> SpawnPhase"
| "obligation_supported_before_dispatch phase (EnforceOutputLimit _) \<longleftrightarrow> phase \<noteq> SpawnPhase"
| "obligation_supported_before_dispatch phase _ \<longleftrightarrow> True"

definition unsupported_obligations :: "obligation_phase \<Rightarrow> obligation list \<Rightarrow> obligation list" where
  "unsupported_obligations phase obs = filter (\<lambda>ob. \<not> obligation_supported_before_dispatch phase ob) obs"

fun obligation_supported_after_dispatch :: "obligation_phase \<Rightarrow> obligation \<Rightarrow> bool" where
  "obligation_supported_after_dispatch phase (EnforceResourceCeiling _) \<longleftrightarrow> phase \<noteq> SpawnPhase"
| "obligation_supported_after_dispatch phase AuditAfter \<longleftrightarrow> phase \<noteq> SpawnPhase"
| "obligation_supported_after_dispatch phase RedactOutput \<longleftrightarrow> phase \<noteq> SpawnPhase"
| "obligation_supported_after_dispatch phase (EnforceOutputLimit _) \<longleftrightarrow> phase \<noteq> SpawnPhase"
| "obligation_supported_after_dispatch phase _ \<longleftrightarrow> True"

definition unsupported_completion_obligations ::
    "obligation_phase \<Rightarrow> obligation list \<Rightarrow> obligation list" where
  "unsupported_completion_obligations phase obs =
     filter (\<lambda>ob. \<not> obligation_supported_after_dispatch phase ob) obs"

fun secret_injection_obligations :: "obligation list \<Rightarrow> secret_handle list" where
  "secret_injection_obligations [] = []"
| "secret_injection_obligations (InjectSecretOnce h # obs) = h # secret_injection_obligations obs"
| "secret_injection_obligations (_ # obs) = secret_injection_obligations obs"

definition validate_network_policy_metadata :: "network_policy \<Rightarrow> (obligation_error, unit) result" where
  "validate_network_policy_metadata p =
     (if pol_allowed_targets p = [] then Inl network_obligation_failed else Inr ())"

fun network_policy_from ::
    "network_policy option \<Rightarrow> obligation list \<Rightarrow> (obligation_error, network_policy option) result" where
  "network_policy_from acc [] = Inr acc"
| "network_policy_from acc (ApplyNetworkPolicy p # obs) =
     (if acc \<noteq> None then Inl network_obligation_failed
      else bind_result (validate_network_policy_metadata p) (\<lambda>_. network_policy_from (Some p) obs))"
| "network_policy_from acc (_ # obs) = network_policy_from acc obs"

definition network_policy_obligation ::
    "obligation list \<Rightarrow> (obligation_error, network_policy option) result" where
  "network_policy_obligation obs = network_policy_from None obs"

fun scoped_mount_from ::
    "execution_context \<Rightarrow> mount_view option \<Rightarrow> obligation list
     \<Rightarrow> (obligation_error, mount_view option) result" where
  "scoped_mount_from c acc [] = Inr acc"
| "scoped_mount_from c acc (UseScopedMounts m # obs) =
     (if acc \<noteq> None then Inl mount_obligation_failed
      else bind_result (map_err (\<lambda>_. mount_obligation_failed) (validate_mounts m)) (\<lambda>_.
        if \<not> mount_view_subset m (ec_mounts c) then Inl mount_obligation_failed
        else scoped_mount_from c (Some m) obs))"
| "scoped_mount_from c acc (_ # obs) = scoped_mount_from c acc obs"

definition scoped_mount_obligation ::
    "execution_context \<Rightarrow> obligation list \<Rightarrow> (obligation_error, mount_view option) result" where
  "scoped_mount_obligation c obs = scoped_mount_from c None obs"

fun resource_ceiling_from ::
    "resource_ceiling option \<Rightarrow> obligation list \<Rightarrow> (obligation_error, resource_ceiling option) result" where
  "resource_ceiling_from acc [] = Inr acc"
| "resource_ceiling_from acc (EnforceResourceCeiling c # obs) =
     (if acc \<noteq> None then Inl resource_obligation_failed else resource_ceiling_from (Some c) obs)"
| "resource_ceiling_from acc (_ # obs) = resource_ceiling_from acc obs"

definition resource_ceiling_obligation ::
    "obligation list \<Rightarrow> (obligation_error, resource_ceiling option) result" where
  "resource_ceiling_obligation obs = resource_ceiling_from None obs"

subsection \<open>Ceilings\<close>

definition validate_supported_sandbox_quota :: "sandbox_quota \<Rightarrow> (obligation_error, unit) result" where
  "validate_supported_sandbox_quota s =
     (if sq_cpu_time_ms s \<noteq> None \<or> sq_memory_bytes s \<noteq> None \<or> sq_disk_bytes s \<noteq> None
        \<or> sq_network_egress_bytes s \<noteq> None \<or> sq_process_count s \<noteq> None
      then Inl resource_obligation_failed else Inr ())"

definition validate_supported_resource_ceiling ::
    "resource_ceiling \<Rightarrow> (obligation_error, unit) result" where
  "validate_supported_resource_ceiling c =
     (if rc_max_wall_clock_ms c \<noteq> None then Inl resource_obligation_failed
      else (case rc_sandbox c of
          Some s \<Rightarrow> validate_supported_sandbox_quota s
        | None \<Rightarrow> Inr ()))"

definition check_decimal_ceiling :: "decimal \<Rightarrow> decimal option \<Rightarrow> (obligation_error, unit) result" where
  "check_decimal_ceiling actual ceiling =
     (case ceiling of
        Some c \<Rightarrow> if c < actual then Inl resource_obligation_failed else Inr ()
      | None \<Rightarrow> Inr ())"

definition check_optional_decimal_ceiling ::
    "decimal option \<Rightarrow> decimal option \<Rightarrow> (obligation_error, unit) result" where
  "check_optional_decimal_ceiling actual ceiling =
     (case ceiling of
        None \<Rightarrow> Inr ()
      | Some c \<Rightarrow>
          (case actual of
             None \<Rightarrow> Inl resource_obligation_failed
           | Some a \<Rightarrow> check_decimal_ceiling a (Some c)))"

definition check_integer_ceiling :: "u64 \<Rightarrow> u64 option \<Rightarrow> (obligation_error, unit) result" where
  "check_integer_ceiling actual ceiling =
     (case ceiling of
        Some c \<Rightarrow> if c < actual then Inl resource_obligation_failed else Inr ()
      | None \<Rightarrow> Inr ())"

definition check_required_integer_ceiling ::
    "u64 option \<Rightarrow> u64 option \<Rightarrow> (obligation_error, unit) result" where
  "check_required_integer_ceiling actual ceiling =
     (case ceiling of
        None \<Rightarrow> Inr ()
      | Some c \<Rightarrow>
          (case actual of
             None \<Rightarrow> Inl resource_obligation_failed
           | Some a \<Rightarrow> check_integer_ceiling a (Some c)))"

definition check_output_bytes_ceiling :: "u64 \<Rightarrow> u64 option \<Rightarrow> (obligation_error, unit) result" where
  "check_output_bytes_ceiling actual ceiling =
     (case ceiling of
        Some c \<Rightarrow> if c < actual then Inl output_obligation_failed else Inr ()
      | None \<Rightarrow> Inr ())"

definition validate_estimate_within_ceiling ::
    "resource_estimate \<Rightarrow> resource_ceiling \<Rightarrow> (obligation_error, unit) result" where
  "validate_estimate_within_ceiling e c =
     bind_result (check_optional_decimal_ceiling (re_usd e) (rc_max_usd c)) (\<lambda>_.
     bind_result (check_required_integer_ceiling (re_input_tokens e) (rc_max_input_tokens c)) (\<lambda>_.
     check_required_integer_ceiling (re_output_tokens e) (rc_max_output_tokens c)))"

definition validate_usage_within_ceiling ::
    "resource_usage \<Rightarrow> u64 \<Rightarrow> resource_ceiling \<Rightarrow> (obligation_error, unit) result" where
  "validate_usage_within_ceiling u output_bytes c =
     bind_result (check_decimal_ceiling (ru_usd u) (rc_max_usd c)) (\<lambda>_.
     bind_result (check_integer_ceiling (ru_input_tokens u) (rc_max_input_tokens c)) (\<lambda>_.
     bind_result (check_integer_ceiling (ru_output_tokens u) (rc_max_output_tokens c)) (\<lambda>_.
     check_output_bytes_ceiling output_bytes (rc_max_output_bytes c))))"

definition preflight_resource_ceiling ::
    "resource_estimate \<Rightarrow> obligation list \<Rightarrow> (obligation_error, unit) result" where
  "preflight_resource_ceiling estimate obs =
     bind_result (resource_ceiling_obligation obs) (\<lambda>ceiling.
       case ceiling of
         None \<Rightarrow> Inr ()
       | Some c \<Rightarrow> bind_result (validate_supported_resource_ceiling c)
           (\<lambda>_. validate_estimate_within_ceiling estimate c))"

subsection \<open>Output\<close>

definition dispatch_output_bytes ::
    "(json \<Rightarrow> (string, string) result) \<Rightarrow> json \<Rightarrow> (obligation_error, u64) result" where
  "dispatch_output_bytes to_vec output =
     map_err (\<lambda>_. output_obligation_failed)
       (bind_result (to_vec output) (\<lambda>bytes. Inr (of_nat (length bytes))))"

text \<open>
  A \<open>serde_json::Map\<close> lists its entries by key. Two keys that redaction makes equal are an error.
\<close>

fun redact_output :: "(string \<Rightarrow> (obligation_error, string) result) \<Rightarrow> json \<Rightarrow> (obligation_error, json) result"
  and redact_values :: "(string \<Rightarrow> (obligation_error, string) result) \<Rightarrow> json list
    \<Rightarrow> (obligation_error, json list) result"
  and redact_entries :: "(string \<Rightarrow> (obligation_error, string) result) \<Rightarrow> (string \<times> json) list
    \<Rightarrow> (string \<times> json) list \<Rightarrow> (obligation_error, (string \<times> json) list) result" where
  "redact_output clean (JString s) = bind_result (clean s) (\<lambda>t. Inr (JString t))"
| "redact_output clean (JArray vs) = bind_result (redact_values clean vs) (\<lambda>ws. Inr (JArray ws))"
| "redact_output clean (JObject es) = bind_result (redact_entries clean [] es) (\<lambda>fs. Inr (JObject fs))"
| "redact_output clean JNull = Inr JNull"
| "redact_output clean (JBool b) = Inr (JBool b)"
| "redact_output clean (JNumber n) = Inr (JNumber n)"
| "redact_values clean [] = Inr []"
| "redact_values clean (v # vs) =
     bind_result (redact_output clean v) (\<lambda>w.
     bind_result (redact_values clean vs) (\<lambda>ws. Inr (w # ws)))"
| "redact_entries clean acc [] = Inr acc"
| "redact_entries clean acc (e # es) =
     bind_result (clean (fst e)) (\<lambda>k.
     bind_result (redact_output clean (snd e)) (\<lambda>v.
       if k \<in> set (map fst acc) then Inl output_obligation_failed
       else redact_entries clean (insort_key fst (k, v) acc) es))"

definition redact_output_string ::
    "'o builtin_handler \<Rightarrow> string \<Rightarrow> (obligation_error, string) result" where
  "redact_output_string h s =
     map_err (\<lambda>_. output_obligation_failed)
       (scan_and_clean (bh_regex h) (detector_new (bh_search h)) s)"

subsection \<open>Audit records\<close>

fun capability_action_kind_of :: "obligation_phase \<Rightarrow> string" where
  "capability_action_kind_of InvokePhase = ''capability_invoke''"
| "capability_action_kind_of ResumePhase = ''capability_resume''"
| "capability_action_kind_of SpawnPhase = ''capability_spawn''"

fun capability_action_effects :: "obligation_phase \<Rightarrow> effect_kind list" where
  "capability_action_effects InvokePhase = [DispatchCapability]"
| "capability_action_effects ResumePhase = [DispatchCapability]"
| "capability_action_effects SpawnPhase = [DispatchCapability, SpawnProcess]"

fun obligation_label :: "obligation \<Rightarrow> string" where
  "obligation_label AuditBefore = ''audit_before''"
| "obligation_label AuditAfter = ''audit_after''"
| "obligation_label RedactOutput = ''redact_output''"
| "obligation_label (ApplyNetworkPolicy _) = ''apply_network_policy''"
| "obligation_label (InjectSecretOnce _) = ''inject_secret_once''"
| "obligation_label (EnforceOutputLimit _) = ''enforce_output_limit''"
| "obligation_label (ReserveResources _) = ''reserve_resources''"
| "obligation_label (UseScopedMounts _) = ''use_scoped_mounts''"
| "obligation_label (EnforceResourceCeiling _) = ''enforce_resource_ceiling''"

definition obligation_status :: "obligation list \<Rightarrow> string" where
  "obligation_status obs = join_with (CHR '','') (map obligation_label obs)"

definition obligation_record ::
    "audit_stage \<Rightarrow> u64 option \<Rightarrow> uuid \<Rightarrow> timestamp \<Rightarrow> 'r obligation_request_scheme \<Rightarrow> audit_envelope" where
  "obligation_record stg output_bytes event_id now q =
     (let c = oq_context q in \<lparr>
       au_event_id = event_id, au_correlation_id = ec_correlation_id c, au_stage = stg,
       au_timestamp = now, au_tenant_id = ec_tenant_id c, au_user_id = ec_user_id c,
       au_agent_id = ec_agent_id c, au_project_id = ec_project_id c,
       au_mission_id = ec_mission_id c, au_thread_id = ec_thread_id c,
       au_invocation_id = ec_invocation_id c, au_process_id = ec_process_id c,
       au_approval_request_id = None, au_extension_id = Some (ec_extension_id c),
       au_action = \<lparr>as_kind = capability_action_kind_of (oq_phase q),
         as_target = Some (oq_capability_id q), as_effects = capability_action_effects (oq_phase q)\<rparr>,
       au_decision = \<lparr>ds_kind = ''obligation_satisfied'', ds_reason = None, ds_actor = None\<rparr>,
       au_result = Some \<lparr>sr_success = True, sr_status = Some (obligation_status (oq_obligations q)),
         sr_output_bytes = output_bytes\<rparr>\<rparr>)"

definition audit_before_record ::
    "uuid \<Rightarrow> timestamp \<Rightarrow> 'r obligation_request_scheme \<Rightarrow> audit_envelope" where
  "audit_before_record event_id now q = obligation_record AuditStageBefore None event_id now q"

definition audit_after_record ::
    "uuid \<Rightarrow> timestamp \<Rightarrow> u64 \<Rightarrow> 'r obligation_request_scheme \<Rightarrow> audit_envelope" where
  "audit_after_record event_id now output_bytes q =
     obligation_record AuditStageAfter (Some output_bytes) event_id now q"

definition emit_record ::
    "'o builtin_handler \<Rightarrow> (uuid \<Rightarrow> timestamp \<Rightarrow> audit_envelope) \<Rightarrow> ('o, unit) handler_op" where
  "emit_record h rec w =
     (case bh_audit_sink h of
        None \<Rightarrow> fail_op audit_obligation_failed w
      | Some sink \<Rightarrow>
          (case draw_uuid w of (event_id, w) \<Rightarrow>
             (case draw_timestamp w of (now, w) \<Rightarrow>
                map_err_op (\<lambda>_. audit_obligation_failed) (lift_rest (sink (rec event_id now))) w)))"

definition emit_audit_before :: "'o builtin_handler \<Rightarrow> obligation_request \<Rightarrow> ('o, unit) handler_op" where
  "emit_audit_before h q = emit_record h (\<lambda>event_id now. audit_before_record event_id now q)"

definition emit_audit_after ::
    "'o builtin_handler \<Rightarrow> completion_request \<Rightarrow> u64 \<Rightarrow> ('o, unit) handler_op" where
  "emit_audit_after h q output_bytes =
     emit_record h (\<lambda>event_id now. audit_after_record event_id now output_bytes q)"

subsection \<open>Preparing\<close>

definition request_scope :: "'r obligation_request_scheme \<Rightarrow> resource_scope" where
  "request_scope q = ec_resource_scope (oq_context q)"

fun check_secrets_exist ::
    "'o secret_store \<Rightarrow> resource_scope \<Rightarrow> secret_handle list \<Rightarrow> ('o, unit) handler_op" where
  "check_secrets_exist store scope [] = return_op ()"
| "check_secrets_exist store scope (handle # handles) =
     bind_op (map_err_op (\<lambda>_. secret_obligation_failed) (lift_rest (sst_metadata store scope handle)))
       (\<lambda>metadata. if metadata = None then fail_op secret_obligation_failed
          else check_secrets_exist store scope handles)"

definition preflight_secret_injection ::
    "'o builtin_handler \<Rightarrow> obligation_request \<Rightarrow> secret_handle list \<Rightarrow> ('o, unit) handler_op" where
  "preflight_secret_injection h q handles =
     (if handles = [] then return_op ()
      else (case bh_secret_store h of
          None \<Rightarrow> fail_op secret_obligation_failed
        | Some store \<Rightarrow>
            if bh_secret_injections h = None then fail_op secret_obligation_failed
            else check_secrets_exist store (request_scope q) handles))"

fun consume_secrets ::
    "'o secret_store \<Rightarrow> resource_scope \<Rightarrow> secret_handle list
     \<Rightarrow> ('o, (secret_handle \<times> secret_material) list) handler_op" where
  "consume_secrets store scope [] = return_op []"
| "consume_secrets store scope (handle # handles) = (\<lambda>w.
     case draw_uuid w of (i, w) \<Rightarrow>
       bind_op (map_err_op (\<lambda>_. secret_obligation_failed) (lift_rest (sst_lease_once store i scope handle)))
         (\<lambda>lease.
       bind_op (map_err_op (\<lambda>_. secret_obligation_failed) (lift_rest (sst_consume store scope (sl_id lease))))
         (\<lambda>secret.
       bind_op (consume_secrets store scope handles) (\<lambda>rest.
       return_op ((handle, secret) # rest)))) w)"

fun stage_secrets ::
    "nat \<Rightarrow> resource_scope \<Rightarrow> capability_id \<Rightarrow> (secret_handle \<times> secret_material) list
     \<Rightarrow> 'o handoff_world \<Rightarrow> 'o handoff_world" where
  "stage_secrets ttl scope capability [] w = w"
| "stage_secrets ttl scope capability ((handle, secret) # rest) w =
     (case read_clock w of (now, w) \<Rightarrow>
        stage_secrets ttl scope capability rest
          (w\<lparr>hf_injections := injection_insert ttl now scope capability handle secret (hf_injections w)\<rparr>))"

definition inject_secrets ::
    "'o builtin_handler \<Rightarrow> obligation_request \<Rightarrow> secret_handle list \<Rightarrow> ('o, unit) handler_op" where
  "inject_secrets h q handles =
     (if handles = [] then return_op ()
      else (case bh_secret_store h of
          None \<Rightarrow> fail_op secret_obligation_failed
        | Some store \<Rightarrow>
            (case bh_secret_injections h of
               None \<Rightarrow> fail_op secret_obligation_failed
             | Some ttl \<Rightarrow>
                 bind_op (consume_secrets store (request_scope q) handles) (\<lambda>material w.
                   (Inr (), stage_secrets ttl (request_scope q) (oq_capability_id q) material w)))))"

fun single_reservation ::
    "resource_reservation_id option \<Rightarrow> obligation list
     \<Rightarrow> (obligation_error, resource_reservation_id option) result" where
  "single_reservation acc [] = Inr acc"
| "single_reservation acc (ReserveResources i # obs) =
     (if acc \<noteq> None then Inl resource_obligation_failed else single_reservation (Some i) obs)"
| "single_reservation acc (_ # obs) = single_reservation acc obs"

definition reserve_resource_obligation ::
    "'o builtin_handler \<Rightarrow> obligation_request \<Rightarrow> ('o, resource_reservation option) handler_op" where
  "reserve_resource_obligation h q =
     (case single_reservation None (oq_obligations q) of
        Inl e \<Rightarrow> fail_op e
      | Inr None \<Rightarrow> return_op None
      | Inr (Some i) \<Rightarrow>
          (case bh_resource_governor h of
             None \<Rightarrow> fail_op resource_obligation_failed
           | Some gov \<Rightarrow>
               bind_op (map_err_op (\<lambda>_. resource_obligation_failed)
                 (lift_rest (gov_reserve gov i (request_scope q) (oq_estimate q))))
                 (\<lambda>r. return_op (Some r))))"

definition finish_prepare ::
    "'o builtin_handler \<Rightarrow> obligation_request \<Rightarrow> secret_handle list \<Rightarrow> network_policy option
     \<Rightarrow> ('o, unit) handler_op" where
  "finish_prepare h q handles policy =
     bind_op (if AuditBefore \<in> set (oq_obligations q) then emit_audit_before h q else return_op ()) (\<lambda>_.
     bind_op (inject_secrets h q handles) (\<lambda>_.
       case policy of
         None \<Rightarrow> return_op ()
       | Some p \<Rightarrow>
           if \<not> bh_network_policies h then fail_op network_obligation_failed
           else (\<lambda>w. (Inr (), w\<lparr>hf_policies :=
             policy_insert (request_scope q) (oq_capability_id q) p (hf_policies w)\<rparr>))))"

subsection \<open>Undoing\<close>

definition release_resource_reservation ::
    "'o builtin_handler \<Rightarrow> resource_reservation \<Rightarrow> ('o, unit) handler_op" where
  "release_resource_reservation h r =
     (case bh_resource_governor h of
        None \<Rightarrow> fail_op resource_obligation_failed
      | Some gov \<Rightarrow>
          bind_op (map_err_op (\<lambda>_. resource_obligation_failed) (lift_rest (gov_release gov (rv_id r))))
            (\<lambda>_. return_op ()))"

fun is_network_obligation :: "obligation \<Rightarrow> bool" where
  "is_network_obligation (ApplyNetworkPolicy _) = True"
| "is_network_obligation _ = False"

fun take_secrets ::
    "resource_scope \<Rightarrow> capability_id \<Rightarrow> secret_handle list \<Rightarrow> 'o handoff_world \<Rightarrow> 'o handoff_world" where
  "take_secrets scope capability [] w = w"
| "take_secrets scope capability (handle # handles) w =
     (case read_clock w of (now, w) \<Rightarrow>
        take_secrets scope capability handles
          (w\<lparr>hf_injections := snd (injection_take now scope capability handle (hf_injections w))\<rparr>))"

definition discard_staged_handoffs ::
    "'o builtin_handler \<Rightarrow> resource_scope \<Rightarrow> capability_id \<Rightarrow> obligation list
     \<Rightarrow> 'o handoff_world \<Rightarrow> 'o handoff_world" where
  "discard_staged_handoffs h scope capability obs w =
     (let w = (if list_ex is_network_obligation obs \<and> bh_network_policies h then
                 w\<lparr>hf_policies := snd (policy_take scope capability (hf_policies w))\<rparr> else w)
      in if bh_secret_injections h \<noteq> None then
           take_secrets scope capability (secret_injection_obligations obs) w else w)"

definition handler_abort :: "'o builtin_handler \<Rightarrow> abort_request \<Rightarrow> ('o, unit) handler_op" where
  "handler_abort h q w =
     (let w = discard_staged_handoffs h (request_scope q) (oq_capability_id q) (oq_obligations q) w
      in case oo_resource_reservation (oq_outcome q) of
           Some r \<Rightarrow> release_resource_reservation h r w
         | None \<Rightarrow> (Inr (), w))"

definition abort_of :: "obligation_request \<Rightarrow> obligation_outcome \<Rightarrow> abort_request" where
  "abort_of q outcome = \<lparr>oq_phase = oq_phase q, oq_context = oq_context q,
     oq_capability_id = oq_capability_id q, oq_estimate = oq_estimate q,
     oq_obligations = oq_obligations q, oq_outcome = outcome\<rparr>"

definition handler_prepare ::
    "'o builtin_handler \<Rightarrow> obligation_request \<Rightarrow> ('o, obligation_outcome) handler_op" where
  "handler_prepare h q =
     (let obs = oq_obligations q; unsupported = unsupported_obligations (oq_phase q) obs
      in if unsupported \<noteq> [] then fail_op (ObligationsUnsupported unsupported)
         else bind_op (\<lambda>w. (network_policy_obligation obs, w)) (\<lambda>policy.
         if policy \<noteq> None \<and> \<not> bh_network_policies h then fail_op network_obligation_failed
         else bind_op (\<lambda>w. (scoped_mount_obligation (oq_context q) obs, w)) (\<lambda>mounts.
         let handles = secret_injection_obligations obs
         in bind_op (preflight_secret_injection h q handles) (\<lambda>_.
         bind_op (\<lambda>w. (preflight_resource_ceiling (oq_estimate q) obs, w)) (\<lambda>_.
         bind_op (reserve_resource_obligation h q) (\<lambda>reservation w.
           let outcome = \<lparr>oo_mounts = mounts, oo_resource_reservation = reservation\<rparr>
           in case finish_prepare h q handles policy w of
                (Inl e, w) \<Rightarrow> bind_op (handler_abort h (abort_of q outcome)) (\<lambda>_. fail_op e) w
              | (Inr _, w) \<Rightarrow> (Inr outcome, w)))))))"

definition handler_satisfy :: "'o builtin_handler \<Rightarrow> obligation_request \<Rightarrow> ('o, unit) handler_op" where
  "handler_satisfy h q =
     (let post = post_dispatch_obligations (oq_obligations q)
      in if post \<noteq> [] then fail_op (ObligationsUnsupported post)
         else bind_op (handler_prepare h q) (\<lambda>outcome w.
           case oo_resource_reservation outcome of
             None \<Rightarrow> (Inr (), w)
           | Some r \<Rightarrow>
               (case release_resource_reservation h r w of
                  (Inl e, w) \<Rightarrow> (Inl e, discard_staged_handoffs h (request_scope q)
                     (oq_capability_id q) (oq_obligations q) w)
                | (Inr _, w) \<Rightarrow> (Inr (), w))))"

subsection \<open>Completing\<close>

fun check_ceilings ::
    "resource_usage \<Rightarrow> u64 \<Rightarrow> obligation list \<Rightarrow> (obligation_error, unit) result" where
  "check_ceilings usage output_bytes [] = Inr ()"
| "check_ceilings usage output_bytes (EnforceResourceCeiling c # obs) =
     bind_result (validate_supported_resource_ceiling c) (\<lambda>_.
     bind_result (validate_usage_within_ceiling usage output_bytes c) (\<lambda>_.
     check_ceilings usage output_bytes obs))"
| "check_ceilings usage output_bytes (_ # obs) = check_ceilings usage output_bytes obs"

fun check_output_limits :: "u64 \<Rightarrow> obligation list \<Rightarrow> (obligation_error, unit) result" where
  "check_output_limits output_bytes [] = Inr ()"
| "check_output_limits output_bytes (EnforceOutputLimit limit # obs) =
     (if limit < output_bytes then Inl output_obligation_failed
      else check_output_limits output_bytes obs)"
| "check_output_limits output_bytes (_ # obs) = check_output_limits output_bytes obs"

text \<open>The checks of the output: the redacted result and its size.\<close>

definition checked_output ::
    "'o builtin_handler \<Rightarrow> completion_request \<Rightarrow> (obligation_error, dispatch_result \<times> u64) result" where
  "checked_output h q =
     (let obs = oq_obligations q; d = oq_dispatch q
      in bind_result
           (if RedactOutput \<in> set obs then
              bind_result (redact_output (redact_output_string h) (dr_output d))
                (\<lambda>out. Inr (d\<lparr>dr_output := out\<rparr>))
            else Inr d) (\<lambda>d.
         bind_result (dispatch_output_bytes (bh_to_vec h) (dr_output d)) (\<lambda>n.
         bind_result (check_ceilings (dr_usage d) n obs) (\<lambda>_.
         bind_result (check_output_limits n obs) (\<lambda>_. Inr (d, n))))))"

definition handler_complete_dispatch ::
    "'o builtin_handler \<Rightarrow> completion_request \<Rightarrow> ('o, dispatch_result) handler_op" where
  "handler_complete_dispatch h q =
     (let obs = oq_obligations q; unsupported = unsupported_completion_obligations (oq_phase q) obs
      in if unsupported \<noteq> [] then fail_op (ObligationsUnsupported unsupported)
         else bind_op (\<lambda>w. (checked_output h q, w)) (\<lambda>(d, n) w.
           let w = discard_staged_handoffs h (request_scope q) (oq_capability_id q) obs w
           in bind_op (if AuditAfter \<in> set obs then emit_audit_after h q n else return_op ())
                (\<lambda>_. return_op d) w))"

definition builtin_obligation_handler :: "'o builtin_handler \<Rightarrow> 'o handoff_world obligation_handler" where
  "builtin_obligation_handler h = \<lparr>oh_satisfy = handler_satisfy h, oh_prepare = handler_prepare h,
     oh_abort = handler_abort h, oh_complete_dispatch = handler_complete_dispatch h\<rparr>"

end
