(* ===== verification/HandoffSafety.thy ===== *)
theory HandoffSafety
  imports Obligations HostWiring
begin

section \<open>No handoff outlives its invocation\<close>

text \<open>
  What the built-in obligation handler stages for an invocation is gone when the invocation is
  over, on every path through the capability host, and a reservation it made does not stay
  active.
\<close>

subsection \<open>What may be staged\<close>

text \<open>
  Between two states entries only disappear, except policies under keys in \<open>P\<close> and secrets under
  keys in \<open>J\<close>.
\<close>

definition within ::
    "(handoff_key \<Rightarrow> bool) \<Rightarrow> (injection_key \<Rightarrow> bool) \<Rightarrow> 'o handoff_world \<Rightarrow> 'o handoff_world \<Rightarrow> bool" where
  "within P J w w' \<longleftrightarrow>
     (\<forall>k. P k \<or> hm_get k (hf_policies w') \<in> {None, hm_get k (hf_policies w)})
     \<and> (\<forall>k. J k \<or> hm_get k (hf_injections w') \<in> {None, hm_get k (hf_injections w)})
     \<and> (hm_keys_distinct (hf_injections w) \<longrightarrow> hm_keys_distinct (hf_injections w'))"

abbreviation nothing_staged :: "'o handoff_world \<Rightarrow> 'o handoff_world \<Rightarrow> bool" where
  "nothing_staged \<equiv> within (\<lambda>_. False) (\<lambda>_. False)"

definition policy_staged :: "'o builtin_handler \<Rightarrow> resource_scope \<Rightarrow> capability_id \<Rightarrow> obligation list
    \<Rightarrow> handoff_key \<Rightarrow> bool" where
  "policy_staged h scope c obs k \<longleftrightarrow> k = handoff_key_new scope c \<and> list_ex is_network_obligation obs
     \<and> bh_network_policies h"

definition secret_staged :: "'o builtin_handler \<Rightarrow> resource_scope \<Rightarrow> capability_id \<Rightarrow> obligation list
    \<Rightarrow> injection_key \<Rightarrow> bool" where
  "secret_staged h scope c obs k \<longleftrightarrow> bh_secret_injections h \<noteq> None
     \<and> (\<exists>x \<in> set (secret_injection_obligations obs). k = injection_key_new scope c x)"

abbreviation staged_for :: "'o builtin_handler \<Rightarrow> 'r obligation_request_scheme \<Rightarrow> 'o handoff_world
    \<Rightarrow> 'o handoff_world \<Rightarrow> bool" where
  "staged_for h q \<equiv> within
     (policy_staged h (request_scope q) (oq_capability_id q) (oq_obligations q))
     (secret_staged h (request_scope q) (oq_capability_id q) (oq_obligations q))"

lemma within_same:
  "hf_policies w' = hf_policies w \<Longrightarrow> hf_injections w' = hf_injections w \<Longrightarrow> within P J w w'"
  by (simp add: within_def)

lemma within_refl [simp]: "within P J w w"
  by (rule within_same) simp_all

lemma within_trans: "within P J w1 w2 \<Longrightarrow> within P J w2 w3 \<Longrightarrow> within P J w1 w3"
  unfolding within_def by (metis insert_iff singletonD)

lemma within_mono: "nothing_staged w w' \<Longrightarrow> within P J w w'"
  by (simp add: within_def)

lemma lift_rest_same:
  "hf_policies (snd (lift_rest f w)) = hf_policies w" "hf_injections (snd (lift_rest f w)) = hf_injections w"
  by (simp_all add: lift_rest_def split: prod.split)

lemma draw_same:
  "hf_policies (snd (draw_uuid w)) = hf_policies w" "hf_injections (snd (draw_uuid w)) = hf_injections w"
  "hf_policies (snd (draw_timestamp w)) = hf_policies w"
  "hf_injections (snd (draw_timestamp w)) = hf_injections w"
  by (simp_all add: draw_uuid_def draw_timestamp_def)

text \<open>An operation that touches neither store, and its sequencing.\<close>

definition untouched :: "('o, 'a) handler_op \<Rightarrow> bool" where
  "untouched f \<longleftrightarrow> (\<forall>w. hf_policies (snd (f w)) = hf_policies w
     \<and> hf_injections (snd (f w)) = hf_injections w)"

lemma untouchedD:
  "untouched f \<Longrightarrow> f w = (r, w') \<Longrightarrow> hf_policies w' = hf_policies w"
  "untouched f \<Longrightarrow> f w = (r, w') \<Longrightarrow> hf_injections w' = hf_injections w"
  by (metis snd_conv untouched_def)+

lemma untouched_within: "untouched f \<Longrightarrow> f w = (r, w') \<Longrightarrow> within P J w w'"
  by (rule within_same) (metis snd_conv untouched_def)+

named_theorems untouched_intros \<open>operations that touch no handoff store\<close>

lemma untouched_return [untouched_intros]: "untouched (return_op x)" "untouched (fail_op e)"
  "untouched (\<lambda>w. (r, w))"
  by (simp_all add: untouched_def op_defs)

lemma untouched_bind [untouched_intros]:
  "untouched f \<Longrightarrow> (\<And>x. untouched (g x)) \<Longrightarrow> untouched (bind_op f g)"
  by (auto simp: untouched_def bind_op_def split: prod.split sum.split) (metis snd_conv)+

lemma untouched_lift [untouched_intros]: "untouched (map_err_op m (lift_rest f))"
  by (simp add: untouched_def op_defs lift_rest_same)

lemma untouched_emit [untouched_intros]: "untouched (emit_record h rec)"
  by (simp add: untouched_def emit_record_def op_defs lift_rest_same draw_uuid_def draw_timestamp_def
      split: option.split)

lemma untouched_check_secrets [untouched_intros]: "untouched (check_secrets_exist store scope hs)"
  by (induction hs) (auto intro!: untouched_intros)

lemma untouched_preflight [untouched_intros]: "untouched (preflight_secret_injection h q hs)"
  by (auto simp: preflight_secret_injection_def intro!: untouched_intros split: option.split)

lemma untouched_consume [untouched_intros]: "untouched (consume_secrets store scope hs)"
proof (induction hs)
  case Nil
  then show ?case by (simp add: untouched_intros)
next
  case (Cons x hs)
  have draw: "untouched (\<lambda>w. case draw_uuid w of (i, w) \<Rightarrow> f i w)" if "\<And>i. untouched (f i)"
    for f :: "uuid \<Rightarrow> ('a, (secret_handle \<times> secret_material) list) handler_op"
    using that by (simp add: untouched_def draw_uuid_def)
  show ?case unfolding consume_secrets.simps by (intro draw untouched_intros Cons)
qed

lemma untouched_reserve [untouched_intros]: "untouched (reserve_resource_obligation h q)"
  by (auto simp: reserve_resource_obligation_def intro!: untouched_intros split: sum.split option.split)

lemma untouched_release [untouched_intros]: "untouched (release_resource_reservation h r)"
  by (auto simp: release_resource_reservation_def intro!: untouched_intros split: option.split)

lemma hm_get_pruned:
  "hm_keys_distinct m \<Longrightarrow> hm_get k (snd (prune_expired_entries now m)) \<in> {None, hm_get k m}"
  by (simp add: prune_expired_entries_def Let_def hm_get_retain split: option.split)

lemma hm_keys_distinct_pruned [simp]:
  "hm_keys_distinct m \<Longrightarrow> hm_keys_distinct (snd (prune_expired_entries now m))"
  by (simp add: prune_expired_entries_def Let_def)

lemma stage_secrets_within:
  "hm_keys_distinct (hf_injections w) \<Longrightarrow> within (\<lambda>_. False)
     (\<lambda>k. \<exists>x \<in> fst ` set ms. k = injection_key_new scope c x) w (stage_secrets ttl scope c ms w)"
proof (induction ms arbitrary: w)
  case Nil
  then show ?case by simp
next
  case (Cons m ms)
  obtain x secret where m: "m = (x, secret)" by fastforce
  let ?J = "\<lambda>k. \<exists>x \<in> fst ` set (m # ms). k = injection_key_new scope c x"
  obtain now w1 where read: "read_clock w = (now, w1)" by fastforce
  then have w1: "hf_injections w1 = hf_injections w" "hf_policies w1 = hf_policies w"
    by (auto simp: read_clock_def)
  let ?w2 = "w1\<lparr>hf_injections := injection_insert ttl now scope c x secret (hf_injections w1)\<rparr>"
  have distinct: "hm_keys_distinct (hf_injections ?w2)"
    using Cons.prems by (simp add: injection_insert_def w1)
  have "within (\<lambda>_. False) ?J w ?w2"
    using Cons.prems hm_get_pruned [OF Cons.prems, of _ now] distinct
    by (auto simp: within_def w1 injection_insert_def m)
  moreover have "within (\<lambda>_. False) ?J ?w2 (stage_secrets ttl scope c ms ?w2)"
    using Cons.IH [OF distinct] by (auto simp: within_def)
  ultimately show ?case by (auto simp: m read intro: within_trans)
qed

lemma consume_secrets_handles:
  "consume_secrets store scope hs w = (Inr ms, w') \<Longrightarrow> map fst ms = hs"
  by (induction hs arbitrary: w ms w')
    (auto simp: return_op_def bind_op_Inr_iff split: prod.splits)

lemma take_secrets_within:
  "hm_keys_distinct (hf_injections w) \<Longrightarrow> nothing_staged w (take_secrets scope c hs w)
   \<and> (\<forall>x \<in> set hs. hm_get (injection_key_new scope c x) (hf_injections (take_secrets scope c hs w)) = None)"
proof (induction hs arbitrary: w)
  case Nil
  then show ?case by simp
next
  case (Cons x hs)
  obtain now w1 where read: "read_clock w = (now, w1)" by fastforce
  then have w1: "hf_injections w1 = hf_injections w" "hf_policies w1 = hf_policies w"
    by (auto simp: read_clock_def)
  let ?w2 = "w1\<lparr>hf_injections := snd (injection_take now scope c x (hf_injections w1))\<rparr>"
  have distinct: "hm_keys_distinct (hf_injections ?w2)"
    using Cons.prems by (simp add: injection_take_def Let_def w1)
  have gone: "hm_get (injection_key_new scope c x) (hf_injections ?w2) = None"
    by (simp add: injection_take_def Let_def)
  have step: "nothing_staged w ?w2"
    using Cons.prems hm_get_pruned [OF Cons.prems, of _ now] distinct
    by (auto simp: within_def w1 injection_take_def Let_def)
  note IH = Cons.IH [OF distinct]
  have "hm_get (injection_key_new scope c x) (hf_injections (take_secrets scope c hs ?w2)) = None"
    using IH gone by (auto simp: within_def)
  then show ?case using IH within_trans [OF step] by (simp add: read)
qed

lemma discard_removes:
  assumes "within (policy_staged h scope c obs) (secret_staged h scope c obs) w w'"
    and "hm_keys_distinct (hf_injections w)"
  shows "nothing_staged w (discard_staged_handoffs h scope c obs w')"
proof -
  let ?w1 = "if list_ex is_network_obligation obs \<and> bh_network_policies h
    then w'\<lparr>hf_policies := snd (policy_take scope c (hf_policies w'))\<rparr> else w'"
  have distinct: "hm_keys_distinct (hf_injections ?w1)" using assms by (simp add: within_def)
  have policies: "hm_get k (hf_policies ?w1) \<in> {None, hm_get k (hf_policies w)}" for k
    using assms(1) by (auto simp: within_def policy_take_def Let_def policy_staged_def)
  have injections: "hf_injections ?w1 = hf_injections w'" by simp
  show ?thesis
  proof (cases "bh_secret_injections h = None")
    case True
    then show ?thesis
      using policies assms(1) by (auto simp: discard_staged_handoffs_def within_def secret_staged_def)
  next
    case False
    let ?w2 = "take_secrets scope c (secret_injection_obligations obs) ?w1"
    note taken = take_secrets_within [OF distinct, of scope c "secret_injection_obligations obs"]
    have "hm_get k (hf_injections ?w2) \<in> {None, hm_get k (hf_injections w)}" for k
    proof (cases "secret_staged h scope c obs k")
      case True
      then show ?thesis using taken by (auto simp: secret_staged_def)
    next
      case other: False
      have "hm_get k (hf_injections ?w2) \<in> {None, hm_get k (hf_injections w')}"
        using taken unfolding within_def injections by blast
      moreover have "hm_get k (hf_injections w') \<in> {None, hm_get k (hf_injections w)}"
        using assms(1) other unfolding within_def by blast
      ultimately show ?thesis by (metis insert_iff singletonD)
    qed
    moreover have "hm_get k (hf_policies ?w2) \<in> {None, hm_get k (hf_policies w)}" for k
      using taken policies [of k] unfolding within_def by (metis insert_iff singletonD)
    moreover have "hm_keys_distinct (hf_injections ?w2)" using taken distinct by (simp add: within_def)
    ultimately show ?thesis
      using False by (auto simp: discard_staged_handoffs_def within_def Let_def)
  qed
qed

subsection \<open>The handler\<close>

lemma network_policy_from_Some:
  "network_policy_from acc obs = Inr (Some p) \<Longrightarrow> acc = None \<Longrightarrow> list_ex is_network_obligation obs"
proof (induction acc obs rule: network_policy_from.induct)
  case (2 acc p obs)
  then show ?case by simp
qed simp_all

lemma finish_prepare_staged:
  assumes "finish_prepare h q (secret_injection_obligations (oq_obligations q)) policy w = (r, w')"
    and "hm_keys_distinct (hf_injections w)"
    and "policy \<noteq> None \<Longrightarrow> list_ex is_network_obligation (oq_obligations q)"
  shows "staged_for h q w w'"
proof -
  let ?obs = "oq_obligations q" let ?hs = "secret_injection_obligations (oq_obligations q)"
  let ?P = "policy_staged h (request_scope q) (oq_capability_id q) ?obs"
  let ?J = "secret_staged h (request_scope q) (oq_capability_id q) ?obs"
  let ?emit = "if AuditBefore \<in> set ?obs then emit_audit_before h q else return_op ()"
  obtain r1 w1 where emit: "?emit w = (r1, w1)" by fastforce
  have "untouched ?emit" by (simp add: emit_audit_before_def untouched_intros)
  note w1 = untouchedD [OF this emit]
  obtain r2 w2 where inject: "inject_secrets h q ?hs w1 = (r2, w2)" by fastforce
  have step2: "within ?P ?J w1 w2"
  proof (cases "?hs = [] \<or> bh_secret_store h = None \<or> bh_secret_injections h = None")
    case True
    then have "untouched (inject_secrets h q ?hs)"
      by (auto simp: inject_secrets_def intro!: untouched_intros split: option.split)
    then show ?thesis using inject by (rule untouched_within)
  next
    case False
    then obtain store ttl where st: "?hs \<noteq> []" "bh_secret_store h = Some store"
      "bh_secret_injections h = Some ttl" by auto
    obtain c w3 where c: "consume_secrets store (request_scope q) ?hs w1 = (c, w3)" by fastforce
    note w3 = untouchedD [OF untouched_consume c]
    show ?thesis
    proof (cases c)
      case (Inl e)
      then show ?thesis using inject st c w3 by (intro within_same) (auto simp: inject_secrets_def bind_op_def)
    next
      case (Inr ms)
      have hs: "map fst ms = ?hs" using c Inr by (intro consume_secrets_handles) simp
      have w2: "w2 = stage_secrets ttl (request_scope q) (oq_capability_id q) ms w3"
        using inject st c Inr by (auto simp: inject_secrets_def bind_op_def)
      have "within (\<lambda>_. False) (\<lambda>k. \<exists>x \<in> fst ` set ms. k = injection_key_new (request_scope q)
          (oq_capability_id q) x) w3 w2"
        unfolding w2 using assms(2) w1 w3 by (intro stage_secrets_within) simp
      moreover have "fst ` set ms = set ?hs" using hs by (metis list.set_map)
      ultimately show ?thesis using st(3) by (auto simp: within_def secret_staged_def w3)
    qed
  qed
  show ?thesis
  proof (cases r1)
    case (Inl e)
    then have "w' = w1" using assms(1) emit by (simp add: finish_prepare_def bind_op_def)
    then show ?thesis using w1 by (simp add: within_same)
  next
    case (Inr u)
    have "within ?P ?J w2 w'"
      using assms(1,3) emit inject Inr unfolding finish_prepare_def
      by (auto simp: bind_op_def return_op_def fail_op_def within_def policy_staged_def policy_insert_def
          split: sum.splits option.splits if_splits)
    then show ?thesis using within_trans [OF within_same [OF w1] within_trans [OF step2]] by blast
  qed
qed

lemma abort_removes:
  assumes "staged_for h q w w'" "hm_keys_distinct (hf_injections w)"
    and "handler_abort h a w' = (r, w'')" "request_scope a = request_scope q"
      "oq_capability_id a = oq_capability_id q" "oq_obligations a = oq_obligations q"
  shows "nothing_staged w w''"
proof -
  let ?d = "discard_staged_handoffs h (request_scope q) (oq_capability_id q) (oq_obligations q) w'"
  have "nothing_staged ?d w''"
    using assms(3) untouched_within [OF untouched_release]
    by (auto simp: handler_abort_def assms(4-6) Let_def split: option.splits)
  then show ?thesis using within_trans [OF discard_removes [OF assms(1,2)]] by blast
qed

lemma prepare_staged:
  assumes run: "handler_prepare h q w = (r, w')" and distinct: "hm_keys_distinct (hf_injections w)"
  shows "staged_for h q w w'" and "is_err r \<Longrightarrow> nothing_staged w w'"
proof -
  let ?obs = "oq_obligations q" let ?hs = "secret_injection_obligations (oq_obligations q)"
  have "staged_for h q w w' \<and> (is_err r \<longrightarrow> nothing_staged w w')"
  proof (cases "unsupported_obligations (oq_phase q) ?obs \<noteq> []
      \<or> is_err (network_policy_obligation ?obs)
      \<or> (\<exists>p. network_policy_obligation ?obs = Inr (Some p)) \<and> \<not> bh_network_policies h
      \<or> is_err (scoped_mount_obligation (oq_context q) ?obs)")
    case True
    then have "w' = w"
      using run by (auto simp: handler_prepare_def Let_def op_defs is_err_iff split: sum.splits if_splits)
    then show ?thesis by simp
  next
    case False
    then obtain policy mounts where ok: "unsupported_obligations (oq_phase q) ?obs = []"
      "network_policy_obligation ?obs = Inr policy" "policy = None \<or> bh_network_policies h"
      "scoped_mount_obligation (oq_context q) ?obs = Inr mounts"
      by (auto simp: not_is_err_iff)
    obtain r1 w1 where r1: "preflight_secret_injection h q ?hs w = (r1, w1)" by fastforce
    note w1 = untouchedD [OF untouched_preflight r1]
    obtain r2 w2 where r2: "reserve_resource_obligation h q w1 = (r2, w2)" by fastforce
    note w2 = untouchedD [OF untouched_reserve r2]
    show ?thesis
    proof (cases "is_err r1 \<or> is_err (preflight_resource_ceiling (oq_estimate q) ?obs) \<or> is_err r2")
      case True
      then have "w' = w1 \<or> w' = w2"
        using run ok r1 r2
        by (auto simp: handler_prepare_def Let_def op_defs is_err_iff split: sum.splits if_splits)
      then show ?thesis using w1 w2 by (auto intro!: within_same)
    next
      case False
      then obtain u v reservation where ok': "r1 = Inr u"
        "preflight_resource_ceiling (oq_estimate q) ?obs = Inr v" "r2 = Inr reservation"
        by (auto simp: not_is_err_iff)
      let ?outcome = "\<lparr>oo_mounts = mounts, oo_resource_reservation = reservation\<rparr>"
      obtain r3 w3 where r3: "finish_prepare h q ?hs policy w2 = (r3, w3)" by fastforce
      have distinct2: "hm_keys_distinct (hf_injections w2)" using distinct w1 w2 by simp
      have "policy \<noteq> None \<Longrightarrow> list_ex is_network_obligation ?obs"
        using ok(2) network_policy_from_Some unfolding network_policy_obligation_def by fastforce
      from finish_prepare_staged [OF r3 distinct2 this]
      have staged: "staged_for h q w2 w3" .
      have start: "within P J w w2" for P J using w1 w2 by (intro within_same) simp_all
      have run': "handler_prepare h q w = (case (r3, w3) of
          (Inl e, w) \<Rightarrow> bind_op (handler_abort h (abort_of q ?outcome)) (\<lambda>_. fail_op e) w
        | (Inr _, w) \<Rightarrow> (Inr ?outcome, w))"
        using ok r1 r2 ok' r3 by (auto simp: handler_prepare_def Let_def bind_op_def)
      show ?thesis
      proof (cases r3)
        case (Inl e)
        obtain r4 w4 where r4: "handler_abort h (abort_of q ?outcome) w3 = (r4, w4)" by fastforce
        have "nothing_staged w2 w4"
          by (rule abort_removes [OF staged distinct2 r4]) (simp_all add: abort_of_def request_scope_def)
        moreover have "w' = w4" "is_err r"
          using run run' Inl r4 by (auto simp: bind_op_def fail_op_def split: sum.splits)
        ultimately show ?thesis using within_trans [OF start] within_mono by blast
      next
        case (Inr x)
        then have "w' = w3" "\<not> is_err r" using run run' by auto
        then show ?thesis using within_trans [OF start staged] by simp
      qed
    qed
  qed
  then show "staged_for h q w w'" "is_err r \<Longrightarrow> nothing_staged w w'" by simp_all
qed

lemma complete_removes:
  assumes "handler_complete_dispatch h q w' = (r, w'')" "staged_for h q w w'"
    "hm_keys_distinct (hf_injections w)"
  shows "staged_for h q w w''" and "\<not> is_err r \<Longrightarrow> nothing_staged w w''"
proof -
  have "staged_for h q w w'' \<and> (\<not> is_err r \<longrightarrow> nothing_staged w w'')"
  proof (cases "unsupported_completion_obligations (oq_phase q) (oq_obligations q) \<noteq> []
      \<or> is_err (checked_output h q)")
    case True
    then have "w'' = w'" "is_err r"
      using assms(1) by (auto simp: handler_complete_dispatch_def Let_def op_defs is_err_iff
          split: sum.splits if_splits)
    then show ?thesis using assms(2) by simp
  next
    case False
    then obtain d n where ok: "checked_output h q = Inr (d, n)"
      "unsupported_completion_obligations (oq_phase q) (oq_obligations q) = []"
      by (auto simp: not_is_err_iff)
    let ?d = "discard_staged_handoffs h (request_scope q) (oq_capability_id q) (oq_obligations q) w'"
    have "untouched (bind_op (if AuditAfter \<in> set (oq_obligations q) then emit_audit_after h q n
        else return_op ()) (\<lambda>_. return_op d))"
      by (auto simp: emit_audit_after_def intro!: untouched_intros)
    moreover have "bind_op (if AuditAfter \<in> set (oq_obligations q) then emit_audit_after h q n
        else return_op ()) (\<lambda>_. return_op d) ?d = (r, w'')"
      using assms(1) ok by (simp add: handler_complete_dispatch_def Let_def bind_op_def)
    ultimately have "nothing_staged ?d w''" by (rule untouched_within)
    then show ?thesis
      using within_trans [OF discard_removes [OF assms(2,3)]] within_mono by blast
  qed
  then show "staged_for h q w w''" "\<not> is_err r \<Longrightarrow> nothing_staged w w''" by simp_all
qed

end
