(* ===== verification/HandoffHost.thy ===== *)
theory HandoffHost
  imports HandoffSafety
begin

section \<open>Handoffs under the capability host\<close>

text \<open>
  The capability host wired with the kernel's stores and with the built-in obligation handler: what
  an invocation or a resume stages for its dispatch does not outlive it, whichever of their paths is
  taken.
\<close>

subsection \<open>Steps that leave the services alone\<close>

definition keeps_services :: "('s host_world \<Rightarrow> 'r \<times> 's host_world) \<Rightarrow> bool" where
  "keeps_services f \<longleftrightarrow> (\<forall>w. hw_services (snd (f w)) = hw_services w)"

lemma keeps_servicesD: "keeps_services f \<Longrightarrow> f w = (r, w') \<Longrightarrow> hw_services w' = hw_services w"
  by (metis keeps_services_def snd_conv)

named_theorems keeps_intros \<open>steps that leave the services of the host alone\<close>

lemma keeps_return [keeps_intros]: "keeps_services (return_op x)" "keeps_services (fail_op e)"
  "keeps_services (\<lambda>w. (r, w))"
  by (simp_all add: keeps_services_def return_op_def fail_op_def)

lemma keeps_bind [keeps_intros]:
  "keeps_services f \<Longrightarrow> (\<And>x. keeps_services (g x)) \<Longrightarrow> keeps_services (bind_op f g)"
  by (auto simp: keeps_services_def bind_op_def split: prod.split sum.split) (metis snd_conv)+

lemma keeps_on_store [keeps_intros]:
  "keeps_services (on_runs f)" "keeps_services (on_approvals g)" "keeps_services (on_leases l)"
  by (simp_all add: keeps_services_def on_runs_def on_approvals_def on_leases_def split: prod.split)

lemma keeps_stores [keeps_intros]:
  "keeps_services (rss_start kernel_runs t)" "keeps_services (rss_block_approval kernel_runs s i a)"
  "keeps_services (rss_complete kernel_runs s i)" "keeps_services (rss_fail kernel_runs s i k)"
  "keeps_services (rss_get kernel_runs s i)" "keeps_services (ars_save_pending kernel_approvals s r)"
  "keeps_services (ars_get kernel_approvals s j)"
  "keeps_services (ars_discard_pending kernel_approvals s j)"
  "keeps_services (cls_revoke kernel_leases s l)" "keeps_services (cls_claim kernel_leases now s l fp)"
  "keeps_services (cls_consume kernel_leases now s l)"
  "keeps_services (cls_active_leases_for_context kernel_leases now c)"
  by (simp_all add: kernel_runs_def kernel_approvals_def kernel_leases_def keeps_on_store)

lemma keeps_rev_dest: "keeps_services f \<Longrightarrow> hw_services (snd (f w)) = hw_services w"
  by (simp add: keeps_services_def)

lemmas kept_simps [simp] = keeps_stores [THEN keeps_rev_dest]

lemmas kept_dests = keeps_stores [THEN keeps_servicesD]

lemma keeps_fail_run [simp]:
  "hw_services (fail_run_if_configured (Some kernel_runs) s i k w) = hw_services w"
  "hw_services (complete_run_after_side_effect kernel_runs s i w) = hw_services w"
  "hw_services (complete_run_if_configured (Some kernel_runs) s i w) = hw_services w"
  for w :: "'s host_world"
  by (simp_all add: fail_run_if_configured_def fail_run_def complete_run_after_side_effect_def
      complete_run_if_configured_def keeps_rev_dest [OF keeps_bind [OF keeps_stores(4) keeps_return(1)]])

lemma keeps_fail_run_with [keeps_intros]: "keeps_services (fail_run_with (Some kernel_runs) s i k e)"
  by (simp add: keeps_services_def fail_run_with_def)

lemma keeps_fail_and_revoke [keeps_intros]:
  "keeps_services (fail_and_revoke kernel_runs kernel_leases r l k e)"
  by (simp add: keeps_services_def fail_and_revoke_def Let_def ignoring_def fail_op_def)

lemma keeps_finish_resume:
  "rp_runs p = kernel_runs \<Longrightarrow> rp_leases p = kernel_leases \<Longrightarrow>
     hw_services (finish_resume env r p w) = hw_services w" for w :: "'s host_world"
  by (simp add: finish_resume_def Let_def ignoring_def)

lemma keeps_block_on_approval [keeps_intros]:
  "keeps_services (block_on_approval (wired_host sv) s i c a)"
  by (auto simp: keeps_services_def block_on_approval_def fail_op_def ignoring_def fail_run_with_def
      split: prod.split sum.split dest!: kept_dests)

lemma keeps_request_approval [keeps_intros]:
  "keeps_services (request_approval (wired_host sv) kind q fp a)"
  by (auto simp: keeps_services_def request_approval_def Let_def keeps_rev_dest [OF keeps_fail_run_with]
      keeps_rev_dest [OF keeps_block_on_approval] split: sum.split option.split)

lemma keeps_start_run [keeps_intros]: "keeps_services (start_run (wired_host sv) q)"
  by (auto simp: start_run_def keeps_services_def op_defs apfst_def map_prod_def
      split: prod.split sum.split dest!: kept_dests)

lemma keeps_check_blocked_run [keeps_intros]: "keeps_services (check_blocked_run kernel_runs r)"
  by (auto simp: keeps_services_def check_blocked_run_def Let_def fail_op_def return_op_def
      fail_run_with_def split: prod.split sum.split option.split dest!: kept_dests)

lemma keeps_check_approval [keeps_intros]:
  "keeps_services (check_approval kernel_runs kernel_approvals kind fp r)"
  by (auto simp: keeps_services_def check_approval_def Let_def fail_op_def return_op_def
      fail_run_with_def split: prod.split sum.split option.split dest!: kept_dests)

lemma keeps_claim_lease [keeps_intros]:
  "keeps_services (claim_lease env kernel_runs kernel_leases r fp l)"
  by (auto simp: keeps_services_def claim_lease_def Let_def fail_op_def return_op_def
      fail_run_with_def split: prod.split sum.split dest!: kept_dests)

lemma keeps_authorize_resume [keeps_intros]:
  "keeps_services (authorize_resume env (wired_host sv) kernel_runs kind r d c)"
proof -
  have "hw_services w2 = hw_services w"
    if "authorize_for kind (wired_host sv) now c d e t w = (x, w2)" for now e t x and w w2 :: "'a host_world"
    using that by (simp add: authorize_for_wired)
  then show ?thesis
    by (auto simp: keeps_services_def authorize_resume_def Let_def return_op_def fail_run_with_def
        split: prod.split decision.split)
qed

subsection \<open>Staging and discarding\<close>

definition staged_obligations :: "'o builtin_handler \<Rightarrow> resource_scope \<Rightarrow> capability_id \<Rightarrow> obligation list
    \<Rightarrow> 'o handoff_world \<Rightarrow> 'o handoff_world \<Rightarrow> bool" where
  "staged_obligations h scope c obs = within (policy_staged h scope c obs) (secret_staged h scope c obs)"

lemma staged_nothing: "staged_obligations h scope c [] = nothing_staged"
  by (intro ext) (simp add: staged_obligations_def policy_staged_def [abs_def] secret_staged_def [abs_def])

lemma staged_keep: "staged_obligations h scope c obs w w" "nothing_staged w w' \<Longrightarrow> staged_obligations h scope c obs w w'"
  by (simp_all add: staged_obligations_def within_mono)

lemma staged_trans: "staged_obligations h scope c obs w w' \<Longrightarrow> nothing_staged w' w'' \<Longrightarrow>
    staged_obligations h scope c obs w w''"
  unfolding staged_obligations_def by (erule within_trans) (erule within_mono)

lemma on_services_iff:
  "on_services f w = (r, w') \<longleftrightarrow> (\<exists>s. f (hw_services w) = (r, s) \<and> w' = w\<lparr>hw_services := s\<rparr>)"
  by (auto simp: on_services_def split: prod.split)

lemma recording_services: "recording sc f w = (r, w') \<Longrightarrow> f (hw_services w) = (r, hw_services w')"
  by (auto simp: recording_def on_services_def split: prod.splits)

lemma is_err_map_err [simp]: "is_err (map_err f x) = is_err x"
  by (cases x) simp_all

lemma prepare_stages:
  assumes handler: "sv_handler sv = Some (builtin_obligation_handler h)"
    and run: "prepare_obligations (wired_host sv) phase ctx c est obs w = (r, w')"
    and distinct: "hm_keys_distinct (hf_injections (hw_services w))"
  shows "staged_obligations h (ec_resource_scope ctx) c obs (hw_services w) (hw_services w')"
    and "is_err r \<Longrightarrow> nothing_staged (hw_services w) (hw_services w')"
proof -
  let ?q = "\<lparr>oq_phase = phase, oq_context = ctx, oq_capability_id = c, oq_estimate = est, oq_obligations = obs\<rparr>"
  have "w' = w \<or> (\<exists>r'. handler_prepare h ?q (hw_services w) = (r', hw_services w') \<and> is_err r = is_err r')"
    using run handler
    by (auto simp: prepare_obligations_def op_defs apfst_def map_prod_def wired_handler_def
        builtin_obligation_handler_def on_services_iff split: if_splits prod.splits)
  then have "staged_obligations h (ec_resource_scope ctx) c obs (hw_services w) (hw_services w')
    \<and> (is_err r \<longrightarrow> nothing_staged (hw_services w) (hw_services w'))"
    using prepare_staged [OF _ distinct, of h ?q]
    by (auto simp: staged_obligations_def request_scope_def)
  then show "staged_obligations h (ec_resource_scope ctx) c obs (hw_services w) (hw_services w')"
    "is_err r \<Longrightarrow> nothing_staged (hw_services w) (hw_services w')" by simp_all
qed

lemma abort_unstages:
  assumes "sv_handler sv = Some (builtin_obligation_handler h)"
    and "staged_obligations h (ec_resource_scope ctx) c obs s0 (hw_services w)"
    and "hm_keys_distinct (hf_injections s0)"
  shows "nothing_staged s0 (hw_services (abort_obligations (wired_host sv) phase ctx c est obs out w))"
proof (cases "obs = []")
  case True
  then show ?thesis using assms(2) by (simp add: abort_obligations_def staged_nothing)
next
  case False
  let ?a = "\<lparr>oq_phase = phase, oq_context = ctx, oq_capability_id = c, oq_estimate = est,
    oq_obligations = obs, oq_outcome = out\<rparr>"
  obtain r s where a: "handler_abort h ?a (hw_services w) = (r, s)" by fastforce
  have "nothing_staged s0 s"
    using assms(2) unfolding staged_obligations_def
    by (intro abort_removes [where q = ?a, OF _ assms(3) a]) (simp_all add: request_scope_def)
  then show ?thesis
    using False assms(1) a
    by (simp add: abort_obligations_def wired_handler_def builtin_obligation_handler_def on_services_def)
qed

lemma complete_unstages:
  assumes "sv_handler sv = Some (builtin_obligation_handler h)"
    and "complete_dispatch_obligations (wired_host sv) phase ctx c est obs d w = (r, w')"
    and "staged_obligations h (ec_resource_scope ctx) c obs s0 (hw_services w)"
    and "hm_keys_distinct (hf_injections s0)"
  shows "staged_obligations h (ec_resource_scope ctx) c obs s0 (hw_services w')"
    and "\<not> is_err r \<Longrightarrow> nothing_staged s0 (hw_services w')"
proof -
  let ?q = "\<lparr>oq_phase = phase, oq_context = ctx, oq_capability_id = c, oq_estimate = est,
    oq_obligations = obs, oq_dispatch = d\<rparr>"
  have "obs = [] \<and> w' = w
    \<or> (\<exists>r'. handler_complete_dispatch h ?q (hw_services w) = (r', hw_services w') \<and> is_err r = is_err r')"
    using assms(1,2)
    by (auto simp: complete_dispatch_obligations_def op_defs apfst_def map_prod_def wired_handler_def
        builtin_obligation_handler_def on_services_iff split: if_splits prod.splits)
  then have "staged_obligations h (ec_resource_scope ctx) c obs s0 (hw_services w')
    \<and> (\<not> is_err r \<longrightarrow> nothing_staged s0 (hw_services w'))"
    using complete_removes [of h ?q "hw_services w" _ _ s0] assms(3,4)
    by (auto simp: staged_obligations_def request_scope_def staged_nothing [unfolded staged_obligations_def])
  then show "staged_obligations h (ec_resource_scope ctx) c obs s0 (hw_services w')"
    "\<not> is_err r \<Longrightarrow> nothing_staged s0 (hw_services w')" by simp_all
qed

lemma dispatch_unstages:
  assumes handler: "sv_handler sv = Some (builtin_obligation_handler h)"
    and dispatcher: "\<And>q w. nothing_staged w (snd (sv_dispatcher sv q w))"
    and staged: "staged_obligations h (ec_resource_scope ctx) (iq_capability_id q) obs s0 (hw_services w)"
    and distinct: "hm_keys_distinct (hf_injections s0)"
    and run: "dispatch_stage (wired_host sv) phase ctx q obs out w = (r, w')"
  shows "nothing_staged s0 (hw_services w')"
proof -
  let ?d = "\<lparr>dq_capability_id = iq_capability_id q,
                dq_scope = ec_resource_scope (iq_context q), dq_estimate = iq_estimate q,
                dq_mounts = oo_mounts out,
                dq_resource_reservation = oo_resource_reservation out,
                dq_input = iq_input q\<rparr>"
  obtain d w1 where d: "h_dispatcher (wired_host sv) ?d w = (d, w1)" by fastforce
  then have "sv_dispatcher sv ?d (hw_services w) = (d, hw_services w1)"
    by (auto dest: recording_services)
  then have "nothing_staged (hw_services w) (hw_services w1)" by (metis dispatcher snd_conv)
  note staged1 = staged_trans [OF staged this]
  show ?thesis
  proof (cases d)
    case (Inl e)
    then show ?thesis
      using run d abort_unstages [OF handler staged1 distinct] by (auto simp: dispatch_stage_def Let_def)
  next
    case (Inr res)
    obtain c w2 where c: "complete_dispatch_obligations (wired_host sv) phase ctx (iq_capability_id q)
        (iq_estimate q) obs res w1 = (c, w2)" by fastforce
    note completed = complete_unstages [OF handler c staged1 distinct]
    show ?thesis
      using run d Inr c completed(2) abort_unstages [OF handler completed(1) distinct]
      by (cases c) (auto simp: dispatch_stage_def Let_def)
  qed
qed

subsection \<open>Invocations and resumes\<close>

lemma nothing_staged_same: "hw_services w' = hw_services w \<Longrightarrow> nothing_staged (hw_services w) (hw_services w')"
  by simp

lemma keeps_stages_nothing:
  "keeps_services f \<Longrightarrow> f w = (r, w') \<Longrightarrow> nothing_staged (hw_services w) (hw_services w')"
  by (drule (1) keeps_servicesD) simp

lemma decide_stages:
  assumes handler: "sv_handler sv = Some (builtin_obligation_handler h)"
    and distinct: "hm_keys_distinct (hf_injections (hw_services w))"
    and run: "decide_invocation env (wired_host sv) kind q fp desc w = (r, w')"
  shows "case r of Inl _ \<Rightarrow> nothing_staged (hw_services w) (hw_services w')
    | Inr (_, obs, _) \<Rightarrow> staged_obligations h (ec_resource_scope (iq_context q)) (iq_capability_id q) obs
        (hw_services w) (hw_services w')"
proof -
  obtain dec w1 where dec: "authorize_for kind (wired_host sv) (ce_authorize_at env) (iq_context q) desc
      (iq_estimate q) (iq_trust_decision q) w = (dec, w1)" by fastforce
  then have w1: "w1 = w" by (simp add: authorize_for_wired)
  show ?thesis
  proof (cases dec)
    case (Allow obs)
    obtain p w2 where p: "prepare_obligations (wired_host sv) (phase_for kind) (iq_context q)
        (iq_capability_id q) (iq_estimate q) obs w = (p, w2)" by fastforce
    show ?thesis
      using run dec Allow p w1 prepare_stages [OF handler p distinct]
      by (cases p) (auto simp: decide_invocation_def Let_def return_op_def fail_run_with_def)
  next
    case (Deny reason)
    then show ?thesis using run dec w1 by (auto simp: decide_invocation_def Let_def fail_run_with_def)
  next
    case (RequireApproval a)
    then have run': "request_approval (wired_host sv) kind q fp a w = (r, w')"
      using run dec w1 by (auto simp: decide_invocation_def Let_def)
    then have "is_err r"
      by (auto simp: request_approval_def block_on_approval_def fail_run_with_def fail_op_def
          ignoring_def Let_def split: sum.splits option.splits prod.splits if_splits)
    then show ?thesis
      using keeps_stages_nothing [OF keeps_request_approval run'] by (auto simp: is_err_iff)
  qed
qed

lemma gate_stages:
  assumes handler: "sv_handler sv = Some (builtin_obligation_handler h)"
    and distinct: "hm_keys_distinct (hf_injections (hw_services w))"
    and run: "invocation_gate env (wired_host sv) kind q w = (r, w')"
  shows "case r of Inl _ \<Rightarrow> nothing_staged (hw_services w) (hw_services w')
    | Inr (_, obs, _) \<Rightarrow> staged_obligations h (ec_resource_scope (iq_context q)) (iq_capability_id q) obs
        (hw_services w) (hw_services w')"
proof -
  obtain s w1 where s: "start_run (wired_host sv) q w = (s, w1)" by fastforce
  have w1: "hw_services w1 = hw_services w" by (rule keeps_servicesD [OF keeps_start_run s])
  note decided = decide_stages [OF handler, of w1, unfolded w1, OF distinct]
  show ?thesis
    using run s w1
    by (auto simp: invocation_gate_def Let_def bind_op_def fail_op_def fail_run_with_def
        split: if_splits sum.splits option.splits dest: decided)
qed

lemma invoke_leaves_nothing:
  assumes handler: "sv_handler sv = Some (builtin_obligation_handler h)"
    and dispatcher: "\<And>q w. nothing_staged w (snd (sv_dispatcher sv q w))"
    and distinct: "hm_keys_distinct (hf_injections (hw_services w))"
  shows "nothing_staged (hw_services w) (hw_services (snd (invoke_json env (wired_host sv) q w)))"
proof -
  obtain g w1 where g: "invocation_gate env (wired_host sv) DispatchAction q w = (g, w1)" by fastforce
  note staged = gate_stages [OF handler distinct g]
  show ?thesis
  proof (cases g)
    case (Inl e)
    then show ?thesis using g staged by (simp add: invoke_json_def Let_def bind_op_def)
  next
    case (Inr y)
    obtain desc obs out where y: "y = (desc, obs, out)" by (cases y)
    obtain d w2 where d: "dispatch_stage (wired_host sv) InvokePhase (iq_context q) q obs out w1 = (d, w2)"
      by fastforce
    have "nothing_staged (hw_services w) (hw_services w2)"
      using staged Inr y by (intro dispatch_unstages [OF handler dispatcher _ distinct d]) simp
    then show ?thesis
      using g Inr y d
      by (auto simp: invoke_json_def Let_def bind_op_def fail_run_with_def split: sum.split)
  qed
qed

text \<open>What a resume has staged when it reaches its dispatch.\<close>

definition resumption_staged :: "'o builtin_handler \<Rightarrow> resume_request \<Rightarrow> 'o handoff_world
    \<Rightarrow> 'o handoff_world host_world resumption \<Rightarrow> 'o handoff_world \<Rightarrow> bool" where
  "resumption_staged h q s p s' \<longleftrightarrow> rp_runs p = kernel_runs \<and> rp_leases p = kernel_leases
     \<and> staged_obligations h (ec_resource_scope (rp_context p)) (iq_capability_id q) (rp_obligations p) s s'"

lemma claim_and_prepare_stages:
  assumes handler: "sv_handler sv = Some (builtin_obligation_handler h)"
    and distinct: "hm_keys_distinct (hf_injections (hw_services w))"
    and run: "claim_and_prepare env (wired_host sv) kernel_runs kernel_leases kind q fp desc lease w
      = (r, w')"
  shows "case r of Inl _ \<Rightarrow> nothing_staged (hw_services w) (hw_services w')
    | Inr p \<Rightarrow> resumption_staged h q (hw_services w) p (hw_services w')"
proof -
  let ?c = "add_grant (iq_context q) (ls_grant lease)"
  obtain a w1 where a: "authorize_resume env (wired_host sv) kernel_runs kind q desc ?c w = (a, w1)"
    by fastforce
  note w1 = keeps_servicesD [OF keeps_authorize_resume a]
  obtain l w2 where l: "claim_lease env kernel_runs kernel_leases q fp lease w1 = (l, w2)" by fastforce
  note w2 = keeps_servicesD [OF keeps_claim_lease l]
  show ?thesis
  proof (cases "is_err a \<or> is_err l")
    case True
    then show ?thesis
      using run a l w1 w2 by (auto simp: claim_and_prepare_def Let_def bind_op_def is_err_iff
          split: sum.splits)
  next
    case False
    then obtain obs claimed where ok: "a = Inr obs" "l = Inr claimed" by (auto simp: not_is_err_iff)
    obtain p w3 where p: "prepare_obligations (wired_host sv) (resume_phase_for kind) ?c
        (iq_capability_id q) (iq_estimate q) obs w2 = (p, w3)" by fastforce
    have distinct2: "hm_keys_distinct (hf_injections (hw_services w2))" using distinct w1 w2 by simp
    note staged = prepare_stages [OF handler p distinct2, unfolded w2 w1]
    show ?thesis
    proof (cases p)
      case (Inl e)
      then have "fail_and_revoke kernel_runs kernel_leases q claimed (obligation_invocation_error_kind e)
          e w3 = (r, w')" "is_err r"
        using run a l ok p by (auto simp: claim_and_prepare_def Let_def bind_op_def fail_and_revoke_def
            ignoring_def fail_op_def)
      then show ?thesis
        using staged(2) Inl by (auto simp: is_err_iff dest!: keeps_servicesD [OF keeps_fail_and_revoke])
    next
      case (Inr out)
      then show ?thesis
        using run a l ok p staged(1)
        by (auto simp: claim_and_prepare_def Let_def bind_op_def return_op_def resumption_staged_def)
    qed
  qed
qed

lemma resume_checked_stages:
  assumes handler: "sv_handler sv = Some (builtin_obligation_handler h)"
    and distinct: "hm_keys_distinct (hf_injections (hw_services w))"
    and run: "resume_checked env (wired_host sv) kernel_runs kernel_approvals kernel_leases kind q fp w
      = (r, w')"
  shows "case r of Inl _ \<Rightarrow> nothing_staged (hw_services w) (hw_services w')
    | Inr p \<Rightarrow> resumption_staged h q (hw_services w) p (hw_services w')"
proof -
  obtain a w1 where a: "check_blocked_run kernel_runs q w = (a, w1)" by fastforce
  note w1 = keeps_servicesD [OF keeps_check_blocked_run a]
  obtain b w2 where b: "check_approval kernel_runs kernel_approvals kind fp q w1 = (b, w2)" by fastforce
  note w2 = keeps_servicesD [OF keeps_check_approval b]
  obtain m w3 where m: "matching_approval_lease kernel_leases (ce_leases_at env) (iq_context q)
      (iq_capability_id q) fp w2 = (m, w3)" by fastforce
  have w3: "w3 = w2" using lease_found [OF m] by simp
  note claimed = claim_and_prepare_stages [OF handler, of w2, unfolded w2 w1, OF distinct]
  show ?thesis
    using run a b m w1 w2 w3
    by (auto simp: resume_checked_def Let_def bind_op_def fail_run_with_def
        split: if_splits sum.splits option.splits dest: claimed)
qed

lemma resume_gate_stages:
  assumes "sv_handler sv = Some (builtin_obligation_handler h)"
    and "hm_keys_distinct (hf_injections (hw_services w))"
    and "resume_gate env (wired_host sv) kind q w = (r, w')"
  shows "case r of Inl _ \<Rightarrow> nothing_staged (hw_services w) (hw_services w')
    | Inr p \<Rightarrow> resumption_staged h q (hw_services w) p (hw_services w')"
  using assms(3)
  by (auto simp: resume_gate_def Let_def fail_op_def wired_host_def
      split: if_splits sum.splits dest: resume_checked_stages [OF assms(1,2), unfolded wired_host_def])

lemma resume_leaves_nothing:
  assumes handler: "sv_handler sv = Some (builtin_obligation_handler h)"
    and dispatcher: "\<And>q w. nothing_staged w (snd (sv_dispatcher sv q w))"
    and distinct: "hm_keys_distinct (hf_injections (hw_services w))"
  shows "nothing_staged (hw_services w) (hw_services (snd (resume_json env (wired_host sv) q w)))"
proof -
  obtain g w1 where g: "resume_gate env (wired_host sv) DispatchAction q w = (g, w1)" by fastforce
  note staged = resume_gate_stages [OF handler distinct g]
  show ?thesis
  proof (cases g)
    case (Inl e)
    then show ?thesis using g staged by (simp add: resume_json_def bind_op_def)
  next
    case (Inr p)
    obtain d w2 where d: "dispatch_stage (wired_host sv) ResumePhase (rp_context p) q (rp_obligations p)
        (rp_outcome p) w1 = (d, w2)" by fastforce
    have p: "rp_runs p = kernel_runs" "rp_leases p = kernel_leases"
      using staged Inr by (simp_all add: resumption_staged_def)
    have "nothing_staged (hw_services w) (hw_services w2)"
      using staged Inr by (intro dispatch_unstages [OF handler dispatcher _ distinct d])
        (simp add: resumption_staged_def)
    then show ?thesis
      using g Inr d p keeps_finish_resume [OF p]
      by (auto simp: resume_json_def bind_op_def keeps_rev_dest [OF keeps_fail_and_revoke] split: sum.split)
  qed
qed

subsection \<open>Histories\<close>

fun starts_process :: "host_command \<Rightarrow> bool" where
  "starts_process (SpawnJson _ _) = True"
| "starts_process (ResumeSpawnJson _ _) = True"
| "starts_process _ = False"

lemma step_leaves_nothing:
  assumes "sv_handler sv = Some (builtin_obligation_handler h)"
    and "\<And>q w. nothing_staged w (snd (sv_dispatcher sv q w))"
    and "hm_keys_distinct (hf_injections (hw_services w))" and "\<not> starts_process c"
  shows "nothing_staged (hw_services w) (hw_services (snd (host_step (wired_host sv) c w)))"
proof (cases c)
  case (InvokeJson env q)
  then show ?thesis using invoke_leaves_nothing [OF assms(1-3)] by simp
next
  case (ResumeJson env q)
  then show ?thesis using resume_leaves_nothing [OF assms(1-3)] by simp
next
  case (OnApprovals ac)
  have "hw_services (snd (approval_step kernel_approvals ac w)) = hw_services w"
    by (cases ac) (simp_all add: kernel_defs split: prod.split)
  then show ?thesis using OnApprovals by simp
next
  case (OnLeases lc)
  have "hw_services (snd (lease_step kernel_leases lc w)) = hw_services w"
    by (cases lc) (simp_all add: kernel_defs split: prod.split)
  then show ?thesis using OnLeases by simp
qed (use assms(4) in simp_all)

lemma history_leaves_nothing:
  assumes "sv_handler sv = Some (builtin_obligation_handler h)"
    and "\<And>q w. nothing_staged w (snd (sv_dispatcher sv q w))"
  shows "hm_keys_distinct (hf_injections (hw_services w)) \<Longrightarrow> list_all (\<lambda>c. \<not> starts_process c) cs \<Longrightarrow>
    nothing_staged (hw_services w) (hw_services (final_state (host_step (wired_host sv)) cs w))"
proof (induction cs arbitrary: w)
  case Nil
  then show ?case by simp
next
  case (Cons c cs)
  let ?w1 = "snd (host_step (wired_host sv) c w)"
  have step: "nothing_staged (hw_services w) (hw_services ?w1)"
    using Cons.prems by (intro step_leaves_nothing [OF assms]) simp_all
  then have "hm_keys_distinct (hf_injections (hw_services ?w1))"
    using Cons.prems by (simp add: within_def)
  then show ?case using within_trans [OF step Cons.IH] Cons.prems by simp
qed

text \<open>
  C19: No staged handoff outlives its invocation: start from empty handoff stores and let any history
  of invocations, resumes and client operations on the approval and lease stores run, with any
  obligations, any outcome of the audit sink, the secret store and the governor, and any dispatcher
  that stages nothing itself. Then no network policy is left staged for any scope and capability, and
  no secret material waits for any handle: every path of the host, the failed preparations, the
  failed dispatches and the failed completions included, discards what the preparation staged.
\<close>

theorem no_handoff_outlives_invocation:
  assumes "sv_handler sv = Some (builtin_obligation_handler h)"
    and "\<And>q w. nothing_staged w (snd (sv_dispatcher sv q w))"
    and "list_all (\<lambda>c. \<not> starts_process c) cs"
    and "hf_policies s = []" and "hf_injections s = []"
  shows "hm_get k (hf_policies (hw_services
           (final_state (host_step (wired_host sv)) cs (fresh_world s)))) = None
    \<and> hm_get j (hf_injections (hw_services
           (final_state (host_step (wired_host sv)) cs (fresh_world s)))) = None"
proof -
  let ?s = "hw_services (final_state (host_step (wired_host sv)) cs (fresh_world s))"
  have "nothing_staged s ?s"
    using history_leaves_nothing [OF assms(1,2) _ assms(3), of "fresh_world s"] assms(5)
    by (simp add: fresh_world_def hm_keys_distinct_def)
  then show ?thesis using assms(4,5) by (simp add: within_def)
qed

definition sample_egress :: network_policy where
  "sample_egress = \<lparr>pol_allowed_targets = [\<lparr>np_scheme = None, np_host_pattern = ''api.example'', np_port = None\<rparr>],
     pol_deny_private_ip_ranges = True, pol_max_egress_bytes = None\<rparr>"

definition sample_handler :: "unit builtin_handler" where
  "sample_handler = builtin_handler_new (\<lambda>_. Inr ''{}'') (\<lambda>_ _. []) (\<lambda>_. None)
     \<lparr>bh_network_policies := True\<rparr>"

text \<open>A host that answers every request by staging a policy and dispatching.\<close>

definition sample_handoff_services :: "unit handoff_world host_services" where
  "sample_handoff_services = \<lparr>sv_registry = (\<lambda>_. Some sample_descriptor),
     sv_dispatch_decision = (\<lambda>_ _ _ _ _ _. Allow [ApplyNetworkPolicy sample_egress]),
     sv_spawn_decision = (\<lambda>_ _ _ _ _ _. Deny PolicyDenied),
     sv_dispatcher = (\<lambda>_ s. (Inr sample_result, s)),
     sv_process_manager = None, sv_handler = Some (builtin_obligation_handler sample_handler)\<rparr>"

definition sample_handoffs :: "unit handoff_world" where
  "sample_handoffs = \<lparr>hf_policies = [], hf_injections = [], hf_clock = id,
     hf_timestamps = int, hf_uuids = (\<lambda>n. of_nat n), hf_rest = ()\<rparr>"

lemma sample_staging:
  "hm_get (handoff_key_new sample_owner ''ext.run'') (hf_policies (snd (handler_prepare sample_handler
     \<lparr>oq_phase = InvokePhase, oq_context = sample_context [], oq_capability_id = ''ext.run'',
       oq_estimate = no_estimate, oq_obligations = [ApplyNetworkPolicy sample_egress]\<rparr>
     sample_handoffs))) = Some sample_egress"
  by (simp add: handler_prepare_def sample_handler_def builtin_handler_new_def Let_def op_defs
      unsupported_obligations_def network_policy_obligation_def
      scoped_mount_obligation_def validate_network_policy_metadata_def sample_egress_def
      preflight_secret_injection_def preflight_resource_ceiling_def reserve_resource_obligation_def
      finish_prepare_def inject_secrets_def policy_insert_def request_scope_def sample_context_def
      resource_ceiling_obligation_def sample_handoffs_def)

theorem no_handoff_outlives_invocation_witness:
  "hm_get (handoff_key_new sample_owner ''ext.run'') (hf_policies (hw_services
     (final_state (host_step (wired_host sample_handoff_services))
       [InvokeJson sample_environment sample_invocation] (fresh_world sample_handoffs)))) = None"
  using no_handoff_outlives_invocation [of sample_handoff_services sample_handler
      "[InvokeJson sample_environment sample_invocation]" sample_handoffs]
  by (simp add: sample_handoff_services_def sample_handoffs_def)

end
