(* ===== verification/OutputSafety.thy ===== *)
theory OutputSafety
  imports Obligations Authorization
begin

section \<open>What a completed dispatch may return\<close>

text \<open>
  The checks between a dispatch and its caller: the output that is returned is the redacted one, and
  its size and its usage obey every limit of the decision.
\<close>

subsection \<open>Limits\<close>

definition at_most :: "'a::linorder \<Rightarrow> 'a option \<Rightarrow> bool" where
  "at_most a limit = (case limit of None \<Rightarrow> True | Some m \<Rightarrow> a \<le> m)"

definition usage_obeys :: "resource_usage \<Rightarrow> u64 \<Rightarrow> resource_ceiling \<Rightarrow> bool" where
  "usage_obeys u output_bytes c \<longleftrightarrow> at_most (ru_usd u) (rc_max_usd c)
     \<and> at_most (ru_input_tokens u) (rc_max_input_tokens c)
     \<and> at_most (ru_output_tokens u) (rc_max_output_tokens c)
     \<and> at_most output_bytes (rc_max_output_bytes c)
     \<and> validate_supported_resource_ceiling c = Inr ()"

lemma checks_at_most:
  "check_decimal_ceiling x m = Inr () \<longleftrightarrow> at_most x m"
  "check_integer_ceiling a m' = Inr () \<longleftrightarrow> at_most a m'"
  "check_output_bytes_ceiling a m' = Inr () \<longleftrightarrow> at_most a m'"
  by (auto simp: check_decimal_ceiling_def check_integer_ceiling_def check_output_bytes_ceiling_def
      at_most_def not_less split: option.split)

lemma bind_unit_iff: "bind_result m f = Inr x \<longleftrightarrow> m = Inr () \<and> f () = Inr x" for m :: "('e, unit) result"
  by (cases m) simp_all

lemma usage_check_iff:
  "bind_result (validate_supported_resource_ceiling c) (\<lambda>_. validate_usage_within_ceiling u n c) = Inr ()
     \<longleftrightarrow> usage_obeys u n c"
  by (auto simp: validate_usage_within_ceiling_def bind_unit_iff checks_at_most usage_obeys_def)

definition obeys :: "resource_usage \<Rightarrow> u64 \<Rightarrow> obligation \<Rightarrow> bool" where
  "obeys u n ob = (case ob of EnforceOutputLimit limit \<Rightarrow> n \<le> limit
     | EnforceResourceCeiling c \<Rightarrow> usage_obeys u n c | _ \<Rightarrow> True)"

lemma check_ceilings_iff:
  "check_ceilings u n obs = Inr () \<longleftrightarrow> (\<forall>c. EnforceResourceCeiling c \<in> set obs \<longrightarrow> usage_obeys u n c)"
  by (induction u n obs rule: check_ceilings.induct)
    (auto simp: usage_check_iff [symmetric] bind_unit_iff)

lemma check_output_limits_iff:
  "check_output_limits n obs = Inr () \<longleftrightarrow> (\<forall>l. EnforceOutputLimit l \<in> set obs \<longrightarrow> n \<le> l)"
  by (induction n obs rule: check_output_limits.induct) (auto simp: not_less)

lemma checks_iff:
  "check_ceilings u n obs = Inr () \<and> check_output_limits n obs = Inr () \<longleftrightarrow> list_all (obeys u n) obs"
  unfolding check_ceilings_iff check_output_limits_iff list_all_iff
  by (auto simp: obeys_def split: obligation.splits)

subsection \<open>Redaction\<close>

text \<open>Every string of a JSON value, the keys of its objects included, satisfies \<open>P\<close>.\<close>

fun all_strings :: "(string \<Rightarrow> bool) \<Rightarrow> json \<Rightarrow> bool" where
  "all_strings P (JString s) \<longleftrightarrow> P s"
| "all_strings P (JArray vs) \<longleftrightarrow> (\<forall>v \<in> set vs. all_strings P v)"
| "all_strings P (JObject es) \<longleftrightarrow> (\<forall>e \<in> set es. P (fst e) \<and> all_strings P (snd e))"
| "all_strings P JNull \<longleftrightarrow> True"
| "all_strings P (JBool b) \<longleftrightarrow> True"
| "all_strings P (JNumber n) \<longleftrightarrow> True"

lemma bind_result_iff: "bind_result m f = Inr y \<longleftrightarrow> (\<exists>x. m = Inr x \<and> f x = Inr y)"
  by (cases m) simp_all

definition cleaned :: "(string \<Rightarrow> (obligation_error, string) result) \<Rightarrow> string \<Rightarrow> bool" where
  "cleaned clean t \<longleftrightarrow> (\<exists>s. clean s = Inr t)"

lemma redacted_strings:
  "redact_output clean v = Inr w \<Longrightarrow> all_strings (cleaned clean) w"
  "redact_values clean vs = Inr ws \<Longrightarrow> list_all (all_strings (cleaned clean)) ws"
  "redact_entries clean acc es = Inr fs \<Longrightarrow>
     list_all (\<lambda>e. cleaned clean (fst e) \<and> all_strings (cleaned clean) (snd e)) acc \<Longrightarrow>
     list_all (\<lambda>e. cleaned clean (fst e) \<and> all_strings (cleaned clean) (snd e)) fs"
proof (induction clean v and clean vs and clean acc es arbitrary: w and ws and fs
    rule: redact_output_redact_values_redact_entries.induct)
  case (10 clean acc e es)
  obtain k v where k: "clean (fst e) = Inr k" and v: "redact_output clean (snd e) = Inr v"
    and rest: "redact_entries clean (insort_key fst (k, v) acc) es = Inr fs" and new: "k \<notin> set (map fst acc)"
    using 10(3) by (auto simp: bind_result_iff split: if_splits)
  have "all_strings (cleaned clean) v" using 10(1) k v by blast
  moreover have "cleaned clean k" using k by (auto simp: cleaned_def)
  ultimately have "list_all (\<lambda>e. cleaned clean (fst e) \<and> all_strings (cleaned clean) (snd e))
      (insort_key fst (k, v) acc)"
    using 10(4) by (auto simp: list_all_iff set_insort_key)
  then show ?case using 10(2) k v new rest by blast
qed (auto simp: bind_result_iff list_all_iff cleaned_def)

subsection \<open>Completion\<close>

text \<open>What the caller of a completed dispatch may get.\<close>

definition released_result :: "'o builtin_handler \<Rightarrow> completion_request \<Rightarrow> dispatch_result \<Rightarrow> bool" where
  "released_result h q d \<longleftrightarrow>
     (let obs = oq_obligations q
      in d = (oq_dispatch q)\<lparr>dr_output := dr_output d\<rparr>
         \<and> (if RedactOutput \<in> set obs then all_strings (cleaned (redact_output_string h)) (dr_output d)
            else d = oq_dispatch q)
         \<and> (case bh_to_vec h (dr_output d) of Inl _ \<Rightarrow> False
            | Inr bytes \<Rightarrow> list_all (obeys (dr_usage d) (of_nat (length bytes))) obs))"

lemma checked_output_released:
  assumes "checked_output h q = Inr (d, n)"
  shows "released_result h q d"
proof -
  let ?obs = "oq_obligations q"
  obtain d' where d': "(if RedactOutput \<in> set ?obs then
        bind_result (redact_output (redact_output_string h) (dr_output (oq_dispatch q)))
          (\<lambda>out. Inr ((oq_dispatch q)\<lparr>dr_output := out\<rparr>))
      else Inr (oq_dispatch q)) = Inr d'"
    and rest: "bind_result (dispatch_output_bytes (bh_to_vec h) (dr_output d')) (\<lambda>n.
         bind_result (check_ceilings (dr_usage d') n ?obs) (\<lambda>_.
         bind_result (check_output_limits n ?obs) (\<lambda>_. Inr (d', n)))) = Inr (d, n)"
    using assms by (auto simp: checked_output_def Let_def bind_result_iff)
  then have d: "d' = d" and bytes: "dispatch_output_bytes (bh_to_vec h) (dr_output d) = Inr n"
    and checks: "check_ceilings (dr_usage d) n ?obs = Inr ()" "check_output_limits n ?obs = Inr ()"
    by (auto simp: bind_result_iff)
  obtain s where "bh_to_vec h (dr_output d) = Inr s" "n = of_nat (length s)"
    using bytes by (cases "bh_to_vec h (dr_output d)") (auto simp: dispatch_output_bytes_def)
  then show ?thesis
    using d' checks checks_iff [of "dr_usage d" n ?obs]
    by (auto simp: released_result_def Let_def d bind_result_iff redacted_strings split: if_splits)
qed

text \<open>
  C20: A completed dispatch obeys its obligations: if the handler completes a dispatch, the result it
  hands on differs from the runtime's in its output only; the output is unchanged, or, under
  \<open>RedactOutput\<close>, every string in it, object keys included, has come out of the leak detector; and
  the serialized size of the output that is handed on (not of the runtime's) and the reported usage
  are within every output limit and every resource ceiling of the decision.
\<close>

theorem completion_obeys_obligations:
  assumes "handler_complete_dispatch h q w = (Inr d, w')"
  shows "released_result h q d"
proof -
  obtain n where "checked_output h q = Inr (d, n)"
    using assms by (auto simp: handler_complete_dispatch_def Let_def bind_op_def fail_op_def
        return_op_def emit_audit_after_def split: if_splits sum.splits prod.splits)
  then show ?thesis by (rule checked_output_released)
qed

definition sample_completion_handler :: "unit builtin_handler" where
  "sample_completion_handler = builtin_handler_new (\<lambda>_. Inr ''[null,7]'') (\<lambda>_ _. []) (\<lambda>_. None)"

definition sample_completion :: completion_request where
  "sample_completion = \<lparr>oq_phase = InvokePhase, oq_context = sample_context [],
     oq_capability_id = ''ext.run'', oq_estimate = no_estimate,
     oq_obligations = [RedactOutput, EnforceOutputLimit 8,
       EnforceResourceCeiling \<lparr>rc_max_usd = Some 2, rc_max_input_tokens = None,
         rc_max_output_tokens = Some 5, rc_max_wall_clock_ms = None, rc_max_output_bytes = Some 8,
         rc_sandbox = None\<rparr>],
     oq_dispatch = \<lparr>dr_capability_id = ''ext.run'', dr_provider = ''ext'', dr_runtime = Wasm,
       dr_output = JArray [JNull, JNumber ''7''],
       dr_usage = \<lparr>ru_usd = 2, ru_input_tokens = 3, ru_output_tokens = 5, ru_wall_clock_ms = 0,
         ru_output_bytes = 0, ru_network_egress_bytes = 0, ru_process_count = 0\<rparr>,
       dr_receipt = \<lparr>rr_id = 9, rr_scope = sample_owner, rr_status = Reconciled,
         rr_estimate = no_estimate, rr_actual = None\<rparr>\<rparr>\<rparr>"

definition sample_stores :: "unit handoff_world" where
  "sample_stores = \<lparr>hf_policies = [], hf_injections = [], hf_clock = id, hf_timestamps = int,
     hf_uuids = (\<lambda>n. of_nat n), hf_rest = ()\<rparr>"

lemma sample_completes:
  "handler_complete_dispatch sample_completion_handler sample_completion sample_stores
     = (Inr (oq_dispatch sample_completion), sample_stores)"
  by (simp add: handler_complete_dispatch_def sample_completion_handler_def sample_completion_def
      builtin_handler_new_def Let_def op_defs unsupported_completion_obligations_def checked_output_def
      dispatch_output_bytes_def validate_supported_resource_ceiling_def
      validate_usage_within_ceiling_def check_decimal_ceiling_def check_integer_ceiling_def
      check_output_bytes_ceiling_def discard_staged_handoffs_def)

theorem completion_obeys_obligations_witness:
  "released_result sample_completion_handler sample_completion (oq_dispatch sample_completion)"
  by (rule completion_obeys_obligations [OF sample_completes])

end
