(* ===== verification/DbFilesystem.thy ===== *)
theory DbFilesystem
  imports Filesystem HashMaps
begin

section \<open>The database filesystems\<close>

text \<open>
  The two database backends of \<open>crates/ironclaw_filesystem/src/lib.rs\<close>, PostgreSQL and libSQL, which
  keep every file in one row of the table \<open>root_filesystem_entries\<close>. The table is a map from its
  primary key; each SQL statement of the source is a function on it, with the documented meaning of
  the SQL it uses. A call to the database may fail, which is decided outside and has no effect.
\<close>

subsection \<open>The table and its statements\<close>

record entry_row =
  er_contents :: string
  er_is_dir :: bool

type_synonym entry_table = "(virtual_path, entry_row) hash_map"

text \<open>\<open>db_faults n\<close> is the error of the n-th call from now, if it fails.\<close>

record database =
  db_entries :: entry_table
  db_faults :: "nat \<Rightarrow> string option"

definition db_call :: "(entry_table \<Rightarrow> 'r \<times> entry_table) \<Rightarrow> (database, string, 'r) operation" where
  "db_call f w =
     (let w' = w\<lparr>db_faults := (\<lambda>n. db_faults w (Suc n))\<rparr>
      in case db_faults w 0 of
           Some e \<Rightarrow> (Inl e, w')
         | None \<Rightarrow> (case f (db_entries w) of (r, t) \<Rightarrow> (Inr r, w'\<lparr>db_entries := t\<rparr>)))"

text \<open>
  \<open>LIKE \<dots> ESCAPE '!'\<close>: an escaped character and any other character but the two wildcards stand for
  themselves, up to the letter case if the dialect folds it. SQLite's LIKE folds the ASCII letters by
  default; PostgreSQL's folds nothing.
\<close>

function like_match :: "(char \<Rightarrow> char) \<Rightarrow> string \<Rightarrow> string \<Rightarrow> bool" where
  "like_match lc [] t = (t = [])"
| "like_match lc (p # ps) t =
     (if p = CHR ''!'' then
        (case (ps, t) of (q # qs, c # cs) \<Rightarrow> lc c = lc q \<and> like_match lc qs cs | _ \<Rightarrow> False)
      else if p = CHR ''%'' then
        like_match lc ps t \<or> (case t of [] \<Rightarrow> False | c # cs \<Rightarrow> like_match lc (p # ps) cs)
      else (case t of [] \<Rightarrow> False
         | c # cs \<Rightarrow> (p = CHR ''_'' \<or> lc c = lc p) \<and> like_match lc ps cs))"
  by pat_completeness auto

termination
  by (relation "measure (\<lambda>(lc, p, t). length p + length t)") auto

text \<open>\<open>SELECT \<dots> WHERE path = $1\<close>\<close>

definition select_path :: "virtual_path \<Rightarrow> entry_table \<Rightarrow> entry_row option \<times> entry_table" where
  "select_path p t = (hm_get p t, t)"

text \<open>\<open>SELECT \<dots> WHERE path LIKE $1 ESCAPE '!' ORDER BY path\<close>\<close>

definition select_like ::
    "(char \<Rightarrow> char) \<Rightarrow> string \<Rightarrow> entry_table \<Rightarrow> (virtual_path \<times> entry_row) list \<times> entry_table" where
  "select_like lc pattern t = (sort_key fst (filter (\<lambda>e. like_match lc pattern (fst e)) t), t)"

definition exists_like :: "(char \<Rightarrow> char) \<Rightarrow> string \<Rightarrow> entry_table \<Rightarrow> bool \<times> entry_table" where
  "exists_like lc pattern t = (list_ex (\<lambda>e. like_match lc pattern (fst e)) t, t)"

text \<open>
  \<open>INSERT \<dots> ON CONFLICT (path) DO UPDATE \<dots> WHERE is_dir = FALSE\<close>, with the number of rows changed.
\<close>

definition upsert_file :: "virtual_path \<Rightarrow> string \<Rightarrow> entry_table \<Rightarrow> nat \<times> entry_table" where
  "upsert_file p bytes t =
     (case hm_get p t of
        Some row \<Rightarrow>
          if er_is_dir row then (0, t)
          else (1, hm_insert p \<lparr>er_contents = bytes, er_is_dir = False\<rparr> t)
      | None \<Rightarrow> (1, hm_insert p \<lparr>er_contents = bytes, er_is_dir = False\<rparr> t))"

text \<open>\<open>INSERT \<dots> ON CONFLICT (path) DO UPDATE SET contents = contents || EXCLUDED.contents\<close>\<close>

definition upsert_append :: "virtual_path \<Rightarrow> string \<Rightarrow> entry_table \<Rightarrow> unit \<times> entry_table" where
  "upsert_append p bytes t =
     ((), hm_insert p \<lparr>er_contents = (case hm_get p t of Some row \<Rightarrow> er_contents row | None \<Rightarrow> []) @ bytes,
            er_is_dir = False\<rparr> t)"

text \<open>\<open>DELETE \<dots> WHERE path = $1 OR path LIKE $2 ESCAPE '!'\<close>, with the number of rows deleted.\<close>

definition delete_like ::
    "(char \<Rightarrow> char) \<Rightarrow> virtual_path \<Rightarrow> string \<Rightarrow> entry_table \<Rightarrow> nat \<times> entry_table" where
  "delete_like lc p pattern t =
     (let hit = (\<lambda>e. fst e = p \<or> like_match lc pattern (fst e))
      in (length (filter hit t), filter (\<lambda>e. \<not> hit e) t))"

text \<open>\<open>INSERT \<dots> (path, '', TRUE) ON CONFLICT (path) DO NOTHING\<close>\<close>

definition insert_dir :: "virtual_path \<Rightarrow> entry_table \<Rightarrow> unit \<times> entry_table" where
  "insert_dir p t =
     ((), if hm_get p t = None then hm_insert p \<lparr>er_contents = [], er_is_dir = True\<rparr> t else t)"

subsection \<open>Dialects\<close>

text \<open>
  PostgreSQL takes one connection of its pool per operation; libSQL opens one for every statement
  outside a transaction. Both report a failure under \<open>/engine\<close>.
\<close>

record sql_dialect =
  sq_fold :: "char \<Rightarrow> char"
  sq_pooled :: bool

definition ascii_fold :: "char \<Rightarrow> char" where
  "ascii_fold c = (if 65 \<le> byte_of c \<and> byte_of c \<le> 90 then char_of (byte_of c + 32) else c)"

definition postgres_dialect :: sql_dialect where
  "postgres_dialect = \<lparr>sq_fold = id, sq_pooled = True\<rparr>"

definition libsql_dialect :: sql_dialect where
  "libsql_dialect = \<lparr>sq_fold = ascii_fold, sq_pooled = False\<rparr>"

definition valid_engine_path :: virtual_path where
  "valid_engine_path = ''/engine''"

definition db_connect :: "(database, filesystem_error, unit) operation" where
  "db_connect = map_err_op (FsBackend valid_engine_path StatOp) (db_call (\<lambda>t. ((), t)))"

definition open_session :: "sql_dialect \<Rightarrow> (database, filesystem_error, unit) operation" where
  "open_session d = (if sq_pooled d then db_connect else return_op ())"

definition db_statement ::
    "virtual_path \<Rightarrow> filesystem_operation \<Rightarrow> (entry_table \<Rightarrow> 'r \<times> entry_table)
     \<Rightarrow> (database, filesystem_error, 'r) operation" where
  "db_statement path operation f = map_err_op (FsBackend path operation) (db_call f)"

definition run_statement ::
    "sql_dialect \<Rightarrow> virtual_path \<Rightarrow> filesystem_operation \<Rightarrow> (entry_table \<Rightarrow> 'r \<times> entry_table)
     \<Rightarrow> (database, filesystem_error, 'r) operation" where
  "run_statement d path operation f =
     bind_op (if sq_pooled d then return_op () else db_connect)
       (\<lambda>_. db_statement path operation f)"

subsection \<open>The operations\<close>

definition fs_not_found :: "virtual_path \<Rightarrow> filesystem_operation \<Rightarrow> filesystem_error" where
  "fs_not_found path operation = FsNotFound path operation"

fun is_fs_not_found :: "filesystem_error \<Rightarrow> bool" where
  "is_fs_not_found (FsNotFound _ _) = True"
| "is_fs_not_found _ = False"

definition directory_write_error :: "virtual_path \<Rightarrow> filesystem_error" where
  "directory_write_error path = FsBackend path WriteFileOp ''cannot overwrite a directory''"

definition directory_append_error :: "virtual_path \<Rightarrow> filesystem_error" where
  "directory_append_error path = FsBackend path AppendFileOp ''cannot append to a directory''"

definition row_type :: "entry_row \<Rightarrow> file_type" where
  "row_type row = (if er_is_dir row then Directory else RegularFile)"

definition row_len :: "entry_row \<Rightarrow> u64" where
  "row_len row = (if er_is_dir row then 0 else of_nat (length (er_contents row)))"

definition exact_entry ::
    "sql_dialect \<Rightarrow> virtual_path \<Rightarrow> (database, filesystem_error, (u64 \<times> file_type) option) operation" where
  "exact_entry d path =
     bind_op (run_statement d path StatOp (select_path path))
       (\<lambda>row. return_op (map_option (\<lambda>r. (row_len r, row_type r)) row))"

definition has_child_entry :: "sql_dialect \<Rightarrow> virtual_path \<Rightarrow> (database, filesystem_error, bool) operation" where
  "has_child_entry d parent =
     run_statement d parent StatOp (exists_like (sq_fold d) (child_path_like_pattern parent))"

fun checked_rows ::
    "(virtual_path \<times> entry_row) list
     \<Rightarrow> (filesystem_error, (virtual_path \<times> u64 \<times> file_type) list) result" where
  "checked_rows [] = Inr []"
| "checked_rows ((p, row) # rows) =
     bind_result (map_err FsContract (virtual_path_new p)) (\<lambda>p.
     bind_result (checked_rows rows) (\<lambda>rest. Inr ((p, row_len row, row_type row) # rest)))"

definition child_entries ::
    "sql_dialect \<Rightarrow> virtual_path \<Rightarrow> filesystem_operation
     \<Rightarrow> (database, filesystem_error, (virtual_path \<times> u64 \<times> file_type) list) operation" where
  "child_entries d parent operation =
     bind_op (run_statement d parent operation
         (select_like (sq_fold d) (child_path_like_pattern parent)))
       (\<lambda>rows w. (checked_rows rows, w))"

text \<open>The \<open>BTreeMap\<close> of the direct children; an entry that is there already stays.\<close>

fun collect_children ::
    "virtual_path \<Rightarrow> (string, dir_entry) hash_map \<Rightarrow> (virtual_path \<times> u64 \<times> file_type) list
     \<Rightarrow> (filesystem_error, (string, dir_entry) hash_map) result" where
  "collect_children parent acc [] = Inr acc"
| "collect_children parent acc ((p, n, ty) # rows) =
     (case strip_prefix (trim_end_matches (CHR ''/'') parent @ ''/'') p of
        None \<Rightarrow> collect_children parent acc rows
      | Some tail \<Rightarrow>
          if tail = [] then collect_children parent acc rows
          else
            (let name = takeWhile (\<lambda>c. c \<noteq> CHR ''/'') tail;
                 ty = (if CHR ''/'' \<in> set tail then Directory else ty)
             in bind_result (map_err FsContract
                    (virtual_path_new (trim_end_matches (CHR ''/'') parent @ ''/'' @ name))) (\<lambda>ep.
                  collect_children parent
                    (if hm_get name acc = None
                     then hm_insert name \<lparr>de_name = name, de_path = ep, de_file_type = ty\<rparr> acc
                     else acc) rows)))"

definition direct_children ::
    "virtual_path \<Rightarrow> (virtual_path \<times> u64 \<times> file_type) list \<Rightarrow> (filesystem_error, dir_entry list) result" where
  "direct_children parent rows =
     bind_result (collect_children parent [] rows) (\<lambda>entries.
       if entries = [] then Inl (fs_not_found parent ListDirOp)
       else Inr (map snd (sort_key fst entries)))"

definition db_read_file ::
    "sql_dialect \<Rightarrow> virtual_path \<Rightarrow> (database, filesystem_error, string) operation" where
  "db_read_file d path =
     bind_op (open_session d) (\<lambda>_.
     bind_op (run_statement d path ReadFileOp (select_path path)) (\<lambda>row.
       case row of
         None \<Rightarrow> fail_op (fs_not_found path ReadFileOp)
       | Some r \<Rightarrow>
           if er_is_dir r then fail_op (FsBackend path ReadFileOp ''is a directory'')
           else return_op (er_contents r)))"

text \<open>The guard of the two writing operations: a directory row, or else any row below the path.\<close>

definition occupied ::
    "sql_dialect \<Rightarrow> virtual_path \<Rightarrow> (database, filesystem_error, bool) operation" where
  "occupied d path =
     bind_op (exact_entry d path) (\<lambda>entry.
       if map_option snd entry = Some Directory then return_op True else has_child_entry d path)"

definition db_write_file ::
    "sql_dialect \<Rightarrow> virtual_path \<Rightarrow> string \<Rightarrow> (database, filesystem_error, unit) operation" where
  "db_write_file d path bytes =
     bind_op (open_session d) (\<lambda>_.
     bind_op (occupied d path) (\<lambda>taken.
       if taken then fail_op (directory_write_error path)
       else bind_op (run_statement d path WriteFileOp (upsert_file path bytes)) (\<lambda>rows.
         if rows = 0 then fail_op (directory_write_error path) else return_op ())))"

definition db_append_file ::
    "sql_dialect \<Rightarrow> virtual_path \<Rightarrow> string \<Rightarrow> (database, filesystem_error, unit) operation" where
  "db_append_file d path bytes =
     bind_op (open_session d) (\<lambda>_.
     bind_op (occupied d path) (\<lambda>taken.
       if taken then fail_op (directory_append_error path)
       else run_statement d path AppendFileOp (upsert_append path bytes)))"

definition db_list_dir ::
    "sql_dialect \<Rightarrow> virtual_path \<Rightarrow> (database, filesystem_error, dir_entry list) operation" where
  "db_list_dir d path =
     bind_op (open_session d) (\<lambda>_.
     bind_op (exact_entry d path) (\<lambda>entry.
       if map_option snd entry = Some RegularFile then
         fail_op (FsBackend path ListDirOp ''not a directory'')
       else bind_op (child_entries d path ListDirOp) (\<lambda>rows w.
         case direct_children path rows of
           Inr entries \<Rightarrow> (Inr entries, w)
         | Inl e \<Rightarrow>
             if map_option snd entry = Some Directory \<and> is_fs_not_found e then (Inr [], w)
             else (Inl e, w))))"

definition db_stat ::
    "sql_dialect \<Rightarrow> virtual_path \<Rightarrow> (database, filesystem_error, file_stat) operation" where
  "db_stat d path =
     bind_op (open_session d) (\<lambda>_.
     bind_op (exact_entry d path) (\<lambda>entry.
       case entry of
         Some (n, ty) \<Rightarrow> return_op \<lparr>fl_path = path, fl_file_type = ty, fl_len = n\<rparr>
       | None \<Rightarrow> bind_op (has_child_entry d path) (\<lambda>child.
           if child then return_op \<lparr>fl_path = path, fl_file_type = Directory, fl_len = 0\<rparr>
           else fail_op (fs_not_found path StatOp))))"

definition db_delete ::
    "sql_dialect \<Rightarrow> virtual_path \<Rightarrow> (database, filesystem_error, unit) operation" where
  "db_delete d path =
     bind_op (open_session d) (\<lambda>_.
     bind_op (run_statement d path DeleteOp
         (delete_like (sq_fold d) path (child_path_like_pattern path))) (\<lambda>deleted.
       if deleted = 0 then fail_op (fs_not_found path DeleteOp) else return_op ()))"

text \<open>A transaction that is not committed is rolled back.\<close>

definition transaction ::
    "virtual_path \<Rightarrow> filesystem_operation \<Rightarrow> (database, filesystem_error, unit) operation
     \<Rightarrow> (database, filesystem_error, unit) operation" where
  "transaction path operation body w =
     (case bind_op (db_statement path operation (\<lambda>t. ((), t))) (\<lambda>_.
             bind_op body (\<lambda>_. db_statement path operation (\<lambda>t. ((), t)))) w of
        (Inl e, w') \<Rightarrow> (Inl e, w'\<lparr>db_entries := db_entries w\<rparr>)
      | (Inr u, w') \<Rightarrow> (Inr u, w'))"

fun create_dirs ::
    "virtual_path \<Rightarrow> virtual_path list \<Rightarrow> (database, filesystem_error, unit) operation" where
  "create_dirs path [] = return_op ()"
| "create_dirs path (p # ps) =
     bind_op (db_statement p CreateDirAllOp (select_path p)) (\<lambda>row.
       if (case row of Some r \<Rightarrow> \<not> er_is_dir r | None \<Rightarrow> False) then
         fail_op (FsBackend p CreateDirAllOp ''file exists where directory is required'')
       else bind_op (db_statement path CreateDirAllOp (insert_dir p)) (\<lambda>_. create_dirs path ps))"

definition db_create_dir_all ::
    "virtual_path \<Rightarrow> (database, filesystem_error, unit) operation" where
  "db_create_dir_all path =
     bind_op db_connect (\<lambda>_. transaction path CreateDirAllOp
       (case virtual_path_prefixes path of
          Inl e \<Rightarrow> fail_op (FsContract e)
        | Inr ps \<Rightarrow> create_dirs path ps))"

definition database_filesystem :: "sql_dialect \<Rightarrow> database root_filesystem" where
  "database_filesystem d = \<lparr>fs_read_file = db_read_file d, fs_write_file = db_write_file d,
     fs_append_file = db_append_file d, fs_list_dir = db_list_dir d, fs_stat = db_stat d,
     fs_delete = db_delete d, fs_create_dir_all = db_create_dir_all\<rparr>"

definition postgres_filesystem :: "database root_filesystem" where
  "postgres_filesystem = database_filesystem postgres_dialect"

definition libsql_filesystem :: "database root_filesystem" where
  "libsql_filesystem = database_filesystem libsql_dialect"

subsection \<open>What the patterns match\<close>

declare like_match.simps(2) [simp del]

definition like_escape :: "char \<Rightarrow> string" where
  "like_escape c =
     (if c = CHR ''!'' \<or> c = CHR ''%'' \<or> c = CHR ''_'' then [CHR ''!'', c] else [c])"

lemma like_all [simp]: "like_match lc [CHR ''%''] t"
proof (induction t)
  case Nil
  show ?case by (subst like_match.simps(2)) simp
next
  case (Cons c t)
  then show ?case by (subst like_match.simps(2)) simp
qed

lemma like_plain:
  "like_match lc (like_escape x @ ps) t \<longleftrightarrow> (\<exists>c cs. t = c # cs \<and> lc c = lc x \<and> like_match lc ps cs)"
  by (cases t) (auto simp: like_escape_def like_match.simps(2))

lemma like_escaped:
  "like_match lc (concat (map like_escape xs) @ [CHR ''%'']) t \<longleftrightarrow>
     length xs \<le> length t \<and> map lc (take (length xs) t) = map lc xs"
proof (induction xs arbitrary: t)
  case Nil
  then show ?case by simp
next
  case (Cons x xs)
  show ?case by (cases t) (auto simp: like_plain Cons.IH)
qed

text \<open>A path below another, up to the folding of the dialect.\<close>

definition below :: "(char \<Rightarrow> char) \<Rightarrow> virtual_path \<Rightarrow> virtual_path \<Rightarrow> bool" where
  "below lc p q \<longleftrightarrow> Suc (length p) \<le> length q \<and> map lc (take (Suc (length p)) q) = map lc (p @ ''/'')"

lemma below_id: "below id p q \<longleftrightarrow> prefix (p @ ''/'') q"
  by (auto simp: below_def prefix_def) (metis append_take_drop_id append.assoc append_Cons append_Nil)

lemma below_if_prefix: "prefix (p @ ''/'') q \<Longrightarrow> below lc p q"
  by (auto simp: below_def prefix_def)

lemma not_below_self [simp]: "\<not> below lc p p"
  by (simp add: below_def)

lemma trim_canonical: "virtual_path_ok p \<Longrightarrow> trim_end_matches (CHR ''/'') p = p"
proof -
  assume "virtual_path_ok p"
  then obtain ps where ps: "path_form ps p" by (auto simp: virtual_path_ok_iff)
  obtain w where w: "rev p = w" "w \<noteq> []" "hd w \<noteq> CHR ''/''"
    using path_form_clean [OF ps] by (simp add: hd_rev)
  then show ?thesis by (cases w) (auto simp: trim_end_matches_def rev_swap)
qed

lemma child_pattern_matches:
  assumes "virtual_path_ok p"
  shows "like_match lc (child_path_like_pattern p) q \<longleftrightarrow> below lc p q"
proof -
  have "like_escape (CHR ''/'') = ''/''" by (simp add: like_escape_def)
  then have "child_path_like_pattern p = concat (map like_escape (p @ ''/'')) @ [CHR ''%'']"
    by (simp add: child_path_like_pattern_def trim_canonical [OF assms] like_escape_def [abs_def])
  then show ?thesis using like_escaped [of lc "p @ ''/''" q] by (simp add: below_def)
qed

text \<open>
  In libSQL a directory that differs in letter case only counts as the same one: deleting
  \<open>/projects/Foo\<close> deletes \<open>/projects/foo/a\<close>, and a file \<open>/projects/Foo\<close> cannot be written.
\<close>

definition two_projects :: database where
  "two_projects = \<lparr>db_entries = [(''/projects/Foo/b'', \<lparr>er_contents = ''B'', er_is_dir = False\<rparr>),
       (''/projects/foo/a'', \<lparr>er_contents = ''A'', er_is_dir = False\<rparr>)],
     db_faults = (\<lambda>_. None)\<rparr>"


end
