(* ===== verification/DbFileTree.thy ===== *)
theory DbFileTree
  imports DbFilesystem
begin

section \<open>The database filesystems are file trees\<close>

text \<open>
  What the operations of a database backend do, stated on a tree of files instead of a table: every
  operation answers like the tree, or fails because a call to the database failed and then leaves the
  table as it was.
\<close>

subsection \<open>Operations with failing calls\<close>

definition fault_reported :: "database \<Rightarrow> (filesystem_error, 'a) result \<Rightarrow> bool" where
  "fault_reported w r \<longleftrightarrow> (\<exists>p op n e. db_faults w n = Some e \<and> r = Inl (FsBackend p op e))"

definition later :: "database \<Rightarrow> database \<Rightarrow> bool" where
  "later w w' \<longleftrightarrow> (\<exists>k. \<forall>n. db_faults w' n = db_faults w (n + k))"

text \<open>
  \<open>follows m g\<close>: the operation \<open>m\<close> does on the table what \<open>g\<close> does, unless a call fails;
  \<open>reads m\<close>: it leaves the table alone; \<open>safe m\<close>: it does so if it fails.
\<close>

definition follows ::
    "(database, filesystem_error, 'a) operation \<Rightarrow> (entry_table, filesystem_error, 'a) operation \<Rightarrow> bool" where
  "follows m g \<longleftrightarrow> (\<forall>w r w'. m w = (r, w') \<longrightarrow>
     later w w' \<and> ((r, db_entries w') = g (db_entries w) \<or> fault_reported w r))"

definition reads :: "(database, filesystem_error, 'a) operation \<Rightarrow> bool" where
  "reads m \<longleftrightarrow> (\<forall>w. db_entries (snd (m w)) = db_entries w)"

definition safe :: "(database, filesystem_error, 'a) operation \<Rightarrow> bool" where
  "safe m \<longleftrightarrow> (\<forall>w e w'. m w = (Inl e, w') \<longrightarrow> db_entries w' = db_entries w)"

lemma later_refl [simp]: "later w w"
  unfolding later_def by (rule exI [of _ 0]) simp

lemma later_trans:
  assumes "later u v" "later v w"
  shows "later u w"
proof -
  from assms(1) obtain j where "\<forall>n. db_faults v n = db_faults u (n + j)" by (auto simp: later_def)
  moreover from assms(2) obtain k where "\<forall>n. db_faults w n = db_faults v (n + k)"
    by (auto simp: later_def)
  ultimately have "\<forall>n. db_faults w n = db_faults u (n + (k + j))" by (simp add: add.assoc)
  then show ?thesis unfolding later_def by blast
qed

lemma fault_later: "later w w' \<Longrightarrow> fault_reported w' r \<Longrightarrow> fault_reported w r"
  unfolding later_def fault_reported_def by metis

named_theorems db_intros \<open>rules for operations on a database\<close>

lemma follows_return [db_intros]:
  "follows (return_op x) (return_op x)" "follows (fail_op e) (fail_op e)"
  "follows (\<lambda>w. (r, w)) (\<lambda>t. (r, t))"
  by (simp_all add: follows_def op_defs)

lemma follows_bind [db_intros]:
  assumes "follows m g" "\<And>x. follows (k x) (h x)"
  shows "follows (bind_op m k) (bind_op g h)"
  unfolding follows_def
proof (intro allI impI)
  fix w r w'
  assume run: "bind_op m k w = (r, w')"
  obtain a w1 where m: "m w = (a, w1)" by fastforce
  have step: "later w w1" "(a, db_entries w1) = g (db_entries w) \<or> fault_reported w a"
    using assms(1) m by (auto simp: follows_def)
  show "later w w' \<and> ((r, db_entries w') = bind_op g h (db_entries w) \<or> fault_reported w r)"
  proof (cases a)
    case (Inl e)
    then have "w' = w1" "r = Inl e" using run m by (auto simp: bind_op_def)
    then show ?thesis
      using step Inl by (auto simp: bind_op_def fault_reported_def split: prod.split)
  next
    case (Inr x)
    then have k: "k x w1 = (r, w')" using run m by (simp add: bind_op_def)
    have g: "g (db_entries w) = (Inr x, db_entries w1)"
      using step(2) Inr by (auto simp: fault_reported_def)
    have "later w1 w'" "(r, db_entries w') = h x (db_entries w1) \<or> fault_reported w1 r"
      using assms(2) [of x] k by (auto simp: follows_def)
    then show ?thesis
      using g later_trans [OF step(1)] fault_later [OF step(1)] by (auto simp: bind_op_def)
  qed
qed

lemma follows_statement [db_intros]:
  "follows (db_statement p op f) (\<lambda>t. apfst Inr (f t))"
  unfolding follows_def later_def
proof (intro allI impI)
  fix w r w'
  assume "db_statement p op f w = (r, w')"
  then have "(\<forall>n. db_faults w' n = db_faults w (n + 1))
     \<and> ((r, db_entries w') = apfst Inr (f (db_entries w)) \<or> fault_reported w r)"
    by (auto simp: db_statement_def db_call_def op_defs Let_def fault_reported_def apfst_def map_prod_def
        split: option.splits prod.splits)
  then show "(\<exists>k. \<forall>n. db_faults w' n = db_faults w (n + k))
     \<and> ((r, db_entries w') = apfst Inr (f (db_entries w)) \<or> fault_reported w r)"
    by blast
qed

lemma follows_connect: "follows db_connect (return_op ())"
proof -
  have "db_connect = db_statement valid_engine_path StatOp (\<lambda>t. ((), t))"
    by (simp add: db_connect_def db_statement_def)
  then show ?thesis
    using follows_statement [of valid_engine_path StatOp "\<lambda>t. ((), t)"]
    by (simp add: return_op_def [abs_def])
qed

lemma follows_open [db_intros]: "follows (open_session d) (return_op ())"
  by (simp add: open_session_def follows_connect follows_return)

lemma follows_run [db_intros]: "follows (run_statement d p op f) (\<lambda>t. apfst Inr (f t))"
proof -
  have "follows (run_statement d p op f) (bind_op (return_op ()) (\<lambda>_ t. apfst Inr (f t)))"
    unfolding run_statement_def
    by (intro db_intros) (simp add: follows_connect follows_return)
  then show ?thesis by simp
qed

lemma reads_return [db_intros]: "reads (return_op x)" "reads (fail_op e)" "reads (\<lambda>w. (r, w))"
  by (simp_all add: reads_def op_defs)

lemma reads_bind [db_intros]: "reads m \<Longrightarrow> (\<And>x. reads (k x)) \<Longrightarrow> reads (bind_op m k)"
  by (auto simp: reads_def bind_op_def split: prod.split sum.split) (metis snd_conv)+

lemma reads_statement [db_intros]: "(\<And>t. snd (f t) = t) \<Longrightarrow> reads (db_statement p op f)"
  by (auto simp: reads_def db_statement_def db_call_def op_defs Let_def split: option.split prod.split)
    (metis snd_conv)

lemma reads_open [db_intros]: "reads (open_session d)" "reads db_connect"
  by (simp_all add: open_session_def db_connect_def reads_return reads_statement
      flip: db_statement_def)

lemma reads_run [db_intros]: "(\<And>t. snd (f t) = t) \<Longrightarrow> reads (run_statement d p op f)"
  unfolding run_statement_def by (intro db_intros) (simp_all add: reads_open reads_return)

lemma safe_reads: "reads m \<Longrightarrow> safe m"
  by (auto simp: reads_def safe_def) (metis snd_conv)

lemma safe_statement: "safe (db_statement p op f)"
  by (auto simp: safe_def db_statement_def db_call_def op_defs Let_def split: option.splits prod.splits)

lemma safe_bind: "reads m \<Longrightarrow> (\<And>x. safe (k x)) \<Longrightarrow> safe (bind_op m k)"
  by (auto simp: reads_def safe_def bind_op_def split: prod.splits sum.splits) (metis snd_conv)+

lemma safe_run: "safe (run_statement d p op f)"
  unfolding run_statement_def by (intro safe_bind safe_statement) (simp add: reads_open reads_return)

subsection \<open>The tree\<close>

datatype tree_node = FileNode string | DirNode

type_synonym file_tree = "virtual_path \<rightharpoonup> tree_node"

definition node_of :: "entry_row \<Rightarrow> tree_node" where
  "node_of row = (if er_is_dir row then DirNode else FileNode (er_contents row))"

definition tree_of :: "entry_table \<Rightarrow> file_tree" where
  "tree_of t p = map_option node_of (hm_get p t)"

definition some_below :: "(char \<Rightarrow> char) \<Rightarrow> file_tree \<Rightarrow> virtual_path \<Rightarrow> bool" where
  "some_below lc T p \<longleftrightarrow> (\<exists>q. T q \<noteq> None \<and> below lc p q)"

definition child_names :: "file_tree \<Rightarrow> virtual_path \<Rightarrow> string set" where
  "child_names T p = {n. n \<noteq> [] \<and> CHR ''/'' \<notin> set n
     \<and> (\<exists>q. T q \<noteq> None \<and> (q = p @ ''/'' @ n \<or> prefix (p @ ''/'' @ n @ ''/'') q))}"

definition child_entry :: "file_tree \<Rightarrow> virtual_path \<Rightarrow> string \<Rightarrow> dir_entry" where
  "child_entry T p n = \<lparr>de_name = n, de_path = p @ ''/'' @ n,
     de_file_type = (case T (p @ ''/'' @ n) of Some (FileNode _) \<Rightarrow> RegularFile | _ \<Rightarrow> Directory)\<rparr>"

definition is_file :: "tree_node option \<Rightarrow> bool" where
  "is_file n = (case n of Some (FileNode _) \<Rightarrow> True | _ \<Rightarrow> False)"

text \<open>What a command on a path answers and leaves.\<close>

fun tree_step :: "(char \<Rightarrow> char) \<Rightarrow> fs_command \<Rightarrow> virtual_path \<Rightarrow> file_tree
    \<Rightarrow> (filesystem_error, fs_value) result \<times> file_tree" where
  "tree_step lc FsRead p T =
     (case T p of
        Some (FileNode b) \<Rightarrow> Inr (BytesValue b)
      | Some DirNode \<Rightarrow> Inl (FsBackend p ReadFileOp ''is a directory'')
      | None \<Rightarrow> Inl (FsNotFound p ReadFileOp), T)"
| "tree_step lc (FsWrite b) p T =
     (if T p = Some DirNode \<or> some_below lc T p then (Inl (directory_write_error p), T)
      else (Inr UnitValue, T(p \<mapsto> FileNode b)))"
| "tree_step lc (FsAppend b) p T =
     (if T p = Some DirNode \<or> some_below lc T p then (Inl (directory_append_error p), T)
      else (Inr UnitValue, T(p \<mapsto> FileNode ((case T p of Some (FileNode a) \<Rightarrow> a | _ \<Rightarrow> []) @ b))))"
| "tree_step lc FsList p T =
     (if is_file (T p) then Inl (FsBackend p ListDirOp ''not a directory'')
      else if child_names T p = {} \<and> T p = None then Inl (FsNotFound p ListDirOp)
      else Inr (EntriesValue (map (child_entry T p) (sorted_list_of_set (child_names T p)))), T)"
| "tree_step lc FsStat p T =
     (case T p of
        Some (FileNode b) \<Rightarrow> Inr (StatValue \<lparr>fl_path = p, fl_file_type = RegularFile, fl_len = of_nat (length b)\<rparr>)
      | Some DirNode \<Rightarrow> Inr (StatValue \<lparr>fl_path = p, fl_file_type = Directory, fl_len = 0\<rparr>)
      | None \<Rightarrow> if some_below lc T p then Inr (StatValue \<lparr>fl_path = p, fl_file_type = Directory, fl_len = 0\<rparr>)
          else Inl (FsNotFound p StatOp), T)"
| "tree_step lc FsDelete p T =
     (if T p = None \<and> \<not> some_below lc T p then (Inl (FsNotFound p DeleteOp), T)
      else (Inr UnitValue, \<lambda>q. if q = p \<or> below lc p q then None else T q))"
| "tree_step lc FsCreate p T =
     (case virtual_path_prefixes p of
        Inl e \<Rightarrow> (Inl (FsContract e), T)
      | Inr ps \<Rightarrow> (case find (\<lambda>q. is_file (T q)) ps of
            Some q \<Rightarrow> (Inl (FsBackend q CreateDirAllOp ''file exists where directory is required''), T)
          | None \<Rightarrow> (Inr UnitValue, \<lambda>q. if q \<in> set ps \<and> T q = None then Some DirNode else T q)))"

text \<open>The table's primary key holds, and every path in it is canonical.\<close>

definition table_ok :: "entry_table \<Rightarrow> bool" where
  "table_ok t \<longleftrightarrow> hm_keys_distinct t \<and> (\<forall>p \<in> fst ` set t. virtual_path_ok p)"

lemma node_of_simps [simp]:
  "node_of \<lparr>er_contents = b, er_is_dir = False\<rparr> = FileNode b"
  "node_of \<lparr>er_contents = b, er_is_dir = True\<rparr> = DirNode"
  "node_of row = DirNode \<longleftrightarrow> er_is_dir row"
  by (simp_all add: node_of_def)

lemma tree_of_insert [simp]: "tree_of (hm_insert p row t) = (tree_of t)(p \<mapsto> node_of row)"
  by (simp add: tree_of_def fun_eq_iff)

lemma row_mem_tree: "(\<exists>row. (q, row) \<in> set t) \<longleftrightarrow> tree_of t q \<noteq> None"
  by (force simp: tree_of_def hm_get_def map_of_eq_None_iff)

lemma exists_like_below:
  assumes "virtual_path_ok p"
  shows "list_ex (\<lambda>e. like_match lc (child_path_like_pattern p) (fst e)) t \<longleftrightarrow> some_below lc (tree_of t) p"
  unfolding some_below_def child_pattern_matches [OF assms] list_ex_iff row_mem_tree [symmetric] by force

lemma tree_of_filter: "hm_keys_distinct t \<Longrightarrow> tree_of (filter (\<lambda>e. P (fst e)) t) q = (if P q then tree_of t q else None)"
  by (induction t) (auto simp: tree_of_def hm_get_def hm_keys_distinct_def)

subsection \<open>Listing\<close>

text \<open>The name under which a path is a child of \<open>p\<close>.\<close>

definition child_name :: "virtual_path \<Rightarrow> virtual_path \<Rightarrow> string option" where
  "child_name p q =
     (case strip_prefix (p @ ''/'') q of
        Some tail \<Rightarrow> if tail = [] then None else Some (takeWhile (\<lambda>c. c \<noteq> CHR ''/'') tail)
      | None \<Rightarrow> None)"

definition row_entry :: "virtual_path \<Rightarrow> string \<Rightarrow> virtual_path \<times> u64 \<times> file_type \<Rightarrow> dir_entry" where
  "row_entry p n row = \<lparr>de_name = n, de_path = p @ ''/'' @ n,
     de_file_type = (if fst row = p @ ''/'' @ n then snd (snd row) else Directory)\<rparr>"

lemma strip_prefix_iff: "strip_prefix a s = Some t \<longleftrightarrow> s = a @ t"
  by (auto simp: strip_prefix_def prefix_def split: if_splits)

lemma path_segments:
  assumes "path_form (ps @ qs) q" "ps \<noteq> []" "qs \<noteq> []"
  shows "q = render ps @ ''/'' @ join_with (CHR ''/'') qs"
  using assms by (simp add: path_form_def render_def join_with_append)

lemma canonical_segments: "virtual_path_ok p \<longleftrightarrow> path_form (split_on (CHR ''/'') (tl p)) p \<and> under_root p"
proof
  assume "virtual_path_ok p"
  then obtain ps where ps: "path_form ps p" and root: "under_root p" by (auto simp: virtual_path_ok_iff)
  then have "split_on (CHR ''/'') (tl p) = ps"
    by (auto simp: path_form_def render_def split_on_join_with segment_ok_def)
  then show "path_form (split_on (CHR ''/'') (tl p)) p \<and> under_root p" using ps root by simp
qed (auto simp: virtual_path_ok_iff)

text \<open>A canonical path below another is that path, a slash and more segments.\<close>

lemma canonical_below:
  assumes p: "virtual_path_ok p" and q: "virtual_path_ok q" and below: "q = p @ ''/'' @ tail"
  shows "tail \<noteq> []"
    and "virtual_path_ok (p @ ''/'' @ takeWhile (\<lambda>c. c \<noteq> CHR ''/'') tail)"
    and "takeWhile (\<lambda>c. c \<noteq> CHR ''/'') tail \<noteq> []"
proof -
  obtain ps qs where ps: "path_form ps p" and root: "under_root p" and qs: "path_form qs q"
    using p q by (auto simp: virtual_path_ok_iff)
  have "join_with (CHR ''/'') qs = join_with (CHR ''/'') ps @ ''/'' @ tail"
    using ps qs below by (simp add: path_form_def render_def)
  then have "split_on (CHR ''/'') (join_with (CHR ''/'') qs)
      = split_on (CHR ''/'') (join_with (CHR ''/'') ps @ ''/'' @ tail)" by simp
  then have qs_eq: "qs = ps @ split_on (CHR ''/'') tail"
    using ps qs by (simp add: path_form_def split_on_join_with split_on_append segment_ok_def)
  let ?n = "hd (split_on (CHR ''/'') tail)"
  have n: "?n = takeWhile (\<lambda>c. c \<noteq> CHR ''/'') tail" by (induction tail) (auto simp: split_on_not_Nil split: list.split)
  have ok: "segment_ok ?n"
    using qs qs_eq split_on_not_Nil [of "CHR ''/''" tail] by (auto simp: path_form_def)
  then show "takeWhile (\<lambda>c. c \<noteq> CHR ''/'') tail \<noteq> []" using n by (auto simp: segment_ok_def)
  then show "tail \<noteq> []" by auto
  have "path_form (ps @ [?n]) (p @ ''/'' @ ?n)"
    using ps ok by (auto simp: path_form_def render_def join_with_append)
  then show "virtual_path_ok (p @ ''/'' @ takeWhile (\<lambda>c. c \<noteq> CHR ''/'') tail)"
    using under_root_append [OF root] n unfolding virtual_path_ok_iff by auto
qed

lemma virtual_path_ok_new: "virtual_path_ok p \<Longrightarrow> virtual_path_new p = Inr p"
  by (simp add: virtual_path_ok_def)

lemma checked_rows_ok:
  "\<forall>e \<in> set rows. virtual_path_ok (fst e) \<Longrightarrow>
     checked_rows rows = Inr (map (\<lambda>(p, row). (p, row_len row, row_type row)) rows)"
  by (induction rows rule: checked_rows.induct) (simp_all add: virtual_path_ok_new)

lemma collect_children_ok:
  assumes p: "virtual_path_ok p"
  shows "\<forall>row \<in> set rows. virtual_path_ok (fst row) \<Longrightarrow> hm_keys_distinct acc \<Longrightarrow>
    \<exists>acc'. collect_children p acc rows = Inr acc' \<and> hm_keys_distinct acc'
      \<and> (\<forall>n. hm_get n acc' = (case hm_get n acc of Some e \<Rightarrow> Some e
           | None \<Rightarrow> map_option (row_entry p n) (find (\<lambda>row. child_name p (fst row) = Some n) rows)))"
proof (induction rows arbitrary: acc)
  case Nil
  then show ?case by (auto split: option.split)
next
  case (Cons row rows)
  obtain q n ty where row: "row = (q, n, ty)" by (cases row)
  have trim: "trim_end_matches (CHR ''/'') p = p" by (rule trim_canonical [OF p])
  show ?case
  proof (cases "child_name p q")
    case None
    then have same: "collect_children p acc (row # rows) = collect_children p acc rows"
      by (auto simp: row child_name_def trim split: option.splits if_splits)
    show ?thesis unfolding same using Cons.IH [of acc] Cons.prems None by (simp add: row cong: option.case_cong)
  next
    case (Some m)
    then obtain tail where tail: "strip_prefix (p @ ''/'') q = Some tail" "tail \<noteq> []"
      "m = takeWhile (\<lambda>c. c \<noteq> CHR ''/'') tail"
      by (auto simp: child_name_def split: option.splits if_splits)
    then have q: "q = p @ ''/'' @ tail" by (simp add: strip_prefix_iff)
    have "virtual_path_ok q" using Cons.prems by (simp add: row)
    note below = canonical_below [OF p this q]
    let ?e = "row_entry p m row"
    have ty: "(if CHR ''/'' \<in> set tail then Directory else ty) = de_file_type ?e"
    proof -
      have "(q = p @ ''/'' @ m) = (takeWhile (\<lambda>c. c \<noteq> CHR ''/'') tail = tail)"
        unfolding q tail(3) by (metis same_append_eq)
      also have "\<dots> = (CHR ''/'' \<notin> set tail)" by (simp add: takeWhile_eq_all_conv) blast
      finally show ?thesis by (simp add: row_entry_def row)
    qed
    let ?acc = "if hm_get m acc = None then hm_insert m ?e acc else acc"
    have step: "collect_children p acc (row # rows) = collect_children p ?acc rows"
      using tail below ty by (simp add: row trim Let_def virtual_path_ok_new row_entry_def)
    have acc: "hm_keys_distinct ?acc" using Cons.prems by simp
    obtain acc' where acc': "collect_children p ?acc rows = Inr acc'" "hm_keys_distinct acc'"
      "\<forall>n. hm_get n acc' = (case hm_get n ?acc of Some e \<Rightarrow> Some e
           | None \<Rightarrow> map_option (row_entry p n) (find (\<lambda>row. child_name p (fst row) = Some n) rows))"
      using Cons.IH [OF _ acc] Cons.prems by auto
    have "hm_get n acc' = (case hm_get n acc of Some e \<Rightarrow> Some e
        | None \<Rightarrow> map_option (row_entry p n) (find (\<lambda>row. child_name p (fst row) = Some n) (row # rows)))" for n
      using acc'(3) [rule_format, of n] Some by (auto simp: row split: option.split)
    then show ?thesis using acc'(1,2) step by metis
  qed
qed

lemma hm_sorted:
  assumes "hm_keys_distinct m"
  shows "map snd (sort_key fst m) = map (\<lambda>k. the (hm_get k m)) (sorted_list_of_set (fst ` set m))"
proof -
  have keys: "map fst (sort_key fst m) = sorted_list_of_set (fst ` set m)"
    using assms by (intro sorted_distinct_set_unique) (simp_all add: hm_keys_distinct_def distinct_map)
  have "map snd (sort_key fst m) = map (\<lambda>e. the (hm_get (fst e) m)) (sort_key fst m)"
    using assms by (auto simp: hm_keys_distinct_def hm_get_def)
  also have "\<dots> = map (\<lambda>k. the (hm_get k m)) (map fst (sort_key fst m))" by simp
  finally show ?thesis using keys by simp
qed

lemma le_append: "a \<le> a @ (b :: string)"
  by (induction a) simp_all

lemma sorted_find:
  "sorted (map f xs) \<Longrightarrow> find P xs = Some x \<Longrightarrow> y \<in> set xs \<Longrightarrow> P y \<Longrightarrow> f x \<le> f y"
  by (induction xs) (auto split: if_splits)

lemma child_name_iff:
  assumes "virtual_path_ok p" "virtual_path_ok q"
  shows "child_name p q = Some n \<longleftrightarrow> n \<noteq> [] \<and> CHR ''/'' \<notin> set n
    \<and> (q = p @ ''/'' @ n \<or> prefix (p @ ''/'' @ n @ ''/'') q)"
proof
  assume "child_name p q = Some n"
  then obtain tail where tail: "q = p @ ''/'' @ tail" "n = takeWhile (\<lambda>c. c \<noteq> CHR ''/'') tail"
    by (auto simp: child_name_def strip_prefix_iff split: option.splits if_splits)
  note below = canonical_below [OF assms tail(1)]
  have slash: "CHR ''/'' \<notin> set n" using tail(2) by (auto dest: set_takeWhileD)
  have split: "tail = n @ dropWhile (\<lambda>c. c \<noteq> CHR ''/'') tail" by (simp add: tail(2))
  show "n \<noteq> [] \<and> CHR ''/'' \<notin> set n \<and> (q = p @ ''/'' @ n \<or> prefix (p @ ''/'' @ n @ ''/'') q)"
  proof (cases "dropWhile (\<lambda>c. c \<noteq> CHR ''/'') tail")
    case Nil
    then have "tail = n" using split by (metis append_Nil2)
    then show ?thesis using slash below(1) tail(1) by simp
  next
    case (Cons c cs)
    then have "c = CHR ''/''" using hd_dropWhile [of "\<lambda>c. c \<noteq> CHR ''/''" tail] by simp
    then have "q = (p @ ''/'' @ n @ ''/'') @ cs" using split Cons tail(1) by simp
    then show ?thesis using slash below(3) tail(2) by (metis prefixI)
  qed
next
  assume n: "n \<noteq> [] \<and> CHR ''/'' \<notin> set n \<and> (q = p @ ''/'' @ n \<or> prefix (p @ ''/'' @ n @ ''/'') q)"
  then obtain rest where q: "q = p @ ''/'' @ n @ rest" "rest = [] \<or> hd rest = CHR ''/''"
    by (auto simp: prefix_def)
  have "takeWhile (\<lambda>c. c \<noteq> CHR ''/'') (n @ rest) = n"
    using n q(2) by (cases rest) (auto simp: takeWhile_append)
  then show "child_name p q = Some n"
    using n strip_prefix_iff [of "p @ ''/''" q "n @ rest"] q(1) by (simp add: child_name_def)
qed

definition listed_rows :: "(char \<Rightarrow> char) \<Rightarrow> virtual_path \<Rightarrow> entry_table \<Rightarrow> (virtual_path \<times> u64 \<times> file_type) list" where
  "listed_rows lc p t = map (\<lambda>(q, row). (q, row_len row, row_type row))
     (sort_key fst (filter (\<lambda>e. like_match lc (child_path_like_pattern p) (fst e)) t))"

lemma direct_children_tree:
  assumes t: "table_ok t" and p: "virtual_path_ok p"
  shows "direct_children p (listed_rows lc p t) =
    (let names = child_names (tree_of t) p
     in if names = {} then Inl (FsNotFound p ListDirOp)
        else Inr (map (child_entry (tree_of t) p) (sorted_list_of_set names)))"
proof -
  let ?rows = "listed_rows lc p t" let ?T = "tree_of t"
  have ok: "\<forall>row \<in> set ?rows. virtual_path_ok (fst row)"
    using t by (auto simp: listed_rows_def table_ok_def)
  have mem: "(q, n, ty) \<in> set ?rows \<longleftrightarrow>
      (\<exists>row. (q, row) \<in> set t \<and> below lc p q \<and> n = row_len row \<and> ty = row_type row)" for q n ty
    by (auto simp: listed_rows_def child_pattern_matches [OF p] image_iff)
  obtain acc where acc: "collect_children p [] ?rows = Inr acc" "hm_keys_distinct acc"
    "\<And>n. hm_get n acc = map_option (row_entry p n) (find (\<lambda>row. child_name p (fst row) = Some n) ?rows)"
    using collect_children_ok [OF p ok, of "[]"] by auto
  have named: "(\<exists>row \<in> set ?rows. child_name p (fst row) = Some n) \<longleftrightarrow> n \<in> child_names ?T p" for n
  proof -
    have "(\<exists>row \<in> set ?rows. child_name p (fst row) = Some n)
      \<longleftrightarrow> (\<exists>q row. (q, row) \<in> set t \<and> below lc p q \<and> child_name p q = Some n)"
      unfolding Bex_def split_paired_Ex mem fst_conv by blast
    also have "\<dots> \<longleftrightarrow> (\<exists>q row. (q, row) \<in> set t \<and> n \<noteq> [] \<and> CHR ''/'' \<notin> set n
        \<and> (q = p @ ''/'' @ n \<or> prefix (p @ ''/'' @ n @ ''/'') q))"
    proof -
      have "below lc p q \<and> child_name p q = Some n \<longleftrightarrow> n \<noteq> [] \<and> CHR ''/'' \<notin> set n
          \<and> (q = p @ ''/'' @ n \<or> prefix (p @ ''/'' @ n @ ''/'') q)" if "(q, row) \<in> set t" for q row
      proof -
        have "virtual_path_ok q" using t that by (force simp: table_ok_def)
        moreover have "below lc p q" if "q = p @ ''/'' @ n \<or> prefix (p @ ''/'' @ n @ ''/'') q"
          using that by (intro below_if_prefix) (auto simp: prefix_def)
        ultimately show ?thesis using child_name_iff [OF p] by blast
      qed
      then show ?thesis by blast
    qed
    also have "\<dots> \<longleftrightarrow> n \<in> child_names ?T p"
      unfolding child_names_def row_mem_tree [symmetric] by blast
    finally show ?thesis .
  qed
  have found: "find (\<lambda>row. child_name p (fst row) = Some n) ?rows \<noteq> None \<longleftrightarrow> n \<in> child_names ?T p" for n
    unfolding named [symmetric] find_None_iff by blast
  have keys: "fst ` set acc = child_names ?T p"
  proof (rule set_eqI)
    fix n
    have "n \<in> fst ` set acc \<longleftrightarrow> hm_get n acc \<noteq> None" by (simp add: hm_get_def map_of_eq_None_iff)
    also have "\<dots> \<longleftrightarrow> find (\<lambda>row. child_name p (fst row) = Some n) ?rows \<noteq> None" by (simp add: acc(3))
    finally show "n \<in> fst ` set acc \<longleftrightarrow> n \<in> child_names ?T p" using found by blast
  qed
  have entry: "the (hm_get n acc) = child_entry ?T p n" if n: "n \<in> child_names ?T p" for n
  proof -
    obtain row where row: "find (\<lambda>row. child_name p (fst row) = Some n) ?rows = Some row"
      using n found [of n] by blast
    have row_mem: "row \<in> set ?rows" "child_name p (fst row) = Some n" using find_SomeD [OF row] by auto
    obtain q m ty where q: "row = (q, m, ty)" by (cases row)
    obtain r where r: "(q, r) \<in> set t" "ty = row_type r" using row_mem(1) mem q by auto
    have "virtual_path_ok q" using t r by (force simp: table_ok_def)
    then have q_child: "q = p @ ''/'' @ n \<or> prefix (p @ ''/'' @ n @ ''/'') q"
      using row_mem(2) child_name_iff [OF p] q by simp
    have T_q: "?T q = Some (node_of r)"
      using t r by (simp add: tree_of_def table_ok_def hm_keys_distinct_def hm_get_def)
    have first: "q = p @ ''/'' @ n" if present: "?T (p @ ''/'' @ n) \<noteq> None"
    proof -
      obtain r' where r': "(p @ ''/'' @ n, r') \<in> set t" using present row_mem_tree by metis
      have "virtual_path_ok (p @ ''/'' @ n)" using t r' by (force simp: table_ok_def)
      moreover have "n \<noteq> [] \<and> CHR ''/'' \<notin> set n" using n by (simp add: child_names_def)
      ultimately have name: "child_name p (p @ ''/'' @ n) = Some n" using child_name_iff [OF p] by blast
      have "below lc p (p @ ''/'' @ n)" by (rule below_if_prefix) (simp add: prefix_def)
      then have "(p @ ''/'' @ n, row_len r', row_type r') \<in> set ?rows" using r' unfolding mem by blast
      moreover have "sorted (map fst ?rows)" by (simp add: listed_rows_def comp_def case_prod_beta)
      ultimately have "q \<le> p @ ''/'' @ n" using sorted_find [OF _ row, of fst] name q by force
      moreover have "p @ ''/'' @ n \<le> q"
        using q_child le_append [of "p @ ''/'' @ n"] by (auto simp: prefix_def)
      ultimately show ?thesis by (rule antisym)
    qed
    show ?thesis
    proof (cases "q = p @ ''/'' @ n")
      case True
      then show ?thesis
        using acc(3) [of n] row q r T_q by (simp add: row_entry_def child_entry_def row_type_def node_of_def)
    next
      case False
      then have "?T (p @ ''/'' @ n) = None" using first by blast
      then show ?thesis using acc(3) [of n] row q False by (simp add: row_entry_def child_entry_def)
    qed
  qed
  have "finite (child_names ?T p)" using keys by (metis List.finite_set finite_imageI)
  then have "map snd (sort_key fst acc) = map (child_entry ?T p) (sorted_list_of_set (child_names ?T p))"
    unfolding hm_sorted [OF acc(2)] keys using entry by simp
  moreover have "acc = [] \<longleftrightarrow> child_names ?T p = {}" using keys by auto
  ultimately show ?thesis using acc(1) by (simp add: direct_children_def Let_def fs_not_found_def)
qed

subsection \<open>Refinement\<close>

text \<open>What an operation without failing calls does on the tree.\<close>

definition tree_refines :: "(char \<Rightarrow> char) \<Rightarrow> fs_command \<Rightarrow> virtual_path
    \<Rightarrow> (entry_table, filesystem_error, fs_value) operation \<Rightarrow> bool" where
  "tree_refines lc c p g \<longleftrightarrow> (\<forall>t. table_ok t \<longrightarrow>
     (case g t of (r, t') \<Rightarrow> (r, tree_of t') = tree_step lc c p (tree_of t) \<and> table_ok t'))"

definition db_sound :: "sql_dialect \<Rightarrow> fs_command \<Rightarrow> virtual_path \<Rightarrow> bool" where
  "db_sound d c p \<longleftrightarrow> (\<exists>g. follows (fs_run (database_filesystem d) c p) g \<and> tree_refines (sq_fold d) c p g)
     \<and> safe (fs_run (database_filesystem d) c p)"

lemma table_ok_insert: "table_ok t \<Longrightarrow> virtual_path_ok p \<Longrightarrow> table_ok (hm_insert p row t)"
  by (auto simp: table_ok_def dest!: hm_insert_mem)

lemma follows_value: "follows m g \<Longrightarrow> follows (value_op f m) (value_op f g)"
  unfolding value_op_def by (intro db_intros)

lemma reads_value: "reads m \<Longrightarrow> reads (value_op f m)"
  unfolding value_op_def by (intro db_intros)

lemma safe_value: "safe m \<Longrightarrow> safe (value_op f m)"
  by (auto simp: value_op_def safe_def bind_op_def return_op_def split: prod.splits sum.splits)

lemma follows_case_option [db_intros]:
  "follows m g \<Longrightarrow> (\<And>x. follows (k x) (h x)) \<Longrightarrow>
     follows (case o' of None \<Rightarrow> m | Some x \<Rightarrow> k x) (case o' of None \<Rightarrow> g | Some x \<Rightarrow> h x)"
  by (cases o') simp_all

lemma follows_if [db_intros]:
  "follows m g \<Longrightarrow> follows n h \<Longrightarrow> follows (if b then m else n) (if b then g else h)"
  by simp

lemma reads_case_option [db_intros]:
  "reads m \<Longrightarrow> (\<And>x. reads (k x)) \<Longrightarrow> reads (case o' of None \<Rightarrow> m | Some x \<Rightarrow> k x)"
  "reads m \<Longrightarrow> reads n \<Longrightarrow> reads (if b then m else n)"
  by (cases o') simp_all

lemma select_path_reads [simp]: "snd (select_path p t) = t" "snd (select_like lc x t) = t"
  "snd (exists_like lc x t) = t"
  by (simp_all add: select_path_def select_like_def exists_like_def)

lemma occupied_rules [db_intros]:
  "follows (exact_entry d p) (bind_op (\<lambda>t. apfst Inr (select_path p t))
     (\<lambda>row. return_op (map_option (\<lambda>r. (row_len r, row_type r)) row)))"
  "reads (exact_entry d p)"
  "follows (has_child_entry d p) (\<lambda>t. apfst Inr (exists_like (sq_fold d) (child_path_like_pattern p) t))"
  "reads (has_child_entry d p)"
  by (auto simp: exact_entry_def has_child_entry_def intro!: db_intros)

lemma tree_of_select:
  "hm_get p t = None \<longleftrightarrow> tree_of t p = None"
  "hm_get p t = Some row \<Longrightarrow> tree_of t p = Some (node_of row)"
  by (auto simp: tree_of_def)

lemma read_sound: "virtual_path_ok p \<Longrightarrow> db_sound d FsRead p"
proof -
  let ?m = "fs_run (database_filesystem d) FsRead p"
  let ?g = "value_op BytesValue (bind_op (return_op ()) (\<lambda>_. bind_op (\<lambda>t. apfst Inr (select_path p t)) (\<lambda>row.
      case row of None \<Rightarrow> fail_op (fs_not_found p ReadFileOp)
       | Some r \<Rightarrow> if er_is_dir r then fail_op (FsBackend p ReadFileOp ''is a directory'')
           else return_op (er_contents r))))"
  have "follows ?m ?g"
    by (simp only: fs_run.simps database_filesystem_def db_read_file_def root_filesystem.simps)
      (intro follows_value db_intros)
  moreover have "tree_refines (sq_fold d) FsRead p ?g"
    by (auto simp: tree_refines_def value_op_def op_defs select_path_def tree_of_def node_of_def
        fs_not_found_def split: option.split)
  moreover have "reads ?m"
    by (simp only: fs_run.simps database_filesystem_def db_read_file_def root_filesystem.simps)
      (intro reads_value db_intros; simp)
  ultimately show ?thesis unfolding db_sound_def using safe_reads by blast
qed

text \<open>The guard of the writing operations sees the tree.\<close>

definition is_taken :: "(char \<Rightarrow> char) \<Rightarrow> file_tree \<Rightarrow> virtual_path \<Rightarrow> bool" where
  "is_taken lc T p \<longleftrightarrow> T p = Some DirNode \<or> some_below lc T p"

lemma follows_cong: "follows m g \<Longrightarrow> (\<And>t. g t = h t) \<Longrightarrow> follows m h"
  by (simp add: follows_def)

lemma follows_exact [db_intros]:
  "follows (exact_entry d p) (\<lambda>t. (Inr (map_option (\<lambda>r. (row_len r, row_type r)) (hm_get p t)), t))"
  by (rule follows_cong [OF occupied_rules(1)]) (simp add: op_defs select_path_def)

lemma follows_child:
  "virtual_path_ok p \<Longrightarrow>
     follows (has_child_entry d p) (\<lambda>t. (Inr (some_below (sq_fold d) (tree_of t) p), t))"
  by (rule follows_cong [OF occupied_rules(3)]) (simp add: exists_like_def exists_like_below)

lemma row_type_simps [simp]: "row_type r = Directory \<longleftrightarrow> er_is_dir r" "row_type r = RegularFile \<longleftrightarrow> \<not> er_is_dir r"
  by (simp_all add: row_type_def)

lemma follows_occupied:
  assumes "virtual_path_ok p"
  shows "follows (occupied d p) (\<lambda>t. (Inr (is_taken (sq_fold d) (tree_of t) p), t))"
proof -
  let ?entry = "\<lambda>t. map_option (\<lambda>r. (row_len r, row_type r)) (hm_get p t)"
  have "follows (occupied d p) (bind_op (\<lambda>t. (Inr (?entry t), t)) (\<lambda>entry.
      if map_option snd entry = Some Directory then return_op True
      else (\<lambda>t. (Inr (some_below (sq_fold d) (tree_of t) p), t))))"
    unfolding occupied_def by (intro db_intros follows_child [OF assms])
  then show ?thesis
    by (rule follows_cong) (auto simp: op_defs is_taken_def tree_of_def)
qed

lemma reads_occupied [db_intros]: "reads (occupied d p)"
  unfolding occupied_def by (intro db_intros)

lemma safe_return [db_intros]: "safe (return_op x)" "safe (fail_op e)"
  by (simp_all add: safe_reads reads_return)

lemma safe_if: "safe m \<Longrightarrow> safe n \<Longrightarrow> safe (if b then m else n)"
  by simp

text \<open>An operation whose last step changes one row, which fails only before it has.\<close>

lemma db_soundI:
  assumes "follows (fs_run (database_filesystem d) c p) g" "tree_refines (sq_fold d) c p g"
    "safe (fs_run (database_filesystem d) c p)"
  shows "db_sound d c p"
  using assms unfolding db_sound_def by blast

lemma safe_upsert:
  "safe (bind_op (run_statement d p WriteFileOp (upsert_file p b)) (\<lambda>rows.
     if rows = 0 then fail_op (directory_write_error p) else return_op ()))"
proof -
  have "snd (upsert_file p b t) = t" if "fst (upsert_file p b t) = 0" for t
    using that by (auto simp: upsert_file_def split: option.splits if_splits)
  then show ?thesis
    by (auto simp: safe_def run_statement_def db_statement_def db_connect_def db_call_def op_defs Let_def
        split: option.splits prod.splits if_splits) (metis snd_conv fst_conv)+
qed

lemma write_sound:
  assumes p: "virtual_path_ok p"
  shows "db_sound d (FsWrite b) p"
proof (rule db_soundI)
  let ?m = "fs_run (database_filesystem d) (FsWrite b) p"
  let ?g = "value_op (\<lambda>_. UnitValue) (bind_op (return_op ()) (\<lambda>_.
      bind_op (\<lambda>t. (Inr (is_taken (sq_fold d) (tree_of t) p), t)) (\<lambda>taken.
        if taken then fail_op (directory_write_error p)
        else bind_op (\<lambda>t. apfst Inr (upsert_file p b t)) (\<lambda>rows.
          if rows = 0 then fail_op (directory_write_error p) else return_op ()))))"
  have run: "?m = value_op (\<lambda>_. UnitValue) (db_write_file d p b)"
    by (simp add: database_filesystem_def)
  show "follows ?m ?g"
    unfolding run db_write_file_def by (intro follows_value db_intros follows_occupied [OF p])
  show "tree_refines (sq_fold d) (FsWrite b) p ?g"
    unfolding tree_refines_def
    by (auto simp: value_op_def op_defs is_taken_def upsert_file_def apfst_def map_prod_def
        tree_of_select node_of_def table_ok_insert [OF _ p] fun_eq_iff split: option.split)
  show "safe ?m"
    unfolding run db_write_file_def
    by (intro safe_value safe_bind db_intros safe_if safe_upsert)
qed

lemma append_sound:
  assumes p: "virtual_path_ok p"
  shows "db_sound d (FsAppend b) p"
proof (rule db_soundI)
  let ?m = "fs_run (database_filesystem d) (FsAppend b) p"
  let ?g = "value_op (\<lambda>_. UnitValue) (bind_op (return_op ()) (\<lambda>_.
      bind_op (\<lambda>t. (Inr (is_taken (sq_fold d) (tree_of t) p), t)) (\<lambda>taken.
        if taken then fail_op (directory_append_error p)
        else (\<lambda>t. apfst Inr (upsert_append p b t)))))"
  have run: "?m = value_op (\<lambda>_. UnitValue) (db_append_file d p b)"
    by (simp add: database_filesystem_def)
  show "follows ?m ?g"
    unfolding run db_append_file_def by (intro follows_value db_intros follows_occupied [OF p])
  show "tree_refines (sq_fold d) (FsAppend b) p ?g"
    unfolding tree_refines_def
    by (auto simp: value_op_def op_defs is_taken_def upsert_append_def apfst_def map_prod_def
        tree_of_def node_of_def table_ok_insert [OF _ p] fun_eq_iff split: option.split)
  show "safe ?m"
    unfolding run db_append_file_def
    by (intro safe_value safe_bind db_intros safe_if safe_run)
qed

lemma stat_sound:
  assumes p: "virtual_path_ok p"
  shows "db_sound d FsStat p"
proof (rule db_soundI)
  let ?m = "fs_run (database_filesystem d) FsStat p"
  let ?g = "value_op StatValue (bind_op (return_op ()) (\<lambda>_.
      bind_op (\<lambda>t. (Inr (map_option (\<lambda>r. (row_len r, row_type r)) (hm_get p t)), t)) (\<lambda>entry.
        case entry of
          Some x \<Rightarrow> (case x of (n, ty) \<Rightarrow> return_op \<lparr>fl_path = p, fl_file_type = ty, fl_len = n\<rparr>)
        | None \<Rightarrow> bind_op (\<lambda>t. (Inr (some_below (sq_fold d) (tree_of t) p), t)) (\<lambda>child.
            if child then return_op \<lparr>fl_path = p, fl_file_type = Directory, fl_len = 0\<rparr>
            else fail_op (fs_not_found p StatOp)))))"
  have run: "?m = value_op StatValue (db_stat d p)"
    by (simp add: database_filesystem_def)
  have pair: "follows (case x of (n, ty) \<Rightarrow> return_op (f n ty)) (case x of (n, ty) \<Rightarrow> return_op (f n ty))"
    "reads (case x of (n, ty) \<Rightarrow> return_op (f n ty))" for x :: "u64 \<times> file_type" and f :: "_ \<Rightarrow> _ \<Rightarrow> file_stat"
    by (cases x; simp add: follows_return reads_return)+
  show "follows ?m ?g"
    unfolding run db_stat_def by (intro follows_value db_intros follows_child [OF p] pair)
  show "tree_refines (sq_fold d) FsStat p ?g"
    unfolding tree_refines_def
    by (auto simp: value_op_def op_defs tree_of_def node_of_def row_type_def row_len_def fs_not_found_def
        split: option.split)
  have "reads ?m"
    unfolding run db_stat_def by (intro reads_value db_intros occupied_rules pair)
  then show "safe ?m" by (rule safe_reads)
qed

lemma list_sound:
  assumes p: "virtual_path_ok p"
  shows "db_sound d FsList p"
proof (rule db_soundI)
  let ?m = "fs_run (database_filesystem d) FsList p"
  let ?k = "\<lambda>entry rows w. case direct_children p rows of
      Inr entries \<Rightarrow> (Inr entries, w)
    | Inl e \<Rightarrow> if map_option snd entry = Some Directory \<and> is_fs_not_found e then (Inr [], w)
        else (Inl e, w)"
  let ?g = "value_op EntriesValue (bind_op (return_op ()) (\<lambda>_.
      bind_op (\<lambda>t. (Inr (map_option (\<lambda>r. (row_len r, row_type r)) (hm_get p t)), t)) (\<lambda>entry.
        if map_option snd entry = Some RegularFile then
          fail_op (FsBackend p ListDirOp ''not a directory'')
        else bind_op (bind_op (\<lambda>t. apfst Inr (select_like (sq_fold d) (child_path_like_pattern p) t))
            (\<lambda>rows w. (checked_rows rows, w))) (?k entry))))"
  have run: "?m = value_op EntriesValue (db_list_dir d p)"
    by (simp add: database_filesystem_def)
  have k: "follows (?k entry rows) (?k entry rows)" "reads (?k entry rows)" for entry rows
    by (simp_all add: follows_def reads_def split: sum.split)
  show "follows ?m ?g"
    unfolding run db_list_dir_def child_entries_def by (intro follows_value db_intros k)
  show "tree_refines (sq_fold d) FsList p ?g"
    unfolding tree_refines_def
  proof (intro allI impI)
    fix t
    assume t: "table_ok t"
    have "checked_rows (sort_key fst (filter (\<lambda>e. like_match (sq_fold d) (child_path_like_pattern p) (fst e)) t))
        = Inr (listed_rows (sq_fold d) p t)"
      unfolding listed_rows_def by (rule checked_rows_ok) (use t in \<open>auto simp: table_ok_def\<close>)
    then show "case ?g t of (r, t') \<Rightarrow> (r, tree_of t') = tree_step (sq_fold d) FsList p (tree_of t) \<and> table_ok t'"
      using t direct_children_tree [OF t p, of "sq_fold d"]
      by (auto simp: value_op_def op_defs select_like_def tree_of_def node_of_def is_file_def Let_def
          split: option.split if_splits)
  qed
  have "reads ?m"
    unfolding run db_list_dir_def child_entries_def
    by (intro reads_value db_intros k occupied_rules) (simp_all add: reads_return)
  then show "safe ?m" by (rule safe_reads)
qed

lemma safe_delete:
  "safe (bind_op (run_statement d p DeleteOp (delete_like lc p x)) (\<lambda>deleted.
     if deleted = 0 then fail_op (fs_not_found p DeleteOp) else return_op ()))"
proof -
  have "snd (delete_like lc p x t) = t" if "fst (delete_like lc p x t) = 0" for t
    using that by (simp add: delete_like_def Let_def filter_empty_conv filter_id_conv)
  then show ?thesis
    by (auto simp: safe_def run_statement_def db_statement_def db_connect_def db_call_def op_defs Let_def
        split: option.splits prod.splits if_splits) (metis snd_conv fst_conv)+
qed

lemma delete_sound:
  assumes p: "virtual_path_ok p"
  shows "db_sound d FsDelete p"
proof (rule db_soundI)
  let ?m = "fs_run (database_filesystem d) FsDelete p"
  let ?g = "value_op (\<lambda>_. UnitValue) (bind_op (return_op ()) (\<lambda>_.
      bind_op (\<lambda>t. apfst Inr (delete_like (sq_fold d) p (child_path_like_pattern p) t)) (\<lambda>deleted.
        if deleted = 0 then fail_op (fs_not_found p DeleteOp) else return_op ())))"
  have run: "?m = value_op (\<lambda>_. UnitValue) (db_delete d p)"
    by (simp add: database_filesystem_def)
  show "follows ?m ?g"
    unfolding run db_delete_def by (intro follows_value db_intros)
  show "tree_refines (sq_fold d) FsDelete p ?g"
    unfolding tree_refines_def
  proof (intro allI impI)
    fix t
    assume t: "table_ok t"
    let ?hit = "\<lambda>q. q = p \<or> below (sq_fold d) p q"
    let ?t = "filter (\<lambda>e. \<not> ?hit (fst e)) t"
    have none: "filter (\<lambda>e. ?hit (fst e)) t = [] \<longleftrightarrow> tree_of t p = None \<and> \<not> some_below (sq_fold d) (tree_of t) p"
      using row_mem_tree [of _ t] unfolding filter_empty_conv some_below_def by force
    have tree: "tree_of ?t = (\<lambda>q. if ?hit q then None else tree_of t q)"
      using tree_of_filter [of t "\<lambda>q. \<not> ?hit q"] t by (auto simp: table_ok_def fun_eq_iff)
    have same: "?t = t" if "filter (\<lambda>e. ?hit (fst e)) t = []"
      using that by (simp add: filter_empty_conv filter_id_conv)
    have "table_ok ?t" using t by (auto simp: table_ok_def hm_keys_distinct_def distinct_map_filter)
    then show "case ?g t of (r, t') \<Rightarrow> (r, tree_of t') = tree_step (sq_fold d) FsDelete p (tree_of t) \<and> table_ok t'"
      using t none tree same
      by (simp add: value_op_def op_defs delete_like_def Let_def child_pattern_matches [OF p] fs_not_found_def)
  qed
  show "safe ?m"
    unfolding run db_delete_def by (intro safe_value safe_bind db_intros safe_delete)
qed

text \<open>A transaction is its body, undone if it fails.\<close>

definition undone_on_error ::
    "(entry_table, filesystem_error, unit) operation \<Rightarrow> (entry_table, filesystem_error, unit) operation" where
  "undone_on_error g t = (case g t of (Inl e, _) \<Rightarrow> (Inl e, t) | (Inr u, t') \<Rightarrow> (Inr u, t'))"

lemma follows_transaction:
  assumes "follows body g"
  shows "follows (transaction p op body) (undone_on_error g)"
  unfolding follows_def
proof (intro allI impI)
  fix w r w'
  assume run: "transaction p op body w = (r, w')"
  let ?full = "bind_op (db_statement p op (\<lambda>t. ((), t))) (\<lambda>_.
      bind_op body (\<lambda>_. db_statement p op (\<lambda>t. ((), t))))"
  let ?g = "bind_op (\<lambda>t. apfst Inr ((), t)) (\<lambda>_. bind_op g (\<lambda>_ t. apfst Inr ((), t)))"
  obtain r0 w0 where full: "?full w = (r0, w0)" by fastforce
  have "follows ?full ?g" by (intro db_intros assms)
  then have "later w w0" "(r0, db_entries w0) = ?g (db_entries w) \<or> fault_reported w r0"
    using full by (auto simp: follows_def)
  then show "later w w' \<and> ((r, db_entries w') = undone_on_error g (db_entries w) \<or> fault_reported w r)"
    using run full
    by (auto simp: transaction_def undone_on_error_def op_defs later_def split: sum.splits prod.splits)
qed

lemma safe_transaction: "safe (transaction p op body)"
  by (auto simp: safe_def transaction_def split: prod.splits sum.splits)

fun create_rows :: "virtual_path list \<Rightarrow> (entry_table, filesystem_error, unit) operation" where
  "create_rows [] = return_op ()"
| "create_rows (p # ps) =
     bind_op (\<lambda>t. apfst Inr (select_path p t)) (\<lambda>row.
       if (case row of Some r \<Rightarrow> \<not> er_is_dir r | None \<Rightarrow> False) then
         fail_op (FsBackend p CreateDirAllOp ''file exists where directory is required'')
       else bind_op (\<lambda>t. apfst Inr (insert_dir p t)) (\<lambda>_. create_rows ps))"

lemma follows_create: "follows (create_dirs path ps) (create_rows ps)"
  by (induction ps) (auto intro!: db_intros)

lemma create_rows_tree:
  assumes "table_ok t" "\<forall>q \<in> set ps. virtual_path_ok q" "undone_on_error (create_rows ps) t = (r, t')"
  shows "table_ok t' \<and> (r, tree_of t') =
    (case find (\<lambda>q. is_file (tree_of t q)) ps of
       Some q \<Rightarrow> (Inl (FsBackend q CreateDirAllOp ''file exists where directory is required''), tree_of t)
     | None \<Rightarrow> (Inr (), \<lambda>q. if q \<in> set ps \<and> tree_of t q = None then Some DirNode else tree_of t q))"
  using assms
proof (induction ps arbitrary: t t')
  case Nil
  then show ?case by (auto simp: undone_on_error_def op_defs)
next
  case (Cons p ps)
  obtain t0 where u: "insert_dir p t = ((), t0)" by (cases "insert_dir p t") auto
  have at_p: "(case hm_get p t of Some r \<Rightarrow> \<not> er_is_dir r | None \<Rightarrow> False) = is_file (tree_of t p)"
    by (simp add: tree_of_def is_file_def node_of_def split: option.split)
  show ?case
  proof (cases "is_file (tree_of t p)")
    case True
    then show ?thesis using Cons.prems at_p by (auto simp: undone_on_error_def op_defs select_path_def)
  next
    case False
    have tree: "tree_of t0 = (\<lambda>q. if q = p \<and> tree_of t q = None then Some DirNode else tree_of t q)"
      using False u by (auto simp: insert_dir_def tree_of_def fun_eq_iff)
    have ok: "table_ok t0" using Cons.prems u by (auto simp: insert_dir_def table_ok_insert split: if_splits)
    have files: "is_file (tree_of t0 q) = is_file (tree_of t q)" for q
      using False by (auto simp: tree is_file_def)
    have step: "create_rows (p # ps) t = create_rows ps t0"
      using False at_p by (simp add: op_defs select_path_def u)
    obtain r1 t2 where run: "create_rows ps t0 = (r1, t2)" by fastforce
    obtain t1 where rest: "undone_on_error (create_rows ps) t0 = (r, t1)"
      and t': "t' = (if isl r then t else t1)"
    proof (cases r1)
      case (Inl e)
      have "(r, t') = (Inl e, t)"
        using Cons.prems(3) [symmetric] unfolding undone_on_error_def step run Inl by simp
      then show thesis using that [of t0] unfolding undone_on_error_def run Inl by simp
    next
      case (Inr v)
      have "(r, t') = (Inr v, t2)"
        using Cons.prems(3) [symmetric] unfolding undone_on_error_def step run Inr by simp
      then show thesis using that [of t2] unfolding undone_on_error_def run Inr by simp
    qed
    have IH: "table_ok t1 \<and> (r, tree_of t1) =
      (case find (\<lambda>q. is_file (tree_of t q)) ps of
         Some q \<Rightarrow> (Inl (FsBackend q CreateDirAllOp ''file exists where directory is required''), tree_of t0)
       | None \<Rightarrow> (Inr (), \<lambda>q. if q \<in> set ps \<and> tree_of t0 q = None then Some DirNode else tree_of t0 q))"
      using Cons.IH [OF ok _ rest] Cons.prems(2) by (simp add: files)
    have both: "(\<lambda>q. if q \<in> set ps \<and> tree_of t0 q = None then Some DirNode else tree_of t0 q)
        = (\<lambda>q. if q \<in> set (p # ps) \<and> tree_of t q = None then Some DirNode else tree_of t q)"
      by (auto simp: tree fun_eq_iff)
    show ?thesis
    proof (cases "find (\<lambda>q. is_file (tree_of t q)) ps")
      case None
      then show ?thesis using IH t' False unfolding both by simp
    next
      case (Some q)
      then show ?thesis using IH t' False Cons.prems(1) by simp
    qed
  qed
qed

lemma new_path_ok: "virtual_path_new raw = Inr v \<Longrightarrow> virtual_path_ok v"
  by (auto simp: virtual_path_ok_def virtual_path_new_iff dest: normalize_idem)

lemma collect_prefixes_ok:
  "collect_prefixes cur segs = Inr ps \<Longrightarrow> q \<in> set ps \<Longrightarrow> virtual_path_ok q"
  by (induction cur segs arbitrary: ps rule: collect_prefixes.induct)
    (auto simp: Let_def bind_result_def new_path_ok split: sum.splits if_splits)

lemma create_sound:
  assumes p: "virtual_path_ok p"
  shows "db_sound d FsCreate p"
proof (rule db_soundI)
  let ?m = "fs_run (database_filesystem d) FsCreate p"
  let ?body = "\<lambda>c. case virtual_path_prefixes p of Inl e \<Rightarrow> fail_op (FsContract e) | Inr ps \<Rightarrow> c ps"
  let ?g = "value_op (\<lambda>_. UnitValue) (bind_op (return_op ()) (\<lambda>_. undone_on_error (?body create_rows)))"
  have run: "?m = value_op (\<lambda>_. UnitValue) (db_create_dir_all p)"
    by (simp add: database_filesystem_def)
  have body: "follows (?body (create_dirs p)) (?body create_rows)"
    by (simp add: follows_return follows_create split: sum.split)
  show "follows ?m ?g"
    unfolding run db_create_dir_all_def
    by (intro follows_value follows_bind follows_connect follows_transaction body)
  show "tree_refines (sq_fold d) FsCreate p ?g"
    unfolding tree_refines_def
  proof (intro allI impI)
    fix t
    assume t: "table_ok t"
    show "case ?g t of (r, t') \<Rightarrow> (r, tree_of t') = tree_step (sq_fold d) FsCreate p (tree_of t) \<and> table_ok t'"
    proof (cases "virtual_path_prefixes p")
      case (Inl e)
      then show ?thesis using t by (simp add: value_op_def op_defs undone_on_error_def)
    next
      case (Inr ps)
      then have ok: "\<forall>q \<in> set ps. virtual_path_ok q"
        by (auto simp: virtual_path_prefixes_def dest: collect_prefixes_ok)
      obtain r t' where rt: "undone_on_error (create_rows ps) t = (r, t')" by fastforce
      show ?thesis
        using create_rows_tree [OF t ok rt] rt Inr
        by (auto simp: value_op_def op_defs split: option.splits)
    qed
  qed
  show "safe ?m"
    unfolding run db_create_dir_all_def
    by (intro safe_value safe_bind safe_transaction reads_open)
qed

lemma db_sound_all: "virtual_path_ok p \<Longrightarrow> db_sound d c p"
  by (cases c) (simp_all add: read_sound write_sound append_sound list_sound stat_sound delete_sound create_sound)

lemma db_soundD:
  assumes "db_sound d c p" "fs_run (database_filesystem d) c p w = (r, w')" "table_ok (db_entries w)"
  shows "(r, tree_of (db_entries w')) = tree_step (sq_fold d) c p (tree_of (db_entries w)) \<and> table_ok (db_entries w')
    \<or> fault_reported w r \<and> db_entries w' = db_entries w"
proof -
  obtain g where g: "follows (fs_run (database_filesystem d) c p) g" "tree_refines (sq_fold d) c p g"
    "safe (fs_run (database_filesystem d) c p)"
    using assms(1) by (auto simp: db_sound_def)
  from g(1) assms(2) consider "(r, db_entries w') = g (db_entries w)" | "fault_reported w r"
    by (auto simp: follows_def)
  then show ?thesis
  proof cases
    case 1
    then have g_run: "g (db_entries w) = (r, db_entries w')" by simp
    have "case g (db_entries w) of (r, t') \<Rightarrow>
        (r, tree_of t') = tree_step (sq_fold d) c p (tree_of (db_entries w)) \<and> table_ok t'"
      using g(2) assms(3) by (simp add: tree_refines_def)
    then show ?thesis unfolding g_run by simp
  next
    case 2
    then show ?thesis using g(3) assms(2) by (auto simp: safe_def fault_reported_def)
  qed
qed

text \<open>
  C14: A database filesystem is a file tree: on a table with distinct canonical paths, every command
  on a canonical path answers and changes the tree of files exactly as specified - reading,
  overwriting, appending, listing the sorted direct children, stat with implied directories, deleting
  a whole subtree, creating every missing directory of a path or none - or a call to the database
  failed, its error is the answer, and the table is as it was; this holds for PostgreSQL with exact
  names and for libSQL up to the letter case of the parent directory.
\<close>

theorem database_filesystem_is_file_tree:
  assumes "fs_run (database_filesystem d) c p w = (r, w')"
    and "virtual_path_ok p" and "table_ok (db_entries w)"
  shows "(r, tree_of (db_entries w')) = tree_step (sq_fold d) c p (tree_of (db_entries w))
      \<and> table_ok (db_entries w')
    \<or> fault_reported w r \<and> db_entries w' = db_entries w"
  by (rule db_soundD [OF db_sound_all [OF assms(2)] assms(1,3)])

definition notes_database :: database where
  "notes_database = \<lparr>db_entries = [(''/projects/a/x'', \<lparr>er_contents = ''X'', er_is_dir = False\<rparr>)],
     db_faults = (\<lambda>_. None)\<rparr>"

lemma database_filesystem_is_file_tree_witness:
  "tree_step id (FsWrite ''Y'') ''/projects/b'' (tree_of (db_entries notes_database))
     = (Inr UnitValue, (tree_of (db_entries notes_database))(''/projects/b'' \<mapsto> FileNode ''Y''))
   \<and> fs_run postgres_filesystem (FsWrite ''Y'') ''/projects/b'' notes_database
     = (Inr UnitValue, notes_database\<lparr>db_entries :=
          hm_insert ''/projects/b'' \<lparr>er_contents = ''Y'', er_is_dir = False\<rparr> (db_entries notes_database)\<rparr>)"
proof -
  have ok: "virtual_path_ok ''/projects/b''" "virtual_path_ok ''/projects/a/x''"
    unfolding virtual_path_ok_def by code_simp+
  have table: "table_ok (db_entries notes_database)"
    using ok by (simp add: table_ok_def notes_database_def hm_keys_distinct_def)
  have none: "\<not> some_below lc (tree_of (db_entries notes_database)) ''/projects/b''" if "lc = id" for lc
    using that by (auto simp: some_below_def notes_database_def tree_of_def below_id hm_get_def)
  have run: "fs_run (database_filesystem postgres_dialect) (FsWrite ''Y'') ''/projects/b'' notes_database
     = (Inr UnitValue, notes_database\<lparr>db_entries :=
          hm_insert ''/projects/b'' \<lparr>er_contents = ''Y'', er_is_dir = False\<rparr> (db_entries notes_database)\<rparr>)"
    using none [OF refl] exists_like_below [OF ok(1), of id "db_entries notes_database"]
    by (simp add: database_filesystem_def db_write_file_def value_op_def op_defs open_session_def
        db_connect_def db_call_def run_statement_def db_statement_def occupied_def exact_entry_def
        has_child_entry_def exists_like_def upsert_file_def select_path_def notes_database_def
        postgres_dialect_def Let_def hm_get_def)
  show ?thesis
    using database_filesystem_is_file_tree [OF run ok(1) table] none [OF refl] run
    by (simp add: postgres_filesystem_def postgres_dialect_def fault_reported_def)
qed

end
