(* ===== verification/RecordFiles.thy ===== *)
theory RecordFiles
  imports DbFileTree RunState Handoffs Extensions
begin

section \<open>Records in files\<close>

text \<open>
  What the filesystem-backed stores of \<open>ironclaw_run_state\<close>, \<open>ironclaw_processes\<close> and
  \<open>ironclaw_authorization\<close> have in common: one JSON file per record below a folder of its owner,
  with the owner's ids in the path. The three crates hold their own copies of these helpers. A
  serialiser is a pair of functions; the stores keep the mutex of a record or of the whole store
  during an operation, so that operations on a store follow one another.
\<close>

subsection \<open>Error texts\<close>

definition quoted :: "string \<Rightarrow> string" where
  "quoted s = [CHR 0x27] @ s @ [CHR 0x27]"

fun host_api_error_display :: "host_api_error \<Rightarrow> string" where
  "host_api_error_display (InvalidId kind value reason) =
     ''invalid '' @ kind @ '' id '' @ quoted value @ '': '' @ reason"
| "host_api_error_display (InvalidPath value reason) = ''invalid path '' @ quoted value @ '': '' @ reason"
| "host_api_error_display (InvalidCapability value reason) =
     ''invalid capability '' @ quoted value @ '': '' @ reason"
| "host_api_error_display (InvalidMount value reason) = ''invalid mount '' @ quoted value @ '': '' @ reason"
| "host_api_error_display (InvalidNetworkTarget value reason) =
     ''invalid network target '' @ quoted value @ '': '' @ reason"
| "host_api_error_display (InvariantViolation reason) = ''host API invariant violation: '' @ reason"

fun filesystem_error_display :: "filesystem_error \<Rightarrow> string" where
  "filesystem_error_display (FsContract e) = host_api_error_display e"
| "filesystem_error_display (FsPermissionDenied path operation) =
     ''permission denied for '' @ operation_display operation @ '' on scoped path '' @ path"
| "filesystem_error_display (FsMountNotFound path) = ''no backend mount found for virtual path '' @ path"
| "filesystem_error_display (FsNotFound path operation) =
     ''virtual path not found for '' @ operation_display operation @ '' at '' @ path"
| "filesystem_error_display (FsPathOutsideMount path) = ''virtual path escaped backend mount '' @ path"
| "filesystem_error_display (FsSymlinkEscape path) =
     ''symlink escapes backend mount at virtual path '' @ path"
| "filesystem_error_display (FsMountConflict path) = ''backend mount conflict at virtual path '' @ path"
| "filesystem_error_display (FsBackend path operation reason) =
     ''filesystem backend error during '' @ operation_display operation @ '' at '' @ path @ '': '' @ reason"

subsection \<open>Files of records\<close>

text \<open>\<open>serde_json::to_vec_pretty\<close> and \<open>from_slice\<close> at a record type, with their error texts.\<close>

record 'r json_codec =
  jc_ser :: "'r \<Rightarrow> (string, string) result"
  jc_de :: "string \<Rightarrow> (string, 'r) result"

text \<open>What the stores rely on: a record that was written reads back as it was.\<close>

definition codec_ok :: "'r json_codec \<Rightarrow> bool" where
  "codec_ok c \<longleftrightarrow> (\<forall>r b. jc_ser c r = Inr b \<longrightarrow> jc_de c b = Inr r)"

definition try_result :: "('e, 'a) result \<Rightarrow> ('a \<Rightarrow> ('w, 'e, 'b) operation) \<Rightarrow> ('w, 'e, 'b) operation" where
  "try_result r k = (case r of Inl e \<Rightarrow> fail_op e | Inr x \<Rightarrow> k x)"

definition read_bytes ::
    "'w root_filesystem \<Rightarrow> (filesystem_error \<Rightarrow> 'e) \<Rightarrow> virtual_path \<Rightarrow> ('w, 'e, string option) operation" where
  "read_bytes fs err path w =
     (case fs_read_file fs path w of
        (Inr bytes, w') \<Rightarrow> (Inr (Some bytes), w')
      | (Inl e, w') \<Rightarrow> if is_fs_not_found e then (Inr None, w') else (Inl (err e), w'))"

definition read_json ::
    "'w root_filesystem \<Rightarrow> (filesystem_error \<Rightarrow> 'e) \<Rightarrow> (string \<Rightarrow> ('e, 'r) result) \<Rightarrow> virtual_path
     \<Rightarrow> ('w, 'e, 'r option) operation" where
  "read_json fs err de path =
     bind_op (read_bytes fs err path) (\<lambda>bytes.
       case bytes of
         None \<Rightarrow> return_op None
       | Some b \<Rightarrow> try_result (de b) (\<lambda>r. return_op (Some r)))"

text \<open>A record of the scope's owner, or none.\<close>

definition owned_lookup ::
    "'w root_filesystem \<Rightarrow> (filesystem_error \<Rightarrow> 'e) \<Rightarrow> (string \<Rightarrow> ('e, 'r) result) \<Rightarrow> ('r \<Rightarrow> resource_scope)
     \<Rightarrow> virtual_path \<Rightarrow> resource_scope \<Rightarrow> ('w, 'e, 'r option) operation" where
  "owned_lookup fs err de owner path scope =
     bind_op (read_json fs err de path) (\<lambda>found.
       return_op (case found of
           None \<Rightarrow> None
         | Some record \<Rightarrow> if same_scope_owner (owner record) scope then Some record else None))"

definition write_json ::
    "'w root_filesystem \<Rightarrow> (filesystem_error \<Rightarrow> 'e) \<Rightarrow> ('r \<Rightarrow> ('e, string) result) \<Rightarrow> virtual_path \<Rightarrow> 'r
     \<Rightarrow> ('w, 'e, unit) operation" where
  "write_json fs err ser path r =
     try_result (ser r) (\<lambda>bytes. map_err_op err (fs_write_file fs path bytes))"

definition list_entries ::
    "'w root_filesystem \<Rightarrow> (filesystem_error \<Rightarrow> 'e) \<Rightarrow> virtual_path \<Rightarrow> ('w, 'e, dir_entry list) operation" where
  "list_entries fs err root w =
     (case fs_list_dir fs root w of
        (Inr entries, w') \<Rightarrow> (Inr entries, w')
      | (Inl e, w') \<Rightarrow> if is_fs_not_found e then (Inr [], w') else (Inl (err e), w'))"

text \<open>The loop over the entries of a folder, which skips a file that is gone if the store does.\<close>

fun read_listed ::
    "'w root_filesystem \<Rightarrow> (filesystem_error \<Rightarrow> 'e) \<Rightarrow> (string \<Rightarrow> ('e, 'r) result) \<Rightarrow> bool
     \<Rightarrow> ('r \<Rightarrow> bool) \<Rightarrow> dir_entry list \<Rightarrow> ('w, 'e, 'r list) operation" where
  "read_listed fs err de skips_missing keep [] = return_op []"
| "read_listed fs err de skips_missing keep (entry # entries) =
     (if suffix ''.json'' (de_name entry) then
        bind_op (if skips_missing then read_bytes fs err (de_path entry)
                 else map_err_op err (bind_op (fs_read_file fs (de_path entry)) (\<lambda>b. return_op (Some b))))
          (\<lambda>bytes. case bytes of
             None \<Rightarrow> read_listed fs err de skips_missing keep entries
           | Some b \<Rightarrow> try_result (de b) (\<lambda>r.
               bind_op (read_listed fs err de skips_missing keep entries) (\<lambda>rs.
                 return_op (if keep r then r # rs else rs))))
      else read_listed fs err de skips_missing keep entries)"

text \<open>The records of a scope in its folder, by id.\<close>

definition owned_records ::
    "'w root_filesystem \<Rightarrow> (filesystem_error \<Rightarrow> 'e) \<Rightarrow> (string \<Rightarrow> ('e, 'r) result) \<Rightarrow> bool
     \<Rightarrow> ('r \<Rightarrow> resource_scope) \<Rightarrow> ('r \<Rightarrow> uuid) \<Rightarrow> virtual_path \<Rightarrow> resource_scope \<Rightarrow> ('w, 'e, 'r list) operation" where
  "owned_records fs err de skips_missing owner ident root scope =
     bind_op (bind_op (list_entries fs err root)
         (read_listed fs err de skips_missing (\<lambda>r. same_scope_owner (owner r) scope)))
       (\<lambda>records. return_op (sort_key ident records))"

subsection \<open>Paths\<close>

definition owner_root :: "resource_scope \<Rightarrow> string" where
  "owner_root scope =
     (let part = (\<lambda>label v base. case v of None \<Rightarrow> base | Some i \<Rightarrow> base @ ''/'' @ label @ ''/'' @ i);
          base = ''/engine/tenants/'' @ rs_tenant_id scope @ ''/users/'' @ rs_user_id scope;
          base = part ''agents'' (rs_agent_id scope) base;
          base = part ''projects'' (rs_project_id scope) base;
          base = part ''missions'' (rs_mission_id scope) base
      in part ''threads'' (rs_thread_id scope) base)"

definition folder_path :: "string \<Rightarrow> resource_scope \<Rightarrow> (host_api_error, virtual_path) result" where
  "folder_path name scope = virtual_path_new (owner_root scope @ ''/'' @ name)"

definition record_path :: "string \<Rightarrow> resource_scope \<Rightarrow> uuid \<Rightarrow> (host_api_error, virtual_path) result" where
  "record_path name scope i =
     bind_result (folder_path name scope) (\<lambda>root.
       virtual_path_new (root @ ''/'' @ uuid_display i @ ''.json''))"

text \<open>The owner part of a path as labelled ids.\<close>

definition owner_pairs :: "resource_scope \<Rightarrow> (string \<times> string) list" where
  "owner_pairs s =
     (let opt = (\<lambda>label v. case v of None \<Rightarrow> [] | Some i \<Rightarrow> [(label, i)])
      in [(''tenants'', rs_tenant_id s), (''users'', rs_user_id s)]
         @ opt ''agents'' (rs_agent_id s) @ opt ''projects'' (rs_project_id s)
         @ opt ''missions'' (rs_mission_id s) @ opt ''threads'' (rs_thread_id s))"

definition pair_segments :: "(string \<times> string) list \<Rightarrow> string list" where
  "pair_segments ps = concat (map (\<lambda>(k, i). [k, i]) ps)"

definition owner_segments :: "resource_scope \<Rightarrow> string list" where
  "owner_segments s = ''engine'' # pair_segments (owner_pairs s)"

definition owner_ok :: "resource_scope \<Rightarrow> bool" where
  "owner_ok s \<longleftrightarrow> (\<forall>(k, i) \<in> set (owner_pairs s). scope_id_ok i)"

definition labels :: "string list" where
  "labels = [''tenants'', ''users'', ''agents'', ''projects'', ''missions'', ''threads'']"

lemma scope_segment: "scope_id_ok i \<Longrightarrow> segment_ok i"
  by (simp add: scope_id_ok_def segment_ok_def)

lemma owner_root_segments: "owner_root s = render (owner_segments s)"
  by (simp add: owner_root_def owner_segments_def owner_pairs_def pair_segments_def render_def Let_def
      split: option.split)

lemma owner_pairs_labels: "set (map fst (owner_pairs s)) \<subseteq> set labels"
  by (auto simp: owner_pairs_def labels_def Let_def split: option.splits)

lemma same_owner_pairs: "same_scope_owner s t \<longleftrightarrow> owner_pairs s = owner_pairs t"
proof
  assume eq: "owner_pairs s = owner_pairs t"
  have "rs_tenant_id x = the (map_of (owner_pairs x) ''tenants'')"
    "rs_user_id x = the (map_of (owner_pairs x) ''users'')"
    "rs_agent_id x = map_of (owner_pairs x) ''agents''"
    "rs_project_id x = map_of (owner_pairs x) ''projects''"
    "rs_mission_id x = map_of (owner_pairs x) ''missions''"
    "rs_thread_id x = map_of (owner_pairs x) ''threads''" for x
    by (simp_all add: owner_pairs_def Let_def split: option.split)
  then show "same_scope_owner s t" using eq by (simp add: same_scope_owner_def)
qed (auto simp: same_scope_owner_def owner_pairs_def)

lemma labels_segment_ok: "list_all segment_ok labels"
  unfolding labels_def segment_ok_def by code_simp

lemma owner_segments_ok: "owner_ok s \<Longrightarrow> \<forall>x \<in> set (owner_segments s). segment_ok x"
proof -
  assume s: "owner_ok s"
  have "segment_ok ''engine''" unfolding segment_ok_def by code_simp
  moreover have "segment_ok k \<and> segment_ok i" if "(k, i) \<in> set (owner_pairs s)" for k i
    using that s owner_pairs_labels [of s] labels_segment_ok
    by (force simp: owner_ok_def list_all_iff intro: scope_segment)
  ultimately show ?thesis by (auto simp: owner_segments_def pair_segments_def)
qed

text \<open>A path below an owner's folder of a given name.\<close>

definition under_owner :: "resource_scope \<Rightarrow> string list \<Rightarrow> virtual_path" where
  "under_owner s tail = render (owner_segments s @ tail)"

lemma under_owner_ok:
  assumes "owner_ok s" "\<forall>x \<in> set tail. segment_ok x"
  shows "path_form (owner_segments s @ tail) (under_owner s tail)" "virtual_path_ok (under_owner s tail)"
proof -
  show form: "path_form (owner_segments s @ tail) (under_owner s tail)"
    using assms owner_segments_ok [OF assms(1)] by (auto simp: path_form_def under_owner_def owner_segments_def)
  have "prefix ''/engine/'' (under_owner s tail)"
    by (simp add: under_owner_def render_def owner_segments_def owner_pairs_def pair_segments_def Let_def)
  then have "under_root (under_owner s tail)"
    unfolding under_root_def VIRTUAL_ROOTS_def by (intro bexI [of _ "''/engine''"]) simp_all
  then show "virtual_path_ok (under_owner s tail)" using form by (auto simp: virtual_path_ok_iff)
qed

lemma under_owner_append:
  "tail \<noteq> [] \<Longrightarrow> under_owner s tail = owner_root s @ ''/'' @ join_with (CHR ''/'') tail"
  "ts \<noteq> [] \<Longrightarrow> us \<noteq> [] \<Longrightarrow> under_owner s (ts @ us) = under_owner s ts @ ''/'' @ join_with (CHR ''/'') us"
  by (simp_all add: under_owner_def owner_root_segments render_def join_with_append owner_segments_def
      flip: append_assoc append_Cons)

subsection \<open>No record file lies below another\<close>

definition fold_ok :: "(char \<Rightarrow> char) \<Rightarrow> bool" where
  "fold_ok lc \<longleftrightarrow> (\<forall>c. lc c = CHR ''/'' \<longleftrightarrow> c = CHR ''/'')
     \<and> (\<forall>c. is_ascii_lowercase c \<or> c = CHR ''-'' \<longrightarrow> lc c = c)"

definition plain_name :: "string \<Rightarrow> bool" where
  "plain_name name \<longleftrightarrow> name \<notin> set labels \<and> segment_ok name
     \<and> list_all (\<lambda>c. is_ascii_lowercase c \<or> c = CHR ''-'') name"

lemma split_on_map:
  assumes "fold_ok lc"
  shows "split_on (CHR ''/'') (map lc x) = map (map lc) (split_on (CHR ''/'') x)"
proof -
  have "lc c = CHR ''/'' \<longleftrightarrow> c = CHR ''/''" for c using assms by (simp add: fold_ok_def)
  then show ?thesis by (induction x) (auto split: list.split)
qed

lemma below_segments:
  assumes lc: "fold_ok lc" and p: "path_form ps p" and q: "path_form qs q" and below: "below lc p q"
  shows "\<exists>rest. rest \<noteq> [] \<and> map (map lc) qs = map (map lc) ps @ rest"
proof -
  let ?z = "map lc (drop (Suc (length p)) q)"
  have "map lc q = map lc (take (Suc (length p)) q @ drop (Suc (length p)) q)" by simp
  also have "\<dots> = map lc (p @ ''/'') @ ?z" using below unfolding below_def by (simp only: map_append)
  finally have "map lc (join_with (CHR ''/'') qs) = map lc (join_with (CHR ''/'') ps) @ CHR ''/'' # ?z"
    using p q lc by (simp add: path_form_def render_def fold_ok_def)
  then have "split_on (CHR ''/'') (map lc (join_with (CHR ''/'') qs))
      = split_on (CHR ''/'') (map lc (join_with (CHR ''/'') ps)) @ split_on (CHR ''/'') ?z"
    by (simp add: split_on_append)
  then show ?thesis
    using p q by (auto simp: split_on_map [OF lc] path_form_def split_on_join_with segment_ok_def)
qed

lemma pairs_match:
  assumes "map (map lc) (pair_segments ps @ name # tail) = map (map lc) (pair_segments qs @ name' # tail') @ rest"
    and "set (map fst ps) \<subseteq> set labels" "set (map fst qs) \<subseteq> set labels"
    and fixed: "\<forall>x \<in> set labels \<union> {name, name'}. map lc x = x"
    and plain: "name \<notin> set labels" "name' \<notin> set labels"
  shows "name = name' \<and> map (map lc) tail = map (map lc) tail' @ rest
    \<and> map (\<lambda>(k, i). (k, map lc i)) ps = map (\<lambda>(k, i). (k, map lc i)) qs"
  using assms(1-3)
proof (induction ps arbitrary: qs)
  case Nil
  then show ?case
    using fixed plain by (cases qs) (auto simp: pair_segments_def)
next
  case (Cons e ps)
  obtain k i where e: "e = (k, i)" by fastforce
  show ?case
  proof (cases qs)
    case Nil
    then show ?thesis using Cons.prems fixed plain by (auto simp: e pair_segments_def)
  next
    case (Cons e' qs')
    obtain k' i' where e': "e' = (k', i')" by fastforce
    have eq: "map lc k # map lc i # map (map lc) (pair_segments ps @ name # tail)
        = map lc k' # map lc i' # (map (map lc) (pair_segments qs' @ name' # tail') @ rest)"
      using Cons.prems(1) by (simp add: pair_segments_def e e' Cons)
    have "k \<in> set labels" "k' \<in> set labels" using Cons.prems(2,3) by (simp_all add: e e' Cons)
    then have "map lc k = k" "map lc k' = k'" using fixed by blast+
    then have heads: "k = k'" "map lc i = map lc i'"
      and tails: "map (map lc) (pair_segments ps @ name # tail) = map (map lc) (pair_segments qs' @ name' # tail') @ rest"
      using eq by auto
    have "set (map fst ps) \<subseteq> set labels" "set (map fst qs') \<subseteq> set labels"
      using Cons.prems(2,3) by (auto simp: e e' Cons)
    note IH = Cons.IH [OF tails this]
    show ?thesis unfolding e e' Cons using IH heads by (simp only: list.map prod.case)
  qed
qed

lemma fold_ok_fixes:
  assumes "fold_ok lc" "plain_name name \<or> name \<in> set labels"
  shows "map lc name = name"
proof -
  have "list_all (\<lambda>x. list_all (\<lambda>c. is_ascii_lowercase c \<or> c = CHR ''-'') x) labels"
    unfolding labels_def by code_simp
  then have "\<forall>c \<in> set name. is_ascii_lowercase c \<or> c = CHR ''-''"
    using assms(2) by (auto simp: plain_name_def list_all_iff)
  then show ?thesis using assms(1) by (intro map_idI) (auto simp: fold_ok_def)
qed

lemma under_owner_match:
  assumes "fold_ok lc" "plain_name name" "plain_name name'"
    and "map (map lc) (owner_segments s @ name # tail) = map (map lc) (owner_segments t @ name' # tail') @ rest"
  shows "name = name' \<and> map (map lc) tail = map (map lc) tail' @ rest
    \<and> map (\<lambda>(k, i). (k, map lc i)) (owner_pairs s) = map (\<lambda>(k, i). (k, map lc i)) (owner_pairs t)"
proof (rule pairs_match)
  show "map (map lc) (pair_segments (owner_pairs s) @ name # tail)
      = map (map lc) (pair_segments (owner_pairs t) @ name' # tail') @ rest"
    using assms(4) by (simp add: owner_segments_def)
  show "\<forall>x \<in> set labels \<union> {name, name'}. map lc x = x"
    using assms(1-3) by (auto intro: fold_ok_fixes)
qed (use assms(2,3) owner_pairs_labels in \<open>auto simp: plain_name_def\<close>)

lemma under_owner_below:
  assumes "fold_ok lc" "owner_ok s" "owner_ok t" "plain_name name" "plain_name name'"
    and "\<forall>x \<in> set tail. segment_ok x" "\<forall>x \<in> set tail'. segment_ok x"
    and below: "below lc (under_owner s (name # tail)) (under_owner t (name' # tail'))"
  obtains rest where "rest \<noteq> []" "name' = name" "map (map lc) tail' = map (map lc) tail @ rest"
    "map (\<lambda>(k, i). (k, map lc i)) (owner_pairs t) = map (\<lambda>(k, i). (k, map lc i)) (owner_pairs s)"
proof -
  have names: "\<forall>x \<in> set (name # tail). segment_ok x" "\<forall>x \<in> set (name' # tail'). segment_ok x"
    using assms(4-7) by (auto simp: plain_name_def)
  obtain rest where rest: "rest \<noteq> []"
    "map (map lc) (owner_segments t @ name' # tail') = map (map lc) (owner_segments s @ name # tail) @ rest"
    using below_segments [OF assms(1) under_owner_ok(1) [OF assms(2) names(1)]
        under_owner_ok(1) [OF assms(3) names(2)] below] by blast
  show thesis
    using that [OF rest(1)] under_owner_match [OF assms(1,5,4) rest(2)] by blast
qed

text \<open>Files below plain folders at the same depth are never below one another, and never shared.\<close>

lemma under_owner_flat:
  assumes "fold_ok lc" "owner_ok s" "owner_ok t" "plain_name name" "plain_name name'"
    and "\<forall>x \<in> set tail. segment_ok x" "\<forall>x \<in> set tail'. segment_ok x"
    and "name = name' \<Longrightarrow> length tail = length tail'"
  shows "\<not> below lc (under_owner s (name # tail)) (under_owner t (name' # tail'))"
proof
  assume "below lc (under_owner s (name # tail)) (under_owner t (name' # tail'))"
  then obtain rest where "rest \<noteq> []" "name' = name" "map (map lc) tail' = map (map lc) tail @ rest"
    using under_owner_below [OF assms(1-7)] by metis
  then have "length tail' = length tail + length rest" by (metis length_append length_map)
  then show False using assms(8) \<open>rest \<noteq> []\<close> \<open>name' = name\<close> by simp
qed

lemma under_owner_inj:
  assumes "owner_ok s" "owner_ok t" "plain_name name" "plain_name name'"
    and "\<forall>x \<in> set tail. segment_ok x" "\<forall>x \<in> set tail'. segment_ok x"
  shows "under_owner s (name # tail) = under_owner t (name' # tail')
    \<longleftrightarrow> same_scope_owner s t \<and> name = name' \<and> tail = tail'"
proof
  assume eq: "under_owner s (name # tail) = under_owner t (name' # tail')"
  have names: "\<forall>x \<in> set (name # tail). segment_ok x" "\<forall>x \<in> set (name' # tail'). segment_ok x"
    using assms(3-6) by (auto simp: plain_name_def)
  have "owner_segments s @ name # tail = owner_segments t @ name' # tail'"
  proof -
    have "split_on (CHR ''/'') (tl (under_owner s (name # tail))) = owner_segments s @ name # tail"
      "split_on (CHR ''/'') (tl (under_owner t (name' # tail'))) = owner_segments t @ name' # tail'"
      using under_owner_ok(1) [OF assms(1) names(1)] under_owner_ok(1) [OF assms(2) names(2)]
      by (auto simp: path_form_def render_def split_on_join_with segment_ok_def)
    then show ?thesis using eq by simp
  qed
  then have "map (map id) (owner_segments s @ name # tail)
      = map (map id) (owner_segments t @ name' # tail') @ []" by simp
  moreover have "fold_ok id" by (simp add: fold_ok_def)
  ultimately show "same_scope_owner s t \<and> name = name' \<and> tail = tail'"
    using under_owner_match [of id name name' s tail t tail' "[]"] assms(3,4)
    by (simp add: same_owner_pairs)
next
  assume "same_scope_owner s t \<and> name = name' \<and> tail = tail'"
  then show "under_owner s (name # tail) = under_owner t (name' # tail')"
    by (simp add: under_owner_def owner_segments_def same_owner_pairs)
qed

subsection \<open>File names\<close>

definition json_name :: "uuid \<Rightarrow> string" where
  "json_name i = uuid_display i @ ''.json''"

lemma hex_digit_byte: "n < 16 \<Longrightarrow> byte_of (hex_digit n) = (if n < 10 then 48 + n else 87 + n)"
  by (simp add: hex_digit_def byte_of_def)

lemma uuid_digit_bytes: "c \<in> set (uuid_digits i) \<Longrightarrow>
    48 \<le> byte_of c \<and> byte_of c \<le> 57 \<or> 97 \<le> byte_of c \<and> byte_of c \<le> 102"
proof -
  assume "c \<in> set (uuid_digits i)"
  then obtain k where k: "c = hex_digit (unat (take_bit 4 (drop_bit k i)))"
    by (auto simp: uuid_digits_def)
  have "unat (take_bit 4 (drop_bit k i)) < 2 ^ 4"
    unfolding unsigned_take_bit_eq by (rule take_bit_nat_less_exp)
  then show ?thesis using hex_digit_byte [of "unat (take_bit 4 (drop_bit k i))"] by (auto simp: k)
qed

lemma json_name_byte: "c \<in> set (json_name i) \<Longrightarrow> 45 \<le> byte_of c \<and> byte_of c \<le> 115 \<and> byte_of c \<noteq> 47 \<and> byte_of c \<noteq> 92"
proof -
  assume c: "c \<in> set (json_name i)"
  have "set (json_name i) \<subseteq> set (uuid_digits i) \<union> set ''-.json''"
    by (auto simp: json_name_def uuid_display_def Let_def dest: in_set_takeD in_set_dropD)
  then consider "c \<in> set (uuid_digits i)" | "c \<in> set ''-.json''" using c by blast
  then show ?thesis
  proof cases
    case 1
    then show ?thesis using uuid_digit_bytes [OF 1] by auto
  next
    case 2
    then show ?thesis by (auto simp: byte_of_def)
  qed
qed

lemma json_name_ok [simp]: "segment_ok (json_name i)" "suffix ''.json'' (json_name i)"
proof -
  have "\<not> contains_control (json_name i)"
    by (rule printable_no_control) (use json_name_byte in fastforce)
  moreover have "CHR ''/'' \<notin> set (json_name i)" "CHR 0x5C \<notin> set (json_name i)"
    using json_name_byte [of "CHR ''/''" i] json_name_byte [of "CHR 0x5C" i] by (auto simp: byte_of_def)
  moreover have "2 < length (json_name i)" by (simp add: json_name_def)
  ultimately show "segment_ok (json_name i)" by (auto simp: segment_ok_def)
  show "suffix ''.json'' (json_name i)" unfolding json_name_def suffix_def by blast
qed

lemma uuid_segment [simp]: "segment_ok (uuid_display i)"
proof -
  have sub: "set (uuid_display i) \<subseteq> set (json_name i)" by (auto simp: json_name_def)
  have "\<not> contains_control (uuid_display i)"
    by (rule printable_no_control) (use json_name_byte sub in fastforce)
  moreover have "CHR ''/'' \<notin> set (uuid_display i)" "CHR 0x5C \<notin> set (uuid_display i)"
    using sub json_name_ok(1) [of i] by (auto simp: segment_ok_def)
  moreover have "2 < length (uuid_display i)" by (simp add: uuid_display_def uuid_digits_def Let_def)
  ultimately show ?thesis by (auto simp: segment_ok_def)
qed

lemma json_name_inj [simp]: "json_name i = json_name j \<longleftrightarrow> i = j"
  by (simp add: json_name_def)

definition record_file :: "string \<Rightarrow> resource_scope \<Rightarrow> uuid \<Rightarrow> virtual_path" where
  "record_file name s i = under_owner s [name, json_name i]"

definition record_folder :: "string \<Rightarrow> resource_scope \<Rightarrow> virtual_path" where
  "record_folder name s = under_owner s [name]"

lemma record_file_folder: "record_file name s i = record_folder name s @ ''/'' @ json_name i"
  using under_owner_append(2) [of "[name]" "[json_name i]" s] by (simp add: record_file_def record_folder_def)

lemma record_paths:
  assumes "owner_ok s" "plain_name name"
  shows "virtual_path_ok (record_folder name s)" "virtual_path_ok (record_file name s i)"
    and "folder_path name s = Inr (record_folder name s)"
    and "record_path name s i = Inr (record_file name s i)"
proof -
  have name: "segment_ok name" using assms(2) by (simp add: plain_name_def)
  show ok: "virtual_path_ok (record_folder name s)" "virtual_path_ok (record_file name s i)"
    unfolding record_folder_def record_file_def using under_owner_ok(2) [OF assms(1)] name by simp_all
  show folder: "folder_path name s = Inr (record_folder name s)"
    using ok(1) under_owner_append(1) [of "[name]" s]
    by (simp add: folder_path_def record_folder_def virtual_path_ok_def)
  show "record_path name s i = Inr (record_file name s i)"
    using ok(2) record_file_folder [of name s i]
    by (simp add: record_path_def folder virtual_path_ok_def json_name_def)
qed

lemma record_file_flat:
  assumes "fold_ok lc" "owner_ok s" "owner_ok t" "plain_name name"
  shows "\<not> below lc (record_file name s i) (record_file name t j)"
  unfolding record_file_def by (rule under_owner_flat [OF assms(1-4,4)]) simp_all

lemma record_file_inj:
  assumes "owner_ok s" "owner_ok t" "plain_name name" "plain_name name'"
  shows "record_file name s i = record_file name' t j \<longleftrightarrow> same_scope_owner s t \<and> name = name' \<and> i = j"
  unfolding record_file_def by (subst under_owner_inj [OF assms]) auto

lemma record_folder_inj:
  assumes "owner_ok s" "owner_ok t" "plain_name name"
    and "record_file name t j = record_folder name s @ ''/'' @ n"
  shows "same_scope_owner s t \<and> n = json_name j"
proof -
  have form: "path_form (owner_segments t @ [name, json_name j]) (record_file name t j)"
    unfolding record_file_def using assms(2,3) by (intro under_owner_ok(1)) (simp_all add: plain_name_def)
  have "split_on (CHR ''/'') (tl (record_file name t j)) = owner_segments t @ [name, json_name j]"
    using form by (auto simp: path_form_def render_def split_on_join_with segment_ok_def)
  moreover have "path_form (owner_segments s @ [name]) (record_folder name s)"
    unfolding record_folder_def using assms(1,3) by (intro under_owner_ok(1)) (simp_all add: plain_name_def)
  then have "split_on (CHR ''/'') (tl (record_folder name s @ ''/'' @ n))
      = (owner_segments s @ [name]) @ split_on (CHR ''/'') n"
    by (auto simp: path_form_def render_def split_on_append split_on_join_with segment_ok_def)
  ultimately have eq: "owner_segments t @ [name, json_name j] = owner_segments s @ name # split_on (CHR ''/'') n"
    using assms(4) by simp
  then have "map (map id) (owner_segments t @ name # [json_name j])
      = map (map id) (owner_segments s @ name # split_on (CHR ''/'') n) @ []" by simp
  moreover have "fold_ok id" by (simp add: fold_ok_def)
  ultimately have "[json_name j] = split_on (CHR ''/'') n \<and> same_scope_owner s t"
    using under_owner_match [of id name name t "[json_name j]" s "split_on (CHR ''/'') n" "[]"] assms(3)
    by (simp add: same_owner_pairs)
  then show ?thesis by (metis join_with.simps(2) join_with_split_on)
qed

end
