(* ===== verification/RecordStores.thy ===== *)
theory RecordStores
  imports RecordFiles Network
begin

section \<open>Stores of records in a filesystem\<close>

text \<open>
  The contract of a filesystem that is a tree of files and whose calls may fail without effect, the
  database backends that keep it, and what reading, writing, deleting and listing the records of a
  folder does to a map of records.
\<close>

subsection \<open>Filesystems that are trees\<close>

lemma bind_op_return [simp]: "bind_op m return_op = m"
  by (auto simp: op_defs fun_eq_iff split: prod.split sum.split)

definition backend_failure :: "(filesystem_error, 'a) result \<Rightarrow> bool" where
  "backend_failure r \<longleftrightarrow> (\<exists>p op e. r = Inl (FsBackend p op e))"

definition value_result :: "('a \<Rightarrow> fs_value) \<Rightarrow> (filesystem_error, 'a) result \<Rightarrow> (filesystem_error, fs_value) result" where
  "value_result f r = (case r of Inl e \<Rightarrow> Inl e | Inr x \<Rightarrow> Inr (f x))"

locale tree_filesystem =
  fixes fs :: "'w root_filesystem"
    and sound :: "'w \<Rightarrow> bool"
    and tree :: "'w \<Rightarrow> file_tree"
    and lc :: "char \<Rightarrow> char"
    and reliable :: "'w \<Rightarrow> bool"
  assumes fold_law: "sound w \<Longrightarrow> fold_ok lc"
    and finite_law: "sound w \<Longrightarrow> finite (dom (tree w))"
    and run_law: "sound w \<Longrightarrow> virtual_path_ok p \<Longrightarrow> fs_run fs c p w = (v, w') \<Longrightarrow>
      sound w' \<and> (reliable w \<longrightarrow> reliable w')
      \<and> ((v, tree w') = tree_step lc c p (tree w)
         \<or> \<not> reliable w \<and> backend_failure v \<and> tree w' = tree w)"
begin

lemma op_law:
  assumes "fs_run fs c p = value_op f m" "sound w" "virtual_path_ok p" "m w = (r, w')"
  shows "sound w' \<and> (reliable w \<longrightarrow> reliable w')
    \<and> ((value_result f r, tree w') = tree_step lc c p (tree w)
       \<or> \<not> reliable w \<and> backend_failure r \<and> tree w' = tree w)"
proof -
  have "fs_run fs c p w = (value_result f r, w')"
    using assms(1,4) by (simp add: value_op_def op_defs value_result_def split: sum.split)
  from run_law [OF assms(2,3) this] show ?thesis
    by (auto simp: value_result_def backend_failure_def split: sum.splits)
qed

lemma read_law:
  assumes "sound w" "virtual_path_ok p" "fs_read_file fs p w = (r, w')"
  shows "sound w' \<and> (reliable w \<longrightarrow> reliable w') \<and> tree w' = tree w
    \<and> ((case tree w p of
          Some (FileNode b) \<Rightarrow> r = Inr b
        | Some DirNode \<Rightarrow> is_err r
        | None \<Rightarrow> r = Inl (FsNotFound p ReadFileOp))
       \<or> \<not> reliable w \<and> backend_failure r)"
  using op_law [OF fs_run.simps(1) assms(1-3)]
  by (auto simp: value_result_def is_err_def split: option.splits sum.splits tree_node.splits)

lemma write_law:
  assumes "sound w" "virtual_path_ok p" "fs_write_file fs p b w = (r, w')" "\<not> is_taken lc (tree w) p"
  shows "sound w' \<and> (reliable w \<longrightarrow> reliable w')
    \<and> (r = Inr () \<and> tree w' = (tree w)(p \<mapsto> FileNode b)
       \<or> \<not> reliable w \<and> backend_failure r \<and> tree w' = tree w)"
  using op_law [OF fs_run.simps(2) assms(1-3)] assms(4)
  by (auto simp: value_result_def is_taken_def split: sum.splits)

lemma delete_law:
  assumes "sound w" "virtual_path_ok p" "fs_delete fs p w = (r, w')"
    and "tree w p \<noteq> None" "\<not> some_below lc (tree w) p"
  shows "sound w' \<and> (reliable w \<longrightarrow> reliable w')
    \<and> (r = Inr () \<and> tree w' = (tree w)(p := None)
       \<or> \<not> reliable w \<and> backend_failure r \<and> tree w' = tree w)"
proof -
  have "(\<lambda>q. if q = p \<or> below lc p q then None else tree w q) = (tree w)(p := None)"
    using assms(5) by (force simp: some_below_def fun_eq_iff)
  then show ?thesis
    using op_law [OF fs_run.simps(6) assms(1-3)] assms(4)
    by (auto simp: value_result_def split: sum.splits)
qed

lemma list_law:
  assumes "sound w" "virtual_path_ok p" "fs_list_dir fs p w = (r, w')" "\<not> is_file (tree w p)"
  shows "sound w' \<and> (reliable w \<longrightarrow> reliable w') \<and> tree w' = tree w
    \<and> ((if child_names (tree w) p = {} \<and> tree w p = None then r = Inl (FsNotFound p ListDirOp)
        else r = Inr (map (child_entry (tree w) p) (sorted_list_of_set (child_names (tree w) p))))
       \<or> \<not> reliable w \<and> backend_failure r)"
  using op_law [OF fs_run.simps(4) assms(1-3)] assms(4)
  by (auto simp: value_result_def split: sum.splits if_splits)

text \<open>A tree in which nothing lies below \<open>/engine\<close>, in any letter case.\<close>

definition engine_free :: "'w \<Rightarrow> bool" where
  "engine_free w \<longleftrightarrow> (\<forall>q. tree w q \<noteq> None \<longrightarrow> map lc (take 8 q) \<noteq> ''/engine/'')"

lemma engine_free_under:
  assumes sound: "sound w" and unused: "engine_free w"
  shows "tree w (under_owner s tail @ rest) = None" "\<not> some_below lc (tree w) (under_owner s tail)"
proof -
  have fold: "fold_ok lc" by (rule fold_law [OF sound])
  have engine: "prefix ''/engine/'' (under_owner s tail)" for s tail
    by (simp add: under_owner_def render_def owner_segments_def owner_pairs_def pair_segments_def Let_def)
  have "plain_name ''engine''" unfolding plain_name_def labels_def segment_ok_def by code_simp
  then have fixed: "map lc ''/engine/'' = ''/engine/''"
    using fold_ok_fixes [OF fold, of "''engine''"] fold by (simp add: fold_ok_def)
  have none: "tree w q = None" if "prefix (map lc ''/engine/'') (map lc q)" for q
  proof -
    have "take 8 (map lc q) = map lc ''/engine/''" using that by (auto simp: prefix_def)
    then show ?thesis using unused fixed unfolding engine_free_def by (metis take_map)
  qed
  show "tree w (under_owner s tail @ rest) = None"
    using engine [of s tail] by (intro none) (auto simp: prefix_def)
  show "\<not> some_below lc (tree w) (under_owner s tail)"
  proof
    assume "some_below lc (tree w) (under_owner s tail)"
    then obtain q where q: "tree w q \<noteq> None" "below lc (under_owner s tail) q" by (auto simp: some_below_def)
    obtain z where z: "under_owner s tail = ''/engine/'' @ z" using engine [of s tail] by (auto simp: prefix_def)
    define rest where "rest = map lc (drop (Suc (length (under_owner s tail))) q)"
    have "map lc q = map lc (take (Suc (length (under_owner s tail))) q) @ rest"
      unfolding rest_def by (metis append_take_drop_id map_append)
    then have "map lc q = map lc ''/engine/'' @ (map lc z @ map lc ''/'' @ rest)"
      using q(2) unfolding below_def z by (simp only: map_append append_assoc)
    then have "prefix (map lc ''/engine/'') (map lc q)" by (rule prefixI)
    then have "tree w q = None" by (rule none)
    then show False using q(1) by contradiction
  qed
qed

lemma engine_free_taken: "sound w \<Longrightarrow> engine_free w \<Longrightarrow> \<not> is_taken lc (tree w) (under_owner s tail)"
  using engine_free_under(1) [of w s tail "[]"] engine_free_under(2) [of w s tail] by (simp add: is_taken_def)

end

lemma ascii_fold_byte:
  "byte_of (ascii_fold c) = (if 65 \<le> byte_of c \<and> byte_of c \<le> 90 then byte_of c + 32 else byte_of c)"
  by (simp add: ascii_fold_def byte_of_def)

lemma ascii_fold_ok: "fold_ok ascii_fold"
proof -
  have "ascii_fold c = CHR ''/'' \<longleftrightarrow> c = CHR ''/''" for c
  proof -
    have "byte_of (ascii_fold c) = 47 \<longleftrightarrow> byte_of c = 47" by (simp add: ascii_fold_byte)
    then show ?thesis by (metis byte_of_inj byte_of_slash)
  qed
  moreover have "ascii_fold c = c" if "is_ascii_lowercase c \<or> c = CHR ''-''" for c
  proof -
    have "\<not> (65 \<le> byte_of c \<and> byte_of c \<le> 90)"
    proof (cases "c = CHR ''-''")
      case True
      have "byte_of (CHR ''-'') = 45" by (simp add: byte_of_def)
      then show ?thesis by (simp add: True)
    next
      case False
      then show ?thesis using that by (simp add: is_ascii_lowercase_def)
    qed
    then show ?thesis unfolding ascii_fold_def by (simp only: if_False)
  qed
  ultimately show ?thesis unfolding fold_ok_def by blast
qed

definition reliable_database :: "database \<Rightarrow> bool" where
  "reliable_database w \<longleftrightarrow> (\<forall>n. db_faults w n = None)"

lemma db_later: "virtual_path_ok p \<Longrightarrow> fs_run (database_filesystem d) c p w = (r, w') \<Longrightarrow> later w w'"
  using db_sound_all [of p d c] unfolding db_sound_def follows_def by blast

lemma known_dialects: "d \<in> {postgres_dialect, libsql_dialect} \<Longrightarrow> fold_ok (sq_fold d)"
proof -
  have "fold_ok id" by (simp add: fold_ok_def)
  then show "d \<in> {postgres_dialect, libsql_dialect} \<Longrightarrow> fold_ok (sq_fold d)"
    using ascii_fold_ok unfolding postgres_dialect_def libsql_dialect_def by auto
qed

definition sound_database :: "sql_dialect \<Rightarrow> database \<Rightarrow> bool" where
  "sound_database d w \<longleftrightarrow> fold_ok (sq_fold d) \<and> table_ok (db_entries w)"

definition database_tree :: "database \<Rightarrow> file_tree" where
  "database_tree w = tree_of (db_entries w)"

interpretation db: tree_filesystem "database_filesystem d" "sound_database d" database_tree "sq_fold d"
  reliable_database for d
proof
  show "fold_ok (sq_fold d)" if "sound_database d w" for w
    using that by (simp add: sound_database_def)
  show "finite (dom (database_tree w))" for w
    using finite_dom_map_of [of "db_entries w"]
    by (simp add: database_tree_def tree_of_def hm_get_def dom_def)
next
  fix w p c v w'
  assume "sound_database d w" "virtual_path_ok p" "fs_run (database_filesystem d) c p w = (v, w')"
  then show "sound_database d w' \<and> (reliable_database w \<longrightarrow> reliable_database w')
      \<and> ((v, database_tree w') = tree_step (sq_fold d) c p (database_tree w)
         \<or> \<not> reliable_database w \<and> backend_failure v \<and> database_tree w' = database_tree w)"
    using db_soundD [OF db_sound_all, of p d c w v w'] db_later [of p d c w v w']
    by (auto simp: sound_database_def database_tree_def reliable_database_def later_def
        fault_reported_def backend_failure_def)
qed

subsection \<open>A folder of records\<close>

text \<open>
  \<open>key\<close> is the key of the in-memory store; \<open>filed w m\<close>: the files of all owners' folders of this name
  are the records of the map \<open>m\<close>, and nothing else lies in these folders.
\<close>

locale record_store = tree_filesystem fs sound tree lc reliable
  for fs :: "'w root_filesystem" and sound tree lc reliable +
  fixes name :: string
    and codec :: "'r json_codec"
    and key :: "resource_scope \<Rightarrow> uuid \<Rightarrow> 'k"
    and scope_of :: "'r \<Rightarrow> resource_scope"
    and id_of :: "'r \<Rightarrow> uuid"
  assumes plain: "plain_name name"
    and key_eq: "key s i = key t j \<longleftrightarrow> same_scope_owner s t \<and> i = j"
begin

abbreviation file_of :: "resource_scope \<Rightarrow> uuid \<Rightarrow> virtual_path" where
  "file_of \<equiv> record_file name"

definition holds_record :: "tree_node option \<Rightarrow> 'r option \<Rightarrow> bool" where
  "holds_record n x \<longleftrightarrow> (case x of
       None \<Rightarrow> n = None
     | Some r \<Rightarrow> \<exists>b. n = Some (FileNode b) \<and> jc_de codec b = Inr r)"

definition filed :: "'w \<Rightarrow> ('k \<rightharpoonup> 'r) \<Rightarrow> bool" where
  "filed w m \<longleftrightarrow> sound w \<and> codec_ok codec
     \<and> (\<forall>k r. m k = Some r \<longrightarrow> k = key (scope_of r) (id_of r) \<and> owner_ok (scope_of r))
     \<and> (\<forall>s. owner_ok s \<longrightarrow> \<not> is_file (tree w (record_folder name s))
        \<and> (\<forall>q. tree w q \<noteq> None \<longrightarrow> prefix (record_folder name s @ ''/'') q \<longrightarrow> (\<exists>i. q = file_of s i))
        \<and> (\<forall>i. \<not> some_below lc (tree w) (file_of s i)
          \<and> holds_record (tree w (file_of s i)) (m (key s i))))"

lemma filed_cong: "filed w m \<Longrightarrow> sound w' \<Longrightarrow> tree w' = tree w \<Longrightarrow> filed w' m"
  unfolding filed_def by metis

lemma filed_owner:
  assumes "filed w m" "owner_ok s"
  shows "\<not> is_file (tree w (record_folder name s))" "\<not> some_below lc (tree w) (file_of s i)"
    and "\<And>q. tree w q \<noteq> None \<Longrightarrow> prefix (record_folder name s @ ''/'') q \<Longrightarrow> \<exists>i. q = file_of s i"
    and "holds_record (tree w (file_of s i)) (m (key s i))"
  using assms unfolding filed_def by blast+

lemma filed_key: "filed w m \<Longrightarrow> m (key s i) = Some r \<Longrightarrow> same_scope_owner s (scope_of r) \<and> id_of r = i \<and> owner_ok (scope_of r)"
  unfolding filed_def using key_eq by metis

lemma filed_sound: "filed w m \<Longrightarrow> sound w" "filed w m \<Longrightarrow> fold_ok lc"
  unfolding filed_def using fold_law by blast+

lemma file_ok: "owner_ok s \<Longrightarrow> virtual_path_ok (file_of s i)"
  using record_paths(2) [OF _ plain] .

lemma folder_not_file:
  assumes "owner_ok s" "owner_ok t" "plain_name n"
  shows "record_folder name s \<noteq> record_file n t i"
  unfolding record_folder_def record_file_def
  using under_owner_inj [OF assms(1,2) plain assms(3), of "[]" "[json_name i]"] by simp

text \<open>A change at one record file changes one entry; a change at a file of another folder none.\<close>

lemma filed_change:
  assumes w: "filed w m" and s: "owner_ok s" and sound: "sound w'"
    and change: "tree w' = (tree w)(file_of s i := v)"
    and entry: "holds_record v x"
    and own: "\<And>r. x = Some r \<Longrightarrow> key s i = key (scope_of r) (id_of r) \<and> owner_ok (scope_of r)"
  shows "filed w' (m(key s i := x))"
  unfolding filed_def
proof (intro conjI allI impI)
  show "sound w'" by (rule sound)
  show "codec_ok codec" using w by (simp add: filed_def)
next
  fix k r
  assume "(m(key s i := x)) k = Some r"
  then show "k = key (scope_of r) (id_of r)" "owner_ok (scope_of r)"
    using w own by (auto simp: filed_def split: if_splits)
next
  fix t
  assume t: "owner_ok t"
  show "\<not> is_file (tree w' (record_folder name t))"
    using filed_owner(1) [OF w t] folder_not_file [OF t s plain] by (simp add: change)
  show "\<exists>j. q = file_of t j" if q: "tree w' q \<noteq> None" and pre: "prefix (record_folder name t @ ''/'') q" for q
  proof (cases "q = file_of s i")
    case True
    then obtain n where "file_of s i = record_folder name t @ ''/'' @ n" using pre by (auto simp: prefix_def)
    then have "same_scope_owner t s" using record_folder_inj [OF t s plain] by blast
    then have "q = file_of t i" using True record_file_inj [OF s t plain plain, of i i] by (simp add: same_scope_owner_sym)
    then show ?thesis ..
  next
    case False
    then show ?thesis using q pre filed_owner(3) [OF w t] by (simp add: change)
  qed
  fix j
  show "\<not> some_below lc (tree w') (file_of t j)"
    using filed_owner(2) [OF w t, of j] record_file_flat [OF filed_sound(2) [OF w] t s plain, of j i]
    by (auto simp: some_below_def change split: if_splits)
  have same: "file_of t j = file_of s i \<longleftrightarrow> key t j = key s i"
    using record_file_inj [OF t s plain plain] key_eq by simp
  show "holds_record (tree w' (file_of t j)) ((m(key s i := x)) (key t j))"
  proof (cases "key t j = key s i")
    case True
    then show ?thesis using entry same by (simp add: change)
  next
    case False
    then show ?thesis using filed_owner(4) [OF w t, of j] same by (simp add: change)
  qed
qed

lemma filed_other:
  assumes w: "filed w m" and s: "owner_ok s" and sound: "sound w'"
    and other: "plain_name n" "n \<noteq> name" and tail: "\<forall>x \<in> set tail. segment_ok x"
    and change: "tree w' = (tree w)(under_owner s (n # tail) := v)"
  shows "filed w' m"
proof -
  have differ: "file_of t j \<noteq> under_owner s (n # tail)" "record_folder name t \<noteq> under_owner s (n # tail)"
    "\<not> below lc (file_of t j) (under_owner s (n # tail))" if t: "owner_ok t" for t j
    using under_owner_inj [OF t s plain other(1), of "[json_name j]" tail]
      under_owner_inj [OF t s plain other(1), of "[]" tail]
      under_owner_flat [OF filed_sound(2) [OF w] t s plain other(1), of "[json_name j]" tail] other(2) tail
    by (auto simp: record_file_def record_folder_def)
  have outside: "\<not> prefix (record_folder name t @ ''/'') (under_owner s (n # tail))" if t: "owner_ok t" for t
  proof
    assume "prefix (record_folder name t @ ''/'') (under_owner s (n # tail))"
    then have "below id (record_folder name t) (under_owner s (n # tail))" by (simp add: below_id)
    moreover have "fold_ok id" by (simp add: fold_ok_def)
    ultimately show False
      using under_owner_flat [of id t s name n "[]" tail] t s plain other tail
      by (auto simp: record_folder_def)
  qed
  show ?thesis
    using w sound differ outside unfolding filed_def change some_below_def
    by (auto simp: change split: if_splits)
qed

end

context record_store begin

text \<open>Each operation answers from the map, or fails because the filesystem did and changes nothing.\<close>

definition io_failed :: "(filesystem_error \<Rightarrow> 'e) \<Rightarrow> 'w \<Rightarrow> ('e, 'a) result \<Rightarrow> bool" where
  "io_failed err w r \<longleftrightarrow> \<not> reliable w \<and> (\<exists>e. r = Inl (err e))"

text \<open>At most one record file of this folder changes, and a reliable filesystem stays so.\<close>

definition kept :: "'w \<Rightarrow> 'w \<Rightarrow> bool" where
  "kept w w' \<longleftrightarrow> (reliable w \<longrightarrow> reliable w')
     \<and> (tree w' = tree w \<or> (\<exists>s i v. owner_ok s \<and> tree w' = (tree w)(file_of s i := v)))"

lemma kept_same: "(reliable w \<longrightarrow> reliable w') \<Longrightarrow> tree w' = tree w \<Longrightarrow> kept w w'"
  by (simp add: kept_def)

lemma kept_change:
  "(reliable w \<longrightarrow> reliable w') \<Longrightarrow> owner_ok s \<Longrightarrow> tree w' = (tree w)(file_of s i := v) \<Longrightarrow> kept w w'"
  unfolding kept_def by blast

lemma kept_reliable: "kept w w' \<Longrightarrow> reliable w \<Longrightarrow> reliable w'"
  by (simp add: kept_def)

lemma kept_trans: "tree w1 = tree w \<Longrightarrow> kept w w1 \<Longrightarrow> kept w1 w2 \<Longrightarrow> kept w w2"
  by (simp add: kept_def)

lemma read_filed:
  assumes w: "filed w m" and s: "owner_ok s" and run: "read_bytes fs err (file_of s i) w = (r, w')"
  shows "filed w' m \<and> tree w' = tree w \<and> kept w w'
    \<and> ((\<exists>n. r = Inr n \<and> holds_record (map_option FileNode n) (m (key s i))) \<or> io_failed err w r)"
proof -
  obtain v where v: "fs_read_file fs (file_of s i) w = (v, w')"
    using run by (auto simp: read_bytes_def split: prod.splits sum.splits if_splits)
  note law = read_law [OF filed_sound(1) [OF w] file_ok [OF s] v]
  have r: "r = (case v of Inr b \<Rightarrow> Inr (Some b) | Inl e \<Rightarrow> if is_fs_not_found e then Inr None else Inl (err e))"
    using run v by (auto simp: read_bytes_def split: sum.splits if_splits)
  have "filed w' m" using law filed_cong [OF w] by blast
  moreover have "(\<exists>n. r = Inr n \<and> holds_record (map_option FileNode n) (m (key s i))) \<or> io_failed err w r"
  proof (cases "\<not> reliable w \<and> backend_failure v")
    case True
    then show ?thesis by (auto simp: r backend_failure_def io_failed_def)
  next
    case False
    then show ?thesis using law filed_owner(4) [OF w s, of i]
      by (auto simp: r holds_record_def split: option.splits)
  qed
  ultimately show ?thesis using law by (simp add: kept_def)
qed

lemma lookup_filed:
  assumes w: "filed w m" and s: "owner_ok s"
    and de: "\<And>b x. jc_de codec b = Inr x \<Longrightarrow> id_of x = i \<Longrightarrow> de b = Inr x"
    and run: "owned_lookup fs err de scope_of (file_of s i) s w = (r, w')"
  shows "filed w' m \<and> tree w' = tree w \<and> kept w w' \<and> (r = Inr (m (key s i)) \<or> io_failed err w r)"
proof -
  obtain v w1 where v: "read_bytes fs err (file_of s i) w = (v, w1)" by fastforce
  note law = read_filed [OF w s v]
  have own: "same_scope_owner (scope_of x) s \<and> id_of x = i" if "m (key s i) = Some x" for x
    using filed_key [OF w that] by (simp add: same_scope_owner_sym)
  show ?thesis
  proof (cases "io_failed err w v")
    case True
    then show ?thesis
      using run v law by (auto simp: owned_lookup_def read_json_def op_defs io_failed_def)
  next
    case False
    then obtain n where n: "v = Inr n" "holds_record (map_option FileNode n) (m (key s i))" using law by blast
    show ?thesis
    proof (cases "m (key s i)")
      case None
      then show ?thesis
        using n run v law by (auto simp: owned_lookup_def read_json_def op_defs holds_record_def)
    next
      case (Some x)
      then obtain b where b: "n = Some b" "de b = Inr x"
        using n(2) de own [OF Some] by (auto simp: holds_record_def)
      then show ?thesis
        using n(1) Some own [OF Some] run v law
        by (auto simp: owned_lookup_def read_json_def op_defs try_result_def)
    qed
  qed
qed

lemma write_json_filed:
  assumes w: "filed w m" and s: "owner_ok (scope_of x)"
    and run: "write_json fs err (\<lambda>r. map_err serr (jc_ser codec r)) (file_of (scope_of x) (id_of x)) x w = (r, w')"
  shows "kept w w' \<and> (r = Inr () \<and> filed w' (m(key (scope_of x) (id_of x) \<mapsto> x))
        \<and> (\<exists>b. tree w' = (tree w)(file_of (scope_of x) (id_of x) \<mapsto> FileNode b))
      \<or> (io_failed err w r \<or> (\<exists>e. jc_ser codec x = Inl e \<and> r = Inl (serr e))) \<and> filed w' m \<and> tree w' = tree w)"
proof (cases "jc_ser codec x")
  case (Inl e)
  then show ?thesis using run w by (auto simp: write_json_def try_result_def op_defs kept_def)
next
  case (Inr b)
  let ?p = "file_of (scope_of x) (id_of x)"
  obtain v where v: "fs_write_file fs ?p b w = (v, w')" and r: "r = map_err err v"
    using run Inr by (auto simp: write_json_def try_result_def op_defs apfst_def map_prod_def split: prod.splits)
  have free: "\<not> is_taken lc (tree w) ?p"
    using filed_owner(2,4) [OF w s, of "id_of x"] by (auto simp: is_taken_def holds_record_def split: option.splits)
  note law = write_law [OF filed_sound(1) [OF w] file_ok [OF s] v free]
  have "jc_de codec b = Inr x" using w Inr by (auto simp: filed_def codec_ok_def)
  then have "filed w' (m(key (scope_of x) (id_of x) \<mapsto> x))" if "tree w' = (tree w)(?p \<mapsto> FileNode b)"
    using law filed_change [OF w s _ that, of "Some x"] s by (simp add: holds_record_def)
  then show ?thesis
    using law filed_cong [OF w] s kept_same [of w w'] kept_change [of w w' "scope_of x" "id_of x"]
    by (auto simp: r io_failed_def backend_failure_def)
qed

lemma delete_filed:
  assumes w: "filed w m" and s: "owner_ok s" and present: "m (key s i) = Some x"
    and run: "map_err_op err (fs_delete fs (file_of s i)) w = (r, w')"
  shows "kept w w' \<and> (r = Inr () \<and> filed w' (m(key s i := None)) \<and> tree w' = (tree w)(file_of s i := None)
      \<or> io_failed err w r \<and> filed w' m \<and> tree w' = tree w)"
proof -
  obtain v where v: "fs_delete fs (file_of s i) w = (v, w')" and r: "r = map_err err v"
    using run by (auto simp: op_defs apfst_def map_prod_def split: prod.splits)
  have there: "tree w (file_of s i) \<noteq> None"
    using filed_owner(4) [OF w s, of i] present by (auto simp: holds_record_def)
  note law = delete_law [OF filed_sound(1) [OF w] file_ok [OF s] v there filed_owner(2) [OF w s]]
  have "filed w' (m(key s i := None))" if "tree w' = (tree w)(file_of s i := None)"
    using law filed_change [OF w s _ that, of None] by (simp add: holds_record_def)
  then show ?thesis
    using law filed_cong [OF w] s kept_same [of w w'] kept_change [of w w' s i]
    by (auto simp: r io_failed_def backend_failure_def)
qed

lemma folder_children:
  assumes w: "filed w m" and s: "owner_ok s"
  shows "child_names (tree w) (record_folder name s) = json_name ` {i. m (key s i) \<noteq> None}"
    and "finite {i. m (key s i) \<noteq> None}"
proof -
  have present: "tree w (file_of s i) \<noteq> None \<longleftrightarrow> m (key s i) \<noteq> None" for i
    using filed_owner(4) [OF w s, of i] by (auto simp: holds_record_def split: option.splits)
  have name: "CHR ''/'' \<notin> set (json_name i)" "json_name i \<noteq> []" for i
    using json_name_ok(1) [of i] by (simp_all add: segment_ok_def)
  have "n \<in> child_names (tree w) (record_folder name s) \<longleftrightarrow> (\<exists>i. n = json_name i \<and> m (key s i) \<noteq> None)" for n
  proof
    assume n: "n \<in> child_names (tree w) (record_folder name s)"
    then obtain q where q: "tree w q \<noteq> None" "q = record_folder name s @ ''/'' @ n
        \<or> prefix (record_folder name s @ ''/'' @ n @ ''/'') q"
      by (auto simp: child_names_def)
    then obtain z where z: "q = record_folder name s @ ''/'' @ n @ z" "z = [] \<or> CHR ''/'' \<in> set z"
      by (auto simp: prefix_def)
    then have "prefix (record_folder name s @ ''/'') q" by (simp add: prefix_def)
    then obtain i where i: "q = file_of s i" using filed_owner(3) [OF w s q(1)] by blast
    then have "n @ z = json_name i" using z(1) by (simp add: record_file_folder)
    then have "n = json_name i" using z(2) name(1) [of i] by (metis UnCI append_Nil2 set_append)
    then show "\<exists>i. n = json_name i \<and> m (key s i) \<noteq> None" using present [of i] q(1) i by blast
  next
    assume "\<exists>i. n = json_name i \<and> m (key s i) \<noteq> None"
    then obtain i where i: "n = json_name i" "tree w (file_of s i) \<noteq> None" using present by blast
    then show "n \<in> child_names (tree w) (record_folder name s)"
      using name [of i] unfolding child_names_def record_file_folder by simp blast
  qed
  then show "child_names (tree w) (record_folder name s) = json_name ` {i. m (key s i) \<noteq> None}" by blast
  have "file_of s ` {i. m (key s i) \<noteq> None} \<subseteq> dom (tree w)" using present by auto
  moreover have "inj (file_of s)" using record_file_inj [OF s s plain plain] by (auto simp: inj_def)
  ultimately show "finite {i. m (key s i) \<noteq> None}"
    using finite_law [OF filed_sound(1) [OF w]] finite_subset inj_on_subset finite_imageD
    by (metis subset_UNIV)
qed

lemma read_listed_filed:
  assumes s: "owner_ok s" and keep: "\<And>r. same_scope_owner s (scope_of r) \<Longrightarrow> keep r"
    and entry: "inj entry" "\<And>i. de_name (entry i) = json_name i" "\<And>i. de_path (entry i) = file_of s i"
  shows "filed w m \<Longrightarrow> \<forall>e \<in> set es. \<exists>i. e = entry i \<and> m (key s i) \<noteq> None \<Longrightarrow>
    read_listed fs err (\<lambda>b. map_err derr (jc_de codec b)) skips keep es w = (r, w') \<Longrightarrow>
    filed w' m \<and> tree w' = tree w \<and> kept w w'
      \<and> (r = Inr (map (\<lambda>e. the (m (key s (the_inv entry e)))) es) \<or> io_failed err w r)"
proof (induction es arbitrary: w r w')
  case Nil
  then show ?case by (auto simp: op_defs kept_def)
next
  case (Cons e es)
  obtain i x where e: "e = entry i" "m (key s i) = Some x" using Cons.prems(2) by auto
  have "keep x" using filed_key [OF Cons.prems(1) e(2)] keep by blast
  let ?read = "if skips then read_bytes fs err (file_of s i)
    else map_err_op err (bind_op (fs_read_file fs (file_of s i)) (\<lambda>b. return_op (Some b)))"
  let ?rest = "read_listed fs err (\<lambda>b. map_err derr (jc_de codec b)) skips keep es"
  let ?then = "\<lambda>bytes. case bytes of None \<Rightarrow> ?rest
    | Some b \<Rightarrow> try_result (map_err derr (jc_de codec b)) (\<lambda>r.
        bind_op ?rest (\<lambda>rs. return_op (if keep r then r # rs else rs)))"
  have run: "bind_op ?read ?then w = (r, w')"
    using Cons.prems(3) json_name_ok(2) [of i] unfolding e(1) read_listed.simps entry(2,3) by simp
  obtain v w1 where v: "?read w = (v, w1)" by fastforce
  obtain v' w2 where rb: "read_bytes fs err (file_of s i) w = (v', w2)" by fastforce
  have v': "read_bytes fs err (file_of s i) w = (v', w1)" "\<And>b. v' = Inr (Some b) \<Longrightarrow> v = v'"
    "\<And>z. v' = Inl z \<Longrightarrow> v = v'"
    using v rb by (auto simp: read_bytes_def op_defs apfst_def map_prod_def e(1) entry
        split: if_splits prod.splits sum.splits)
  note law = read_filed [OF Cons.prems(1) s v'(1)]
  show ?case
  proof (cases "io_failed err w v'")
    case True
    then obtain z where "v = Inl (err z)" using v'(3) by (auto simp: io_failed_def)
    then have "r = Inl (err z) \<and> w' = w1"
      using run unfolding bind_op_def [of ?read] v by simp
    then show ?thesis using law True by (auto simp: io_failed_def)
  next
    case False
    then obtain b where b: "v' = Inr (Some b)" "jc_de codec b = Inr x"
      using law e(2) by (auto simp: holds_record_def)
    obtain v2 w2 where v2: "?rest w1 = (v2, w2)" by fastforce
    have "filed w1 m" "\<forall>e \<in> set es. \<exists>i. e = entry i \<and> m (key s i) \<noteq> None"
      using law Cons.prems(2) by simp_all
    note IH = Cons.IH [OF this v2]
    have "w' = w2" "r = (case v2 of Inl z \<Rightarrow> Inl z | Inr rs \<Rightarrow> Inr (x # rs))"
      using run v'(2) [OF b(1)] b v2 \<open>keep x\<close> unfolding bind_op_def [of ?read] v
      by (auto simp: op_defs try_result_def split: sum.splits)
    then show ?thesis
      using IH law by (auto simp: io_failed_def kept_def e the_inv_f_f [OF entry(1)])
  qed
qed

lemma list_filed:
  assumes w: "filed w m" and s: "owner_ok s"
    and keep: "\<And>r. same_scope_owner s (scope_of r) \<Longrightarrow> keep r"
    and run: "bind_op (list_entries fs err (record_folder name s))
      (read_listed fs err (\<lambda>b. map_err derr (jc_de codec b)) skips keep) w = (r, w')"
  shows "filed w' m \<and> tree w' = tree w \<and> kept w w'
    \<and> ((\<exists>rs. r = Inr rs \<and> distinct (map id_of rs) \<and> set rs = {x. \<exists>i. m (key s i) = Some x})
       \<or> io_failed err w r)"
proof -
  let ?root = "record_folder name s" let ?ids = "{i. m (key s i) \<noteq> None}"
  let ?entry = "\<lambda>i. child_entry (tree w) ?root (json_name i)"
  let ?es = "map (child_entry (tree w) ?root) (sorted_list_of_set (child_names (tree w) ?root))"
  obtain v w1 where v: "fs_list_dir fs ?root w = (v, w1)" by fastforce
  note law = list_law [OF filed_sound(1) [OF w] record_paths(1) [OF s plain] v filed_owner(1) [OF w s]]
  have w1: "filed w1 m" using law filed_cong [OF w] by blast
  have entry: "inj ?entry" "de_name (?entry i) = json_name i" "de_path (?entry i) = file_of s i" for i
    by (auto simp: inj_def child_entry_def record_file_folder)
  have names: "set (sorted_list_of_set (child_names (tree w) ?root)) = json_name ` ?ids"
    using folder_children [OF w s] by simp
  have "set ?es = child_entry (tree w) ?root ` set (sorted_list_of_set (child_names (tree w) ?root))" by simp
  also have "\<dots> = ?entry ` ?ids" unfolding names image_image by simp
  finally have es: "set ?es = ?entry ` ?ids" .
  have "inj_on (child_entry (tree w) ?root) A" for A by (auto simp: inj_on_def child_entry_def)
  then have dist: "distinct ?es" by (simp add: distinct_map)
  show ?thesis
  proof (cases "\<not> reliable w \<and> backend_failure v")
    case True
    then show ?thesis
      using run law w1
      by (auto simp: bind_op_def list_entries_def v backend_failure_def io_failed_def kept_def)
  next
    case False
    have listed: "list_entries fs err ?root w = (Inr ?es, w1)"
      using law False by (auto simp: list_entries_def v split: if_splits)
    have rest: "read_listed fs err (\<lambda>b. map_err derr (jc_de codec b)) skips keep ?es w1 = (r, w')"
      using run unfolding bind_op_def listed by simp
    have all: "\<forall>e \<in> set ?es. \<exists>i. e = ?entry i \<and> m (key s i) \<noteq> None" unfolding es by blast
    let ?rs = "map (\<lambda>e. the (m (key s (the_inv ?entry e)))) ?es"
    note done_reading = read_listed_filed [OF s keep entry w1 all rest]
    have rec: "m (key s i) = Some x \<Longrightarrow> id_of x = i" for i x using filed_key [OF w] by blast
    have inv: "the_inv ?entry (?entry i) = i" for i by (rule the_inv_f_f [OF entry(1)])
    have "set ?rs = (\<lambda>i. the (m (key s i))) ` ?ids"
      unfolding set_map [of _ ?es] es image_image inv by simp
    also have "\<dots> = {x. \<exists>i. m (key s i) = Some x}" by force
    finally have set: "set ?rs = {x. \<exists>i. m (key s i) = Some x}" .
    have "inj_on (\<lambda>e. id_of (the (m (key s (the_inv ?entry e))))) (?entry ` ?ids)"
    proof (rule inj_onI)
      fix a b
      assume "a \<in> ?entry ` ?ids" "b \<in> ?entry ` ?ids"
      then obtain i j where ij: "a = ?entry i" "b = ?entry j" "m (key s i) \<noteq> None" "m (key s j) \<noteq> None"
        by blast
      assume "id_of (the (m (key s (the_inv ?entry a)))) = id_of (the (m (key s (the_inv ?entry b))))"
      then have "i = j" unfolding ij inv using ij(3,4) rec by auto
      then show "a = b" by (simp add: ij)
    qed
    then have "distinct (map id_of ?rs)"
      using dist unfolding es [symmetric] by (simp add: distinct_map comp_def inj_on_def)
    then show ?thesis
      using done_reading law set by (auto simp: kept_def io_failed_def)
  qed
qed

text \<open>The same against the in-memory store, a hash map keyed by its records.\<close>

definition related :: "'w \<Rightarrow> ('k, 'r) hash_map \<Rightarrow> bool" where
  "related w mm \<longleftrightarrow> filed w (\<lambda>k. hm_get k mm) \<and> hm_keyed (\<lambda>r. key (scope_of r) (id_of r)) mm"

lemma related_key:
  "related w mm \<Longrightarrow> hm_get (key s i) mm = Some x \<Longrightarrow>
     key (scope_of x) (id_of x) = key s i \<and> owner_ok (scope_of x) \<and> id_of x = i"
  using filed_key [of w "\<lambda>k. hm_get k mm" s i x] by (auto simp: related_def key_eq same_scope_owner_sym)

lemma lookup_related:
  assumes w: "related w mm" and s: "owner_ok s"
    and de: "\<And>b x. jc_de codec b = Inr x \<Longrightarrow> id_of x = i \<Longrightarrow> de b = Inr x"
    and run: "owned_lookup fs err de scope_of (file_of s i) s w = (r, w')"
  shows "related w' mm \<and> tree w' = tree w \<and> kept w w' \<and> (r = Inr (hm_get (key s i) mm) \<or> io_failed err w r)"
  using lookup_filed [OF _ s de run] w by (auto simp: related_def)

lemma write_related:
  assumes w: "related w mm" and s: "owner_ok (scope_of x)"
    and run: "write_json fs err (\<lambda>r. map_err serr (jc_ser codec r)) (file_of (scope_of x) (id_of x)) x w = (r, w')"
  shows "kept w w' \<and> (r = Inr () \<and> related w' (hm_insert (key (scope_of x) (id_of x)) x mm)
    \<or> (io_failed err w r \<or> (\<exists>e. jc_ser codec x = Inl e \<and> r = Inl (serr e))) \<and> related w' mm)"
  using write_json_filed [OF _ s run, of "\<lambda>k. hm_get k mm"] w
  by (auto simp: related_def fun_upd_def hm_keyed_insert)

lemma delete_related:
  assumes w: "related w mm" and s: "owner_ok s" and present: "hm_get (key s i) mm = Some x"
    and run: "map_err_op err (fs_delete fs (file_of s i)) w = (r, w')"
  shows "kept w w' \<and> (r = Inr () \<and> related w' (hm_remove (key s i) mm) \<or> io_failed err w r \<and> related w' mm)"
  using delete_filed [OF _ s _ run, of "\<lambda>k. hm_get k mm" x] w present
  by (auto simp: related_def fun_upd_def hm_keyed_remove)

lemma records_related:
  assumes w: "related w mm" and s: "owner_ok s"
    and run: "owned_records fs err (\<lambda>b. map_err derr (jc_de codec b)) skips scope_of id_of
      (record_folder name s) s w = (r, w')"
  shows "related w' mm \<and> kept w w'
    \<and> (r = Inr (sort_key id_of (filter (\<lambda>r. same_scope_owner (scope_of r) s) (hm_values mm))) \<or> io_failed err w r)"
proof -
  let ?m = "\<lambda>k. hm_get k mm" let ?p = "\<lambda>r. same_scope_owner (scope_of r) s"
  have filed: "filed w ?m" and keys: "hm_keyed (\<lambda>r. key (scope_of r) (id_of r)) mm"
    using w by (simp_all add: related_def)
  let ?list = "bind_op (list_entries fs err (record_folder name s))
      (read_listed fs err (\<lambda>b. map_err derr (jc_de codec b)) skips ?p)"
  obtain v where v: "?list w = (v, w')" and r: "r = (case v of Inl e \<Rightarrow> Inl e | Inr rs \<Rightarrow> Inr (sort_key id_of rs))"
    using run unfolding owned_records_def
    by (auto simp: bind_op_def [of ?list] return_op_def split: prod.splits sum.splits)
  have "same_scope_owner s (scope_of x) \<Longrightarrow> ?p x" for x by (simp add: same_scope_owner_sym)
  note law = list_filed [OF filed s this v]
  show ?thesis
  proof (cases "io_failed err w v")
    case True
    then show ?thesis using law keys by (auto simp: r io_failed_def related_def)
  next
    case False
    then obtain rs where rs: "v = Inr rs" "distinct (map id_of rs)"
      "set rs = {x. \<exists>i. hm_get (key s i) mm = Some x}"
      using law by auto
    let ?rs = "filter ?p (hm_values mm)"
    have dist: "distinct (map id_of ?rs)"
      by (rule hm_keyed_filter_distinct [OF keys])
        (metis key_eq same_scope_owner_sym same_scope_owner_trans)
    have "x \<in> set ?rs \<longleftrightarrow> (\<exists>i. hm_get (key s i) mm = Some x)" for x
    proof -
      have "x \<in> set ?rs \<longleftrightarrow> hm_get (key (scope_of x) (id_of x)) mm = Some x \<and> ?p x"
        unfolding hm_keyed_filter_set [OF keys] by simp
      also have "\<dots> \<longleftrightarrow> (\<exists>i. hm_get (key s i) mm = Some x)"
        using filed_key [OF filed] key_eq by (metis same_scope_owner_sym)
      finally show ?thesis .
    qed
    then have "set ?rs = set rs" unfolding rs(3) by blast
    then have "sort_key id_of rs = sort_key id_of ?rs"
      using rs(2) dist
      by (intro map_sorted_distinct_set_unique [of id_of]) (auto simp: distinct_map inj_on_def)
    then show ?thesis using law keys by (simp add: r rs(1) related_def)
  qed
qed

text \<open>A step of the store: a failure that leaves the map, or the reply and map of the in-memory store.\<close>

definition dependable :: "'w \<Rightarrow> bool" where
  "dependable w \<longleftrightarrow> reliable w \<and> (\<forall>r. \<not> is_err (jc_ser codec r))"

definition answers ::
    "('e \<Rightarrow> bool) \<Rightarrow> 'w \<Rightarrow> ('k, 'r) hash_map \<Rightarrow> ('e, 'a) result \<times> 'w \<Rightarrow> ('e, 'a) result \<times> ('k, 'r) hash_map \<Rightarrow> bool" where
  "answers bad w mm rw rm \<longleftrightarrow> kept w (snd rw)
     \<and> ((\<exists>e. fst rw = Inl e \<and> bad e) \<and> \<not> dependable w \<and> related (snd rw) mm
        \<or> \<not> (\<exists>e. fst rw = Inl e \<and> bad e) \<and> fst rm = fst rw \<and> related (snd rw) (snd rm))"

lemma kept_refl [simp]: "kept w w"
  by (simp add: kept_def)

lemma kept_dependable: "kept w w' \<Longrightarrow> \<not> dependable w' \<Longrightarrow> \<not> dependable w"
  by (auto simp: kept_def dependable_def)

lemma answers_const:
  assumes "related w mm"
  shows "answers bad w mm (return_op x w) (Inr x, mm)"
    and "\<not> bad e \<Longrightarrow> answers bad w mm (fail_op e w) (Inl e, mm)"
  using assms by (simp_all add: answers_def op_defs)

lemma answers_lookup:
  assumes w: "related w mm" and s: "owner_ok s" and bad: "\<And>e. bad (err e)"
    and de: "\<And>b x. jc_de codec b = Inr x \<Longrightarrow> id_of x = i \<Longrightarrow> de b = Inr x"
    and rest: "\<And>w'. related w' mm \<Longrightarrow> answers bad w' mm (k (hm_get (key s i) mm) w') rm"
  shows "answers bad w mm (bind_op (owned_lookup fs err de scope_of (file_of s i) s) k w) rm"
proof -
  obtain r w' where v: "owned_lookup fs err de scope_of (file_of s i) s w = (r, w')" by fastforce
  note law = lookup_related [OF w s de v]
  show ?thesis
  proof (cases "io_failed err w r")
    case True
    then show ?thesis
      using law bad unfolding bind_op_def v by (auto simp: answers_def io_failed_def dependable_def)
  next
    case False
    then have r: "r = Inr (hm_get (key s i) mm)" using law by simp
    show ?thesis
      using rest [of w'] law kept_dependable [of w w'] kept_trans [of w' w]
      unfolding bind_op_def v r by (auto simp: answers_def)
  qed
qed

lemma answers_exists:
  assumes w: "related w mm" and s: "owner_ok s" and bad: "\<And>e. bad (err e)"
    and rest: "\<And>w' n. related w' mm \<Longrightarrow> (n = None \<longleftrightarrow> hm_get (key s i) mm = None) \<Longrightarrow> answers bad w' mm (k n w') rm"
  shows "answers bad w mm (bind_op (read_bytes fs err (file_of s i)) k w) rm"
proof -
  obtain r w' where v: "read_bytes fs err (file_of s i) w = (r, w')" by fastforce
  have "filed w (\<lambda>k. hm_get k mm)" using w by (simp add: related_def)
  note law = read_filed [OF this s v]
  then have related: "related w' mm" using w by (simp add: related_def)
  show ?thesis
  proof (cases "io_failed err w r")
    case True
    then show ?thesis
      using law bad related unfolding bind_op_def v by (auto simp: answers_def io_failed_def dependable_def)
  next
    case False
    then obtain n where n: "r = Inr n" "holds_record (map_option FileNode n) (hm_get (key s i) mm)" using law by blast
    then have "n = None \<longleftrightarrow> hm_get (key s i) mm = None" by (auto simp: holds_record_def split: option.splits)
    then show ?thesis
      using rest [OF related, of n] law kept_dependable [of w w'] kept_trans [of w' w]
      unfolding bind_op_def v n(1) by (auto simp: answers_def)
  qed
qed

lemma answers_write:
  assumes w: "related w mm" and s: "owner_ok (scope_of x)" and bad: "\<And>e. bad (err e)" "\<And>e. bad (serr e)"
  shows "answers bad w mm
    (bind_op (write_json fs err (\<lambda>r. map_err serr (jc_ser codec r)) (file_of (scope_of x) (id_of x)) x)
       (\<lambda>_. return_op y) w)
    (Inr y, hm_insert (key (scope_of x) (id_of x)) x mm)"
proof -
  obtain r w' where v: "write_json fs err (\<lambda>r. map_err serr (jc_ser codec r))
      (file_of (scope_of x) (id_of x)) x w = (r, w')" by fastforce
  have "\<not> (\<forall>r. \<not> is_err (jc_ser codec r))" if "jc_ser codec x = Inl e" for e
    using that by (metis is_err_simps(1))
  then show ?thesis
    using write_related [OF w s v] bad unfolding bind_op_def v
    by (auto simp: answers_def io_failed_def dependable_def return_op_def)
qed

lemma answers_delete:
  assumes w: "related w mm" and s: "owner_ok s" and present: "hm_get (key s i) mm = Some x"
    and bad: "\<And>e. bad (err e)"
  shows "answers bad w mm (bind_op (map_err_op err (fs_delete fs (file_of s i))) (\<lambda>_. return_op y) w)
    (Inr y, hm_remove (key s i) mm)"
proof -
  obtain r w' where v: "map_err_op err (fs_delete fs (file_of s i)) w = (r, w')" by fastforce
  show ?thesis
    using delete_related [OF w s present v] bad unfolding bind_op_def v
    by (auto simp: answers_def io_failed_def dependable_def return_op_def)
qed

lemma answers_records:
  assumes w: "related w mm" and s: "owner_ok s" and bad: "\<And>e. bad (err e)"
  shows "answers bad w mm
    (owned_records fs err (\<lambda>b. map_err derr (jc_de codec b)) skips scope_of id_of (record_folder name s) s w)
    (Inr (sort_key id_of (filter (\<lambda>r. same_scope_owner (scope_of r) s) (hm_values mm))), mm)"
proof -
  obtain r w' where v: "owned_records fs err (\<lambda>b. map_err derr (jc_de codec b)) skips scope_of id_of
      (record_folder name s) s w = (r, w')" by fastforce
  show ?thesis
    using records_related [OF w s v] bad unfolding v
    by (auto simp: answers_def io_failed_def dependable_def)
qed

lemma answers_reply:
  assumes "answers bad w mm m rm" "apfst wrap m = (r, w')"
    and "step' = apfst wrap rm" "\<And>x. failure (wrap x) \<longleftrightarrow> (\<exists>e. x = Inl e \<and> bad e)"
  shows "kept w w' \<and> (failure r \<and> \<not> dependable w \<and> related w' mm
    \<or> \<not> failure r \<and> (\<exists>mm'. step' = (r, mm') \<and> related w' mm'))"
  using assms by (cases m; cases rm) (auto simp: answers_def)

text \<open>A change of another store's folder does not matter.\<close>

lemma related_other_path:
  assumes "related w mm" "owner_ok s" "sound w'" "plain_name n" "n \<noteq> name" "\<forall>x \<in> set tail. segment_ok x"
    and "tree w' = (tree w)(under_owner s (n # tail) := v)"
  shows "related w' mm"
  using assms filed_other [of w "\<lambda>k. hm_get k mm" s w' n tail v] unfolding related_def by blast

lemma related_other:
  assumes "related w mm" "sound w'" "plain_name n" "n \<noteq> name"
    and "tree w' = tree w \<or> (\<exists>s i v. owner_ok s \<and> tree w' = (tree w)(record_file n s i := v))"
  shows "related w' mm"
proof -
  have tail: "\<forall>x \<in> set [json_name i]. segment_ok x" for i by simp
  show ?thesis
    using assms related_other_path [OF assms(1) _ assms(2-4) tail] filed_cong [of w "\<lambda>k. hm_get k mm" w']
    unfolding related_def record_file_def by blast
qed

lemma related_empty:
  assumes "sound w" "codec_ok codec" "engine_free w"
  shows "related w []"
proof -
  note under = engine_free_under [OF assms(1,3)]
  have "tree w (record_file name s i) = None" "\<not> is_file (tree w (record_folder name s))" for s i
    using under(1) [of s "[name, json_name i]" "[]"] under(1) [of s "[name]" "[]"]
    by (simp_all add: record_file_def record_folder_def is_file_def)
  moreover have "\<not> prefix (record_folder name s @ ''/'') q" if "tree w q \<noteq> None" for s q
    using that under(1) [of s "[name]"] by (auto simp: prefix_def record_folder_def)
  ultimately show ?thesis
    using assms under(2) by (auto simp: related_def filed_def holds_record_def record_file_def)
qed

end

subsection \<open>A codec for finitely many records\<close>

definition listed_codec :: "'r list \<Rightarrow> 'r json_codec" where
  "listed_codec L = \<lparr>
     jc_ser = (\<lambda>r. if r \<in> set L then Inr (replicate (length (takeWhile (\<lambda>x. x \<noteq> r) L)) CHR ''x'')
       else Inl ''unknown record''),
     jc_de = (\<lambda>b. if length b < length L then Inr (L ! length b) else Inl ''bad bytes'')\<rparr>"

lemma listed_codec_ok: "codec_ok (listed_codec L)"
proof -
  have "length (takeWhile (\<lambda>x. x \<noteq> r) L) < length L \<and> L ! length (takeWhile (\<lambda>x. x \<noteq> r) L) = r"
    if "r \<in> set L" for r
    using that by (induction L) auto
  then show ?thesis by (auto simp: codec_ok_def listed_codec_def)
qed

subsection \<open>Databases without records\<close>

definition total_codec :: "'r json_codec \<Rightarrow> bool" where
  "total_codec c \<longleftrightarrow> (\<forall>r. \<not> is_err (jc_ser c r))"

definition engine_unused :: "database \<Rightarrow> bool" where
  "engine_unused w \<longleftrightarrow> (\<forall>e \<in> set (db_entries w). \<not> prefix ''/engine/'' (fst e))"

text \<open>No other known root becomes \<open>/engine\<close> by folding letters.\<close>

lemma engine_folded:
  assumes fold: "fold_ok lc" and q: "virtual_path_ok q" "\<not> prefix ''/engine/'' q"
  shows "map lc (take 8 q) \<noteq> ''/engine/''"
proof
  assume eq: "map lc (take 8 q) = ''/engine/''"
  have letter: "lc c = c" if "c \<in> set ''supm''" for c
  proof -
    have "list_all is_ascii_lowercase ''supm''" by code_simp
    then show ?thesis using fold that by (auto simp: fold_ok_def list_all_iff)
  qed
  obtain root where root: "root \<in> set VIRTUAL_ROOTS" "q = root \<or> prefix (root @ ''/'') q"
    using q(1) by (auto simp: virtual_path_ok_iff under_root_def)
  show False
  proof (cases "root = ''/engine''")
    case True
    then have "q = ''/engine''" using root(2) q(2) by simp
    then have "length (map lc (take 8 q)) \<noteq> length ''/engine/''" by simp
    then show False using eq by simp
  next
    case False
    have "list_all (\<lambda>r. r = ''/engine'' \<or> list_ex (\<lambda>c. prefix [CHR ''/'', c] r) ''supm'') VIRTUAL_ROOTS"
      unfolding VIRTUAL_ROOTS_def by code_simp
    then have "list_ex (\<lambda>c. prefix [CHR ''/'', c] root) ''supm''"
      using root(1) False unfolding list_all_iff by blast
    then obtain c where c: "c \<in> set ''supm''" "prefix [CHR ''/'', c] root" unfolding list_ex_iff by blast
    then obtain z where z: "q = CHR ''/'' # c # z" using root(2) by (auto simp: prefix_def)
    have "map lc (take 8 q) ! 1 = c" using letter [OF c(1)] by (simp add: z)
    then have "c = CHR ''e''" unfolding eq by simp
    then show False using c(1) by simp
  qed
qed

lemma unused_database:
  assumes "d \<in> {postgres_dialect, libsql_dialect}" "table_ok (db_entries w)" "engine_unused w"
  shows "sound_database d w"
    and "db.engine_free d w"
proof -
  have fold: "fold_ok (sq_fold d)" by (rule known_dialects [OF assms(1)])
  then show "sound_database d w" using assms(2) by (simp add: sound_database_def)
  show "db.engine_free d w"
    unfolding db.engine_free_def
  proof (intro allI impI)
    fix q
    assume "database_tree w q \<noteq> None"
    then obtain row where mem: "(q, row) \<in> set (db_entries w)"
      unfolding database_tree_def row_mem_tree [symmetric] ..
    have "virtual_path_ok q" using assms(2) imageI [OF mem, of fst] unfolding table_ok_def fst_conv by blast
    moreover have "\<not> prefix ''/engine/'' q"
      using bspec [OF assms(3) [unfolded engine_unused_def] mem] unfolding fst_conv .
    ultimately show "map (sq_fold d) (take 8 q) \<noteq> ''/engine/''" by (rule engine_folded [OF fold])
  qed
qed

subsection \<open>Refinement up to failures\<close>

lemma history_commands: "map fst (history step cs s) = cs"
  by (induction cs arbitrary: s) simp_all

text \<open>
  Each step answers like the reference, or reports a failure and leaves the abstract state; a
  dependable state never fails.
\<close>

locale tolerant =
  fixes step :: "'c \<Rightarrow> 'w \<Rightarrow> 'r \<times> 'w"
    and reference :: "'c \<Rightarrow> 's \<Rightarrow> 'r \<times> 's"
    and related :: "'w \<Rightarrow> 's \<Rightarrow> bool"
    and admissible :: "'c \<Rightarrow> bool"
    and failure :: "'r \<Rightarrow> bool"
    and dependable :: "'w \<Rightarrow> bool"
  assumes step_law: "related w s \<Longrightarrow> admissible c \<Longrightarrow> step c w = (r, w') \<Longrightarrow>
      (dependable w \<longrightarrow> dependable w')
      \<and> (failure r \<and> \<not> dependable w \<and> related w' s
         \<or> \<not> failure r \<and> (\<exists>s'. reference c s = (r, s') \<and> related w' s'))"
begin

lemma replies:
  assumes "related w s" "\<forall>c \<in> set cs. admissible c"
  shows "filter (\<lambda>(c, r). \<not> failure r) (history step cs w)
      = history reference (map fst (filter (\<lambda>(c, r). \<not> failure r) (history step cs w))) s"
    and "dependable w \<Longrightarrow> filter (\<lambda>(c, r). \<not> failure r) (history step cs w) = history step cs w"
  using assms
proof (induction cs arbitrary: w s)
  case Nil
  { case 1 show ?case by simp }
  { case 2 show ?case by simp }
next
  case (Cons c cs)
  {
    case (1 w s)
    obtain r w' where step: "step c w = (r, w')" by fastforce
    note law = step_law [OF _ _ step]
    show ?case
    proof (cases "failure r")
      case True
      then have "related w' s" using law [OF 1(1)] 1(2) by auto
      then show ?thesis using Cons.IH(1) [of w' s] 1 True step by simp
    next
      case False
      then obtain s' where "reference c s = (r, s')" "related w' s'" using law [OF 1(1)] 1(2) by auto
      then show ?thesis using Cons.IH(1) [of w' s'] 1 False step by simp
    qed
  next
    case (2 w s)
    obtain r w' where step: "step c w = (r, w')" by fastforce
    note law = step_law [OF _ _ step]
    from 2 obtain s' where "\<not> failure r" "related w' s'" "dependable w'" using law [OF 2(2)] by auto
    then show ?case using Cons.IH(2) [of w' s'] 2 step by simp
  }
qed

end

end
