(* ===== verification/StateFiles.thy ===== *)
theory StateFiles
  imports RecordStores
begin

section \<open>Run states and approval requests in files\<close>

text \<open>
  The filesystem-backed stores of \<open>crates/ironclaw_run_state/src/lib.rs\<close> over any root filesystem,
  and that on a database they answer like the in-memory stores. Every operation that changes a record
  holds the lock of its path from its first read to its write, so operations follow one another.
\<close>

subsection \<open>Paths and errors\<close>

definition run_fs_error :: "filesystem_error \<Rightarrow> run_state_error" where
  "run_fs_error error = FilesystemFailure (filesystem_error_display error)"

definition invalid_path :: "host_api_error \<Rightarrow> run_state_error" where
  "invalid_path error = InvalidStoragePath (host_api_error_display error)"

definition run_record_path :: "resource_scope \<Rightarrow> invocation_id \<Rightarrow> (run_state_error, virtual_path) result" where
  "run_record_path scope inv_id = map_err invalid_path (record_path ''runs'' scope inv_id)"

definition run_records_root :: "resource_scope \<Rightarrow> (run_state_error, virtual_path) result" where
  "run_records_root scope = map_err invalid_path (folder_path ''runs'' scope)"

definition approval_record_path ::
    "resource_scope \<Rightarrow> approval_request_id \<Rightarrow> (run_state_error, virtual_path) result" where
  "approval_record_path scope request_id = map_err invalid_path (record_path ''approvals'' scope request_id)"

definition approval_records_root :: "resource_scope \<Rightarrow> (run_state_error, virtual_path) result" where
  "approval_records_root scope = map_err invalid_path (folder_path ''approvals'' scope)"

definition serialize_state :: "'r json_codec \<Rightarrow> 'r \<Rightarrow> (run_state_error, string) result" where
  "serialize_state c value = map_err SerializationFailure (jc_ser c value)"

definition deserialize_state :: "'r json_codec \<Rightarrow> string \<Rightarrow> (run_state_error, 'r) result" where
  "deserialize_state c bytes = map_err DeserializationFailure (jc_de c bytes)"

subsection \<open>The run-state store\<close>

definition fs_run_write ::
    "'w root_filesystem \<Rightarrow> run_record json_codec \<Rightarrow> run_record \<Rightarrow> ('w, run_state_error, unit) operation" where
  "fs_run_write fs c record =
     try_result (run_record_path (rn_scope record) (rn_invocation_id record)) (\<lambda>path.
       write_json fs run_fs_error (serialize_state c) path record)"

definition fs_run_get ::
    "'w root_filesystem \<Rightarrow> run_record json_codec \<Rightarrow> resource_scope \<Rightarrow> invocation_id
     \<Rightarrow> ('w, run_state_error, run_record option) operation" where
  "fs_run_get fs c scope inv_id =
     try_result (run_record_path scope inv_id) (\<lambda>path.
       owned_lookup fs run_fs_error (deserialize_state c) rn_scope path scope)"

definition fs_run_start ::
    "'w root_filesystem \<Rightarrow> run_record json_codec \<Rightarrow> run_start \<Rightarrow> ('w, run_state_error, run_record) operation" where
  "fs_run_start fs c start =
     try_result (run_record_path (rt_scope start) (rt_invocation_id start)) (\<lambda>_.
     bind_op (fs_run_get fs c (rt_scope start) (rt_invocation_id start)) (\<lambda>existing.
       if existing \<noteq> None then fail_op (InvocationAlreadyExists (rt_invocation_id start))
       else
         (let record = \<lparr>rn_invocation_id = rt_invocation_id start,
            rn_capability_id = rt_capability_id start, rn_scope = rt_scope start,
            rn_status = Running, rn_approval_request_id = None, rn_error_kind = None\<rparr>
          in bind_op (fs_run_write fs c record) (\<lambda>_. return_op record))))"

definition fs_run_update ::
    "'w root_filesystem \<Rightarrow> run_record json_codec \<Rightarrow> resource_scope \<Rightarrow> invocation_id
     \<Rightarrow> (run_record \<Rightarrow> run_record) \<Rightarrow> ('w, run_state_error, run_record) operation" where
  "fs_run_update fs c scope inv_id change =
     try_result (run_record_path scope inv_id) (\<lambda>_.
     bind_op (fs_run_get fs c scope inv_id) (\<lambda>found.
       case found of
         None \<Rightarrow> fail_op (UnknownInvocation inv_id)
       | Some record \<Rightarrow>
           bind_op (fs_run_write fs c (change record)) (\<lambda>_. return_op (change record))))"

definition fs_run_block_approval ::
    "'w root_filesystem \<Rightarrow> run_record json_codec \<Rightarrow> resource_scope \<Rightarrow> invocation_id \<Rightarrow> approval_request
     \<Rightarrow> ('w, run_state_error, run_record) operation" where
  "fs_run_block_approval fs c scope inv_id approval =
     fs_run_update fs c scope inv_id (\<lambda>r. r\<lparr>rn_status := BlockedApproval,
       rn_approval_request_id := Some (ar_id approval), rn_error_kind := None\<rparr>)"

definition fs_run_block_auth ::
    "'w root_filesystem \<Rightarrow> run_record json_codec \<Rightarrow> resource_scope \<Rightarrow> invocation_id \<Rightarrow> string
     \<Rightarrow> ('w, run_state_error, run_record) operation" where
  "fs_run_block_auth fs c scope inv_id error_kind =
     fs_run_update fs c scope inv_id (\<lambda>r. r\<lparr>rn_status := BlockedAuth,
       rn_approval_request_id := None, rn_error_kind := Some error_kind\<rparr>)"

definition fs_run_complete ::
    "'w root_filesystem \<Rightarrow> run_record json_codec \<Rightarrow> resource_scope \<Rightarrow> invocation_id
     \<Rightarrow> ('w, run_state_error, run_record) operation" where
  "fs_run_complete fs c scope inv_id =
     fs_run_update fs c scope inv_id (\<lambda>r. r\<lparr>rn_status := Completed,
       rn_approval_request_id := None, rn_error_kind := None\<rparr>)"

definition fs_run_fail ::
    "'w root_filesystem \<Rightarrow> run_record json_codec \<Rightarrow> resource_scope \<Rightarrow> invocation_id \<Rightarrow> string
     \<Rightarrow> ('w, run_state_error, run_record) operation" where
  "fs_run_fail fs c scope inv_id error_kind =
     fs_run_update fs c scope inv_id (\<lambda>r. r\<lparr>rn_status := Failed,
       rn_approval_request_id := None, rn_error_kind := Some error_kind\<rparr>)"

definition fs_run_records_for_scope ::
    "'w root_filesystem \<Rightarrow> run_record json_codec \<Rightarrow> resource_scope
     \<Rightarrow> ('w, run_state_error, run_record list) operation" where
  "fs_run_records_for_scope fs c scope =
     try_result (run_records_root scope) (\<lambda>root.
       owned_records fs run_fs_error (deserialize_state c) True rn_scope rn_invocation_id root scope)"

definition filesystem_run_states :: "'w root_filesystem \<Rightarrow> run_record json_codec \<Rightarrow> 'w run_state_store" where
  "filesystem_run_states fs c = \<lparr>rss_start = fs_run_start fs c,
     rss_block_approval = fs_run_block_approval fs c, rss_block_auth = fs_run_block_auth fs c,
     rss_complete = fs_run_complete fs c, rss_fail = fs_run_fail fs c, rss_get = fs_run_get fs c,
     rss_records_for_scope = fs_run_records_for_scope fs c\<rparr>"

subsection \<open>The approval request store\<close>

definition fs_approval_write ::
    "'w root_filesystem \<Rightarrow> approval_record json_codec \<Rightarrow> approval_record
     \<Rightarrow> ('w, run_state_error, unit) operation" where
  "fs_approval_write fs c record =
     try_result (approval_record_path (ap_scope record) (ar_id (ap_request record))) (\<lambda>path.
       write_json fs run_fs_error (serialize_state c) path record)"

definition fs_approval_get ::
    "'w root_filesystem \<Rightarrow> approval_record json_codec \<Rightarrow> resource_scope \<Rightarrow> approval_request_id
     \<Rightarrow> ('w, run_state_error, approval_record option) operation" where
  "fs_approval_get fs c scope request_id =
     try_result (approval_record_path scope request_id) (\<lambda>path.
       owned_lookup fs run_fs_error (deserialize_state c) ap_scope path scope)"

definition fs_approval_save_pending ::
    "'w root_filesystem \<Rightarrow> approval_record json_codec \<Rightarrow> resource_scope \<Rightarrow> approval_request
     \<Rightarrow> ('w, run_state_error, approval_record) operation" where
  "fs_approval_save_pending fs c scope request =
     try_result (approval_record_path scope (ar_id request)) (\<lambda>_.
     bind_op (fs_approval_get fs c scope (ar_id request)) (\<lambda>existing.
       if existing \<noteq> None then fail_op (ApprovalRequestAlreadyExists (ar_id request))
       else
         (let record = \<lparr>ap_scope = scope, ap_request = request, ap_status = Pending\<rparr>
          in bind_op (fs_approval_write fs c record) (\<lambda>_. return_op record))))"

text \<open>The common start of \<open>update_status\<close> and \<open>discard_pending\<close>: a pending record of the scope.\<close>

definition fs_pending ::
    "'w root_filesystem \<Rightarrow> approval_record json_codec \<Rightarrow> resource_scope \<Rightarrow> approval_request_id
     \<Rightarrow> ('w, run_state_error, approval_record) operation" where
  "fs_pending fs c scope request_id =
     try_result (approval_record_path scope request_id) (\<lambda>_.
     bind_op (fs_approval_get fs c scope request_id) (\<lambda>found.
       case found of
         None \<Rightarrow> fail_op (UnknownApprovalRequest request_id)
       | Some record \<Rightarrow>
           if ap_status record \<noteq> Pending then fail_op (ApprovalNotPending request_id (ap_status record))
           else return_op record))"

definition fs_approval_update_status ::
    "'w root_filesystem \<Rightarrow> approval_record json_codec \<Rightarrow> approval_status \<Rightarrow> resource_scope
     \<Rightarrow> approval_request_id \<Rightarrow> ('w, run_state_error, approval_record) operation" where
  "fs_approval_update_status fs c status scope request_id =
     bind_op (fs_pending fs c scope request_id) (\<lambda>record.
       (let record = record\<lparr>ap_status := status\<rparr>
        in bind_op (fs_approval_write fs c record) (\<lambda>_. return_op record)))"

definition fs_approval_discard_pending ::
    "'w root_filesystem \<Rightarrow> approval_record json_codec \<Rightarrow> resource_scope \<Rightarrow> approval_request_id
     \<Rightarrow> ('w, run_state_error, approval_record) operation" where
  "fs_approval_discard_pending fs c scope request_id =
     bind_op (fs_pending fs c scope request_id) (\<lambda>record.
     try_result (approval_record_path scope request_id) (\<lambda>path.
     bind_op (map_err_op run_fs_error (fs_delete fs path)) (\<lambda>_. return_op record)))"

definition fs_approval_records_for_scope ::
    "'w root_filesystem \<Rightarrow> approval_record json_codec \<Rightarrow> resource_scope
     \<Rightarrow> ('w, run_state_error, approval_record list) operation" where
  "fs_approval_records_for_scope fs c scope =
     try_result (approval_records_root scope) (\<lambda>root.
       owned_records fs run_fs_error (deserialize_state c) True ap_scope (\<lambda>r. ar_id (ap_request r)) root scope)"

definition filesystem_approvals ::
    "'w root_filesystem \<Rightarrow> approval_record json_codec \<Rightarrow> 'w approval_request_store" where
  "filesystem_approvals fs c = \<lparr>ars_save_pending = fs_approval_save_pending fs c,
     ars_get = fs_approval_get fs c, ars_approve = fs_approval_update_status fs c Approved,
     ars_deny = fs_approval_update_status fs c Denied,
     ars_discard_pending = fs_approval_discard_pending fs c,
     ars_records_for_scope = fs_approval_records_for_scope fs c\<rparr>"

subsection \<open>Refinement of the run states\<close>

fun storage_error :: "run_state_error \<Rightarrow> bool" where
  "storage_error (FilesystemFailure _) = True"
| "storage_error (SerializationFailure _) = True"
| "storage_error _ = False"

definition state_failure :: "(run_state_error, 'a) result \<Rightarrow> bool" where
  "state_failure r \<longleftrightarrow> (\<exists>e. r = Inl e \<and> storage_error e)"

fun run_failure :: "run_reply \<Rightarrow> bool" where
  "run_failure (RunReply r) = state_failure r"
| "run_failure (RunLookup r) = state_failure r"
| "run_failure (RunListing r) = state_failure r"

fun approval_failure :: "approval_reply \<Rightarrow> bool" where
  "approval_failure (ApprovalReply r) = state_failure r"
| "approval_failure (ApprovalLookup r) = state_failure r"
| "approval_failure (ApprovalListing r) = state_failure r"

fun approval_command_scope :: "approval_command \<Rightarrow> resource_scope" where
  "approval_command_scope (SavePending s a) = s"
| "approval_command_scope (GetApproval s i) = s"
| "approval_command_scope (ApproveRequest s i) = s"
| "approval_command_scope (DenyRequest s i) = s"
| "approval_command_scope (DiscardPending s i) = s"
| "approval_command_scope (ListApprovals s) = s"

lemma storage_error_fs [simp]: "storage_error (run_fs_error e)"
  by (simp add: run_fs_error_def)

lemma plain_folders: "plain_name ''runs''" "plain_name ''approvals''"
  unfolding plain_name_def labels_def segment_ok_def by code_simp+

lemma state_codec: "serialize_state c = (\<lambda>r. map_err SerializationFailure (jc_ser c r))"
  "deserialize_state c = (\<lambda>b. map_err DeserializationFailure (jc_de c b))"
  by (simp_all add: serialize_state_def deserialize_state_def fun_eq_iff)

locale run_files = record_store fs sound tree lc reliable "''runs''" codec run_state_key_new rn_scope
    rn_invocation_id
  for fs :: "'w root_filesystem" and sound tree lc reliable and codec :: "run_record json_codec"
begin

lemma path [simp]: "owner_ok s \<Longrightarrow> run_record_path s i = Inr (file_of s i)"
  "owner_ok s \<Longrightarrow> run_records_root s = Inr (record_folder ''runs'' s)"
  by (simp_all add: run_record_path_def run_records_root_def record_paths(3,4) plain_folders)

lemma get_run:
  assumes "related w mm" "owner_ok s"
    and "\<And>w'. related w' mm \<Longrightarrow> answers storage_error w' mm (k (hm_get (run_state_key_new s i) mm) w') rm"
  shows "answers storage_error w mm (bind_op (fs_run_get fs codec s i) k w) rm"
  unfolding fs_run_get_def state_codec path [OF assms(2)] try_result_def sum.case
  by (rule answers_lookup [OF assms(1,2)]) (simp_all add: assms(3))

lemma write_run:
  assumes "related w mm" "owner_ok (rn_scope x)"
  shows "answers storage_error w mm (bind_op (fs_run_write fs codec x) (\<lambda>_. return_op x) w)
    (Inr x, hm_insert (run_state_key_new (rn_scope x) (rn_invocation_id x)) x mm)"
  unfolding fs_run_write_def state_codec path [OF assms(2)] try_result_def sum.case
  by (rule answers_write [OF assms]) simp_all

lemma update_run:
  assumes w: "related w mm" and s: "owner_ok s"
    and f: "\<And>x. rn_scope (f x) = rn_scope x \<and> rn_invocation_id (f x) = rn_invocation_id x"
  shows "answers storage_error w mm (fs_run_update fs codec s i f w) (run_update s i f mm)"
  unfolding fs_run_update_def path [OF s] try_result_def sum.case
proof (rule get_run [OF w s])
  fix w'
  assume w': "related w' mm"
  let ?k = "run_state_key_new s i"
  show "answers storage_error w' mm ((case hm_get ?k mm of None \<Rightarrow> fail_op (UnknownInvocation i)
      | Some record \<Rightarrow> bind_op (fs_run_write fs codec (f record)) (\<lambda>_. return_op (f record))) w')
    (run_update s i f mm)"
  proof (cases "hm_get ?k mm")
    case None
    then show ?thesis by (simp add: run_update_def answers_const(2) [OF w'] Let_def)
  next
    case (Some x)
    have "run_state_key_new (rn_scope (f x)) (rn_invocation_id (f x)) = ?k" "owner_ok (rn_scope (f x))"
      using related_key [OF w' Some] f by metis+
    then show ?thesis using write_run [OF w', of "f x"] Some
      by (simp add: run_update_def Let_def del: run_state_key_new_eq_iff)
  qed
qed

lemma start_run:
  assumes w: "related w mm" and s: "owner_ok (rt_scope t)"
  shows "answers storage_error w mm (fs_run_start fs codec t w) (run_start_record t mm)"
  unfolding fs_run_start_def path [OF s] try_result_def sum.case
proof (rule get_run [OF w s])
  fix w'
  assume w': "related w' mm"
  let ?k = "run_state_key_new (rt_scope t) (rt_invocation_id t)"
  let ?x = "\<lparr>rn_invocation_id = rt_invocation_id t, rn_capability_id = rt_capability_id t, rn_scope = rt_scope t,
    rn_status = Running, rn_approval_request_id = None, rn_error_kind = None\<rparr>"
  show "answers storage_error w' mm ((if hm_get ?k mm \<noteq> None then fail_op (InvocationAlreadyExists (rt_invocation_id t))
      else let record = ?x in bind_op (fs_run_write fs codec record) (\<lambda>_. return_op record)) w')
    (run_start_record t mm)"
    using write_run [OF w', of ?x] s
    by (auto simp: run_start_record_def answers_const(2) [OF w'] Let_def)
qed

lemma run_step_law:
  assumes w: "related w mm" and c: "owner_ok (run_command_scope c)"
    and step: "run_step (filesystem_run_states fs codec) c w = (r, w')"
  shows "kept w w' \<and> (run_failure r \<and> \<not> dependable w \<and> related w' mm
    \<or> \<not> run_failure r \<and> (\<exists>mm'. run_step in_memory_run_states c mm = (r, mm') \<and> related w' mm'))"
proof -
  note defs = filesystem_run_states_def in_memory_run_states_def
  show ?thesis
  proof (cases c)
    case (StartRun t)
    show ?thesis
      by (rule answers_reply [OF start_run [OF w], where wrap = RunReply and t1 = t])
        (use step c StartRun in \<open>simp_all add: defs state_failure_def\<close>)
  next
    case (BlockRunApproval s i a)
    show ?thesis
      by (rule answers_reply [OF update_run [OF w], where wrap = RunReply])
        (use step c BlockRunApproval in \<open>auto simp: defs state_failure_def fs_run_block_approval_def run_block_approval_def\<close>)
  next
    case (BlockRunAuth s i e)
    show ?thesis
      by (rule answers_reply [OF update_run [OF w], where wrap = RunReply])
        (use step c BlockRunAuth in \<open>auto simp: defs state_failure_def fs_run_block_auth_def run_block_auth_def\<close>)
  next
    case (CompleteRun s i)
    show ?thesis
      by (rule answers_reply [OF update_run [OF w], where wrap = RunReply])
        (use step c CompleteRun in \<open>auto simp: defs state_failure_def fs_run_complete_def run_complete_def\<close>)
  next
    case (FailRun s i e)
    show ?thesis
      by (rule answers_reply [OF update_run [OF w], where wrap = RunReply])
        (use step c FailRun in \<open>auto simp: defs state_failure_def fs_run_fail_def run_fail_def\<close>)
  next
    case (GetRun s i)
    have "answers storage_error w mm (fs_run_get fs codec s i w) (run_get s i mm)"
      using get_run [OF w, of s return_op i "run_get s i mm"] c GetRun
      by (simp add: run_get_def answers_const)
    then show ?thesis
      by (rule answers_reply [where wrap = RunLookup])
        (use step GetRun in \<open>simp_all add: defs state_failure_def\<close>)
  next
    case (ListRuns s)
    have "answers storage_error w mm (fs_run_records_for_scope fs codec s w) (run_records_for_scope s mm)"
      using answers_records [OF w, of s storage_error run_fs_error DeserializationFailure True] c ListRuns
      by (simp add: fs_run_records_for_scope_def run_records_for_scope_def try_result_def state_codec)
    then show ?thesis
      by (rule answers_reply [where wrap = RunListing])
        (use step ListRuns in \<open>simp_all add: defs state_failure_def\<close>)
  qed
qed

end

subsection \<open>Refinement of the approval requests\<close>

locale approval_files = record_store fs sound tree lc reliable "''approvals''" codec approval_key_new ap_scope
    "\<lambda>r. ar_id (ap_request r)"
  for fs :: "'w root_filesystem" and sound tree lc reliable and codec :: "approval_record json_codec"
begin

lemma path [simp]: "owner_ok s \<Longrightarrow> approval_record_path s i = Inr (file_of s i)"
  "owner_ok s \<Longrightarrow> approval_records_root s = Inr (record_folder ''approvals'' s)"
  by (simp_all add: approval_record_path_def approval_records_root_def record_paths(3,4) plain_folders)

lemma get_approval:
  assumes "related w mm" "owner_ok s"
    and "\<And>w'. related w' mm \<Longrightarrow> answers storage_error w' mm (k (hm_get (approval_key_new s i) mm) w') rm"
  shows "answers storage_error w mm (bind_op (fs_approval_get fs codec s i) k w) rm"
  unfolding fs_approval_get_def state_codec path [OF assms(2)] try_result_def sum.case
  by (rule answers_lookup [OF assms(1,2)]) (simp_all add: assms(3))

lemma write_approval:
  assumes "related w mm" "owner_ok (ap_scope x)"
  shows "answers storage_error w mm (bind_op (fs_approval_write fs codec x) (\<lambda>_. return_op x) w)
    (Inr x, hm_insert (approval_key_new (ap_scope x) (ar_id (ap_request x))) x mm)"
  unfolding fs_approval_write_def state_codec path [OF assms(2)] try_result_def sum.case
  by (rule answers_write [OF assms]) simp_all

lemma save_approval:
  assumes w: "related w mm" and s: "owner_ok s"
  shows "answers storage_error w mm (fs_approval_save_pending fs codec s a w) (approval_save_pending s a mm)"
  unfolding fs_approval_save_pending_def path [OF s] try_result_def sum.case
proof (rule get_approval [OF w s])
  fix w'
  assume w': "related w' mm"
  let ?x = "\<lparr>ap_scope = s, ap_request = a, ap_status = Pending\<rparr>"
  show "answers storage_error w' mm ((if hm_get (approval_key_new s (ar_id a)) mm \<noteq> None
        then fail_op (ApprovalRequestAlreadyExists (ar_id a))
        else let record = ?x in bind_op (fs_approval_write fs codec record) (\<lambda>_. return_op record)) w')
    (approval_save_pending s a mm)"
    using write_approval [OF w', of ?x] s
    by (auto simp: approval_save_pending_def answers_const(2) [OF w'] Let_def)
qed

text \<open>What follows the lookup of a pending record.\<close>

lemma pending_approval:
  assumes w: "related w mm" and s: "owner_ok s"
    and rest: "\<And>w' x. related w' mm \<Longrightarrow> hm_get (approval_key_new s i) mm = Some x \<Longrightarrow> ap_status x = Pending \<Longrightarrow>
      answers storage_error w' mm (k x w') (h x)"
  shows "answers storage_error w mm (bind_op (fs_pending fs codec s i) k w)
    (case hm_get (approval_key_new s i) mm of
       None \<Rightarrow> (Inl (UnknownApprovalRequest i), mm)
     | Some x \<Rightarrow> if ap_status x \<noteq> Pending then (Inl (ApprovalNotPending i (ap_status x)), mm) else h x)"
  unfolding fs_pending_def path [OF s] try_result_def sum.case bind_op_assoc
proof (rule get_approval [OF w s])
  fix w'
  assume w': "related w' mm"
  show "answers storage_error w' mm (bind_op (case hm_get (approval_key_new s i) mm of
        None \<Rightarrow> fail_op (UnknownApprovalRequest i)
      | Some record \<Rightarrow> if ap_status record \<noteq> Pending then fail_op (ApprovalNotPending i (ap_status record))
          else return_op record) k w')
    (case hm_get (approval_key_new s i) mm of
       None \<Rightarrow> (Inl (UnknownApprovalRequest i), mm)
     | Some x \<Rightarrow> if ap_status x \<noteq> Pending then (Inl (ApprovalNotPending i (ap_status x)), mm) else h x)"
    using rest [OF w'] w'
    by (auto simp: op_defs answers_def split: option.split)
qed

lemma update_approval:
  assumes w: "related w mm" and s: "owner_ok s"
  shows "answers storage_error w mm (fs_approval_update_status fs codec st s i w) (approval_update_status s i st mm)"
  unfolding fs_approval_update_status_def approval_update_status_def Let_def
proof (rule pending_approval [OF w s])
  fix w' x
  assume w': "related w' mm" and x: "hm_get (approval_key_new s i) mm = Some x"
  have "owner_ok (ap_scope x)"
    and key: "approval_key_new (ap_scope x) (ar_id (ap_request x)) = approval_key_new s i"
    using related_key [OF w' x] by blast+
  then show "answers storage_error w' mm
      (bind_op (fs_approval_write fs codec (x\<lparr>ap_status := st\<rparr>)) (\<lambda>_. return_op (x\<lparr>ap_status := st\<rparr>)) w')
      (Inr (x\<lparr>ap_status := st\<rparr>), hm_insert (approval_key_new s i) (x\<lparr>ap_status := st\<rparr>) mm)"
    using write_approval [OF w', of "x\<lparr>ap_status := st\<rparr>"] by (simp add: key del: approval_key_new_eq_iff)
qed

lemma discard_approval:
  assumes w: "related w mm" and s: "owner_ok s"
  shows "answers storage_error w mm (fs_approval_discard_pending fs codec s i w) (approval_discard_pending s i mm)"
proof -
  have memory: "approval_discard_pending s i mm = (case hm_get (approval_key_new s i) mm of
       None \<Rightarrow> (Inl (UnknownApprovalRequest i), mm)
     | Some x \<Rightarrow> if ap_status x \<noteq> Pending then (Inl (ApprovalNotPending i (ap_status x)), mm)
         else (Inr x, hm_remove (approval_key_new s i) mm))"
    by (simp add: approval_discard_pending_def Let_def split: option.split)
  show ?thesis
    unfolding memory fs_approval_discard_pending_def
  proof (rule pending_approval [OF w s])
    fix w' x
    assume w': "related w' mm" and x: "hm_get (approval_key_new s i) mm = Some x"
    show "answers storage_error w' mm (try_result (approval_record_path s i) (\<lambda>path.
          bind_op (map_err_op run_fs_error (fs_delete fs path)) (\<lambda>_. return_op x)) w')
        (Inr x, hm_remove (approval_key_new s i) mm)"
      using answers_delete [OF w' s x, of storage_error run_fs_error x] s by (simp add: try_result_def)
  qed
qed

lemma approval_step_law:
  assumes w: "related w mm" and c: "owner_ok (approval_command_scope c)"
    and step: "approval_step (filesystem_approvals fs codec) c w = (r, w')"
  shows "kept w w' \<and> (approval_failure r \<and> \<not> dependable w \<and> related w' mm
    \<or> \<not> approval_failure r \<and> (\<exists>mm'. approval_step in_memory_approvals c mm = (r, mm') \<and> related w' mm'))"
proof -
  note defs = filesystem_approvals_def in_memory_approvals_def state_failure_def approval_approve_def approval_deny_def
  show ?thesis
  proof (cases c)
    case (SavePending s a)
    show ?thesis
      by (rule answers_reply [OF save_approval [OF w], where wrap = ApprovalReply])
        (use step c SavePending in \<open>auto simp: defs\<close>)
  next
    case (GetApproval s i)
    have "answers storage_error w mm (fs_approval_get fs codec s i w) (approval_get s i mm)"
      using get_approval [OF w, of s return_op i "approval_get s i mm"] c GetApproval
      by (simp add: approval_get_def answers_const)
    then show ?thesis
      by (rule answers_reply [where wrap = ApprovalLookup]) (use step GetApproval in \<open>simp_all add: defs\<close>)
  next
    case (ApproveRequest s i)
    show ?thesis
      by (rule answers_reply [OF update_approval [OF w], where wrap = ApprovalReply])
        (use step c ApproveRequest in \<open>auto simp: defs\<close>)
  next
    case (DenyRequest s i)
    show ?thesis
      by (rule answers_reply [OF update_approval [OF w], where wrap = ApprovalReply])
        (use step c DenyRequest in \<open>auto simp: defs\<close>)
  next
    case (DiscardPending s i)
    show ?thesis
      by (rule answers_reply [OF discard_approval [OF w], where wrap = ApprovalReply])
        (use step c DiscardPending in \<open>auto simp: defs\<close>)
  next
    case (ListApprovals s)
    have "answers storage_error w mm (fs_approval_records_for_scope fs codec s w) (approval_records_for_scope s mm)"
      using answers_records [OF w, of s storage_error run_fs_error DeserializationFailure True] c ListApprovals
      by (simp add: fs_approval_records_for_scope_def approval_records_for_scope_def try_result_def state_codec)
    then show ?thesis
      by (rule answers_reply [where wrap = ApprovalListing]) (use step ListApprovals in \<open>simp_all add: defs\<close>)
  qed
qed

end

subsection \<open>Both stores on one filesystem\<close>

datatype state_command = OnRuns run_command | OnApprovals approval_command

datatype state_reply = RunsReply run_reply | ApprovalsReply approval_reply

fun stored_step :: "'w run_state_store \<Rightarrow> 'w approval_request_store \<Rightarrow> state_command \<Rightarrow> 'w \<Rightarrow> state_reply \<times> 'w" where
  "stored_step rs ars (OnRuns c) w = apfst RunsReply (run_step rs c w)"
| "stored_step rs ars (OnApprovals c) w = apfst ApprovalsReply (approval_step ars c w)"

fun memory_step :: "state_command \<Rightarrow> run_states \<times> approvals \<Rightarrow> state_reply \<times> run_states \<times> approvals" where
  "memory_step (OnRuns c) (m, a) = (case run_step in_memory_run_states c m of (r, m') \<Rightarrow> (RunsReply r, m', a))"
| "memory_step (OnApprovals c) (m, a) =
     (case approval_step in_memory_approvals c a of (r, a') \<Rightarrow> (ApprovalsReply r, m, a'))"

fun state_command_scope :: "state_command \<Rightarrow> resource_scope" where
  "state_command_scope (OnRuns c) = run_command_scope c"
| "state_command_scope (OnApprovals c) = approval_command_scope c"

fun storage_failed :: "state_reply \<Rightarrow> bool" where
  "storage_failed (RunsReply r) = run_failure r"
| "storage_failed (ApprovalsReply r) = approval_failure r"

locale state_files =
  runs: run_files fs sound tree lc reliable rcodec + approvals: approval_files fs sound tree lc reliable acodec
  for fs :: "'w root_filesystem" and sound tree lc reliable rcodec acodec
begin

definition stored :: "'w \<Rightarrow> run_states \<times> approvals \<Rightarrow> bool" where
  "stored w m \<longleftrightarrow> runs.related w (fst m) \<and> approvals.related w (snd m)"

definition trusty :: "'w \<Rightarrow> bool" where
  "trusty w \<longleftrightarrow> runs.dependable w \<and> approvals.dependable w"

lemma stored_sound: "stored w m \<Longrightarrow> sound w"
  by (simp add: stored_def runs.related_def runs.filed_def)

lemma state_step_law:
  assumes w: "stored w m" and c: "owner_ok (state_command_scope c)"
    and step: "stored_step (filesystem_run_states fs rcodec) (filesystem_approvals fs acodec) c w = (r, w')"
  shows "(trusty w \<longrightarrow> trusty w') \<and> (storage_failed r \<and> \<not> trusty w \<and> stored w' m
    \<or> \<not> storage_failed r \<and> (\<exists>m'. memory_step c m = (r, m') \<and> stored w' m'))"
proof (cases c)
  case (OnRuns rc)
  obtain v where v: "run_step (filesystem_run_states fs rcodec) rc w = (v, w')" "r = RunsReply v"
    using step OnRuns by (auto simp: apfst_def map_prod_def split: prod.splits)
  have "runs.related w (fst m)" "owner_ok (run_command_scope rc)" using w c OnRuns by (simp_all add: stored_def)
  note law = runs.run_step_law [OF this v(1)]
  have "sound w'" using law by (auto simp: runs.related_def runs.filed_def)
  then have other: "approvals.related w' (snd m)"
    using w law approvals.related_other [of w "snd m" w' "''runs''"] plain_folders
    by (auto simp: stored_def runs.kept_def)
  have "trusty w \<longrightarrow> trusty w'"
    using law by (auto simp: trusty_def runs.dependable_def approvals.dependable_def runs.kept_def)
  then show ?thesis
    using law other by (cases m) (auto simp: v(2) OnRuns stored_def trusty_def)
next
  case (OnApprovals ac)
  obtain v where v: "approval_step (filesystem_approvals fs acodec) ac w = (v, w')" "r = ApprovalsReply v"
    using step OnApprovals by (auto simp: apfst_def map_prod_def split: prod.splits)
  have "approvals.related w (snd m)" "owner_ok (approval_command_scope ac)"
    using w c OnApprovals by (simp_all add: stored_def)
  note law = approvals.approval_step_law [OF this v(1)]
  have "sound w'" using law by (auto simp: approvals.related_def approvals.filed_def)
  then have other: "runs.related w' (fst m)"
    using w law runs.related_other [of w "fst m" w' "''approvals''"] plain_folders
    by (auto simp: stored_def approvals.kept_def)
  have "trusty w \<longrightarrow> trusty w'"
    using law by (auto simp: trusty_def runs.dependable_def approvals.dependable_def approvals.kept_def)
  then show ?thesis
    using law other by (cases m) (auto simp: v(2) OnApprovals stored_def trusty_def)
qed

end

sublocale state_files \<subseteq> tolerant
  "stored_step (filesystem_run_states fs rcodec) (filesystem_approvals fs acodec)"
  memory_step stored "\<lambda>c. owner_ok (state_command_scope c)" storage_failed trusty
  by unfold_locales (rule state_step_law)

interpretation db_state: state_files "database_filesystem d" "sound_database d" database_tree "sq_fold d"
  reliable_database rc ac for d rc ac
  by unfold_locales (simp_all add: plain_folders)

text \<open>
  C12: The filesystem-backed stores of runs and approval requests on one database refine the in-memory
  stores: over any operations of both stores in any order, on a PostgreSQL or libSQL database that
  has nothing under \<open>/engine\<close>, with valid ids, the operations that did not fail with a storage error
  reply exactly as the in-memory stores reply to these operations alone, listings included, and
  when no call to the database fails and every record serialises, no operation fails so.
\<close>

theorem filesystem_state_refines_memory:
  assumes "d \<in> {postgres_dialect, libsql_dialect}" "table_ok (db_entries w)" "engine_unused w"
    and "codec_ok rc" "codec_ok ac" "\<forall>c \<in> set cs. owner_ok (state_command_scope c)"
  shows "let fs = database_filesystem d;
      h = history (stored_step (filesystem_run_states fs rc) (filesystem_approvals fs ac)) cs w;
      ok = filter (\<lambda>(c, r). \<not> storage_failed r) h
    in ok = history memory_step (map fst ok) ([], [])
      \<and> (reliable_database w \<and> total_codec rc \<and> total_codec ac \<longrightarrow> ok = h)"
proof -
  note unused = unused_database [OF assms(1-3)]
  have "db_state.stored d rc ac w ([], [])"
    using db_state.runs.related_empty [OF unused(1) assms(4) unused(2)]
      db_state.approvals.related_empty [OF unused(1) assms(5) unused(2)]
    by (simp add: db_state.stored_def)
  from db_state.replies [OF this assms(6)] show ?thesis
    by (auto simp: Let_def db_state.trusty_def db_state.runs.dependable_def db_state.approvals.dependable_def
        total_codec_def)
qed

definition sample_start :: run_start where
  "sample_start = \<lparr>rt_invocation_id = 1, rt_capability_id = ''demo.echo'', rt_scope = sample_owner\<rparr>"

definition sample_run :: run_record where
  "sample_run = \<lparr>rn_invocation_id = 1, rn_capability_id = ''demo.echo'', rn_scope = sample_owner,
     rn_status = Running, rn_approval_request_id = None, rn_error_kind = None\<rparr>"

definition sample_state_commands :: "state_command list" where
  "sample_state_commands = [OnRuns (StartRun sample_start), OnApprovals (SavePending sample_owner sample_request),
     OnRuns (GetRun sample_owner 1), OnApprovals (ListApprovals sample_owner)]"

definition sample_state_history :: "(state_command \<times> state_reply) list" where
  "sample_state_history =
     (let fs = database_filesystem libsql_dialect
      in history (stored_step (filesystem_run_states fs (listed_codec [sample_run]))
           (filesystem_approvals fs (listed_codec [sample_record Pending]))) sample_state_commands notes_database)"

lemma filesystem_state_refines_memory_witness:
  "filter (\<lambda>(c, r). \<not> storage_failed r) sample_state_history
     = history memory_step (map fst (filter (\<lambda>(c, r). \<not> storage_failed r) sample_state_history)) ([], [])"
proof -
  have "virtual_path_ok ''/projects/a/x''" unfolding virtual_path_ok_def by code_simp
  then have "table_ok (db_entries notes_database)" "engine_unused notes_database"
    by (simp_all add: table_ok_def notes_database_def hm_keys_distinct_def engine_unused_def)
  moreover have "owner_ok sample_owner"
    by (simp add: owner_ok_def owner_pairs_def sample_owner_def scope_id_ok_def byte_of_def)
  then have "\<forall>c \<in> set sample_state_commands. owner_ok (state_command_scope c)"
    by (simp add: sample_state_commands_def sample_start_def)
  ultimately show ?thesis
    using filesystem_state_refines_memory [of libsql_dialect notes_database "listed_codec [sample_run]"
        "listed_codec [sample_record Pending]" sample_state_commands, OF _ _ _ listed_codec_ok listed_codec_ok]
    unfolding sample_state_history_def Let_def by simp
qed

end
