(* ===== verification/ProcessFiles.thy ===== *)
theory ProcessFiles
  imports StateFiles ProcessLifecycle
begin

section \<open>Processes in files\<close>

text \<open>
  \<open>crates/ironclaw_processes/src/filesystem_store.rs\<close>: lifecycle records, result records and output
  bodies as files below the owner's root. The store of the records holds one lock during each
  operation that changes a record.
\<close>

subsection \<open>Paths and errors\<close>

definition process_fs_error :: "filesystem_error \<Rightarrow> process_error" where
  "process_fs_error error = ProcessFilesystem (filesystem_error_display error)"

definition process_invalid_path :: "host_api_error \<Rightarrow> process_error" where
  "process_invalid_path error = ProcessInvalidPath (host_api_error_display error)"

definition process_record_path :: "resource_scope \<Rightarrow> process_id \<Rightarrow> (process_error, virtual_path) result" where
  "process_record_path scope pid = map_err process_invalid_path (record_path ''processes'' scope pid)"

definition process_records_root :: "resource_scope \<Rightarrow> (process_error, virtual_path) result" where
  "process_records_root scope = map_err process_invalid_path (folder_path ''processes'' scope)"

definition process_result_path :: "resource_scope \<Rightarrow> process_id \<Rightarrow> (process_error, virtual_path) result" where
  "process_result_path scope pid = map_err process_invalid_path (record_path ''process-results'' scope pid)"

definition process_outputs_root :: "resource_scope \<Rightarrow> process_id \<Rightarrow> (process_error, virtual_path) result" where
  "process_outputs_root scope pid = map_err process_invalid_path
     (virtual_path_new (owner_root scope @ ''/process-outputs/'' @ uuid_display pid))"

definition process_output_path :: "resource_scope \<Rightarrow> process_id \<Rightarrow> (process_error, virtual_path) result" where
  "process_output_path scope pid =
     bind_result (process_outputs_root scope pid) (\<lambda>root.
       map_err process_invalid_path (virtual_path_new (root @ ''/output.json'')))"

definition serialize_process :: "'r json_codec \<Rightarrow> 'r \<Rightarrow> (process_error, string) result" where
  "serialize_process c value = map_err ProcessSerialization (jc_ser c value)"

definition deserialize_process :: "'r json_codec \<Rightarrow> string \<Rightarrow> (process_error, 'r) result" where
  "deserialize_process c bytes = map_err ProcessDeserialization (jc_de c bytes)"

definition ensure_process_record_matches :: "process_record \<Rightarrow> process_id \<Rightarrow> (process_error, unit) result" where
  "ensure_process_record_matches record pid =
     (if pr_process_id record \<noteq> pid then
        Inl (ProcessInvalidStoredRecord (''stored process id '' @ uuid_display (pr_process_id record)
          @ '' does not match requested '' @ uuid_display pid))
      else Inr ())"

definition ensure_result_record_matches ::
    "process_result_record \<Rightarrow> process_id \<Rightarrow> (process_error, unit) result" where
  "ensure_result_record_matches record pid =
     (if po_process_id record \<noteq> pid then
        Inl (ProcessInvalidStoredRecord (''stored process result id '' @ uuid_display (po_process_id record)
          @ '' does not match requested '' @ uuid_display pid))
      else Inr ())"

subsection \<open>The process store\<close>

definition fs_process_write ::
    "'w root_filesystem \<Rightarrow> process_record json_codec \<Rightarrow> process_record \<Rightarrow> ('w, process_error, unit) operation" where
  "fs_process_write fs c record =
     try_result (process_record_path (pr_scope record) (pr_process_id record)) (\<lambda>path.
       write_json fs process_fs_error (serialize_process c) path record)"

definition fs_process_get ::
    "'w root_filesystem \<Rightarrow> process_record json_codec \<Rightarrow> resource_scope \<Rightarrow> process_id
     \<Rightarrow> ('w, process_error, process_record option) operation" where
  "fs_process_get fs c scope pid =
     try_result (process_record_path scope pid) (\<lambda>path.
       owned_lookup fs process_fs_error
         (\<lambda>bytes. bind_result (deserialize_process c bytes) (\<lambda>record.
            bind_result (ensure_process_record_matches record pid) (\<lambda>_. Inr record)))
         pr_scope path scope)"

definition fs_process_start ::
    "'w root_filesystem \<Rightarrow> process_record json_codec \<Rightarrow> process_start
     \<Rightarrow> ('w, process_error, process_record) operation" where
  "fs_process_start fs c start =
     try_result (process_record_path (ps_scope start) (ps_process_id start)) (\<lambda>path.
     bind_op (read_bytes fs process_fs_error path) (\<lambda>existing.
       if existing \<noteq> None then fail_op (ProcessAlreadyExists (ps_process_id start))
       else bind_op (fs_process_write fs c (running_record start)) (\<lambda>_. return_op (running_record start))))"

definition fs_process_update_status ::
    "'w root_filesystem \<Rightarrow> process_record json_codec \<Rightarrow> resource_scope \<Rightarrow> process_id \<Rightarrow> process_status
     \<Rightarrow> string option \<Rightarrow> ('w, process_error, process_record) operation" where
  "fs_process_update_status fs c scope pid to_status error_kind =
     bind_op (fs_process_get fs c scope pid) (\<lambda>found.
       case found of
         None \<Rightarrow> fail_op (UnknownProcess pid)
       | Some record \<Rightarrow>
           try_result (ensure_status_transition pid (pr_status record) to_status) (\<lambda>_.
             (let record = record\<lparr>pr_status := to_status, pr_error_kind := error_kind\<rparr>
              in bind_op (fs_process_write fs c record) (\<lambda>_. return_op record))))"

definition fs_process_records_for_scope ::
    "'w root_filesystem \<Rightarrow> process_record json_codec \<Rightarrow> resource_scope
     \<Rightarrow> ('w, process_error, process_record list) operation" where
  "fs_process_records_for_scope fs c scope =
     try_result (process_records_root scope) (\<lambda>root.
       owned_records fs process_fs_error (deserialize_process c) False pr_scope pr_process_id root scope)"

definition filesystem_processes :: "'w root_filesystem \<Rightarrow> process_record json_codec \<Rightarrow> 'w process_store" where
  "filesystem_processes fs c = \<lparr>prs_start = fs_process_start fs c,
     prs_complete = (\<lambda>scope pid. fs_process_update_status fs c scope pid ProcCompleted None),
     prs_fail = (\<lambda>scope pid error_kind. fs_process_update_status fs c scope pid ProcFailed (Some error_kind)),
     prs_kill = (\<lambda>scope pid. fs_process_update_status fs c scope pid ProcKilled None),
     prs_get = fs_process_get fs c, prs_records_for_scope = fs_process_records_for_scope fs c\<rparr>"

subsection \<open>The result store\<close>

definition fs_result_write ::
    "'w root_filesystem \<Rightarrow> process_result_record json_codec \<Rightarrow> process_result_record
     \<Rightarrow> ('w, process_error, unit) operation" where
  "fs_result_write fs c record =
     try_result (process_result_path (po_scope record) (po_process_id record)) (\<lambda>path.
       write_json fs process_fs_error (serialize_process c) path record)"

definition fs_output_write ::
    "'w root_filesystem \<Rightarrow> json json_codec \<Rightarrow> resource_scope \<Rightarrow> process_id \<Rightarrow> json
     \<Rightarrow> ('w, process_error, virtual_path) operation" where
  "fs_output_write fs jc scope pid out =
     try_result (process_output_path scope pid) (\<lambda>path.
     bind_op (write_json fs process_fs_error (serialize_process jc) path out) (\<lambda>_. return_op path))"

definition fs_store_result ::
    "'w root_filesystem \<Rightarrow> process_result_record json_codec \<Rightarrow> resource_scope \<Rightarrow> process_id \<Rightarrow> process_status
     \<Rightarrow> json option \<Rightarrow> virtual_path option \<Rightarrow> string option
     \<Rightarrow> ('w, process_error, process_result_record) operation" where
  "fs_store_result fs c scope pid status out out_ref error_kind =
     (let record = \<lparr>po_process_id = pid, po_scope = scope, po_status = status, po_output = out,
        po_output_ref = out_ref, po_error_kind = error_kind\<rparr>
      in bind_op (fs_result_write fs c record) (\<lambda>_. return_op record))"

definition fs_result_complete ::
    "'w root_filesystem \<Rightarrow> process_result_record json_codec \<Rightarrow> json json_codec \<Rightarrow> resource_scope \<Rightarrow> process_id
     \<Rightarrow> json \<Rightarrow> ('w, process_error, process_result_record) operation" where
  "fs_result_complete fs c jc scope pid out =
     bind_op (fs_output_write fs jc scope pid out) (\<lambda>out_ref.
       fs_store_result fs c scope pid ProcCompleted None (Some out_ref) None)"

definition fs_result_get ::
    "'w root_filesystem \<Rightarrow> process_result_record json_codec \<Rightarrow> resource_scope \<Rightarrow> process_id
     \<Rightarrow> ('w, process_error, process_result_record option) operation" where
  "fs_result_get fs c scope pid =
     try_result (process_result_path scope pid) (\<lambda>path.
       owned_lookup fs process_fs_error
         (\<lambda>bytes. bind_result (deserialize_process c bytes) (\<lambda>record.
            bind_result (ensure_result_record_matches record pid) (\<lambda>_. Inr record)))
         po_scope path scope)"

definition fs_result_output ::
    "'w root_filesystem \<Rightarrow> process_result_record json_codec \<Rightarrow> json json_codec \<Rightarrow> resource_scope \<Rightarrow> process_id
     \<Rightarrow> ('w, process_error, json option) operation" where
  "fs_result_output fs c jc scope pid =
     bind_op (fs_result_get fs c scope pid) (\<lambda>found.
       case found of
         None \<Rightarrow> return_op None
       | Some record \<Rightarrow>
           (case po_output record of
              Some out \<Rightarrow> return_op (Some out)
            | None \<Rightarrow>
                (case po_output_ref record of
                   None \<Rightarrow> return_op None
                 | Some out_ref \<Rightarrow>
                     try_result (process_output_path scope pid) (\<lambda>expected.
                       if out_ref \<noteq> expected then
                         fail_op (ProcessInvalidStoredRecord (''process result output ref '' @ out_ref
                           @ '' does not match expected '' @ expected))
                       else read_json fs process_fs_error (deserialize_process jc) out_ref))))"

definition filesystem_results ::
    "'w root_filesystem \<Rightarrow> process_result_record json_codec \<Rightarrow> json json_codec \<Rightarrow> 'w process_result_store" where
  "filesystem_results fs c jc = \<lparr>prr_complete = fs_result_complete fs c jc,
     prr_fail = (\<lambda>scope pid error_kind. fs_store_result fs c scope pid ProcFailed None None (Some error_kind)),
     prr_kill = (\<lambda>scope pid. fs_store_result fs c scope pid ProcKilled None None None),
     prr_get = fs_result_get fs c\<rparr>"

subsection \<open>Refinement of the processes\<close>

fun process_storage_error :: "process_error \<Rightarrow> bool" where
  "process_storage_error (ProcessFilesystem _) = True"
| "process_storage_error (ProcessSerialization _) = True"
| "process_storage_error _ = False"

lemma process_storage_error_fs [simp]: "process_storage_error (process_fs_error e)"
  by (simp add: process_fs_error_def)

lemma process_codec: "serialize_process c = (\<lambda>r. map_err ProcessSerialization (jc_ser c r))"
  "deserialize_process c = (\<lambda>b. map_err ProcessDeserialization (jc_de c b))"
  by (simp_all add: serialize_process_def deserialize_process_def fun_eq_iff)

lemma plain_process_folders: "plain_name ''processes''" "plain_name ''process-results''" "plain_name ''process-outputs''"
  unfolding plain_name_def labels_def segment_ok_def by code_simp+

datatype store_command =
    StartStored process_start
  | EndStored process_ending resource_scope process_id
  | GetStored resource_scope process_id
  | ListStored resource_scope

datatype store_reply =
    StoredReply "(process_error, process_record) result"
  | StoredLookup "(process_error, process_record option) result"
  | StoredListing "(process_error, process_record list) result"

fun store_step :: "'w process_store \<Rightarrow> store_command \<Rightarrow> 'w \<Rightarrow> store_reply \<times> 'w" where
  "store_step st (StartStored t) w = apfst StoredReply (prs_start st t w)"
| "store_step st (EndStored e s i) w = apfst StoredReply (prs_end st e s i w)"
| "store_step st (GetStored s i) w = apfst StoredLookup (prs_get st s i w)"
| "store_step st (ListStored s) w = apfst StoredListing (prs_records_for_scope st s w)"

fun store_command_scope :: "store_command \<Rightarrow> resource_scope" where
  "store_command_scope (StartStored t) = ps_scope t"
| "store_command_scope (EndStored e s i) = s"
| "store_command_scope (GetStored s i) = s"
| "store_command_scope (ListStored s) = s"

definition process_failure :: "(process_error, 'a) result \<Rightarrow> bool" where
  "process_failure r \<longleftrightarrow> (\<exists>e. r = Inl e \<and> process_storage_error e)"

fun store_failed :: "store_reply \<Rightarrow> bool" where
  "store_failed (StoredReply r) = process_failure r"
| "store_failed (StoredLookup r) = process_failure r"
| "store_failed (StoredListing r) = process_failure r"

locale process_files = record_store fs sound tree lc reliable "''processes''" codec process_key_new pr_scope
    pr_process_id
  for fs :: "'w root_filesystem" and sound tree lc reliable and codec :: "process_record json_codec"
begin

lemma path [simp]: "owner_ok s \<Longrightarrow> process_record_path s i = Inr (file_of s i)"
  "owner_ok s \<Longrightarrow> process_records_root s = Inr (record_folder ''processes'' s)"
  by (simp_all add: process_record_path_def process_records_root_def record_paths(3,4) plain_process_folders)

lemma get_process:
  assumes "related w mm" "owner_ok s"
    and "\<And>w'. related w' mm \<Longrightarrow> answers process_storage_error w' mm (k (hm_get (process_key_new s i) mm) w') rm"
  shows "answers process_storage_error w mm (bind_op (fs_process_get fs codec s i) k w) rm"
  unfolding fs_process_get_def path [OF assms(2)] try_result_def sum.case
  by (rule answers_lookup [OF assms(1,2)])
    (simp_all add: assms(3) process_codec ensure_process_record_matches_def)

lemma write_process:
  assumes "related w mm" "owner_ok (pr_scope x)"
  shows "answers process_storage_error w mm (bind_op (fs_process_write fs codec x) (\<lambda>_. return_op x) w)
    (Inr x, hm_insert (process_key_new (pr_scope x) (pr_process_id x)) x mm)"
  unfolding fs_process_write_def process_codec path [OF assms(2)] try_result_def sum.case
  by (rule answers_write [OF assms]) simp_all

lemma start_process:
  assumes w: "related w mm" and s: "owner_ok (ps_scope t)"
  shows "answers process_storage_error w mm (fs_process_start fs codec t w) (process_start_record t mm)"
  unfolding fs_process_start_def path [OF s] try_result_def sum.case
proof (rule answers_exists [OF w s])
  fix w' and n :: "string option"
  assume w': "related w' mm" and n: "n = None \<longleftrightarrow> hm_get (process_key_new (ps_scope t) (ps_process_id t)) mm = None"
  have own: "pr_scope (running_record t) = ps_scope t" "pr_process_id (running_record t) = ps_process_id t"
    by (simp_all add: running_record_def)
  show "answers process_storage_error w' mm ((if n \<noteq> None then fail_op (ProcessAlreadyExists (ps_process_id t))
      else bind_op (fs_process_write fs codec (running_record t)) (\<lambda>_. return_op (running_record t))) w')
    (process_start_record t mm)"
    using write_process [OF w', of "running_record t"] s n
    by (cases "n = None") (simp_all add: process_start_record_def own answers_const(2) [OF w'] Let_def)
qed simp

lemma update_process:
  assumes w: "related w mm" and s: "owner_ok s"
  shows "answers process_storage_error w mm (fs_process_update_status fs codec s i st ek w)
    (process_update_status s i st ek mm)"
  unfolding fs_process_update_status_def
proof (rule get_process [OF w s])
  fix w'
  assume w': "related w' mm"
  let ?k = "process_key_new s i"
  show "answers process_storage_error w' mm ((case hm_get ?k mm of None \<Rightarrow> fail_op (UnknownProcess i)
      | Some record \<Rightarrow> try_result (ensure_status_transition i (pr_status record) st) (\<lambda>_.
          (let record = record\<lparr>pr_status := st, pr_error_kind := ek\<rparr>
           in bind_op (fs_process_write fs codec record) (\<lambda>_. return_op record)))) w')
    (process_update_status s i st ek mm)"
  proof (cases "hm_get ?k mm")
    case None
    then show ?thesis by (simp add: process_update_status_def answers_const(2) [OF w'] Let_def)
  next
    case (Some x)
    let ?x = "x\<lparr>pr_status := st, pr_error_kind := ek\<rparr>"
    have "owner_ok (pr_scope x)" "process_key_new (pr_scope x) (pr_process_id x) = ?k"
      using related_key [OF w' Some] by blast+
    then have "owner_ok (pr_scope ?x)" and key: "process_key_new (pr_scope ?x) (pr_process_id ?x) = ?k"
      by simp_all
    from write_process [OF w' this(1)] show ?thesis
      unfolding key process_update_status_def
      by (simp add: Some ensure_status_transition_def try_result_def answers_const(2) [OF w'] Let_def)
  qed
qed

lemma store_step_law:
  assumes w: "related w mm" and c: "owner_ok (store_command_scope c)"
    and step: "store_step (filesystem_processes fs codec) c w = (r, w')"
  shows "(dependable w \<longrightarrow> dependable w') \<and> (store_failed r \<and> \<not> dependable w \<and> related w' mm
    \<or> \<not> store_failed r \<and> (\<exists>mm'. store_step in_memory_processes c mm = (r, mm') \<and> related w' mm'))"
proof -
  note defs = filesystem_processes_def in_memory_processes_def process_failure_def
  have "kept w w' \<and> (store_failed r \<and> \<not> dependable w \<and> related w' mm
    \<or> \<not> store_failed r \<and> (\<exists>mm'. store_step in_memory_processes c mm = (r, mm') \<and> related w' mm'))"
  proof (cases c)
    case (StartStored t)
    show ?thesis
      by (rule answers_reply [OF start_process [OF w], where wrap = StoredReply])
        (use step c StartStored in \<open>auto simp: defs\<close>)
  next
    case (EndStored e s i)
    show ?thesis
      by (rule answers_reply [OF update_process [OF w, of s i "ending_status e" "ending_error e"], where wrap = StoredReply])
        (use step c EndStored in \<open>cases e; simp add: defs process_complete_def process_fail_def process_kill_def\<close>)+
  next
    case (GetStored s i)
    have "answers process_storage_error w mm (fs_process_get fs codec s i w) (process_get s i mm)"
      using get_process [OF w, of s return_op i "process_get s i mm"] c GetStored
      by (simp add: process_get_def answers_const)
    then show ?thesis
      by (rule answers_reply [where wrap = StoredLookup]) (use step GetStored in \<open>simp_all add: defs\<close>)
  next
    case (ListStored s)
    have "answers process_storage_error w mm (fs_process_records_for_scope fs codec s w)
        (process_records_for_scope s mm)"
      using answers_records [OF w, of s process_storage_error process_fs_error ProcessDeserialization False] c ListStored
      by (simp add: fs_process_records_for_scope_def process_records_for_scope_def try_result_def process_codec)
    then show ?thesis
      by (rule answers_reply [where wrap = StoredListing]) (use step ListStored in \<open>simp_all add: defs\<close>)
  qed
  then show ?thesis using kept_dependable by blast
qed

end

sublocale process_files \<subseteq> tolerant "store_step (filesystem_processes fs codec)"
  "store_step in_memory_processes" related "\<lambda>c. owner_ok (store_command_scope c)" store_failed dependable
  by unfold_locales (rule store_step_law)

interpretation db_processes: process_files "database_filesystem d" "sound_database d" database_tree "sq_fold d"
  reliable_database c for d c
  by unfold_locales (auto simp: plain_process_folders process_key_new_def same_scope_owner_def)


definition sample_process_commands :: "store_command list" where
  "sample_process_commands = [EndStored EndKill sample_owner 4, ListStored sample_owner, GetStored sample_owner 4]"

definition sample_process_history :: "(store_command \<times> store_reply) list" where
  "sample_process_history =
     history (store_step (filesystem_processes (database_filesystem postgres_dialect) (listed_codec [])))
       sample_process_commands notes_database"


end
