(* ===== verification/Spec2Isabelle.thy ===== *)
theory Spec2Isabelle
  imports Main Prelude Traces HashMaps HostIds HostPaths HostTypes HostDecisions Resources
    RunState Leases Trust Authorization HostAudit Kernel Approvals Fingerprint HostPorts
    CapabilityHost HostSafety HostWiring Secrets RuntimeEvents EventLog EventReplay TextLines Jsonl
    Filesystem Extensions GovernorPort Dispatcher ProcessStores ProcessLifecycle
    ProcessHost ProcessSupervisor ProcessSystem ProcessSupervision
    NetAddresses Network LeakDetector Handoffs Obligations HandoffSafety HandoffHost OutputSafety
    DbFileTree RecordFiles RecordStores StateFiles ProcessFiles
begin

text \<open>
  The host kernel of IronClaw "Reborn": the crates under \<open>src/crates\<close> that decide whether a
  capability of an extension may run, and keep the records of it.

  \<^bold>\<open>The program.\<close> A caller asks the capability host (\<open>ironclaw_capabilities\<close>) to invoke, spawn or
  resume a capability in an execution context (\<open>ironclaw_host_api\<close>). The host starts a run record
  (\<open>ironclaw_run_state\<close>), asks an authorizer (\<open>ironclaw_authorization\<close>) which weighs grants and
  leases against the trust policy's ceiling (\<open>ironclaw_trust\<close>), and then blocks the run on an
  approval request, or prepares the obligations of the decision and dispatches. A human resolves
  the request through the approval resolver (\<open>ironclaw_approvals\<close>), which issues a lease bound to
  the fingerprint of the invocation; the resumed invocation claims that lease, dispatches and
  consumes it. The resource governor (\<open>ironclaw_resources\<close>) accounts for what an invocation may use.
  The dispatcher (\<open>ironclaw_dispatcher\<close>) finds the capability in the registry of the extensions
  (\<open>ironclaw_extensions\<close>), which is discovered in the virtual filesystem (\<open>ironclaw_filesystem\<close>), and
  runs the adapter of its runtime; what happens is reported to the event log (\<open>ironclaw_events\<close>).
  Secrets are handed out through one-shot leases (\<open>ironclaw_secrets\<close>).

  \<^bold>\<open>Theories.\<close>
  \<^item> \<open>Prelude\<close>: results, stateful operations and their sequencing, saturating words, the string and
    slice functions of the Rust standard library. \<open>Traces\<close>: histories of commands with the
    contracts \<open>once_only\<close>, \<open>framed\<close> and \<open>budgeted\<close>. \<open>HashMaps\<close>: Rust's \<open>HashMap\<close>.
  \<^item> \<open>HostIds\<close>, \<open>HostPaths\<close>, \<open>HostTypes\<close>, \<open>HostDecisions\<close>, \<open>Fingerprint\<close>, \<open>HostAudit\<close>, \<open>HostPorts\<close>:
    \<open>ironclaw_host_api\<close> (\<open>ids.rs\<close>; \<open>path.rs\<close> and \<open>mount.rs\<close>; \<open>scope.rs\<close>, \<open>resource.rs\<close>, \<open>action.rs\<close>,
    \<open>capability.rs\<close>, \<open>runtime.rs\<close>; \<open>decision.rs\<close>; \<open>approval.rs\<close>; \<open>audit.rs\<close>; \<open>dispatch.rs\<close> with the
    ports of the capability host). Names are exactly the documented grammar, virtual paths are
    canonical, mount resolution picks the longest alias and stays under its target, obligations
    are canonical, equal fingerprints mean the same invocation.
  \<^item> \<open>Resources\<close>: the governor. Its state is a record of limits, reserved and used tallies and
    reservations; admission is exact, the reserved amounts are those of the active reservations,
    and a reservation is settled once.
  \<^item> \<open>RunState\<close>, \<open>Leases\<close>: the in-memory stores behind the traits, which are records of functions;
    the contracts of the stores are the locales \<open>run_state_contract\<close>, \<open>approval_contract\<close> and
    \<open>lease_contract\<close>, interpreted on the stores and on the kernel's state (\<open>Kernel\<close>).
  \<^item> \<open>Trust\<close>: the policy chain with its registries, staged mutations and the publication of changes.
  \<^item> \<open>Authorization\<close>: grants, ceilings and the two authorizers.
  \<^item> \<open>Approvals\<close>: the resolver.
  \<^item> \<open>CapabilityHost\<close>: the host itself, stage by stage; \<open>HostSafety\<close>: what it guarantees under the
    contract \<open>guarded_host\<close> of its services; \<open>HostWiring\<close>: the host over one kernel state, where
    the contract holds and the properties of whole histories are stated.
  \<^item> \<open>Secrets\<close>: the secret store, which answers like an abstract vault of one-shot tokens.
  \<^item> \<open>RuntimeEvents\<close>: the event vocabulary, its wire form and the redaction guard of error kinds;
    \<open>EventLog\<close>, \<open>EventReplay\<close>: the durable logs, their refinement of an abstract log (with the
    \<open>simulation\<close> locale of \<open>Traces\<close>) and the reader that resumes at cursors; \<open>TextLines\<close>, \<open>Jsonl\<close>:
    UTF-8, lines and the replay of a JSONL file.
  \<^item> \<open>Filesystem\<close>: the filesystem trait, the composite root and the scoped view, which is confined
    to its mounts; \<open>Extensions\<close>: manifests, packages, the registry (contract \<open>registry_contract\<close>) and
    discovery; \<open>GovernorPort\<close>: the governor as its callers see it (contract \<open>governor_contract\<close>);
    \<open>Dispatcher\<close>: what a dispatch does, with every event it reports.
  \<^item> \<open>ProcessStores\<close>: the process and result stores with the reserving and the reporting decorator;
    \<open>ProcessLifecycle\<close>: their contracts (\<open>process_contract\<close>, \<open>managed_processes\<close>,
    \<open>reporting_processes\<close>), interpreted on the production stack, where reservations and events
    follow the lifecycle. \<open>ProcessHost\<close>: the host interface (kill, await, subscribe) and the
    cancellation registry; \<open>ProcessSupervisor\<close>: the background manager in stages; \<open>ProcessSystem\<close>:
    tasks and kill calls as an interleaving step relation; \<open>ProcessSupervision\<close>: its invariant by
    rule induction, the agreement of statuses and results, termination and settlement, and two
    races of the code.
  \<^item> \<open>NetAddresses\<close>, \<open>Network\<close> (\<open>ironclaw_network\<close>): the address parser and the private ranges as CIDR
    blocks; the static policy, the checks of a URL, its addresses and headers, and the pinned
    transport. What leaves the host is allowed by the policy and goes to addresses that were checked.
  \<^item> \<open>LeakDetector\<close> (\<open>ironclaw_safety/src/leak_detector.rs\<close>): patterns, scan, redaction.
  \<^item> \<open>Handoffs\<close>, \<open>Obligations\<close> (\<open>ironclaw_host_runtime/src/obligations.rs\<close>): the handoff stores and
    the built-in obligation handler; \<open>HandoffSafety\<close>, \<open>HandoffHost\<close>: what it stages for an invocation
    does not outlive it, under the capability host too; \<open>OutputSafety\<close>: redaction and output limits.
  \<^item> \<open>DbFilesystem\<close> (\<open>ironclaw_filesystem\<close>, \<open>PostgresRootFilesystem\<close> and \<open>LibSqlRootFilesystem\<close>): the
    table of entries is a map from its primary key and each SQL statement a function on it; the
    database is that table with the stream of its failing calls. \<open>DbFileTree\<close>: both backends answer
    like a tree of files (\<open>tree_step\<close>), or fail and leave it unchanged; libSQL's folding LIKE is
    visible in the tree.
  \<^item> \<open>RecordFiles\<close>: what the filesystem-backed stores share, one JSON file per record, and the paths of
    owners and records; \<open>RecordStores\<close>: the contracts \<open>tree_filesystem\<close> (a filesystem that is a tree
    and may fail), \<open>record_store\<close> (a folder of records as a map) and \<open>tolerant\<close> (a store that, failures
    apart, answers like another), the first interpreted on the database backends. \<open>StateFiles\<close>,
    \<open>ProcessFiles\<close>: the stores of \<open>ironclaw_run_state\<close> and \<open>ironclaw_processes\<close> in files, interpreted
    as record stores over a database, which makes them refine the in-memory stores.

  \<^bold>\<open>Conventions.\<close> A stateful operation is a function from the state to a result and the new state;
  \<open>Inl\<close> is an error. An async function is its sequential effect: each store call is atomic (the
  stores hold a mutex), and a history is any sequence of calls by any callers. What the code draws
  from outside (clock readings, fresh ids) is an argument, one per reading. \<open>serde_json::to_vec\<close>,
  SHA-256 and the arithmetic of \<open>rust_decimal\<close> (an overflow flag) are third-party and are
  arguments. Loops are structural recursions; the canonical form of JSON recurses to a depth of
  64, as in the code, and its termination is proved by that bound. The polling loops of
  the process host recurse over the list of their waits, each a step of the environment, and are
  \<open>None\<close> while still polling; nothing else has fuel.

  \<^bold>\<open>Not modelled.\<close> The local filesystem backend (calls of the operating system), the migrations of
  the database schema, the filesystem-backed lease store, the process decorator of the obligation
  handler, the sanitizer, policy and validator of \<open>ironclaw_safety\<close>, logging, poisoned locks, serde's
  derived formats, the runtime backends, and the crates on top of the kernel (engine, LLM providers,
  memory, user interfaces). The transactions of a database backend are sequential: two operations
  that interleave their statements are not modelled. Interleavings inside one call of the
  capability host are not modelled: two concurrent resumes are separated only by the atomicity of
  the lease claim, which is what the claim theorems state. The background
  tasks and the kills of processes are modelled interleaved.
\<close>

end
